(* ===== verification/Prelude.thy ===== *)
theory Prelude
  imports Complex_Main "HOL-Library.Word" "HOL-Library.Product_Lexorder" "HOL-Library.List_Lexorder"
    "HOL-Library.Char_ord" "HOL-Library.Multiset"
begin

text \<open>
  What every component shares: the error classes of \<open>src/errors\<close>, the result type of an
  operation on a state, the JavaScript string functions the code calls, and the tables of the
  database schema as lists of rows with the queries the services make on them.

  Strings are lists of characters; \<open>toUpperCase\<close>, \<open>toLowerCase\<close> and \<open>trim\<close> are
  modelled on the ASCII range. Times are integers: milliseconds since the epoch, as
  \<open>Date.now()\<close> and \<open>getTime()\<close> give them. The clock and freshly generated ids are
  arguments of the operations that read them.
\<close>

named_theorems table_simps \<open>equations of the table queries\<close>
named_theorems js_text \<open>equations of the JavaScript string functions\<close>

type_synonym time = int
type_synonym uid = string

text \<open>
  JSON values, as the \<open>Json\<close> columns hold them. Numbers are only stored and returned.
\<close>

datatype json =
    JNull
  | JBool bool
  | JNum rat
  | JStr string
  | JArr "json list"
  | JObj "(string \<times> json) list"

definition jopt :: "string option \<Rightarrow> json" where
  "jopt x = (case x of None \<Rightarrow> JNull | Some s \<Rightarrow> JStr s)"

fun json_field :: "string \<Rightarrow> json \<Rightarrow> json option" where
  "json_field k (JObj kvs) = map_of kvs k"
| "json_field k _ = None"

subsection \<open>Errors and results\<close>

datatype error =
    NotFoundError string string
  | DomainValidationError string
  | ValidationError string
  | OAuthError string string
  | TokenError string string
  | ForbiddenError string string
  | ConflictError string string
  | EncryptionError string
  | GmailApiError string "int option"
  | RateLimitError string
  | TypeError string
  | CrossUserOwnershipError string string
  | CellBoundaryViolationError string string string
  | ExtractionRunNotFoundError string
  | ImmutabilityViolationError string string
  | InvalidSourceReferenceError string string
  | CanonicalIntelligenceNotFoundError string
  | MaterialisationOwnershipError string
  | FactNotEligibleError string string
  | SsrfError string
  | UnauthorizedError string
  | ForbiddenInternalError
  | MissingPartitionKeyError string string
  | CircuitBreakerError string
  | PrismaError string
  | ApiError string "int option"
  | GenericError string

text \<open>
  \<open>PrismaError\<close> carries the code of a known request error of the database client,
  \<open>ApiError\<close> is what another third-party client throws: a message and, if there is one, a
  numeric \<open>code\<close>. The second argument of the first four classes is their error code, that
  of \<open>GmailApiError\<close> the status Gmail answered with.
\<close>

text \<open>An operation on a state \<open>'s\<close> throws (\<open>Inl\<close>) or returns (\<open>Inr\<close>), and leaves a state.\<close>

type_synonym ('a, 's) outcome = "(error + 'a) \<times> 's"

definition throws :: "('a, 's) outcome \<Rightarrow> bool" where
  "throws r = (case fst r of Inl _ \<Rightarrow> True | Inr _ \<Rightarrow> False)"

text \<open>
  \<open>$transaction\<close>: the callback's writes are kept if it returns and undone if it throws.
\<close>

definition transaction :: "('s \<Rightarrow> ('a, 's) outcome) \<Rightarrow> 's \<Rightarrow> ('a, 's) outcome" where
  "transaction f s = (case f s of (Inl e, _) \<Rightarrow> (Inl e, s) | (Inr a, s') \<Rightarrow> (Inr a, s'))"

lemma transaction_Inl [simp]: "fst (f s) = Inl e \<Longrightarrow> transaction f s = (Inl e, s)"
  by (cases "f s") (simp add: transaction_def)

lemma transaction_Inr [simp]: "f s = (Inr a, s') \<Longrightarrow> transaction f s = (Inr a, s')"
  by (simp add: transaction_def)

lemma transaction_atomic: "throws (transaction f s) \<Longrightarrow> snd (transaction f s) = s"
  by (auto simp: throws_def transaction_def split: prod.splits sum.splits)

text \<open>One operation after another: the first that throws ends the sequence.\<close>

definition andthen :: "('a, 's) outcome \<Rightarrow> ('a \<Rightarrow> 's \<Rightarrow> ('b, 's) outcome) \<Rightarrow> ('b, 's) outcome" where
  "andthen r f = (case r of (Inl e, s) \<Rightarrow> (Inl e, s) | (Inr a, s) \<Rightarrow> f a s)"

lemma andthen_simps [simp]:
  "andthen (Inl e, s) f = (Inl e, s)"
  "andthen (Inr a, s) f = f a s"
  by (simp_all add: andthen_def)

text \<open>The operator \<open>??\<close> on nullable values.\<close>

definition or_else :: "'a option \<Rightarrow> 'a option \<Rightarrow> 'a option" where
  "or_else a b = (case a of Some x \<Rightarrow> Some x | None \<Rightarrow> b)"

definition option_or :: "'a option \<Rightarrow> 'a \<Rightarrow> 'a" where
  "option_or a d = (case a of Some x \<Rightarrow> x | None \<Rightarrow> d)"

lemma option_or_simps [simp]: "option_or (Some x) d = x" "option_or None d = d"
  by (simp_all add: option_or_def)

text \<open>A nullable string used as a condition: null and the empty string are false.\<close>

definition truthy :: "string option \<Rightarrow> string option" where
  "truthy s = (case s of Some [] \<Rightarrow> None | _ \<Rightarrow> s)"

subsection \<open>JavaScript strings\<close>

definition upper_char :: "char \<Rightarrow> char" where
  "upper_char c = (let n = (of_char c :: nat) in if 97 \<le> n \<and> n \<le> 122 then char_of (n - 32) else c)"

definition lower_char :: "char \<Rightarrow> char" where
  "lower_char c = (let n = (of_char c :: nat) in if 65 \<le> n \<and> n \<le> 90 then char_of (n + 32) else c)"

definition to_upper :: "string \<Rightarrow> string" where
  "to_upper s = map upper_char s"

definition to_lower :: "string \<Rightarrow> string" where
  "to_lower s = map lower_char s"

definition is_space :: "char \<Rightarrow> bool" where
  "is_space c = (let n = (of_char c :: nat) in n = 32 \<or> (9 \<le> n \<and> n \<le> 13))"

definition trim :: "string \<Rightarrow> string" where
  "trim s = rev (dropWhile is_space (rev (dropWhile is_space s)))"

fun starts_with :: "string \<Rightarrow> string \<Rightarrow> bool" where
  "starts_with s [] = True"
| "starts_with [] (p # ps) = False"
| "starts_with (c # cs) (p # ps) = (c = p \<and> starts_with cs ps)"

fun str_includes :: "string \<Rightarrow> string \<Rightarrow> bool" where
  "str_includes [] p = (p = [])"
| "str_includes (c # cs) p = (starts_with (c # cs) p \<or> str_includes cs p)"

text \<open>Decimal rendering of an integer in a template literal.\<close>

fun show_nat :: "nat \<Rightarrow> string" where
  "show_nat n = (if n < 10 then [char_of (48 + n)] else show_nat (n div 10) @ [char_of (48 + n mod 10)])"

declare show_nat.simps [simp del]

definition show_int :: "int \<Rightarrow> string" where
  "show_int k = (if k < 0 then CHR ''-'' # show_nat (nat (- k)) else show_nat (nat k))"

text \<open>\<open>split\<close> at a character, and the parts put together again with \<open>join\<close>.\<close>

fun split_on :: "char \<Rightarrow> string \<Rightarrow> string list" where
  "split_on d [] = [[]]"
| "split_on d (c # cs) = (if c = d then [] # split_on d cs
     else (case split_on d cs of [] \<Rightarrow> [[c]] | w # ws \<Rightarrow> (c # w) # ws))"

fun join_on :: "string \<Rightarrow> string list \<Rightarrow> string" where
  "join_on d [] = []"
| "join_on d [w] = w"
| "join_on d (w # v # ws) = w @ d @ join_on d (v # ws)"

definition is_hex :: "char \<Rightarrow> bool" where
  "is_hex c = (let n = (of_char c :: nat) in (48 \<le> n \<and> n \<le> 57) \<or> (97 \<le> n \<and> n \<le> 102) \<or> (65 \<le> n \<and> n \<le> 70))"

definition is_digit :: "char \<Rightarrow> bool" where
  "is_digit c = (let n = (of_char c :: nat) in 48 \<le> n \<and> n \<le> 57)"

definition digits_value :: "string \<Rightarrow> nat" where
  "digits_value s = foldl (\<lambda>n c. 10 * n + ((of_char c :: nat) - 48)) 0 s"

lemma split_on_not_Nil [simp]: "split_on d s \<noteq> []"
  by (induction s) (auto split: list.splits)

lemma split_on_plain [js_text]: "d \<notin> set s \<Longrightarrow> split_on d s = [s]"
  by (induction s) auto

lemma split_on_append [js_text]: "d \<notin> set s \<Longrightarrow> split_on d (s @ d # t) = s # split_on d t"
  by (induction s) auto

text \<open>Splitting undoes joining where no part has the separator.\<close>

lemma split_on_join:
  "ws \<noteq> [] \<Longrightarrow> \<forall>w\<in>set ws. d \<notin> set w \<Longrightarrow> split_on d (join_on [d] ws) = ws"
  by (induction "[d]" ws rule: join_on.induct) (auto simp: js_text)

lemma is_digit_show: "k < 10 \<Longrightarrow> is_digit (char_of (48 + k)) \<and> (of_char (char_of (48 + k) :: char) :: nat) - 48 = k" for k :: nat
  by (simp add: is_digit_def Let_def of_char_of take_bit_eq_mod)

lemma show_nat_digits: "list_all is_digit (show_nat n) \<and> show_nat n \<noteq> []"
  by (induction n rule: show_nat.induct) (subst (1 2) show_nat.simps, simp add: is_digit_show del: show_nat.simps)

lemma digits_value_snoc: "digits_value (s @ [c]) = 10 * digits_value s + ((of_char c :: nat) - 48)"
  by (simp add: digits_value_def)

lemma digits_value_show [simp]: "digits_value (show_nat n) = n"
proof (induction n rule: show_nat.induct)
  case (1 n)
  show ?case
  proof (cases "n < 10")
    case True
    then show ?thesis using is_digit_show [of n] by (simp add: show_nat.simps [of n] digits_value_def)
  next
    case False
    with 1 have "digits_value (show_nat (n div 10)) = n div 10" by simp
    then show ?thesis
      using False is_digit_show [of "n mod 10"] by (simp add: show_nat.simps [of n] digits_value_snoc)
  qed
qed

text \<open>\<open>parseInt(s, 10)\<close>: spaces, a sign, then the digits up to the first other character.\<close>

definition parse_int :: "string \<Rightarrow> int option" where
  "parse_int s =
     (let r = dropWhile is_space s;
          (sign, body) = (case r of c # t \<Rightarrow> if c = CHR ''-'' then (-1, t) else if c = CHR ''+'' then (1, t) else (1, r) | [] \<Rightarrow> (1, r));
          digits = takeWhile is_digit body
      in if digits = [] then None else Some (sign * int (digits_value digits)))"

definition hex_value :: "char \<Rightarrow> nat" where
  "hex_value c = (let n = (of_char c :: nat) in if n \<le> 57 then n - 48 else if n \<le> 70 then n - 55 else n - 87)"

lemma parse_int_show: "parse_int (show_nat n) = Some (int n)"
proof -
  have d: "list_all is_digit (show_nat n)" "show_nat n \<noteq> []" using show_nat_digits [of n] by simp_all
  then obtain c t where c: "show_nat n = c # t" "is_digit c" by (cases "show_nat n") auto
  have "\<not> is_space c" "c \<noteq> CHR ''-''" "c \<noteq> CHR ''+''"
    using c(2) by (auto simp: is_digit_def is_space_def Let_def)
  moreover have "takeWhile is_digit (show_nat n) = show_nat n" using d(1) by (simp add: takeWhile_eq_all_conv list_all_iff)
  ultimately show ?thesis using c(1) by (simp add: parse_int_def Let_def) (metis digits_value_show)
qed

lemma starts_with_append [js_text]: "starts_with (p @ s) p"
  by (induction p) auto

lemma starts_with_iff: "starts_with s p \<longleftrightarrow> (\<exists>t. s = p @ t)"
  by (induction s p rule: starts_with.induct) auto

lemma str_includes_Nil [js_text, simp]: "str_includes s []"
  by (induction s) auto

lemma str_includes_iff: "str_includes s p \<longleftrightarrow> (\<exists>a b. s = a @ p @ b)"
proof (induction s)
  case Nil
  then show ?case by auto
next
  case (Cons c cs)
  have "(\<exists>a b. c # cs = a @ p @ b) \<longleftrightarrow> (\<exists>b. c # cs = p @ b) \<or> (\<exists>a b. cs = a @ p @ b)"
    by (metis append_Cons append_Nil list.exhaust list.inject)
  with Cons show ?case by (simp add: starts_with_iff)
qed

subsection \<open>Tables\<close>

text \<open>
  A table of the schema is the list of its rows in insertion order. \<open>findUnique\<close> and
  \<open>findFirst\<close> without an order give a row that satisfies the condition, \<open>updateMany\<close>
  updates every such row and counts them, \<open>update\<close> fails with P2025 where there is none.
  Rows with equal sort keys keep their insertion order.
\<close>

definition find_row :: "('r \<Rightarrow> bool) \<Rightarrow> 'r list \<Rightarrow> 'r option" where
  "find_row P rows = List.find P rows"

definition find_many :: "('r \<Rightarrow> bool) \<Rightarrow> 'r list \<Rightarrow> 'r list" where
  "find_many P rows = filter P rows"

definition update_many :: "('r \<Rightarrow> bool) \<Rightarrow> ('r \<Rightarrow> 'r) \<Rightarrow> 'r list \<Rightarrow> 'r list" where
  "update_many P f rows = map (\<lambda>r. if P r then f r else r) rows"

definition delete_many :: "('r \<Rightarrow> bool) \<Rightarrow> 'r list \<Rightarrow> 'r list" where
  "delete_many P rows = filter (\<lambda>r. \<not> P r) rows"

definition count_rows :: "('r \<Rightarrow> bool) \<Rightarrow> 'r list \<Rightarrow> nat" where
  "count_rows P rows = length (filter P rows)"

definition first_by :: "('r \<Rightarrow> 'k::linorder) \<Rightarrow> ('r \<Rightarrow> bool) \<Rightarrow> 'r list \<Rightarrow> 'r option" where
  "first_by k P rows = (case sort_key k (filter P rows) of [] \<Rightarrow> None | r # _ \<Rightarrow> Some r)"

lemma find_row_Nil [table_simps, simp]: "find_row P [] = None"
  by (simp add: find_row_def)

lemma find_row_Cons [table_simps, simp]:
  "find_row P (r # rs) = (if P r then Some r else find_row P rs)"
  by (simp add: find_row_def)

lemma find_row_append [table_simps]:
  "find_row P (xs @ ys) = (case find_row P xs of Some r \<Rightarrow> Some r | None \<Rightarrow> find_row P ys)"
  by (induction xs) auto

lemma find_row_None_iff: "find_row P rows = None \<longleftrightarrow> (\<forall>r\<in>set rows. \<not> P r)"
  by (induction rows) auto

lemma find_row_SomeD: "find_row P rows = Some r \<Longrightarrow> r \<in> set rows \<and> P r"
  by (induction rows) (auto split: if_splits)

lemma find_row_cong_pred:
  "(\<And>r. r \<in> set rows \<Longrightarrow> P r = Q r) \<Longrightarrow> find_row P rows = find_row Q rows"
  by (induction rows) auto

lemma update_many_Nil [table_simps, simp]: "update_many P f [] = []"
  by (simp add: update_many_def)

lemma update_many_Cons [table_simps, simp]:
  "update_many P f (r # rs) = (if P r then f r else r) # update_many P f rs"
  by (simp add: update_many_def)

lemma update_many_append [table_simps, simp]:
  "update_many P f (xs @ ys) = update_many P f xs @ update_many P f ys"
  by (simp add: update_many_def)

lemma length_update_many [table_simps, simp]: "length (update_many P f rows) = length rows"
  by (simp add: update_many_def)

lemma set_update_many: "set (update_many P f rows) = (\<lambda>r. if P r then f r else r) ` set rows"
  by (simp add: update_many_def)

lemma update_many_none [table_simps]:
  "(\<And>r. r \<in> set rows \<Longrightarrow> \<not> P r) \<Longrightarrow> update_many P f rows = rows"
  by (induction rows) auto

lemma map_update_many_key [table_simps]:
  "(\<And>r. g (f r) = g r) \<Longrightarrow> map g (update_many P f rows) = map g rows"
  by (induction rows) auto

lemma find_row_update_many_same:
  assumes "\<And>r. Q (f r) = Q r"
  shows "find_row Q (update_many P f rows) =
    map_option (\<lambda>r. if P r then f r else r) (find_row Q rows)"
  by (induction rows) (auto simp: assms)

lemma ex_update_many:
  "(\<And>r. Q (f r) = Q r) \<Longrightarrow> (\<exists>r\<in>set (update_many P f rows). Q r) = (\<exists>r\<in>set rows. Q r)"
  by (induction rows) auto

lemma count_rows_Nil [table_simps, simp]: "count_rows P [] = 0"
  by (simp add: count_rows_def)

lemma count_rows_Cons [table_simps, simp]:
  "count_rows P (r # rs) = (if P r then Suc (count_rows P rs) else count_rows P rs)"
  by (simp add: count_rows_def)

lemma count_rows_append [table_simps, simp]:
  "count_rows P (xs @ ys) = count_rows P xs + count_rows P ys"
  by (simp add: count_rows_def)

lemma count_rows_0_iff: "count_rows P rows = 0 \<longleftrightarrow> (\<forall>r\<in>set rows. \<not> P r)"
  by (induction rows) auto

lemma set_delete_many [table_simps, simp]: "set (delete_many P rows) = {r \<in> set rows. \<not> P r}"
  by (auto simp: delete_many_def)

lemma distinct_delete_many: "distinct (map k rows) \<Longrightarrow> distinct (map k (delete_many P rows))"
  by (simp add: delete_many_def distinct_map_filter)

lemma find_row_delete_many:
  "find_row Q rows = Some r \<Longrightarrow> \<not> P r \<Longrightarrow> find_row Q (delete_many P rows) = Some r"
  by (induction rows) (auto simp: delete_many_def split: if_splits)

text \<open>A row found through a unique key is the only row with that key.\<close>

lemma distinct_key_unique:
  "distinct (map k rows) \<Longrightarrow> r \<in> set rows \<Longrightarrow> r' \<in> set rows \<Longrightarrow> k r = k r' \<Longrightarrow> r = r'"
  by (metis distinct_map inj_onD)

lemma find_row_unique:
  assumes "distinct (map k rows)" and "r \<in> set rows"
  shows "find_row (\<lambda>x. k x = k r) rows = Some r"
proof (cases "find_row (\<lambda>x. k x = k r) rows")
  case None
  then show ?thesis using assms(2) by (auto simp: find_row_None_iff)
next
  case (Some x)
  then show ?thesis using find_row_SomeD [OF Some] distinct_key_unique [OF assms(1)] assms(2) by auto
qed

lemma sort_key_ConsD: "sort_key k xs = r # rs \<Longrightarrow> set xs = insert r (set rs)"
  by (metis list.simps(15) set_sort)

lemma first_by_SomeD: "first_by k P rows = Some r \<Longrightarrow> r \<in> set rows \<and> P r"
  by (auto simp: first_by_def split: list.splits dest!: sort_key_ConsD)

lemma first_by_None_iff: "first_by k P rows = None \<longleftrightarrow> (\<forall>r\<in>set rows. \<not> P r)"
proof -
  have "first_by k P rows = None \<longleftrightarrow> sort_key k (filter P rows) = []"
    by (auto simp: first_by_def split: list.splits)
  also have "\<dots> \<longleftrightarrow> filter P rows = []"
    by (metis length_0_conv length_sort)
  finally show ?thesis by (auto simp: filter_empty_conv)
qed

lemma first_by_least:
  assumes "first_by k P rows = Some r" and "r' \<in> set rows" and "P r'"
  shows "k r \<le> k r'"
proof -
  obtain rs where s: "sort_key k (filter P rows) = r # rs"
    using assms(1) by (auto simp: first_by_def split: list.splits)
  have "sorted (map k (r # rs))"
    using s by (metis sorted_sort_key)
  moreover have "r' \<in> set (r # rs)"
    using sort_key_ConsD [OF s] assms(2,3) by auto
  ultimately show ?thesis by auto
qed

text \<open>Appending a row whose key is not below the others puts it last in the sorted result.\<close>

lemma sort_key_insert_at:
  assumes s: "sort_key k xs = T @ D"
    and lo: "\<forall>y\<in>set T. k y \<le> k x" and hi: "\<forall>y\<in>set D. k x < k y"
  shows "sort_key k (xs @ [x]) = T @ x # D"
proof (rule properties_for_sort_key)
  have "mset T + mset D = mset xs"
    by (metis s mset_append mset_sort)
  then show "mset (T @ x # D) = mset (xs @ [x])" by simp
  have "sorted (map k (T @ D))" by (metis s sorted_sort_key)
  then show "sorted (map k (T @ x # D))"
    using lo hi by (auto simp: sorted_append less_imp_le)
  fix z
  have stable: "filter (\<lambda>y. k z = k y) xs = filter (\<lambda>y. k z = k y) T @ filter (\<lambda>y. k z = k y) D"
    using sort_key_stable [of k "k z" xs] by (simp add: s eq_commute)
  have "filter (\<lambda>y. k x = k y) D = []"
    using hi by (auto intro!: filter_False)
  then show "filter (\<lambda>y. k z = k y) (T @ x # D) = filter (\<lambda>y. k z = k y) (xs @ [x])"
    using stable by (cases "k z = k x") simp_all
qed

lemma sort_key_insert:
  "sort_key k (xs @ [x]) =
     takeWhile (\<lambda>y. k y \<le> k x) (sort_key k xs) @ x # dropWhile (\<lambda>y. k y \<le> k x) (sort_key k xs)"
proof (rule sort_key_insert_at)
  let ?s = "sort_key k xs" and ?le = "\<lambda>y. k y \<le> k x"
  show s: "?s = takeWhile ?le ?s @ dropWhile ?le ?s" by simp
  show "\<forall>y\<in>set (takeWhile ?le ?s). k y \<le> k x" by (auto dest: set_takeWhileD)
  show "\<forall>y\<in>set (dropWhile ?le ?s). k x < k y"
  proof (cases "dropWhile ?le ?s")
    case (Cons z zs)
    then have "k x < k z" using hd_dropWhile [of ?le ?s] by (metis list.distinct(1) list.sel(1) not_le)
    moreover have "sorted (map k (takeWhile ?le ?s @ z # zs))" by (metis s Cons sorted_sort_key)
    ultimately show ?thesis by (auto simp: Cons sorted_append)
  next
    case Nil
    show ?thesis unfolding Nil by simp
  qed
qed

lemma sort_key_snoc:
  assumes "\<And>y. y \<in> set xs \<Longrightarrow> k y \<le> k x"
  shows "sort_key k (xs @ [x]) = sort_key k xs @ [x]"
proof -
  have "takeWhile (\<lambda>y. k y \<le> k x) (sort_key k xs) = sort_key k xs"
    using assms by (simp add: takeWhile_eq_all_conv)
  moreover have "dropWhile (\<lambda>y. k y \<le> k x) (sort_key k xs) = []"
    using assms by (simp add: dropWhile_eq_Nil_conv)
  ultimately show ?thesis by (simp add: sort_key_insert)
qed

end
