(* ===== verification/Application_Status.thy ===== *)
theory Application_Status
  imports Prelude
begin

text \<open>
  The status of a job application and the two vocabularies tied to it: the statuses of
  \<open>src/src/domain/application-status.ts\<close>, the categories the email classifier assigns
  (\<open>job-intelligence.types.ts\<close>), and the timeline event types, with the mappings between
  them that the status engine and the timeline service use.
\<close>

subsection \<open>Statuses\<close>

datatype app_status =
    SAVED | APPLIED | SCREENING | ASSESSMENT | INTERVIEW | OFFER | REJECTED | WITHDRAWN

fun show_status :: "app_status \<Rightarrow> string" where
  "show_status SAVED = ''SAVED''"
| "show_status APPLIED = ''APPLIED''"
| "show_status SCREENING = ''SCREENING''"
| "show_status ASSESSMENT = ''ASSESSMENT''"
| "show_status INTERVIEW = ''INTERVIEW''"
| "show_status OFFER = ''OFFER''"
| "show_status REJECTED = ''REJECTED''"
| "show_status WITHDRAWN = ''WITHDRAWN''"

definition APPLICATION_STATUSES :: "app_status list" where
  "APPLICATION_STATUSES =
     [SAVED, APPLIED, SCREENING, ASSESSMENT, INTERVIEW, OFFER, REJECTED, WITHDRAWN]"

definition is_application_status :: "string \<Rightarrow> bool" where
  "is_application_status v = (v \<in> set (map show_status APPLICATION_STATUSES))"

definition normalize_application_status :: "string \<Rightarrow> app_status option" where
  "normalize_application_status v =
     List.find (\<lambda>s. show_status s = to_upper (trim v)) APPLICATION_STATUSES"

lemma all_statuses: "s \<in> set APPLICATION_STATUSES"
  by (cases s) (simp_all add: APPLICATION_STATUSES_def)

lemma show_status_inject [simp]: "show_status s = show_status t \<longleftrightarrow> s = t"
  by (cases s; cases t) simp_all

lemma normalize_Some_iff:
  "normalize_application_status v = Some s \<longleftrightarrow> show_status s = to_upper (trim v)"
proof
  assume "normalize_application_status v = Some s"
  then show "show_status s = to_upper (trim v)"
    by (auto simp: normalize_application_status_def find_Some_iff)
next
  assume s: "show_status s = to_upper (trim v)"
  then show "normalize_application_status v = Some s"
    unfolding normalize_application_status_def s [symmetric]
    by (cases s) (simp_all add: APPLICATION_STATUSES_def)
qed

lemma normalize_None_iff:
  "normalize_application_status v = None \<longleftrightarrow> \<not> is_application_status (to_upper (trim v))"
proof -
  have "normalize_application_status v = None \<longleftrightarrow> (\<forall>s. show_status s \<noteq> to_upper (trim v))"
    using normalize_Some_iff [of v] by (metis not_None_eq)
  also have "\<dots> \<longleftrightarrow> to_upper (trim v) \<notin> show_status ` set APPLICATION_STATUSES"
    using all_statuses by (metis imageE imageI)
  finally show ?thesis by (simp add: is_application_status_def)
qed

lemma to_upper_trim_show [simp]: "to_upper (trim (show_status s)) = show_status s"
  by (cases s) (simp_all add: to_upper_def trim_def is_space_def upper_char_def char_of_def)

lemma normalize_show [simp]: "normalize_application_status (show_status s) = Some s"
  by (simp add: normalize_Some_iff)

text \<open>Statuses stay in the form \<open>show_status s\<close>, which \<open>normalize_show\<close> rewrites.\<close>

declare show_status.simps [simp del]

subsection \<open>Email categories and timeline event types\<close>

datatype job_email_category =
    JOB_APPLICATION | INTERVIEW_INVITATION | REJECTION_EMAIL | OFFER_EMAIL | RECRUITER_OUTREACH
  | ASSESSMENT_TEST | NETWORKING | CAREER_NEWSLETTER | NOT_JOB_RELATED

fun show_category :: "job_email_category \<Rightarrow> string" where
  "show_category JOB_APPLICATION = ''Job Application''"
| "show_category INTERVIEW_INVITATION = ''Interview Invitation''"
| "show_category REJECTION_EMAIL = ''Rejection''"
| "show_category OFFER_EMAIL = ''Offer''"
| "show_category RECRUITER_OUTREACH = ''Recruiter Outreach''"
| "show_category ASSESSMENT_TEST = ''Assessment/Test''"
| "show_category NETWORKING = ''Networking''"
| "show_category CAREER_NEWSLETTER = ''Career Newsletter''"
| "show_category NOT_JOB_RELATED = ''Not Job Related''"

record job_email_classification =
  cl_email_id :: uid
  cl_category :: job_email_category
  cl_confidence :: rat
  cl_detected_company :: "string option"
  cl_detected_role :: "string option"

record classifiable_email =
  em_email_id :: uid
  em_sender :: string
  em_subject :: string
  em_body_text :: "string option"
  em_body_html :: "string option"
  em_received_at :: "time option"
  em_thread_id :: "string option"

datatype timeline_event_type =
    EV_APPLICATION_SUBMITTED | EV_APPLICATION_CONFIRMED | EV_RECRUITER_CONTACT | EV_ASSESSMENT
  | EV_ASSESSMENT_COMPLETED | EV_PHONE_SCREEN | EV_INTERVIEW | EV_FINAL_INTERVIEW | EV_OFFER
  | EV_REJECTION | EV_WITHDRAWN

fun show_event_type :: "timeline_event_type \<Rightarrow> string" where
  "show_event_type EV_APPLICATION_SUBMITTED = ''APPLICATION_SUBMITTED''"
| "show_event_type EV_APPLICATION_CONFIRMED = ''APPLICATION_CONFIRMED''"
| "show_event_type EV_RECRUITER_CONTACT = ''RECRUITER_CONTACT''"
| "show_event_type EV_ASSESSMENT = ''ASSESSMENT''"
| "show_event_type EV_ASSESSMENT_COMPLETED = ''ASSESSMENT_COMPLETED''"
| "show_event_type EV_PHONE_SCREEN = ''PHONE_SCREEN''"
| "show_event_type EV_INTERVIEW = ''INTERVIEW''"
| "show_event_type EV_FINAL_INTERVIEW = ''FINAL_INTERVIEW''"
| "show_event_type EV_OFFER = ''OFFER''"
| "show_event_type EV_REJECTION = ''REJECTION''"
| "show_event_type EV_WITHDRAWN = ''WITHDRAWN''"

subsection \<open>The rank of a status\<close>

definition is_terminal_status :: "app_status \<Rightarrow> bool" where
  "is_terminal_status s = (s = REJECTED \<or> s = WITHDRAWN)"

fun status_rank :: "app_status \<Rightarrow> nat" where
  "status_rank SAVED = 0"
| "status_rank APPLIED = 1"
| "status_rank SCREENING = 2"
| "status_rank ASSESSMENT = 3"
| "status_rank INTERVIEW = 4"
| "status_rank OFFER = 5"
| "status_rank REJECTED = 6"
| "status_rank WITHDRAWN = 6"

lemma terminal_rank: "is_terminal_status s \<longleftrightarrow> status_rank s = 6"
  by (cases s) (simp_all add: is_terminal_status_def)

lemma rank_le_6: "status_rank s \<le> 6"
  by (cases s) simp_all

lemma show_event_type_inject [simp]: "show_event_type s = show_event_type t \<longleftrightarrow> s = t"
  by (cases s; cases t) simp_all

text \<open>\<open>isManualSource\<close> of the status engine: the source column is a string.\<close>

definition is_manual_source :: "string \<Rightarrow> bool" where
  "is_manual_source src = (src = ''MANUAL'')"

text \<open>\<open>mapStatusToStage\<close>: an unknown status is its own stage.\<close>

definition map_status_to_stage :: "string \<Rightarrow> string" where
  "map_status_to_stage v = (case normalize_application_status v of
     Some SAVED \<Rightarrow> ''Saved''
   | Some APPLIED \<Rightarrow> ''Applied''
   | Some SCREENING \<Rightarrow> ''Screening''
   | Some ASSESSMENT \<Rightarrow> ''Assessment''
   | Some INTERVIEW \<Rightarrow> ''Interview''
   | Some OFFER \<Rightarrow> ''Offer''
   | Some REJECTED \<Rightarrow> ''Rejected''
   | Some WITHDRAWN \<Rightarrow> ''Withdrawn''
   | None \<Rightarrow> v)"

text \<open>\<open>resolveStatusFromEmail\<close> of the status engine: every category of the enum has a status.\<close>

fun resolve_status_from_email :: "job_email_category \<Rightarrow> app_status option" where
  "resolve_status_from_email JOB_APPLICATION = Some APPLIED"
| "resolve_status_from_email RECRUITER_OUTREACH = Some SAVED"
| "resolve_status_from_email NETWORKING = Some SAVED"
| "resolve_status_from_email CAREER_NEWSLETTER = Some SAVED"
| "resolve_status_from_email NOT_JOB_RELATED = Some SAVED"
| "resolve_status_from_email ASSESSMENT_TEST = Some ASSESSMENT"
| "resolve_status_from_email INTERVIEW_INVITATION = Some INTERVIEW"
| "resolve_status_from_email OFFER_EMAIL = Some OFFER"
| "resolve_status_from_email REJECTION_EMAIL = Some REJECTED"

text \<open>\<open>mapStatusToEventType\<close> of the timeline service: a saved application has no event.\<close>

definition map_status_to_event_type :: "string \<Rightarrow> timeline_event_type option" where
  "map_status_to_event_type v = (case normalize_application_status v of
     Some APPLIED \<Rightarrow> Some EV_APPLICATION_CONFIRMED
   | Some SCREENING \<Rightarrow> Some EV_RECRUITER_CONTACT
   | Some ASSESSMENT \<Rightarrow> Some EV_ASSESSMENT
   | Some INTERVIEW \<Rightarrow> Some EV_INTERVIEW
   | Some OFFER \<Rightarrow> Some EV_OFFER
   | Some REJECTED \<Rightarrow> Some EV_REJECTION
   | Some WITHDRAWN \<Rightarrow> Some EV_WITHDRAWN
   | _ \<Rightarrow> None)"

lemma resolve_status_total: "\<exists>s. resolve_status_from_email c = Some s"
  by (cases c) simp_all

lemma event_type_None_iff:
  "map_status_to_event_type (show_status s) = None \<longleftrightarrow> s = SAVED"
  by (simp add: map_status_to_event_type_def split: app_status.split)

lemma stage_inject:
  "map_status_to_stage (show_status s) = map_status_to_stage (show_status t) \<longleftrightarrow> s = t"
  by (cases s; cases t) (simp_all add: map_status_to_stage_def)

end
