(* ===== verification/Applications.thy ===== *)
theory Applications
  imports Application_Status
begin

text \<open>
  The rows of the application tables (\<open>src/prisma/schema/models/application.prisma\<close>) that
  the status engine, the timeline service, the merge service and the application command
  service read and write, and the ownership filter of \<open>src/src/utils/user-ownership.ts\<close>.
  The status columns hold the strings the code puts there; a \<open>metadata\<close> column that a write
  leaves out takes the default of the schema, the empty object.
\<close>

record job_application =
  ja_id :: uid
  ja_user_id :: uid
  ja_legacy_user_id :: "string option"
  ja_company_id :: "uid option"
  ja_opportunity_id :: "uid option"
  ja_snapshot_id :: "uid option"
  ja_company_name :: "string option"
  ja_company_domain :: "string option"
  ja_role_title :: "string option"
  ja_status :: string
  ja_source_provider :: string
  ja_applied_date :: "time option"
  ja_last_activity_at :: time
  ja_recruiter_id :: "uid option"
  ja_recruiter_name :: "string option"
  ja_recruiter_email :: "string option"
  ja_current_stage :: "string option"
  ja_thread_ids :: "string list"
  ja_ats_application_id :: "string option"
  ja_candidate_email :: "string option"
  ja_role_department :: "string option"
  ja_source_email_id :: "uid option"
  ja_location :: "string option"
  ja_employment_type :: "string option"
  ja_interview_rounds :: nat
  ja_deadlines :: "string list"
  ja_updated_at :: time

record status_history =
  sh_id :: uid
  sh_application_id :: uid
  sh_previous_status :: "string option"
  sh_status :: string
  sh_source :: string
  sh_source_email_id :: "uid option"
  sh_changed_by_user_id :: "uid option"
  sh_timestamp :: time
  sh_metadata :: json
  sh_created_at :: time

record timeline_event =
  te_id :: uid
  te_application_id :: uid
  te_event_type :: timeline_event_type
  te_timestamp :: time
  te_occurred_at :: time
  te_source_email_id :: "uid option"
  te_metadata :: json
  te_description :: "string option"
  te_created_at :: time

record app_db =
  db_applications :: "job_application list"
  db_history :: "status_history list"
  db_timeline :: "timeline_event list"

definition json_column :: "json option \<Rightarrow> json" where
  "json_column m = option_or m (JObj [])"

text \<open>
  \<open>userOwnershipFilter\<close>: both branches of its condition add the same clause, so a row
  matches by its user id or by its legacy user id.
\<close>

definition user_ownership_filter :: "uid \<Rightarrow> uid option \<Rightarrow> (uid \<times> string option \<Rightarrow> bool)" where
  "user_ownership_filter external resolved = (\<lambda>(uid, legacy).
     uid = option_or resolved external \<or> legacy = Some external)"

definition owned_application :: "uid \<Rightarrow> job_application \<Rightarrow> bool" where
  "owned_application user a = user_ownership_filter user None (ja_user_id a, ja_legacy_user_id a)"

text \<open>Ids are primary keys: distinct in every table.\<close>

definition app_db_wf :: "app_db \<Rightarrow> bool" where
  "app_db_wf db \<longleftrightarrow> distinct (map ja_id (db_applications db))
     \<and> distinct (map sh_id (db_history db)) \<and> distinct (map te_id (db_timeline db))"

end
