(* ===== verification/Pagination.thy ===== *)
theory Pagination
  imports Prelude
begin

text \<open>
  \<open>src/src/domain/pagination.ts\<close>: the window a list query is restricted to. A number the
  caller sends may be fractional or not finite, so it is a rational, \<open>NaN\<close> or an infinity.
  The arithmetic on it is exact here; in the code it is exact while the skipped offset stays
  below \<open>2^53\<close>.
\<close>

datatype js_number = JsNum rat | JsNotFinite

record pagination_input =
  pi_page :: "js_number option"
  pi_page_size :: "js_number option"
  pi_limit :: "js_number option"
  pi_offset :: "js_number option"

record pagination_window =
  pw_page :: int
  pw_page_size :: int
  pw_skip :: int
  pw_take :: int

definition DEFAULT_PAGE_SIZE :: int where
  "DEFAULT_PAGE_SIZE = 25"

definition MAX_PAGE_SIZE :: int where
  "MAX_PAGE_SIZE = 100"

definition MAX_SAFE_INTEGER :: int where
  "MAX_SAFE_INTEGER = 9007199254740991"

fun clamp_positive_integer :: "js_number option \<Rightarrow> int \<Rightarrow> int option" where
  "clamp_positive_integer None m = None"
| "clamp_positive_integer (Some JsNotFinite) m = None"
| "clamp_positive_integer (Some (JsNum v)) m =
     (let integer = \<lfloor>v\<rfloor> in if integer \<le> 0 then None else Some (min integer m))"

fun clamp_non_negative_integer :: "js_number option \<Rightarrow> int option" where
  "clamp_non_negative_integer None = None"
| "clamp_non_negative_integer (Some JsNotFinite) = None"
| "clamp_non_negative_integer (Some (JsNum v)) =
     (let integer = \<lfloor>v\<rfloor> in if integer < 0 then None else Some integer)"

definition resolve_pagination :: "pagination_input option \<Rightarrow> pagination_window option" where
  "resolve_pagination input = (case input of
     None \<Rightarrow> None
   | Some i \<Rightarrow>
       if pi_page i = None \<and> pi_page_size i = None \<and> pi_limit i = None \<and> pi_offset i = None
       then None
       else
         let pageSizeCandidate = or_else (pi_page_size i) (pi_limit i);
             pageSize = clamp_positive_integer pageSizeCandidate MAX_PAGE_SIZE;
             page = clamp_positive_integer (pi_page i) MAX_SAFE_INTEGER;
             offset = clamp_non_negative_integer (pi_offset i);
             effectivePageSize = option_or pageSize DEFAULT_PAGE_SIZE;
             effectiveOffset = option_or offset ((option_or page 1 - 1) * effectivePageSize)
         in Some \<lparr>pw_page = option_or page (effectiveOffset div effectivePageSize + 1),
                  pw_page_size = effectivePageSize,
                  pw_skip = effectiveOffset,
                  pw_take = effectivePageSize\<rparr>)"

text \<open>What a query does with the window: \<open>skip\<close> and \<open>take\<close> of the ordered rows.\<close>

definition paged :: "pagination_window option \<Rightarrow> 'r list \<Rightarrow> 'r list" where
  "paged w rows = (case w of None \<Rightarrow> rows
     | Some p \<Rightarrow> take (nat (pw_take p)) (drop (nat (pw_skip p)) rows))"

lemma clamp_positive_bounds:
  "clamp_positive_integer v m = Some n \<Longrightarrow> 0 < m \<Longrightarrow> 1 \<le> n \<and> n \<le> m"
  by (induction v m rule: clamp_positive_integer.induct) (auto simp: Let_def split: if_splits)

lemma clamp_non_negative_bounds: "clamp_non_negative_integer v = Some n \<Longrightarrow> 0 \<le> n"
  by (induction v rule: clamp_non_negative_integer.induct) (auto simp: Let_def split: if_splits)

lemma page_size_bounds:
  "1 \<le> option_or (clamp_positive_integer v MAX_PAGE_SIZE) DEFAULT_PAGE_SIZE
   \<and> option_or (clamp_positive_integer v MAX_PAGE_SIZE) DEFAULT_PAGE_SIZE \<le> MAX_PAGE_SIZE"
  using clamp_positive_bounds [of v MAX_PAGE_SIZE]
  by (cases "clamp_positive_integer v MAX_PAGE_SIZE")
    (auto simp: MAX_PAGE_SIZE_def DEFAULT_PAGE_SIZE_def)

lemma page_bounds: "1 \<le> option_or (clamp_positive_integer v MAX_SAFE_INTEGER) 1"
  using clamp_positive_bounds [of v MAX_SAFE_INTEGER]
  by (cases "clamp_positive_integer v MAX_SAFE_INTEGER") (auto simp: MAX_SAFE_INTEGER_def)

text \<open>
  C40: whatever numbers the caller sends, a resolved window takes between 1 and 100 rows,
  skips a non-negative number of them and has a positive page number.
\<close>

theorem resolve_pagination_bounds:
  assumes "resolve_pagination input = Some w"
  shows "1 \<le> pw_take w \<and> pw_take w \<le> 100 \<and> 0 \<le> pw_skip w \<and> 1 \<le> pw_page w
    \<and> pw_page_size w = pw_take w"
proof -
  obtain i where i: "input = Some i"
    using assms by (cases input) (auto simp: resolve_pagination_def)
  let ?size = "option_or (clamp_positive_integer (or_else (pi_page_size i) (pi_limit i))
    MAX_PAGE_SIZE) DEFAULT_PAGE_SIZE"
  let ?page = "clamp_positive_integer (pi_page i) MAX_SAFE_INTEGER"
  let ?off = "option_or (clamp_non_negative_integer (pi_offset i)) ((option_or ?page 1 - 1) * ?size)"
  have w: "w = \<lparr>pw_page = option_or ?page (?off div ?size + 1), pw_page_size = ?size,
      pw_skip = ?off, pw_take = ?size\<rparr>"
    using assms by (auto simp: i resolve_pagination_def Let_def split: if_splits)
  have size: "1 \<le> ?size" "?size \<le> MAX_PAGE_SIZE"
    using page_size_bounds by auto
  have off: "0 \<le> ?off"
    using clamp_non_negative_bounds [of "pi_offset i"] page_bounds [of "pi_page i"] size(1)
    by (cases "clamp_non_negative_integer (pi_offset i)") auto
  have "0 \<le> ?off div ?size"
    using off size(1) by (simp add: pos_imp_zdiv_nonneg_iff)
  moreover have "?page = Some p \<Longrightarrow> 1 \<le> p" for p
    using page_bounds [of "pi_page i"] by simp
  ultimately have "1 \<le> pw_page w"
    unfolding w by (cases ?page) auto
  with w size off show ?thesis by (simp add: MAX_PAGE_SIZE_def)
qed

theorem resolve_pagination_bounds_witness:
  "resolve_pagination (Some \<lparr>pi_page = Some (JsNum 3), pi_page_size = Some (JsNum 1000),
     pi_limit = None, pi_offset = None\<rparr>)
   = Some \<lparr>pw_page = 3, pw_page_size = 100, pw_skip = 200, pw_take = 100\<rparr>
   \<and> (1::int) \<le> 100 \<and> (100::int) \<le> 100"
proof -
  have e: "resolve_pagination (Some \<lparr>pi_page = Some (JsNum 3), pi_page_size = Some (JsNum 1000),
     pi_limit = None, pi_offset = None\<rparr>)
   = Some \<lparr>pw_page = 3, pw_page_size = 100, pw_skip = 200, pw_take = 100\<rparr>"
    by (simp add: resolve_pagination_def or_else_def MAX_PAGE_SIZE_def MAX_SAFE_INTEGER_def)
  show ?thesis using e resolve_pagination_bounds [OF e] by simp
qed

definition page_input :: "nat \<Rightarrow> nat \<Rightarrow> pagination_input" where
  "page_input sz p = \<lparr>pi_page = Some (JsNum (of_nat p)), pi_page_size = Some (JsNum (of_nat sz)),
     pi_limit = None, pi_offset = None\<rparr>"

lemma page_window:
  assumes "1 \<le> sz" and "sz \<le> 100" and "int p < MAX_SAFE_INTEGER"
  shows "resolve_pagination (Some (page_input sz (Suc p))) =
    Some \<lparr>pw_page = int (Suc p), pw_page_size = int sz, pw_skip = int (p * sz),
      pw_take = int sz\<rparr>"
proof -
  have "clamp_positive_integer (Some (JsNum (of_nat sz))) MAX_PAGE_SIZE = Some (int sz)"
    using assms by (simp add: MAX_PAGE_SIZE_def)
  moreover have "clamp_positive_integer (Some (JsNum (of_nat (Suc p)))) MAX_SAFE_INTEGER
      = Some (int (Suc p))"
    using assms(3) floor_of_nat [of "Suc p", where 'a = rat] by (simp add: Let_def del: of_nat_Suc)
  ultimately show ?thesis
    by (simp add: resolve_pagination_def page_input_def or_else_def Let_def del: of_nat_Suc
        clamp_positive_integer.simps)
qed

lemma take_mult_Suc: "take (n * m) xs @ take m (drop (n * m) xs) = take (Suc n * m) xs"
  by (metis add.commute mult_Suc take_add)

text \<open>
  A caller that walks the pages 1, 2, 3, ... with one page size reads every row of the
  ordered result exactly once: the first \<open>n\<close> windows laid side by side are the first
  \<open>n * sz\<close> rows.
\<close>

lemma pages_tile:
  assumes "1 \<le> sz" and "sz \<le> 100" and "int n \<le> MAX_SAFE_INTEGER"
  shows "concat (map (\<lambda>p. paged (resolve_pagination (Some (page_input sz p))) rows) [1..<Suc n])
    = take (n * sz) rows"
  using assms(3)
proof (induction n)
  case 0
  then show ?case by simp
next
  case (Suc n)
  have "paged (resolve_pagination (Some (page_input sz (Suc n)))) rows
      = take sz (drop (n * sz) rows)"
    using page_window [OF assms(1,2), of n] Suc.prems
    by (simp add: paged_def nat_mult_distrib)
  with Suc show ?case
    by (simp add: take_mult_Suc [symmetric] del: mult_Suc)
qed

lemma pages_tile_witness:
  "concat (map (\<lambda>p. paged (resolve_pagination (Some (page_input 2 p))) [10, 20, 30, 40, 50 :: int])
     [1..<Suc 3]) = [10, 20, 30, 40, 50]"
  by (subst pages_tile) (simp_all add: MAX_SAFE_INTEGER_def)

end
