(* ===== verification/Status_Engine.thy ===== *)
theory Status_Engine
  imports Applications Pagination
begin

text \<open>
  \<open>StatusEngine\<close> of \<open>src/src/services/status-engine/status-engine.service.ts\<close> with
  \<open>buildStatusTimelineEvent\<close> of the timeline service it calls. Every change appends a row
  to the status history; the status of the application is then recomputed by folding
  \<open>applyTransition\<close> over the ordered history, starting from its current status.
\<close>

datatype status_source = EMAIL | MANUAL

fun show_source :: "status_source \<Rightarrow> string" where
  "show_source EMAIL = ''EMAIL''"
| "show_source MANUAL = ''MANUAL''"

record status_change_input =
  sc_application_id :: uid
  sc_status :: string
  sc_timestamp :: "time option"
  sc_source :: status_source
  sc_source_email_id :: "uid option"
  sc_changed_by_user_id :: "uid option"
  sc_user_id :: "uid option"
  sc_metadata :: "json option"

record status_history_record =
  hr_id :: uid
  hr_application_id :: uid
  hr_previous_status :: "app_status option"
  hr_status :: app_status
  hr_source :: string
  hr_source_email_id :: "uid option"
  hr_changed_by_user_id :: "uid option"
  hr_timestamp :: time
  hr_metadata :: json
  hr_created_at :: time
  hr_updated_at :: time

record status_change_result =
  sr_id :: uid
  sr_status :: string
  sr_current_stage :: "string option"
  sr_updated_at :: time
  sr_history_entry :: status_history_record
  sr_timeline_event :: "timeline_event option"

subsection \<open>Transitions\<close>

definition apply_transition :: "app_status \<Rightarrow> string \<Rightarrow> string \<Rightarrow> app_status" where
  "apply_transition current nextStatusRaw source =
     (case normalize_application_status nextStatusRaw of
        None \<Rightarrow> current
      | Some nxt \<Rightarrow>
          if is_manual_source source then nxt
          else if current = nxt then current
          else if is_terminal_status current \<and> \<not> is_terminal_status nxt then current
          else if is_terminal_status nxt then nxt
          else if status_rank current \<le> status_rank nxt then nxt
          else current)"

definition replay_history :: "app_status \<Rightarrow> status_history list \<Rightarrow> app_status" where
  "replay_history start entries =
     foldl (\<lambda>s e. apply_transition s (sh_status e) (sh_source e)) start entries"

text \<open>\<open>findMany\<close> ordered by timestamp, creation time and id, for one application.\<close>

definition ordered_history :: "uid \<Rightarrow> status_history list \<Rightarrow> status_history list" where
  "ordered_history app rows =
     sort_key (\<lambda>e. (sh_timestamp e, sh_created_at e, sh_id e))
       (find_many (\<lambda>e. sh_application_id e = app) rows)"

definition map_history :: "status_history \<Rightarrow> status_history_record" where
  "map_history e = \<lparr>
     hr_id = sh_id e, hr_application_id = sh_application_id e,
     hr_previous_status = (case sh_previous_status e of
        None \<Rightarrow> None
      | Some p \<Rightarrow> if p = [] then None else normalize_application_status p),
     hr_status = option_or (normalize_application_status (sh_status e)) SAVED,
     hr_source = sh_source e, hr_source_email_id = sh_source_email_id e,
     hr_changed_by_user_id = sh_changed_by_user_id e, hr_timestamp = sh_timestamp e,
     hr_metadata = sh_metadata e, hr_created_at = sh_created_at e, hr_updated_at = sh_created_at e\<rparr>"

subsection \<open>The timeline event of a status\<close>

record timeline_input =
  ti_application_id :: uid
  ti_event_type :: timeline_event_type
  ti_timestamp :: time
  ti_source_email_id :: "uid option"
  ti_metadata :: "json option"
  ti_description :: "string option"

definition build_status_timeline_event ::
  "time \<Rightarrow> uid \<Rightarrow> string \<Rightarrow> time option \<Rightarrow> (string \<times> json) list \<Rightarrow> timeline_input option" where
  "build_status_timeline_event now app status ts metadata =
     (case map_status_to_event_type status of
        None \<Rightarrow> None
      | Some ev \<Rightarrow> Some \<lparr>
          ti_application_id = app, ti_event_type = ev, ti_timestamp = option_or ts now,
          ti_source_email_id = None,
          ti_metadata = Some (JObj (metadata @ [(''newStatus'', JStr status)])),
          ti_description = Some (''Application status updated to '' @ status)\<rparr>)"

definition timeline_row :: "time \<Rightarrow> uid \<Rightarrow> timeline_input \<Rightarrow> timeline_event" where
  "timeline_row now new_id i = \<lparr>te_id = new_id, te_application_id = ti_application_id i,
     te_event_type = ti_event_type i, te_timestamp = ti_timestamp i, te_occurred_at = ti_timestamp i,
     te_source_email_id = ti_source_email_id i, te_metadata = json_column (ti_metadata i),
     te_description = ti_description i, te_created_at = now\<rparr>"

subsection \<open>Recording a change\<close>

text \<open>
  \<open>recordStatusChange\<close>. \<open>now\<close> is the clock; \<open>hid\<close> and \<open>tid\<close> are the ids the
  database gives the new history and timeline rows. With a user id the application must
  belong to that user.
\<close>

definition find_change_target :: "status_change_input \<Rightarrow> job_application list \<Rightarrow> job_application option" where
  "find_change_target input apps = (case sc_user_id input of
     Some u \<Rightarrow> if u = [] then find_row (\<lambda>a. ja_id a = sc_application_id input) apps
               else find_row (\<lambda>a. ja_id a = sc_application_id input \<and> ja_user_id a = u) apps
   | None \<Rightarrow> find_row (\<lambda>a. ja_id a = sc_application_id input) apps)"

definition new_history_row ::
  "time \<Rightarrow> uid \<Rightarrow> status_change_input \<Rightarrow> app_status \<Rightarrow> string option \<Rightarrow> status_history" where
  "new_history_row now hid input normalized previous = \<lparr>
     sh_id = hid, sh_application_id = sc_application_id input, sh_previous_status = previous,
     sh_status = show_status normalized, sh_source = show_source (sc_source input),
     sh_source_email_id = sc_source_email_id input,
     sh_changed_by_user_id = sc_changed_by_user_id input,
     sh_timestamp = option_or (sc_timestamp input) now, sh_metadata = json_column (sc_metadata input),
     sh_created_at = now\<rparr>"

definition previous_status :: "job_application \<Rightarrow> status_history list \<Rightarrow> string option" where
  "previous_status app ordered = (case ordered of
     [] \<Rightarrow> map_option show_status (normalize_application_status (ja_status app))
   | _ \<Rightarrow> Some (sh_status (last ordered)))"

definition record_status_change ::
  "time \<Rightarrow> uid \<Rightarrow> uid \<Rightarrow> status_change_input \<Rightarrow> app_db \<Rightarrow> (status_change_result, app_db) outcome" where
  "record_status_change now hid tid input db =
     (case normalize_application_status (sc_status input) of
        None \<Rightarrow> (Inl (DomainValidationError (''Unsupported application status: '' @ sc_status input)), db)
      | Some normalized \<Rightarrow>
        (case find_change_target input (db_applications db) of
          None \<Rightarrow> (Inl (NotFoundError ''Application'' (sc_application_id input)), db)
        | Some app \<Rightarrow>
          let app_id = sc_application_id input;
              created = new_history_row now hid input normalized
                (previous_status app (ordered_history app_id (db_history db)));
              history' = db_history db @ [created];
              next_status = replay_history
                (option_or (normalize_application_status (ja_status app)) normalized)
                (ordered_history app_id history');
              next_stage = map_status_to_stage (show_status next_status);
              current_status = option_or (normalize_application_status (ja_status app)) next_status;
              should_update = (current_status \<noteq> next_status \<or>
                ja_current_stage app \<noteq> Some next_stage \<or>
                is_manual_source (show_source (sc_source input)));
              entry = map_history created
          in if should_update then
               let upd = (\<lambda>a. a\<lparr>ja_status := show_status next_status,
                     ja_current_stage := Some next_stage, ja_updated_at := now\<rparr>);
                   event = map_option (timeline_row now tid)
                     (build_status_timeline_event now app_id (show_status next_status)
                        (Some (option_or (sc_timestamp input) now))
                        [(''source'', JStr (show_source (sc_source input))),
                         (''sourceEmailId'', jopt (sc_source_email_id input)),
                         (''changedByUserId'', jopt (sc_changed_by_user_id input))])
               in (Inr \<lparr>sr_id = ja_id app, sr_status = show_status next_status,
                        sr_current_stage = Some next_stage, sr_updated_at = now,
                        sr_history_entry = entry, sr_timeline_event = event\<rparr>,
                   db\<lparr>db_applications := update_many (\<lambda>a. ja_id a = app_id) upd (db_applications db),
                      db_history := history',
                      db_timeline := db_timeline db @ (case event of None \<Rightarrow> [] | Some e \<Rightarrow> [e])\<rparr>)
             else
               (Inr \<lparr>sr_id = ja_id app, sr_status = ja_status app,
                     sr_current_stage = ja_current_stage app, sr_updated_at = now,
                     sr_history_entry = entry, sr_timeline_event = None\<rparr>,
                db\<lparr>db_history := history'\<rparr>)))"

definition email_change_input ::
  "time \<Rightarrow> uid \<Rightarrow> job_email_classification \<Rightarrow> uid \<Rightarrow> time option \<Rightarrow> string option
     \<Rightarrow> uid option \<Rightarrow> app_status \<Rightarrow> status_change_input" where
  "email_change_input now app_id cl email_id received_at subject user status = \<lparr>
     sc_application_id = app_id, sc_status = show_status status,
     sc_timestamp = Some (option_or received_at now), sc_source = EMAIL,
     sc_source_email_id = Some email_id, sc_changed_by_user_id = None, sc_user_id = user,
     sc_metadata = Some (JObj
       [(''classification'', JObj
          [(''emailId'', JStr (cl_email_id cl)),
           (''category'', JStr (show_category (cl_category cl))),
           (''confidence'', JNum (cl_confidence cl)),
           (''detectedCompany'', jopt (cl_detected_company cl)),
           (''detectedRole'', jopt (cl_detected_role cl))]),
        (''subject'', jopt subject)])\<rparr>"

definition apply_email_status ::
  "time \<Rightarrow> uid \<Rightarrow> uid \<Rightarrow> uid \<Rightarrow> job_email_classification \<Rightarrow> uid \<Rightarrow> time option \<Rightarrow> string option
     \<Rightarrow> uid option \<Rightarrow> app_db \<Rightarrow> (status_change_result, app_db) outcome" where
  "apply_email_status now hid tid app_id cl email_id received_at subject user db =
     (case resolve_status_from_email (cl_category cl) of
        None \<Rightarrow> (Inl (DomainValidationError
          (''Unsupported email classification for status updates: '' @ show_category (cl_category cl))), db)
      | Some status \<Rightarrow>
          record_status_change now hid tid
            (email_change_input now app_id cl email_id received_at subject user status) db)"

definition override_status ::
  "time \<Rightarrow> uid \<Rightarrow> uid \<Rightarrow> uid \<Rightarrow> string \<Rightarrow> uid \<Rightarrow> uid option \<Rightarrow> app_db
     \<Rightarrow> (status_change_result, app_db) outcome" where
  "override_status now hid tid app_id status changed_by user db =
     record_status_change now hid tid \<lparr>
       sc_application_id = app_id, sc_status = status, sc_timestamp = Some now, sc_source = MANUAL,
       sc_source_email_id = None, sc_changed_by_user_id = Some changed_by, sc_user_id = user,
       sc_metadata = Some (JObj [(''manualOverride'', JBool True)])\<rparr> db"

definition get_status_history ::
  "uid \<Rightarrow> uid option \<Rightarrow> pagination_input option \<Rightarrow> app_db \<Rightarrow> error + status_history_record list" where
  "get_status_history app_id user pagination db =
     (let owned = (\<lambda>a. ja_id a = app_id \<and>
            (case user of None \<Rightarrow> True | Some u \<Rightarrow> u = [] \<or> ja_user_id a = u))
      in case find_row owned (db_applications db) of
           None \<Rightarrow> Inl (NotFoundError ''Application'' app_id)
         | Some _ \<Rightarrow> Inr (map map_history
             (paged (resolve_pagination pagination) (ordered_history app_id (db_history db)))))"

subsection \<open>Lemmas on transitions and replay\<close>

lemma replay_Nil [simp]: "replay_history s [] = s"
  by (simp add: replay_history_def)

lemma replay_Cons [simp]:
  "replay_history s (e # es) = replay_history (apply_transition s (sh_status e) (sh_source e)) es"
  by (simp add: replay_history_def)

lemma replay_append [simp]:
  "replay_history s (xs @ ys) = replay_history (replay_history s xs) ys"
  by (simp add: replay_history_def)

lemma transition_manual:
  "is_manual_source src \<Longrightarrow> normalize_application_status raw = Some s \<Longrightarrow> apply_transition c raw src = s"
  by (simp add: apply_transition_def)

lemma transition_terminal_stays:
  "\<not> is_manual_source src \<Longrightarrow> is_terminal_status c \<Longrightarrow> is_terminal_status (apply_transition c raw src)"
  by (auto simp: apply_transition_def split: option.splits)

lemma transition_rank:
  "\<not> is_manual_source src \<Longrightarrow> status_rank c \<le> status_rank (apply_transition c raw src)"
  using rank_le_6 [of c] by (auto simp: apply_transition_def terminal_rank split: option.splits)

definition email_only :: "status_history list \<Rightarrow> bool" where
  "email_only es = list_all (\<lambda>e. \<not> is_manual_source (sh_source e)) es"

lemma email_only_simps [simp]:
  "email_only []"
  "email_only (e # es) \<longleftrightarrow> \<not> is_manual_source (sh_source e) \<and> email_only es"
  "email_only (xs @ ys) \<longleftrightarrow> email_only xs \<and> email_only ys"
  by (simp_all add: email_only_def)

lemma replay_rank: "email_only es \<Longrightarrow> status_rank s \<le> status_rank (replay_history s es)"
proof (induction es arbitrary: s)
  case (Cons e es)
  from Cons.prems have "status_rank s \<le> status_rank (apply_transition s (sh_status e) (sh_source e))"
    by (simp add: transition_rank)
  also have "\<dots> \<le> status_rank (replay_history s (e # es))"
    using Cons by simp
  finally show ?case .
qed simp

lemma replay_terminal_stays:
  "email_only es \<Longrightarrow> is_terminal_status s \<Longrightarrow> is_terminal_status (replay_history s es)"
  by (induction es arbitrary: s) (auto simp: transition_terminal_stays)

text \<open>An entry whose outcome does not depend on the status before it.\<close>

definition resets :: "status_history \<Rightarrow> bool" where
  "resets e = (case normalize_application_status (sh_status e) of None \<Rightarrow> False
     | Some s \<Rightarrow> is_manual_source (sh_source e) \<or> is_terminal_status s)"

lemma resets_transition:
  "resets e \<Longrightarrow> apply_transition c (sh_status e) (sh_source e) = apply_transition d (sh_status e) (sh_source e)"
  by (auto simp: resets_def apply_transition_def split: option.splits)

lemma replay_reset: "\<exists>e\<in>set es. resets e \<Longrightarrow> replay_history c es = replay_history d es"
proof (induction es arbitrary: c d)
  case (Cons e es)
  then show ?case
    by (cases "resets e") (auto dest: resets_transition [of e c d])
qed simp

text \<open>An entry inserted before a resetting one has no effect.\<close>

lemma replay_before_reset:
  assumes "\<exists>m\<in>set ys. resets m"
  shows "replay_history c (xs @ e # ys) = replay_history c (xs @ ys)"
  using replay_reset [OF assms] by simp

lemma no_reset_transition:
  assumes "\<not> resets e" and "normalize_application_status (sh_status e) = Some n"
  shows "\<not> is_terminal_status n" and "\<not> is_manual_source (sh_source e)"
  using assms by (auto simp: resets_def)

lemma replay_no_reset_terminal:
  "\<forall>e\<in>set es. \<not> resets e \<Longrightarrow> is_terminal_status s \<Longrightarrow> replay_history s es = s"
  by (induction es arbitrary: s)
    (auto simp: apply_transition_def dest: no_reset_transition split: option.splits)

text \<open>Below the terminal statuses ranks are injective, and an entry never lowers the rank.\<close>

lemma rank_inject: "status_rank s = status_rank t \<Longrightarrow> status_rank s < 6 \<Longrightarrow> s = t"
  by (cases s; cases t) simp_all

lemma no_reset_rank:
  "\<not> resets e \<Longrightarrow> status_rank s \<le> status_rank (apply_transition s (sh_status e) (sh_source e))"
  by (cases "is_manual_source (sh_source e)")
    (auto simp: transition_rank, simp add: resets_def apply_transition_def split: option.splits)

lemma replay_no_reset_rank:
  "\<forall>e\<in>set es. \<not> resets e \<Longrightarrow> status_rank s \<le> status_rank (replay_history s es)"
proof (induction es arbitrary: s)
  case (Cons e es)
  from Cons.prems have "status_rank s \<le> status_rank (apply_transition s (sh_status e) (sh_source e))"
    by (simp add: no_reset_rank)
  also have "\<dots> \<le> status_rank (replay_history s (e # es))"
    using Cons by simp
  finally show ?case .
qed simp

lemma no_reset_absorbed:
  assumes "\<not> resets e"
    and "status_rank (apply_transition s (sh_status e) (sh_source e)) \<le> status_rank y"
    and "\<not> is_terminal_status y" and "\<not> is_terminal_status s"
  shows "apply_transition y (sh_status e) (sh_source e) = y"
proof (cases "normalize_application_status (sh_status e)")
  case None
  then show ?thesis by (simp add: apply_transition_def)
next
  case (Some n)
  note n = no_reset_transition [OF assms(1) Some]
  have le: "status_rank n \<le> status_rank y"
    using assms n Some by (auto simp: apply_transition_def split: if_splits)
  show ?thesis
  proof (cases "status_rank n = status_rank y")
    case True
    then have "n = y" using rank_inject [of n y] n(1) rank_le_6 [of n] by (auto simp: terminal_rank)
    with Some show ?thesis by (simp add: apply_transition_def)
  next
    case False
    with le n Some show ?thesis by (simp add: apply_transition_def)
  qed
qed

lemma replay_no_reset_fixed:
  assumes "\<forall>e\<in>set es. \<not> resets e"
  shows "replay_history (replay_history s es) es = replay_history s es"
proof (cases "is_terminal_status s")
  case True
  with assms show ?thesis by (simp add: replay_no_reset_terminal)
next
  case False
  have absorbed: "replay_history y es = y"
    if "\<not> is_terminal_status y" "\<not> is_terminal_status s" "status_rank (replay_history s es) \<le> status_rank y"
      "\<forall>e\<in>set es. \<not> resets e" for y s es
    using that
  proof (induction es arbitrary: s)
    case (Cons e es)
    let ?s = "apply_transition s (sh_status e) (sh_source e)"
    have "status_rank ?s \<le> status_rank y"
      using replay_no_reset_rank [of es ?s] Cons.prems by simp
    moreover have "\<not> is_terminal_status ?s"
      using calculation Cons.prems(1) rank_le_6 [of y] by (simp add: terminal_rank)
    ultimately show ?case
      using no_reset_absorbed [of e s y] Cons by simp
  qed simp
  show ?thesis
  proof (cases "is_terminal_status (replay_history s es)")
    case True
    with assms show ?thesis by (simp add: replay_no_reset_terminal)
  next
    case False
    with absorbed [of "replay_history s es" s es] \<open>\<not> is_terminal_status s\<close> assms show ?thesis by simp
  qed
qed

text \<open>
  C17: replaying the history is idempotent. The engine folds the whole history over the status
  the previous folds produced; doing so again changes nothing, whatever mixture of email and
  manual entries the history holds.
\<close>

theorem replay_idempotent:
  "replay_history (replay_history s es) es = replay_history s es"
proof (cases "\<exists>e\<in>set es. resets e")
  case True
  then show ?thesis by (rule replay_reset)
next
  case False
  then show ?thesis by (simp add: replay_no_reset_fixed)
qed

subsection \<open>The effect of a change on the tables\<close>

definition app_settled :: "app_db \<Rightarrow> job_application \<Rightarrow> bool" where
  "app_settled db a \<longleftrightarrow> (\<exists>s. ja_status a = show_status s
     \<and> replay_history s (ordered_history (ja_id a) (db_history db)) = s)"

definition db_settled :: "app_db \<Rightarrow> bool" where
  "db_settled db \<longleftrightarrow> (\<forall>a\<in>set (db_applications db). app_settled db a)"

lemma find_change_target_SomeD:
  "find_change_target input apps = Some a \<Longrightarrow> a \<in> set apps \<and> ja_id a = sc_application_id input"
  by (auto simp: find_change_target_def split: option.splits if_splits dest: find_row_SomeD)

lemma ordered_history_other:
  "sh_application_id e \<noteq> i \<Longrightarrow> ordered_history i (h @ [e]) = ordered_history i h"
  by (simp add: ordered_history_def find_many_def)

lemma ordered_history_insert:
  assumes "sh_application_id e = i"
  shows "ordered_history i (h @ [e]) =
    takeWhile (\<lambda>y. (sh_timestamp y, sh_created_at y, sh_id y) \<le> (sh_timestamp e, sh_created_at e, sh_id e))
      (ordered_history i h) @ e #
    dropWhile (\<lambda>y. (sh_timestamp y, sh_created_at y, sh_id y) \<le> (sh_timestamp e, sh_created_at e, sh_id e))
      (ordered_history i h)"
  using assms by (simp add: ordered_history_def find_many_def sort_key_insert)

lemma ordered_history_newest:
  assumes "sh_application_id e = i"
    and "\<And>y. y \<in> set h \<Longrightarrow> sh_application_id y = i \<Longrightarrow>
      (sh_timestamp y, sh_created_at y) < (sh_timestamp e, sh_created_at e)"
  shows "ordered_history i (h @ [e]) = ordered_history i h @ [e]"
proof -
  have "sort_key (\<lambda>y. (sh_timestamp y, sh_created_at y, sh_id y)) (find_many (\<lambda>y. sh_application_id y = i) h @ [e])
    = sort_key (\<lambda>y. (sh_timestamp y, sh_created_at y, sh_id y)) (find_many (\<lambda>y. sh_application_id y = i) h) @ [e]"
    by (rule sort_key_snoc) (use assms(2) in \<open>fastforce simp: find_many_def\<close>)
  with assms(1) show ?thesis by (simp add: ordered_history_def find_many_def)
qed

lemma set_ordered_history: "set (ordered_history i h) = {e \<in> set h. sh_application_id e = i}"
  by (auto simp: ordered_history_def find_many_def)

text \<open>What a change that returns has done: the shape every proof about it starts from.\<close>

lemma record_effect:
  assumes "record_status_change now hid tid input db = (Inr r, db')"
  obtains a n nx where
    "normalize_application_status (sc_status input) = Some n"
    "find_change_target input (db_applications db) = Some a"
    "db_history db' = db_history db @ [new_history_row now hid input n
       (previous_status a (ordered_history (sc_application_id input) (db_history db)))]"
    "nx = replay_history (option_or (normalize_application_status (ja_status a)) n)
       (ordered_history (sc_application_id input) (db_history db'))"
    "(db_applications db' = update_many (\<lambda>x. ja_id x = sc_application_id input)
        (\<lambda>x. x\<lparr>ja_status := show_status nx,
           ja_current_stage := Some (map_status_to_stage (show_status nx)), ja_updated_at := now\<rparr>)
        (db_applications db) \<and> sr_status r = show_status nx) \<or>
     (db_applications db' = db_applications db \<and> sr_status r = ja_status a
        \<and> option_or (normalize_application_status (ja_status a)) nx = nx \<and> sc_source input = EMAIL)"
proof -
  obtain n a where n: "normalize_application_status (sc_status input) = Some n"
    and a: "find_change_target input (db_applications db) = Some a"
    using assms by (auto simp: record_status_change_def split: option.splits)
  let ?new = "new_history_row now hid input n
       (previous_status a (ordered_history (sc_application_id input) (db_history db)))"
  let ?nx = "replay_history (option_or (normalize_application_status (ja_status a)) n)
       (ordered_history (sc_application_id input) (db_history db @ [?new]))"
  show thesis
  proof (rule that [OF n a, of ?nx])
    show "db_history db' = db_history db @ [?new]"
      using assms by (auto simp: record_status_change_def n a Let_def split: if_splits)
    then show "?nx = replay_history (option_or (normalize_application_status (ja_status a)) n)
       (ordered_history (sc_application_id input) (db_history db'))" by simp
    show "(db_applications db' = update_many (\<lambda>x. ja_id x = sc_application_id input)
        (\<lambda>x. x\<lparr>ja_status := show_status ?nx,
           ja_current_stage := Some (map_status_to_stage (show_status ?nx)), ja_updated_at := now\<rparr>)
        (db_applications db) \<and> sr_status r = show_status ?nx) \<or>
     (db_applications db' = db_applications db \<and> sr_status r = ja_status a
        \<and> option_or (normalize_application_status (ja_status a)) ?nx = ?nx \<and> sc_source input = EMAIL)"
      using assms by (cases "sc_source input")
        (auto simp: record_status_change_def n a Let_def is_manual_source_def split: if_splits)
  qed
qed

lemma new_history_row_app [simp]:
  "sh_application_id (new_history_row now hid input n p) = sc_application_id input"
  "sh_status (new_history_row now hid input n p) = show_status n"
  "sh_source (new_history_row now hid input n p) = show_source (sc_source input)"
  "sh_timestamp (new_history_row now hid input n p) = option_or (sc_timestamp input) now"
  "sh_created_at (new_history_row now hid input n p) = now"
  "sh_id (new_history_row now hid input n p) = hid"
  by (simp_all add: new_history_row_def)

text \<open>On settled tables: the recorded status, in the result and in the application's row.\<close>

lemma record_on_settled:
  assumes ids: "distinct (map ja_id (db_applications db))" and settled: "db_settled db"
    and r: "record_status_change now hid tid input db = (Inr r, db')"
  obtains a s n nx where
    "a \<in> set (db_applications db)" "ja_id a = sc_application_id input"
    "ja_status a = show_status s" "normalize_application_status (sc_status input) = Some n"
    "replay_history s (ordered_history (sc_application_id input) (db_history db)) = s"
    "db_history db' = db_history db @ [new_history_row now hid input n
       (previous_status a (ordered_history (sc_application_id input) (db_history db)))]"
    "nx = replay_history s (ordered_history (sc_application_id input) (db_history db'))"
    "sr_status r = show_status nx"
    "\<And>b. b \<in> set (db_applications db') \<Longrightarrow> ja_id b = sc_application_id input \<Longrightarrow> ja_status b = show_status nx"
    "\<And>b. b \<in> set (db_applications db') \<Longrightarrow> ja_id b \<noteq> sc_application_id input \<Longrightarrow> b \<in> set (db_applications db)"
proof -
  from r obtain a n nx where
    n: "normalize_application_status (sc_status input) = Some n" and
    a: "find_change_target input (db_applications db) = Some a" and
    h: "db_history db' = db_history db @ [new_history_row now hid input n
       (previous_status a (ordered_history (sc_application_id input) (db_history db)))]" and
    nx: "nx = replay_history (option_or (normalize_application_status (ja_status a)) n)
       (ordered_history (sc_application_id input) (db_history db'))" and
    upd: "(db_applications db' = update_many (\<lambda>x. ja_id x = sc_application_id input)
        (\<lambda>x. x\<lparr>ja_status := show_status nx,
           ja_current_stage := Some (map_status_to_stage (show_status nx)), ja_updated_at := now\<rparr>)
        (db_applications db) \<and> sr_status r = show_status nx) \<or>
     (db_applications db' = db_applications db \<and> sr_status r = ja_status a
        \<and> option_or (normalize_application_status (ja_status a)) nx = nx \<and> sc_source input = EMAIL)"
    by (rule record_effect)
  note a' = find_change_target_SomeD [OF a]
  obtain s where s: "ja_status a = show_status s"
    "replay_history s (ordered_history (sc_application_id input) (db_history db)) = s"
    using settled a' by (auto simp: db_settled_def app_settled_def)
  have unique: "b = a" if "b \<in> set (db_applications db)" "ja_id b = sc_application_id input" for b
    using distinct_key_unique [OF ids that(1)] a' that(2) by auto
  show thesis
    by (rule that [of a s n nx]) (use a' s n h nx upd in \<open>auto simp: set_update_many dest: unique split: if_splits\<close>)
qed

lemma record_settled:
  assumes "distinct (map ja_id (db_applications db))" and settled: "db_settled db"
    and "record_status_change now hid tid input db = (Inr r, db')"
  shows "db_settled db'"
  using assms
proof (rule record_on_settled)
  fix a s n nx
  assume h: "db_history db' = db_history db @ [new_history_row now hid input n
       (previous_status a (ordered_history (sc_application_id input) (db_history db)))]"
    and nx: "nx = replay_history s (ordered_history (sc_application_id input) (db_history db'))"
    and same: "\<And>b. b \<in> set (db_applications db') \<Longrightarrow> ja_id b = sc_application_id input \<Longrightarrow> ja_status b = show_status nx"
    and other: "\<And>b. b \<in> set (db_applications db') \<Longrightarrow> ja_id b \<noteq> sc_application_id input \<Longrightarrow> b \<in> set (db_applications db)"
  have "app_settled db' b" if b: "b \<in> set (db_applications db')" for b
  proof (cases "ja_id b = sc_application_id input")
    case True
    with same [OF b] show ?thesis
      by (auto simp: app_settled_def nx replay_idempotent)
  next
    case False
    then have "ordered_history (ja_id b) (db_history db') = ordered_history (ja_id b) (db_history db)"
      by (simp add: h ordered_history_other)
    with other [OF b False] settled show ?thesis by (auto simp: db_settled_def app_settled_def)
  qed
  then show ?thesis by (simp add: db_settled_def)
qed

subsection \<open>Runs of the engine\<close>

inductive engine_step :: "app_db \<Rightarrow> app_db \<Rightarrow> bool" where
  email: "apply_email_status now hid tid app cl email_id received subject user db = (Inr r, db')
     \<Longrightarrow> engine_step db db'"
| manual: "override_status now hid tid app status changed_by user db = (Inr r, db')
     \<Longrightarrow> engine_step db db'"

inductive_cases engine_stepE: "engine_step db db'"

lemma apply_email_is_record:
  assumes "apply_email_status now hid tid app cl email_id received subject user db = (Inr r, db')"
  obtains input st where "record_status_change now hid tid input db = (Inr r, db')"
    "resolve_status_from_email (cl_category cl) = Some st" "sc_status input = show_status st"
    "sc_application_id input = app" "sc_timestamp input = Some (option_or received now)"
    "sc_source input = EMAIL"
  using assms by (auto simp: apply_email_status_def email_change_input_def split: option.splits)

lemma override_is_record:
  assumes "override_status now hid tid app status changed_by user db = (Inr r, db')"
  obtains input where "record_status_change now hid tid input db = (Inr r, db')"
    "sc_status input = status" "sc_application_id input = app" "sc_timestamp input = Some now"
    "sc_source input = MANUAL"
  using assms by (auto simp: override_status_def)

lemma record_keeps_ids:
  "record_status_change now hid tid input db = (Inr r, db')
     \<Longrightarrow> map ja_id (db_applications db') = map ja_id (db_applications db)"
  by (erule record_effect) (auto simp: map_update_many_key)

lemma engine_step_keeps:
  assumes "engine_step db db'" and "distinct (map ja_id (db_applications db))" and "db_settled db"
  shows "distinct (map ja_id (db_applications db')) \<and> db_settled db'"
  using assms
  by (elim engine_stepE apply_email_is_record override_is_record)
    (metis record_keeps_ids record_settled)+

definition newest_event :: "uid \<Rightarrow> time \<Rightarrow> time \<Rightarrow> app_db \<Rightarrow> bool" where
  "newest_event app ts now db \<longleftrightarrow> list_all (\<lambda>e. sh_application_id e = app \<longrightarrow>
     (sh_timestamp e, sh_created_at e) < (ts, now)) (db_history db)"

text \<open>The concrete tables of the witnesses: one application, one earlier entry of its history.\<close>

definition sample_application :: "uid \<Rightarrow> uid \<Rightarrow> app_status \<Rightarrow> job_application" where
  "sample_application i u st = \<lparr>ja_id = i, ja_user_id = u, ja_legacy_user_id = None,
     ja_company_id = None, ja_opportunity_id = None, ja_snapshot_id = None, ja_company_name = None,
     ja_company_domain = None, ja_role_title = None, ja_status = show_status st,
     ja_source_provider = ''MANUAL'', ja_applied_date = None, ja_last_activity_at = 0, ja_recruiter_id = None, ja_recruiter_name = None,
     ja_recruiter_email = None, ja_current_stage = None, ja_thread_ids = [],
     ja_ats_application_id = None, ja_candidate_email = None, ja_role_department = None, ja_source_email_id = None,
     ja_location = None, ja_employment_type = None, ja_interview_rounds = 0, ja_deadlines = [], ja_updated_at = 0\<rparr>"

definition sample_entry :: "uid \<Rightarrow> uid \<Rightarrow> app_status \<Rightarrow> status_source \<Rightarrow> time \<Rightarrow> status_history" where
  "sample_entry i app st src t = \<lparr>sh_id = i, sh_application_id = app, sh_previous_status = None,
     sh_status = show_status st, sh_source = show_source src, sh_source_email_id = None,
     sh_changed_by_user_id = None, sh_timestamp = t, sh_metadata = JNull, sh_created_at = t\<rparr>"

definition sample_db :: "app_status \<Rightarrow> status_source \<Rightarrow> app_db" where
  "sample_db st src = \<lparr>db_applications = [sample_application ''a1'' ''u1'' st],
     db_history = [sample_entry ''h1'' ''a1'' st src 10], db_timeline = []\<rparr>"

definition sample_classification :: "job_email_category \<Rightarrow> job_email_classification" where
  "sample_classification c = \<lparr>cl_email_id = ''e1'', cl_category = c, cl_confidence = 1,
     cl_detected_company = None, cl_detected_role = None\<rparr>"

lemma sample_settled: "db_settled (sample_db st src)" "distinct (map ja_id (db_applications (sample_db st src)))"
  by (simp_all add: sample_db_def db_settled_def app_settled_def ordered_history_def find_many_def
      sample_application_def sample_entry_def apply_transition_def)

lemma sample_email_returns:
  "\<exists>r db'. apply_email_status now hid tid ''a1'' (sample_classification c) ''e1'' (Some t) None
     (Some ''u1'') (sample_db st src) = (Inr r, db')"
  by (cases "apply_email_status now hid tid ''a1'' (sample_classification c) ''e1'' (Some t) None
     (Some ''u1'') (sample_db st src)"; cases c)
    (auto simp: apply_email_status_def email_change_input_def record_status_change_def find_change_target_def
      sample_db_def sample_application_def sample_classification_def Let_def split: if_splits)

subsection \<open>Properties\<close>

text \<open>
  C2: the status of every application stays the fixed point of its own history. From tables
  where each status equals the replay of the application's history, every sequence of email
  updates and manual overrides leads to tables where it still does.
\<close>

theorem engine_run_settled:
  assumes "rtranclp engine_step db db'"
    and "distinct (map ja_id (db_applications db))" and "db_settled db"
  shows "db_settled db'"
proof -
  have "distinct (map ja_id (db_applications db')) \<and> db_settled db'"
    using assms by (induction rule: rtranclp_induct) (auto dest: engine_step_keeps)
  then show ?thesis ..
qed

theorem engine_run_settled_witness:
  "\<exists>db'. engine_step (sample_db APPLIED EMAIL) db' \<and> db_settled db'"
proof -
  obtain r db' where "apply_email_status 20 ''h2'' ''t2'' ''a1'' (sample_classification OFFER_EMAIL)
      ''e1'' (Some 20) None (Some ''u1'') (sample_db APPLIED EMAIL) = (Inr r, db')"
    using sample_email_returns by blast
  then have step: "engine_step (sample_db APPLIED EMAIL) db'" by (rule engine_step.email)
  then have "rtranclp engine_step (sample_db APPLIED EMAIL) db'" by blast
  from step engine_run_settled [OF this sample_settled(2) sample_settled(1)] show ?thesis by blast
qed

text \<open>
  C5: an email never moves an application backwards. When the email is the newest event of
  the application, the new status is the old one or the status the email's category names,
  its rank is not lower, and a rejected or withdrawn application stays closed.
\<close>

theorem email_never_regresses:
  assumes "distinct (map ja_id (db_applications db))" and "db_settled db"
    and email: "apply_email_status now hid tid app cl email_id received subject user db = (Inr r, db')"
    and newest: "newest_event app (option_or received now) now db"
    and a: "a \<in> set (db_applications db)" "ja_id a = app" "ja_status a = show_status s"
  shows "\<exists>s'. sr_status r = show_status s'
    \<and> (s' = s \<or> resolve_status_from_email (cl_category cl) = Some s')
    \<and> status_rank s \<le> status_rank s' \<and> (is_terminal_status s \<longrightarrow> is_terminal_status s')"
proof -
  obtain input st where i: "record_status_change now hid tid input db = (Inr r, db')"
    "resolve_status_from_email (cl_category cl) = Some st" "sc_status input = show_status st"
    "sc_application_id input = app" "sc_timestamp input = Some (option_or received now)"
    "sc_source input = EMAIL"
    using email by (rule apply_email_is_record)
  from assms(1,2) i(1) obtain b c n nx where
    b: "b \<in> set (db_applications db)" "ja_id b = sc_application_id input" "ja_status b = show_status c"
    and n: "normalize_application_status (sc_status input) = Some n"
    and fp: "replay_history c (ordered_history (sc_application_id input) (db_history db)) = c"
    and h: "db_history db' = db_history db @ [new_history_row now hid input n
       (previous_status b (ordered_history (sc_application_id input) (db_history db)))]"
    and nx: "nx = replay_history c (ordered_history (sc_application_id input) (db_history db'))"
    and r: "sr_status r = show_status nx"
    by (rule record_on_settled)
  have "c = s" using distinct_key_unique [OF assms(1) b(1) a(1)] b a i(4) by auto
  have "ordered_history (sc_application_id input) (db_history db')
      = ordered_history (sc_application_id input) (db_history db) @ [new_history_row now hid input n
       (previous_status b (ordered_history (sc_application_id input) (db_history db)))]"
    unfolding h using newest i(4,5)
    by (intro ordered_history_newest) (auto simp: newest_event_def list_all_iff)
  then have nx': "nx = apply_transition s (show_status n) ''EMAIL''"
    using fp i(6) by (simp add: nx \<open>c = s\<close>)
  have "n = st" using n i(3) by simp
  moreover have "nx = s \<or> nx = n" unfolding nx' by (simp add: apply_transition_def)
  ultimately show ?thesis
    using r i(2) transition_rank [of "''EMAIL''" s "show_status n"]
      transition_terminal_stays [of "''EMAIL''" s "show_status n"]
    by (auto simp: nx' is_manual_source_def)
qed

theorem email_never_regresses_witness:
  "\<exists>r db' s'. apply_email_status 20 ''h2'' ''t2'' ''a1'' (sample_classification INTERVIEW_INVITATION)
      ''e1'' (Some 20) None (Some ''u1'') (sample_db REJECTED EMAIL) = (Inr r, db')
    \<and> sr_status r = show_status s' \<and> is_terminal_status s'"
proof -
  obtain r db' where e: "apply_email_status 20 ''h2'' ''t2'' ''a1''
      (sample_classification INTERVIEW_INVITATION) ''e1'' (Some 20) None (Some ''u1'')
      (sample_db REJECTED EMAIL) = (Inr r, db')"
    using sample_email_returns by blast
  have "newest_event ''a1'' (option_or (Some 20) 20) 20 (sample_db REJECTED EMAIL)"
    by (simp add: newest_event_def sample_db_def sample_entry_def)
  from email_never_regresses [OF sample_settled(2) sample_settled(1) e this,
      of "sample_application ''a1'' ''u1'' REJECTED" REJECTED] e
  show ?thesis by (auto simp: sample_db_def sample_application_def is_terminal_status_def)
qed

text \<open>
  A manual override is not undone by an email that is older. When the history holds a
  manual entry later than the email's timestamp, the email is recorded and the status of the
  application stays what it was.
\<close>

lemma older_email_keeps_override:
  assumes "distinct (map ja_id (db_applications db))" and "db_settled db"
    and email: "apply_email_status now hid tid app cl email_id received subject user db = (Inr r, db')"
    and m: "m \<in> set (db_history db)" "sh_application_id m = app" "sh_source m = ''MANUAL''"
      "normalize_application_status (sh_status m) \<noteq> None" "option_or received now < sh_timestamp m"
    and a: "a \<in> set (db_applications db)" "ja_id a = app"
  shows "sr_status r = ja_status a"
proof -
  obtain input st where i: "record_status_change now hid tid input db = (Inr r, db')"
    "sc_application_id input = app" "sc_timestamp input = Some (option_or received now)"
    using email by (rule apply_email_is_record)
  from assms(1,2) i(1) obtain b c n nx where
    b: "b \<in> set (db_applications db)" "ja_id b = sc_application_id input" "ja_status b = show_status c"
    and fp: "replay_history c (ordered_history (sc_application_id input) (db_history db)) = c"
    and h: "db_history db' = db_history db @ [new_history_row now hid input n
       (previous_status b (ordered_history (sc_application_id input) (db_history db)))]"
    and nx: "nx = replay_history c (ordered_history (sc_application_id input) (db_history db'))"
    and r: "sr_status r = show_status nx"
    by (rule record_on_settled)
  let ?new = "new_history_row now hid input n
       (previous_status b (ordered_history (sc_application_id input) (db_history db)))"
  let ?H = "ordered_history app (db_history db)"
  let ?le = "\<lambda>y. (sh_timestamp y, sh_created_at y, sh_id y)
    \<le> (sh_timestamp ?new, sh_created_at ?new, sh_id ?new)"
  have "m \<in> set (takeWhile ?le ?H @ dropWhile ?le ?H)"
    using m by (simp add: set_ordered_history)
  moreover have "m \<notin> set (takeWhile ?le ?H)"
    using m(5) i(3) by (auto dest: set_takeWhileD)
  moreover have "resets m" using m(3,4) by (auto simp: resets_def is_manual_source_def)
  ultimately have later: "\<exists>e\<in>set (dropWhile ?le ?H). resets e"
    by (auto simp del: takeWhile_dropWhile_id)
  have "nx = replay_history c (takeWhile ?le ?H @ ?new # dropWhile ?le ?H)"
    unfolding nx h i(2) using i(2) by (simp only: ordered_history_insert new_history_row_app)
  also have "\<dots> = replay_history c ?H"
    by (simp only: replay_before_reset [OF later] takeWhile_dropWhile_id)
  also have "\<dots> = c" using fp i(2) by simp
  finally have "sr_status r = ja_status b" using r b by simp
  moreover have "b = a" using distinct_key_unique [OF assms(1) b(1) a(1)] b a i(2) by simp
  ultimately show ?thesis by simp
qed

lemma older_email_keeps_override_witness:
  "\<exists>r db'. apply_email_status 20 ''h2'' ''t2'' ''a1'' (sample_classification REJECTION_EMAIL)
      ''e1'' (Some 5) None (Some ''u1'') (sample_db OFFER MANUAL) = (Inr r, db')
    \<and> sr_status r = show_status OFFER"
proof -
  obtain r db' where e: "apply_email_status 20 ''h2'' ''t2'' ''a1''
      (sample_classification REJECTION_EMAIL) ''e1'' (Some 5) None (Some ''u1'')
      (sample_db OFFER MANUAL) = (Inr r, db')"
    using sample_email_returns by blast
  from older_email_keeps_override [OF sample_settled(2) sample_settled(1) e,
      of "sample_entry ''h1'' ''a1'' OFFER MANUAL 10" "sample_application ''a1'' ''u1'' OFFER"] e
  show ?thesis by (auto simp: sample_db_def sample_application_def sample_entry_def)
qed

text \<open>
  A manual override takes effect. When it is the newest event of the application, the
  application's status is exactly the requested one, also when that reopens a closed
  application or moves it backwards, and its stage is the stage of that status.
\<close>

lemma override_takes_effect:
  assumes override: "override_status now hid tid app status changed_by user db = (Inr r, db')"
    and newest: "newest_event app now now db"
    and st: "normalize_application_status status = Some st"
  shows "sr_status r = show_status st \<and> (\<forall>b\<in>set (db_applications db'). ja_id b = app \<longrightarrow>
    ja_status b = show_status st \<and> ja_current_stage b = Some (map_status_to_stage (show_status st)))"
proof -
  obtain input where i: "record_status_change now hid tid input db = (Inr r, db')"
    "sc_status input = status" "sc_application_id input = app" "sc_timestamp input = Some now"
    "sc_source input = MANUAL"
    using override by (rule override_is_record)
  from i(1) obtain a n nx where
    n: "normalize_application_status (sc_status input) = Some n" and
    h: "db_history db' = db_history db @ [new_history_row now hid input n
       (previous_status a (ordered_history (sc_application_id input) (db_history db)))]" and
    nx: "nx = replay_history (option_or (normalize_application_status (ja_status a)) n)
       (ordered_history (sc_application_id input) (db_history db'))" and
    upd: "(db_applications db' = update_many (\<lambda>x. ja_id x = sc_application_id input)
        (\<lambda>x. x\<lparr>ja_status := show_status nx,
           ja_current_stage := Some (map_status_to_stage (show_status nx)), ja_updated_at := now\<rparr>)
        (db_applications db) \<and> sr_status r = show_status nx) \<or>
     (db_applications db' = db_applications db \<and> sr_status r = ja_status a
        \<and> option_or (normalize_application_status (ja_status a)) nx = nx \<and> sc_source input = EMAIL)"
    by (rule record_effect)
  have "ordered_history app (db_history db') = ordered_history app (db_history db) @
      [new_history_row now hid input n
       (previous_status a (ordered_history (sc_application_id input) (db_history db)))]"
    unfolding h using newest i
    by (intro ordered_history_newest) (auto simp: newest_event_def list_all_iff)
  then have "nx = st"
    using n st i by (simp add: nx apply_transition_def is_manual_source_def)
  then show ?thesis using upd i(3,5) by (auto simp: set_update_many split: if_splits)
qed

lemma override_takes_effect_witness:
  "\<exists>r db'. override_status 20 ''h2'' ''t2'' ''a1'' '' applied '' ''u1'' (Some ''u1'')
      (sample_db REJECTED EMAIL) = (Inr r, db') \<and> sr_status r = show_status APPLIED"
proof -
  have st: "normalize_application_status '' applied '' = Some APPLIED" by code_simp
  have app: "find_change_target \<lparr>sc_application_id = ''a1'', sc_status = '' applied '',
      sc_timestamp = Some 20, sc_source = MANUAL, sc_source_email_id = None,
      sc_changed_by_user_id = Some ''u1'', sc_user_id = Some ''u1'',
      sc_metadata = Some (JObj [(''manualOverride'', JBool True)])\<rparr>
      (db_applications (sample_db REJECTED EMAIL)) = Some (sample_application ''a1'' ''u1'' REJECTED)"
    by (simp add: find_change_target_def sample_db_def sample_application_def)
  obtain r db' where e: "override_status 20 ''h2'' ''t2'' ''a1'' '' applied '' ''u1'' (Some ''u1'')
      (sample_db REJECTED EMAIL) = (Inr r, db')"
    using st app by (simp add: override_status_def record_status_change_def Let_def is_manual_source_def)
  have "newest_event ''a1'' 20 20 (sample_db REJECTED EMAIL)"
    by (simp add: newest_event_def sample_db_def sample_entry_def)
  from override_takes_effect [OF e this st] e show ?thesis by blast
qed

lemma record_returns:
  assumes "normalize_application_status (sc_status i) = Some n"
    and "find_change_target i (db_applications db) = Some a"
  shows "\<exists>r db' p. record_status_change now hid tid i db = (Inr r, db')
    \<and> db_history db' = db_history db @ [new_history_row now hid i n p]
    \<and> sr_history_entry r = map_history (new_history_row now hid i n p)"
  using assms by (cases "record_status_change now hid tid i db")
    (auto simp: record_status_change_def Let_def split: if_splits)

lemma find_change_target_None_iff:
  "find_change_target i apps = None \<longleftrightarrow> \<not> (\<exists>a\<in>set apps. ja_id a = sc_application_id i
     \<and> (case sc_user_id i of None \<Rightarrow> True | Some u \<Rightarrow> u = [] \<or> ja_user_id a = u))"
  by (auto simp: find_change_target_def find_row_None_iff split: option.splits)

text \<open>
  The outcomes of an email update, on every branch. It throws exactly when no application
  has the id and, if a user is given, belongs to that user; the error is then
  \<open>NotFoundError\<close> and the tables are untouched. Otherwise one row is appended to the
  history, holding the status of the email's category.
\<close>

lemma email_update_outcomes:
  "if \<exists>a\<in>set (db_applications db). ja_id a = app
      \<and> (case user of None \<Rightarrow> True | Some u \<Rightarrow> u = [] \<or> ja_user_id a = u)
   then \<exists>r db' e. apply_email_status now hid tid app cl email_id received subject user db = (Inr r, db')
      \<and> db_history db' = db_history db @ [e] \<and> sh_application_id e = app \<and> sh_source e = ''EMAIL''
      \<and> resolve_status_from_email (cl_category cl) = normalize_application_status (sh_status e)
      \<and> sr_history_entry r = map_history e
   else apply_email_status now hid tid app cl email_id received subject user db
      = (Inl (NotFoundError ''Application'' app), db)"
proof -
  obtain st where st: "resolve_status_from_email (cl_category cl) = Some st"
    using resolve_status_total by blast
  let ?i = "email_change_input now app cl email_id received subject user st"
  have i: "sc_application_id ?i = app" "sc_user_id ?i = user" "sc_status ?i = show_status st"
    "sc_source ?i = EMAIL"
    by (simp_all add: email_change_input_def)
  show ?thesis
  proof (cases "find_change_target ?i (db_applications db)")
    case None
    then have no: "\<not> (\<exists>a\<in>set (db_applications db). ja_id a = app
        \<and> (case user of None \<Rightarrow> True | Some u \<Rightarrow> u = [] \<or> ja_user_id a = u))"
      using find_change_target_None_iff [of ?i "db_applications db"] i by auto
    show ?thesis
      unfolding if_not_P [OF no] using None i
      by (simp add: apply_email_status_def record_status_change_def st)
  next
    case (Some a)
    then have "\<exists>a\<in>set (db_applications db). ja_id a = app
        \<and> (case user of None \<Rightarrow> True | Some u \<Rightarrow> u = [] \<or> ja_user_id a = u)"
      using find_change_target_None_iff [of ?i "db_applications db"] i by auto
    moreover have "normalize_application_status (sc_status ?i) = Some st" using i by simp
    from record_returns [OF this Some, of now hid tid] obtain r db' p where
      "record_status_change now hid tid ?i db = (Inr r, db')"
      "db_history db' = db_history db @ [new_history_row now hid ?i st p]"
      "sr_history_entry r = map_history (new_history_row now hid ?i st p)" by blast
    ultimately show ?thesis using i by (simp add: apply_email_status_def st)
  qed
qed

end
