(* ===== verification/Checkpoints.thy ===== *)
theory Checkpoints
  imports Prelude
begin

text \<open>
  \<open>DurableCheckpointService\<close> (\<open>src/src/services/gmail/durable-checkpoint.service.ts\<close>):
  the Gmail sync checkpoint of a user, its lease, and the batches, jobs and operations tracked
  beside it, as the tables of \<open>auth.prisma\<close> hold them. A transaction is one step on the
  tables: the advisory lock a claim takes is held to the end of its transaction, so claims for
  one user do not overlap. \<open>resolve\<close> stands for the user service's resolution of an
  external user id (theory \<open>Users\<close>); \<open>now\<close> is the clock.
\<close>

record gmail_checkpoint =
  cp_user_id :: uid
  cp_current_history_id :: "string option"
  cp_pending_history_id :: "string option"
  cp_page_token :: "string option"
  cp_sync_mode :: string
  cp_version :: int
  cp_status :: string
  cp_last_sync_at :: time
  cp_last_error :: "string option"
  cp_lease_owner :: "string option"
  cp_lease_expires_at :: "time option"
  cp_worker_id :: "string option"

record sync_operation =
  so_id :: uid
  so_user_id :: uid
  so_legacy_user_id :: string
  so_connection_id :: uid
  so_sync_mode :: string
  so_correlation_id :: string
  so_status :: string
  so_attempt :: int
  so_completed_at :: "time option"
  so_error :: "string option"
  so_created_at :: time

record sync_batch =
  sb_id :: uid
  sb_user_id :: uid
  sb_history_id :: string
  sb_page_token :: "string option"
  sb_correlation_id :: "string option"
  sb_status :: string
  sb_total_emails :: "int option"
  sb_processed_count :: int
  sb_failed_count :: int
  sb_completed_at :: "time option"
  sb_error :: "string option"
  sb_created_at :: time

record batch_email_job =
  bj_id :: uid
  bj_batch_id :: uid
  bj_email_id :: uid
  bj_provider_message_id :: string
  bj_status :: string
  bj_attempts :: int
  bj_last_error :: "string option"
  bj_processed_at :: "time option"

record sync_db =
  sy_checkpoints :: "gmail_checkpoint list"
  sy_operations :: "sync_operation list"
  sy_batches :: "sync_batch list"
  sy_jobs :: "batch_email_job list"

definition CHECKPOINT_LEASE_DURATION_MS :: int where
  "CHECKPOINT_LEASE_DURATION_MS = 5 * 60 * 1000"

definition checkpoint_of :: "uid \<Rightarrow> sync_db \<Rightarrow> gmail_checkpoint option" where
  "checkpoint_of user db = find_row (\<lambda>c. cp_user_id c = user) (sy_checkpoints db)"

subsection \<open>The lease\<close>

text \<open>
  \<open>getAdvisoryKey\<close>: JavaScript's shift and bitwise and work on 32-bit integers; the key is
  the absolute value of the signed hash modulo \<open>2^31 - 1\<close>.
\<close>

fun advisory_hash :: "32 word \<Rightarrow> string \<Rightarrow> 32 word" where
  "advisory_hash h [] = h"
| "advisory_hash h (c # cs) = advisory_hash (push_bit 5 h - h + of_char c) cs"

definition get_advisory_key :: "string \<Rightarrow> int" where
  "get_advisory_key user = \<bar>sint (advisory_hash 0 user)\<bar> mod 2147483647"

record claim_result =
  cr_claimed :: bool
  cr_checkpoint :: "gmail_checkpoint option"
  cr_reason :: "string option"

definition is_stale_lease :: "time \<Rightarrow> gmail_checkpoint \<Rightarrow> bool" where
  "is_stale_lease now c = (case cp_lease_expires_at c of None \<Rightarrow> False | Some t \<Rightarrow> t < now)"

definition show_owner :: "string option \<Rightarrow> string" where
  "show_owner owner = (case owner of None \<Rightarrow> ''null'' | Some w \<Rightarrow> w)"

definition claim_checkpoint ::
  "(uid \<Rightarrow> uid) \<Rightarrow> time \<Rightarrow> uid \<Rightarrow> string \<Rightarrow> sync_db \<Rightarrow> claim_result" where
  "claim_checkpoint resolve now user worker db =
     (case checkpoint_of (resolve user) db of
        None \<Rightarrow> \<lparr>cr_claimed = True, cr_checkpoint = None, cr_reason = None\<rparr>
      | Some c \<Rightarrow>
          if cp_status c = ''syncing'' \<and> \<not> is_stale_lease now c then
            if cp_lease_owner c = Some worker
            then \<lparr>cr_claimed = True, cr_checkpoint = Some c, cr_reason = None\<rparr>
            else \<lparr>cr_claimed = False, cr_checkpoint = Some c,
                  cr_reason = Some (''Checkpoint already locked by worker '' @ show_owner (cp_lease_owner c))\<rparr>
          else \<lparr>cr_claimed = True, cr_checkpoint = Some c, cr_reason = None\<rparr>)"

subsection \<open>Starting a sync operation\<close>

record sync_op_result =
  sx_op_id :: uid
  sx_batch_id :: uid

definition upsert_checkpoint ::
  "uid \<Rightarrow> gmail_checkpoint \<Rightarrow> (gmail_checkpoint \<Rightarrow> gmail_checkpoint) \<Rightarrow> gmail_checkpoint list \<Rightarrow> gmail_checkpoint list" where
  "upsert_checkpoint user create upd rows =
     (if find_row (\<lambda>c. cp_user_id c = user) rows = None then rows @ [create]
      else update_many (\<lambda>c. cp_user_id c = user) upd rows)"

definition initialize_body ::
  "(uid \<Rightarrow> uid) \<Rightarrow> time \<Rightarrow> uid \<Rightarrow> uid \<Rightarrow> uid \<Rightarrow> uid \<Rightarrow> string \<Rightarrow> string \<Rightarrow> string \<Rightarrow> string
     \<Rightarrow> string option \<Rightarrow> sync_db \<Rightarrow> (sync_op_result, sync_db) outcome" where
  "initialize_body resolve now op_id batch_id user connection mode correlation history worker page db =
     (let scope = resolve user; claim = claim_checkpoint resolve now scope worker db
      in if \<not> cr_claimed claim
         then (Inl (GenericError (''Cannot initialize sync: '' @ option_or (cr_reason claim) ''undefined'')), db)
         else
           let op = \<lparr>so_id = op_id, so_user_id = scope, so_legacy_user_id = user,
                 so_connection_id = connection, so_sync_mode = mode, so_correlation_id = correlation,
                 so_status = ''running'', so_attempt = 1, so_completed_at = None, so_error = None,
                 so_created_at = now\<rparr>;
               batch = \<lparr>sb_id = batch_id, sb_user_id = scope, sb_history_id = history,
                 sb_page_token = page, sb_correlation_id = Some correlation, sb_status = ''pending'',
                 sb_total_emails = None, sb_processed_count = 0, sb_failed_count = 0,
                 sb_completed_at = None, sb_error = None, sb_created_at = now\<rparr>;
               expires = Some (now + CHECKPOINT_LEASE_DURATION_MS);
               create = \<lparr>cp_user_id = scope, cp_current_history_id = None,
                 cp_pending_history_id = Some history, cp_page_token = page, cp_sync_mode = mode,
                 cp_version = 1, cp_status = ''syncing'', cp_last_sync_at = now, cp_last_error = None,
                 cp_lease_owner = Some worker, cp_lease_expires_at = expires, cp_worker_id = Some worker\<rparr>;
               upd = (\<lambda>c. c\<lparr>cp_pending_history_id := Some history, cp_page_token := page,
                 cp_sync_mode := mode, cp_version := cp_version c + 1, cp_status := ''syncing'',
                 cp_last_sync_at := now, cp_lease_owner := Some worker,
                 cp_lease_expires_at := expires, cp_worker_id := Some worker\<rparr>)
           in (Inr \<lparr>sx_op_id = op_id, sx_batch_id = batch_id\<rparr>,
               db\<lparr>sy_operations := sy_operations db @ [op], sy_batches := sy_batches db @ [batch],
                  sy_checkpoints := upsert_checkpoint scope create upd (sy_checkpoints db)\<rparr>))"

definition initialize_sync_op ::
  "(uid \<Rightarrow> uid) \<Rightarrow> time \<Rightarrow> uid \<Rightarrow> uid \<Rightarrow> uid \<Rightarrow> uid \<Rightarrow> string \<Rightarrow> string \<Rightarrow> string \<Rightarrow> string
     \<Rightarrow> string option \<Rightarrow> sync_db \<Rightarrow> (sync_op_result, sync_db) outcome" where
  "initialize_sync_op resolve now op_id batch_id user connection mode correlation history worker page =
     transaction (initialize_body resolve now op_id batch_id user connection mode correlation history worker page)"

subsection \<open>Advancing the checkpoint\<close>

text \<open>
  \<open>advanceCheckpoint\<close> reads the checkpoint and then updates it where its version is still
  the one read. \<open>env\<close> is what other transactions commit between the read and the update.
\<close>

definition advance_row ::
  "time \<Rightarrow> string option \<Rightarrow> string \<Rightarrow> string option \<Rightarrow> gmail_checkpoint \<Rightarrow> gmail_checkpoint" where
  "advance_row now owner new_history next_page c = c\<lparr>
     cp_current_history_id := Some new_history,
     cp_pending_history_id := (if next_page \<noteq> None then Some new_history else None),
     cp_page_token := next_page,
     cp_status := (if next_page \<noteq> None then ''syncing'' else ''idle''),
     cp_version := cp_version c + 1, cp_last_sync_at := now, cp_last_error := None,
     cp_lease_expires_at := (if next_page \<noteq> None then Some (now + CHECKPOINT_LEASE_DURATION_MS) else None),
     cp_lease_owner := (if next_page \<noteq> None then owner else None)\<rparr>"

definition advance_checkpoint ::
  "(sync_db \<Rightarrow> sync_db) \<Rightarrow> time \<Rightarrow> uid \<Rightarrow> uid \<Rightarrow> string \<Rightarrow> string option \<Rightarrow> sync_db \<Rightarrow> (unit, sync_db) outcome" where
  "advance_checkpoint env now user batch_id new_history next_page db =
     (case find_row (\<lambda>b. sb_id b = batch_id) (sy_batches db) of
        None \<Rightarrow> (Inl (GenericError (''Batch '' @ batch_id @ '' not found'')), env db)
      | Some batch \<Rightarrow>
        (case checkpoint_of (sb_user_id batch) db of
          None \<Rightarrow> (Inl (GenericError (''Checkpoint for user '' @ sb_user_id batch @ '' not found'')), env db)
        | Some checkpoint \<Rightarrow>
          let old_version = cp_version checkpoint; db1 = env db;
              hit = (\<lambda>c. cp_user_id c = sb_user_id batch \<and> cp_version c = old_version)
          in if count_rows hit (sy_checkpoints db1) = 0
             then (Inl (GenericError
                 (''Concurrent checkpoint modification detected for user '' @ sb_user_id batch @
                  ''. Expected version '' @ show_int old_version @ ''. Retry safe.'')), db1)
             else
               let db2 = db1\<lparr>sy_checkpoints := update_many hit
                     (advance_row now (cp_lease_owner checkpoint) new_history (truthy next_page))
                     (sy_checkpoints db1)\<rparr>
               in if find_row (\<lambda>b. sb_id b = batch_id) (sy_batches db2) = None
                  then (Inl (PrismaError ''P2025''), db1)
                  else (Inr (), db2\<lparr>sy_batches := update_many (\<lambda>b. sb_id b = batch_id)
                     (\<lambda>b. b\<lparr>sb_status := (if 0 < sb_failed_count batch
                          then ''completed_with_failures'' else ''completed''),
                        sb_completed_at := Some now\<rparr>) (sy_batches db2)\<rparr>)))"

subsection \<open>Resuming\<close>

datatype resume_action = Continue | Restart_batch | Start_fresh | Fallback_to_initial

record durable_state =
  ds_checkpoint :: "gmail_checkpoint option"
  ds_pending_batch :: "sync_batch option"
  ds_sync_op_id :: "uid option"

definition load_durable_state :: "(uid \<Rightarrow> uid) \<Rightarrow> uid \<Rightarrow> sync_db \<Rightarrow> durable_state" where
  "load_durable_state resolve user db =
     (let scope = resolve user;
          pending = first_by (\<lambda>b. - sb_created_at b)
            (\<lambda>b. sb_user_id b = scope \<and> sb_status b \<in> {''pending'', ''processing''}) (sy_batches db);
          op = (case pending of None \<Rightarrow> None
            | Some _ \<Rightarrow> first_by (\<lambda>o'. - so_created_at o')
                (\<lambda>o'. so_user_id o' = scope \<and> so_status o' = ''running'') (sy_operations db))
      in \<lparr>ds_checkpoint = checkpoint_of scope db, ds_pending_batch = pending,
          ds_sync_op_id = map_option so_id op\<rparr>)"

definition unprocessed_jobs :: "uid \<Rightarrow> sync_db \<Rightarrow> nat" where
  "unprocessed_jobs batch_id db = count_rows (\<lambda>j. bj_batch_id j = batch_id \<and>
     bj_status j \<in> {''pending'', ''processing'', ''retryable''}) (sy_jobs db)"

definition determine_resume_strategy ::
  "(uid \<Rightarrow> uid) \<Rightarrow> uid \<Rightarrow> sync_db \<Rightarrow> bool \<times> durable_state \<times> resume_action" where
  "determine_resume_strategy resolve user db =
     (let state = load_durable_state resolve user db
      in case ds_checkpoint state of
           None \<Rightarrow> (False, state, Start_fresh)
         | Some c \<Rightarrow>
             if cp_status c = ''idle'' then (False, state, Start_fresh)
             else if cp_status c = ''failed'' \<and> truthy (cp_current_history_id c) \<noteq> None
             then (True, state, Continue)
             else if cp_status c = ''syncing'' \<and> ds_pending_batch state \<noteq> None
             then (case ds_pending_batch state of
                 None \<Rightarrow> (False, state, Start_fresh)
               | Some batch \<Rightarrow>
                   if (case sb_total_emails batch of None \<Rightarrow> False | Some n \<Rightarrow> 0 < n)
                      \<and> 0 < unprocessed_jobs (sb_id batch) db
                   then (True, state, Restart_batch) else (True, state, Restart_batch))
             else if cp_status c = ''failed'' \<and> truthy (cp_current_history_id c) = None
             then if cp_sync_mode c = ''INCREMENTAL_SYNC'' then (False, state, Fallback_to_initial)
                  else (False, state, Start_fresh)
             else (False, state, Start_fresh))"

subsection \<open>Keeping, releasing and recovering leases\<close>

definition refresh_lease :: "time \<Rightarrow> uid \<Rightarrow> string \<Rightarrow> sync_db \<Rightarrow> bool \<times> sync_db" where
  "refresh_lease now user worker db =
     (let mine = (\<lambda>c. cp_user_id c = user \<and> cp_lease_owner c = Some worker \<and> cp_status c = ''syncing'')
      in (0 < count_rows mine (sy_checkpoints db),
          db\<lparr>sy_checkpoints := update_many mine
            (\<lambda>c. c\<lparr>cp_lease_expires_at := Some (now + CHECKPOINT_LEASE_DURATION_MS)\<rparr>) (sy_checkpoints db)\<rparr>))"

definition release_lease :: "uid \<Rightarrow> string \<Rightarrow> sync_db \<Rightarrow> sync_db" where
  "release_lease user worker db = db\<lparr>sy_checkpoints :=
     update_many (\<lambda>c. cp_user_id c = user \<and> cp_lease_owner c = Some worker)
       (\<lambda>c. c\<lparr>cp_lease_owner := None, cp_lease_expires_at := None\<rparr>) (sy_checkpoints db)\<rparr>"

definition recover_stale_leases :: "time \<Rightarrow> sync_db \<Rightarrow> nat \<times> sync_db" where
  "recover_stale_leases now db =
     (let stale = (\<lambda>c. cp_status c = ''syncing'' \<and> is_stale_lease now c)
      in (count_rows stale (sy_checkpoints db),
          db\<lparr>sy_checkpoints := update_many stale
            (\<lambda>c. c\<lparr>cp_status := ''idle'', cp_lease_owner := None, cp_lease_expires_at := None,
               cp_last_error := Some ''Stale lease recovered''\<rparr>) (sy_checkpoints db)\<rparr>))"

definition compare_and_set_version ::
  "uid \<Rightarrow> int \<Rightarrow> (gmail_checkpoint \<Rightarrow> gmail_checkpoint) \<Rightarrow> sync_db \<Rightarrow> bool \<times> sync_db" where
  "compare_and_set_version user expected data db =
     (let hit = (\<lambda>c. cp_user_id c = user \<and> cp_version c = expected)
      in (0 < count_rows hit (sy_checkpoints db),
          db\<lparr>sy_checkpoints := update_many hit (\<lambda>c. (data c)\<lparr>cp_version := cp_version c + 1\<rparr>)
            (sy_checkpoints db)\<rparr>))"

subsection \<open>Finishing operations, tracking jobs\<close>

definition finish_operation ::
  "uid \<Rightarrow> (sync_operation \<Rightarrow> sync_operation) \<Rightarrow> sync_db \<Rightarrow> (unit, sync_db) outcome" where
  "finish_operation op_id upd db =
     (if find_row (\<lambda>o'. so_id o' = op_id) (sy_operations db) = None then (Inl (PrismaError ''P2025''), db)
      else (Inr (), db\<lparr>sy_operations := update_many (\<lambda>o'. so_id o' = op_id) upd (sy_operations db)\<rparr>))"

definition complete_sync_op :: "time \<Rightarrow> uid \<Rightarrow> sync_db \<Rightarrow> (unit, sync_db) outcome" where
  "complete_sync_op now op_id =
     finish_operation op_id (\<lambda>o'. o'\<lparr>so_status := ''completed'', so_completed_at := Some now\<rparr>)"

definition fail_sync_op :: "time \<Rightarrow> uid \<Rightarrow> string \<Rightarrow> sync_db \<Rightarrow> (unit, sync_db) outcome" where
  "fail_sync_op now op_id err =
     finish_operation op_id (\<lambda>o'. o'\<lparr>so_status := ''failed'', so_completed_at := Some now,
       so_error := Some err\<rparr>)"

datatype track_status = Processed | Skipped | Failed | Retryable | Permanently_failed

fun show_track_status :: "track_status \<Rightarrow> string" where
  "show_track_status Processed = ''processed''"
| "show_track_status Skipped = ''skipped''"
| "show_track_status Failed = ''failed''"
| "show_track_status Retryable = ''retryable''"
| "show_track_status Permanently_failed = ''permanently_failed''"

definition tracked_jobs ::
  "time \<Rightarrow> uid \<Rightarrow> uid \<Rightarrow> uid \<Rightarrow> string \<Rightarrow> track_status \<Rightarrow> string option \<Rightarrow> batch_email_job list \<Rightarrow> batch_email_job list" where
  "tracked_jobs now job_id batch_id email_id message_id status err jobs =
     (case find_row (\<lambda>j. bj_batch_id j = batch_id \<and> bj_email_id j = email_id) jobs of
        Some e \<Rightarrow> update_many (\<lambda>j. bj_id j = bj_id e)
          (\<lambda>j. j\<lparr>bj_status := show_track_status status, bj_last_error := or_else err (bj_last_error j),
             bj_processed_at := (if status = Processed then Some now else bj_processed_at e),
             bj_attempts := bj_attempts j + 1\<rparr>) jobs
      | None \<Rightarrow> jobs @ [\<lparr>bj_id = job_id, bj_batch_id = batch_id, bj_email_id = email_id,
          bj_provider_message_id = message_id, bj_status = show_track_status status,
          bj_attempts = 1, bj_last_error = err,
          bj_processed_at = (if status = Processed then Some now else None)\<rparr>])"

definition increment_processed :: "track_status \<Rightarrow> int" where
  "increment_processed status = (if status = Processed \<or> status = Skipped then 1 else 0)"

definition increment_failed :: "track_status \<Rightarrow> int" where
  "increment_failed status = (if status = Failed \<or> status = Permanently_failed then 1 else 0)"

definition count_tracked :: "track_status \<Rightarrow> sync_batch \<Rightarrow> sync_batch" where
  "count_tracked status b = b\<lparr>sb_processed_count := sb_processed_count b + increment_processed status,
     sb_failed_count := sb_failed_count b + increment_failed status, sb_status := ''processing''\<rparr>"

definition track_body ::
  "time \<Rightarrow> uid \<Rightarrow> uid \<Rightarrow> uid \<Rightarrow> string \<Rightarrow> track_status \<Rightarrow> string option \<Rightarrow> sync_db \<Rightarrow> (unit, sync_db) outcome" where
  "track_body now job_id batch_id email_id message_id status err db =
     (let existing = find_row (\<lambda>j. bj_batch_id j = batch_id \<and> bj_email_id j = email_id) (sy_jobs db);
          no_batch = (find_row (\<lambda>b. sb_id b = batch_id) (sy_batches db) = None);
          jobs' = tracked_jobs now job_id batch_id email_id message_id status err (sy_jobs db)
      in if existing = None \<and> no_batch then (Inl (PrismaError ''P2003''), db)
         else if 0 < increment_processed status \<or> 0 < increment_failed status then
           if no_batch then (Inl (PrismaError ''P2025''), db)
           else (Inr (), db\<lparr>sy_jobs := jobs', sy_batches :=
             update_many (\<lambda>b. sb_id b = batch_id) (count_tracked status) (sy_batches db)\<rparr>)
         else (Inr (), db\<lparr>sy_jobs := jobs'\<rparr>))"

definition track_email_job ::
  "time \<Rightarrow> uid \<Rightarrow> uid \<Rightarrow> uid \<Rightarrow> string \<Rightarrow> track_status \<Rightarrow> string option \<Rightarrow> sync_db \<Rightarrow> (unit, sync_db) outcome" where
  "track_email_job now job_id batch_id email_id message_id status err =
     transaction (track_body now job_id batch_id email_id message_id status err)"

definition finalize_batch_emails :: "uid \<Rightarrow> sync_db \<Rightarrow> sync_db" where
  "finalize_batch_emails batch_id db = db\<lparr>sy_jobs :=
     update_many (\<lambda>j. bj_batch_id j = batch_id \<and> bj_status j \<in> {''pending'', ''processing''})
       (\<lambda>j. j\<lparr>bj_status := ''skipped'', bj_last_error := Some ''Batch finalized before processing''\<rparr>)
       (sy_jobs db)\<rparr>"

subsection \<open>Lemmas\<close>

lemma checkpoint_of_user: "checkpoint_of u db = Some c \<Longrightarrow> cp_user_id c = u"
  by (auto simp: checkpoint_of_def dest: find_row_SomeD)

lemma checkpoint_of_update [simp]:
  assumes "\<And>c. cp_user_id (f c) = cp_user_id c"
  shows "checkpoint_of u (db\<lparr>sy_checkpoints := update_many P f (sy_checkpoints db)\<rparr>)
    = map_option (\<lambda>c. if P c then f c else c) (checkpoint_of u db)"
  by (simp add: checkpoint_of_def find_row_update_many_same assms)

lemma checkpoint_of_frame [simp]:
  "checkpoint_of u (db\<lparr>sy_batches := bs\<rparr>) = checkpoint_of u db"
  "checkpoint_of u (db\<lparr>sy_operations := os\<rparr>) = checkpoint_of u db"
  "checkpoint_of u (db\<lparr>sy_jobs := js\<rparr>) = checkpoint_of u db"
  by (simp_all add: checkpoint_of_def)

lemma find_upsert:
  assumes "\<And>c. cp_user_id (upd c) = cp_user_id c" and "cp_user_id create = v"
  shows "find_row (\<lambda>c. cp_user_id c = u) (upsert_checkpoint v create upd rows) =
    (if u = v then Some (case find_row (\<lambda>c. cp_user_id c = v) rows of None \<Rightarrow> create | Some c \<Rightarrow> upd c)
     else find_row (\<lambda>c. cp_user_id c = u) rows)"
proof (cases "find_row (\<lambda>c. cp_user_id c = v) rows")
  case None
  then show ?thesis
    by (auto simp: upsert_checkpoint_def find_row_append assms(2) split: option.splits)
next
  case (Some c)
  have "find_row (\<lambda>c. cp_user_id c = u) (update_many (\<lambda>c. cp_user_id c = v) upd rows)
      = map_option (\<lambda>c. if cp_user_id c = v then upd c else c) (find_row (\<lambda>c. cp_user_id c = u) rows)"
    by (rule find_row_update_many_same) (simp add: assms)
  with Some find_row_SomeD [OF Some] show ?thesis
    by (cases "find_row (\<lambda>c. cp_user_id c = u) rows")
      (auto simp: upsert_checkpoint_def dest: find_row_SomeD)
qed

text \<open>What a successful initialisation has done to the checkpoint of a user.\<close>

definition initialized_row :: "time \<Rightarrow> uid \<Rightarrow> string \<Rightarrow> string \<Rightarrow> string \<Rightarrow> string option
    \<Rightarrow> gmail_checkpoint option \<Rightarrow> gmail_checkpoint" where
  "initialized_row now scope mode history worker page old = \<lparr>cp_user_id = scope,
     cp_current_history_id = (case old of None \<Rightarrow> None | Some c \<Rightarrow> cp_current_history_id c),
     cp_pending_history_id = Some history, cp_page_token = page, cp_sync_mode = mode,
     cp_version = (case old of None \<Rightarrow> 1 | Some c \<Rightarrow> cp_version c + 1), cp_status = ''syncing'',
     cp_last_sync_at = now, cp_last_error = (case old of None \<Rightarrow> None | Some c \<Rightarrow> cp_last_error c),
     cp_lease_owner = Some worker, cp_lease_expires_at = Some (now + CHECKPOINT_LEASE_DURATION_MS),
     cp_worker_id = Some worker\<rparr>"

lemma initialize_cases:
  "initialize_sync_op resolve now op_id batch_id user connection mode correlation history worker page db = (r, db')
   \<Longrightarrow> (case r of
        Inl e \<Rightarrow> db' = db \<and> \<not> cr_claimed (claim_checkpoint resolve now (resolve user) worker db)
      | Inr x \<Rightarrow> cr_claimed (claim_checkpoint resolve now (resolve user) worker db)
          \<and> x = \<lparr>sx_op_id = op_id, sx_batch_id = batch_id\<rparr>
          \<and> (\<forall>u. checkpoint_of u db' = (if u = resolve user
              then Some (initialized_row now u mode history worker page (checkpoint_of u db))
              else checkpoint_of u db)))"
  using checkpoint_of_user [of "resolve user" db]
  by (cases "checkpoint_of (resolve user) db")
    (auto simp: initialize_sync_op_def transaction_def initialize_body_def Let_def checkpoint_of_def
      find_upsert initialized_row_def split: if_splits)

lemma claim_held:
  assumes "checkpoint_of (resolve user) db = Some c" and "cp_status c = ''syncing''"
    and "\<not> is_stale_lease now c" and "cp_lease_owner c \<noteq> Some worker"
  shows "\<not> cr_claimed (claim_checkpoint resolve now user worker db)"
  using assms by (simp add: claim_checkpoint_def)

lemma claim_free:
  assumes "\<And>c. checkpoint_of (resolve user) db = Some c \<Longrightarrow>
    cp_status c \<noteq> ''syncing'' \<or> is_stale_lease now c \<or> cp_lease_owner c = Some worker"
  shows "cr_claimed (claim_checkpoint resolve now user worker db)"
  using assms by (auto simp: claim_checkpoint_def split: option.splits)

lemma initialize_refused:
  assumes "resolve (resolve user) = resolve user"
    and "checkpoint_of (resolve user) db = Some c" and "cp_status c = ''syncing''"
    and "\<not> is_stale_lease now c" and "cp_lease_owner c \<noteq> Some worker"
  shows "\<exists>e. initialize_sync_op resolve now op_id batch_id user connection mode correlation history worker page db
    = (Inl e, db)"
proof -
  have "\<not> cr_claimed (claim_checkpoint resolve now (resolve user) worker db)"
    by (rule claim_held) (use assms in simp_all)
  then show ?thesis
    by (cases "initialize_sync_op resolve now op_id batch_id user connection mode correlation history worker page db")
      (auto dest!: initialize_cases split: sum.splits)
qed

lemma initialize_granted:
  assumes "cr_claimed (claim_checkpoint resolve now (resolve user) worker db)"
  shows "\<exists>db'. initialize_sync_op resolve now op_id batch_id user connection mode correlation history worker page db
    = (Inr \<lparr>sx_op_id = op_id, sx_batch_id = batch_id\<rparr>, db')"
  by (cases "initialize_sync_op resolve now op_id batch_id user connection mode correlation history worker page db")
    (use assms in \<open>auto dest!: initialize_cases split: sum.splits\<close>)

lemma get_advisory_key_bounds: "0 \<le> get_advisory_key user" "get_advisory_key user < 2147483647"
  by (simp_all add: get_advisory_key_def)

subsection \<open>Properties of the lease\<close>

definition empty_sync_db :: sync_db where
  "empty_sync_db = \<lparr>sy_checkpoints = [], sy_operations = [], sy_batches = [], sy_jobs = []\<rparr>"

definition sample_checkpoint :: "int \<Rightarrow> gmail_checkpoint" where
  "sample_checkpoint v = \<lparr>cp_user_id = ''u'', cp_current_history_id = None, cp_pending_history_id = None,
     cp_page_token = None, cp_sync_mode = ''INITIAL_SYNC'', cp_version = v, cp_status = ''syncing'',
     cp_last_sync_at = 0, cp_last_error = None, cp_lease_owner = Some ''w'',
     cp_lease_expires_at = Some 100, cp_worker_id = Some ''w''\<rparr>"

definition sample_batch :: "int \<Rightarrow> int \<Rightarrow> int option \<Rightarrow> sync_batch" where
  "sample_batch n failed tot = \<lparr>sb_id = ''b'', sb_user_id = ''u'', sb_history_id = ''h'',
     sb_page_token = None, sb_correlation_id = None, sb_status = ''processing'',
     sb_total_emails = tot, sb_processed_count = n, sb_failed_count = failed,
     sb_completed_at = None, sb_error = None, sb_created_at = 0\<rparr>"

definition sample_sync_db :: "int \<Rightarrow> sync_db" where
  "sample_sync_db v = \<lparr>sy_checkpoints = [sample_checkpoint v], sy_operations = [],
     sy_batches = [sample_batch 0 0 None], sy_jobs = []\<rparr>"



text \<open>
  A worker that crashed does not block the user for ever. Once the lease of a checkpoint
  has expired, every worker can start a sync, with or without the recovery sweep before it,
  and the checkpoint then carries the new worker's lease and a higher version.
\<close>

lemma expired_lease_recoverable:
  assumes res: "resolve (resolve user) = resolve user"
    and c: "checkpoint_of (resolve user) db = Some c" and "is_stale_lease now c"
    and db: "db1 = db \<or> db1 = snd (recover_stale_leases now db)"
  shows "\<exists>x db2 c2. initialize_sync_op resolve now op_id batch_id user connection mode correlation history
      worker page db1 = (Inr x, db2)
    \<and> checkpoint_of (resolve user) db2 = Some c2 \<and> cp_lease_owner c2 = Some worker
    \<and> cp_version c2 = cp_version c + 1"
proof -
  let ?c = "\<lambda>c. c\<lparr>cp_status := ''idle'', cp_lease_owner := None, cp_lease_expires_at := None,
    cp_last_error := Some ''Stale lease recovered''\<rparr>"
  have "checkpoint_of (resolve user) db1 = Some c \<or>
    (cp_status c = ''syncing'' \<and> checkpoint_of (resolve user) db1 = Some (?c c))"
    using db c assms(3) by (cases "cp_status c = ''syncing''") (auto simp: recover_stale_leases_def Let_def)
  then obtain c1 where c1: "checkpoint_of (resolve user) db1 = Some c1"
    "cp_status c1 \<noteq> ''syncing'' \<or> is_stale_lease now c1" "cp_version c1 = cp_version c"
    using assms(3) by force
  have "cr_claimed (claim_checkpoint resolve now (resolve user) worker db1)"
    by (rule claim_free) (use c1 res in auto)
  from initialize_granted [OF this] obtain db2 where i:
    "initialize_sync_op resolve now op_id batch_id user connection mode correlation history worker page db1
      = (Inr \<lparr>sx_op_id = op_id, sx_batch_id = batch_id\<rparr>, db2)" by blast
  then have "checkpoint_of (resolve user) db2 =
      Some (initialized_row now (resolve user) mode history worker page (Some c1))"
    using initialize_cases [OF i] c1 by simp
  with i c1 show ?thesis by (simp add: initialized_row_def)
qed

lemma expired_lease_recoverable_witness:
  "\<exists>x db2 c2. initialize_sync_op id 200 ''o2'' ''b2'' ''u'' ''c'' ''INITIAL_SYNC'' ''k'' ''h'' ''w2'' None (sample_sync_db 3)
      = (Inr x, db2) \<and> checkpoint_of ''u'' db2 = Some c2 \<and> cp_version c2 = 4"
proof -
  have c: "checkpoint_of (id ''u'') (sample_sync_db 3) = Some (sample_checkpoint 3)"
    by (simp add: checkpoint_of_def sample_sync_db_def sample_checkpoint_def)
  have "is_stale_lease 200 (sample_checkpoint 3)"
    by (simp add: is_stale_lease_def sample_checkpoint_def)
  from expired_lease_recoverable [where resolve = id and user = "''u''" and worker = "''w2''" and op_id = "''o2''"
      and batch_id = "''b2''" and connection = "''c''" and mode = "''INITIAL_SYNC''" and correlation = "''k''"
      and history = "''h''" and page = None, OF _ c this disjI1 [OF refl]]
  show ?thesis by (auto simp: sample_checkpoint_def)
qed



subsection \<open>Resuming\<close>

text \<open>
  The resume strategy is decided by the checkpoint and the pending batch alone. A sync can
  be resumed exactly when it failed after some history was committed, or is still marked as
  running with a batch in progress; then the batch to restart is the user's newest one that
  is pending or processing. In every other case the answer is not to resume.
\<close>

lemma resume_strategy_sound:
  "case determine_resume_strategy resolve user db of (can_resume, state, action) \<Rightarrow>
     ds_checkpoint state = checkpoint_of (resolve user) db
   \<and> can_resume = (\<exists>c. checkpoint_of (resolve user) db = Some c
       \<and> (cp_status c = ''failed'' \<and> truthy (cp_current_history_id c) \<noteq> None
          \<or> cp_status c = ''syncing'' \<and> ds_pending_batch state \<noteq> None))
   \<and> can_resume = (action \<in> {Continue, Restart_batch})
   \<and> (action = Restart_batch \<longrightarrow> (\<exists>b\<in>set (sy_batches db). ds_pending_batch state = Some b
       \<and> sb_user_id b = resolve user \<and> sb_status b \<in> {''pending'', ''processing''}
       \<and> (\<forall>b'\<in>set (sy_batches db). sb_user_id b' = resolve user \<and> sb_status b' \<in> {''pending'', ''processing''}
            \<longrightarrow> sb_created_at b' \<le> sb_created_at b)))"
proof -
  let ?s = "load_durable_state resolve user db"
  let ?P = "\<lambda>b. sb_user_id b = resolve user \<and> sb_status b \<in> {''pending'', ''processing''}"
  have cp: "ds_checkpoint ?s = checkpoint_of (resolve user) db"
    by (simp add: load_durable_state_def Let_def)
  have pend: "ds_pending_batch ?s = first_by (\<lambda>b. - sb_created_at b) ?P (sy_batches db)"
    by (simp add: load_durable_state_def Let_def)
  have newest: "b \<in> set (sy_batches db) \<and> ?P b \<and> (\<forall>b'\<in>set (sy_batches db). ?P b' \<longrightarrow> sb_created_at b' \<le> sb_created_at b)"
    if "ds_pending_batch ?s = Some b" for b
    using first_by_SomeD [OF that [unfolded pend]] first_by_least [OF that [unfolded pend]] by force
  show ?thesis
  proof (cases "checkpoint_of (resolve user) db")
    case None
    with cp show ?thesis by (simp add: determine_resume_strategy_def Let_def)
  next
    case (Some c)
    show ?thesis
    proof (cases "ds_pending_batch ?s")
      case None
      with Some cp show ?thesis by (simp add: determine_resume_strategy_def Let_def)
    next
      case (Some b)
      from newest [OF this] Some cp \<open>checkpoint_of (resolve user) db = Some c\<close> show ?thesis
        by (auto simp: determine_resume_strategy_def Let_def)
    qed
  qed
qed

lemma resume_strategy_sound_witness:
  "case determine_resume_strategy id ''u'' (sample_sync_db 3) of (can_resume, state, action) \<Rightarrow>
     can_resume \<and> action = Restart_batch \<and> map_option sb_id (ds_pending_batch state) = Some ''b''"
proof -
  have "first_by (\<lambda>b. - sb_created_at b) (\<lambda>b. sb_user_id b = ''u'' \<and> sb_status b \<in> {''pending'', ''processing''})
      (sy_batches (sample_sync_db 3)) = Some (sample_batch 0 0 None)"
    by (simp add: first_by_def sample_sync_db_def sample_batch_def)
  then show ?thesis
    using resume_strategy_sound [of id "''u''" "sample_sync_db 3"]
    by (simp add: determine_resume_strategy_def load_durable_state_def Let_def sample_sync_db_def checkpoint_of_def
        sample_checkpoint_def sample_batch_def)
qed

subsection \<open>Properties of advancing\<close>

lemma advance_Inr:
  assumes "advance_checkpoint env now user batch_id history next_page db = (Inr (), db')"
    and "find_row (\<lambda>b. sb_id b = batch_id) (sy_batches db) = Some batch"
    and "checkpoint_of (sb_user_id batch) db = Some c"
  shows "\<exists>d\<in>set (sy_checkpoints (env db)). cp_user_id d = sb_user_id batch \<and> cp_version d = cp_version c"
    and "checkpoint_of u db' = map_option (\<lambda>d. if cp_user_id d = sb_user_id batch \<and> cp_version d = cp_version c
      then advance_row now (cp_lease_owner c) history (truthy next_page) d else d) (checkpoint_of u (env db))"
  using assms
  by (auto simp: advance_checkpoint_def Let_def count_rows_0_iff advance_row_def split: if_splits)

lemma advance_Inr_reads:
  assumes "advance_checkpoint env now user batch_id history next_page db = (Inr (), db')"
  obtains batch c where "find_row (\<lambda>b. sb_id b = batch_id) (sy_batches db) = Some batch"
    "checkpoint_of (sb_user_id batch) db = Some c"
  using assms by (auto simp: advance_checkpoint_def split: option.splits)

text \<open>
  C12: no lost update. Whatever other transactions commit between the read and the write of
  \<open>advanceCheckpoint\<close>: if the version of the user's checkpoint is no longer the one that
  was read, it throws and changes nothing; if it returns, it replaced exactly the version it
  had read by the next one, with the new history id.
\<close>

theorem advance_no_lost_update:
  assumes "find_row (\<lambda>b. sb_id b = batch_id) (sy_batches db) = Some batch"
    and "checkpoint_of (sb_user_id batch) db = Some c"
    and uniq: "distinct (map cp_user_id (sy_checkpoints (env db)))"
    and c': "checkpoint_of (sb_user_id batch) (env db) = Some c'"
  shows "case advance_checkpoint env now user batch_id history next_page db of
      (Inl e, db') \<Rightarrow> db' = env db
    | (Inr _, db') \<Rightarrow> cp_version c' = cp_version c
        \<and> checkpoint_of (sb_user_id batch) db' = Some (advance_row now (cp_lease_owner c) history (truthy next_page) c')"
proof (cases "advance_checkpoint env now user batch_id history next_page db")
  case (Pair r db')
  show ?thesis
  proof (cases r)
    case (Inl e)
    with Pair assms(1,2) show ?thesis
      by (auto simp: advance_checkpoint_def Let_def split: if_splits)
  next
    case (Inr v)
    have eq: "advance_checkpoint env now user batch_id history next_page db = (Inr (), db')"
      using Pair Inr by simp
    then obtain d where d: "d \<in> set (sy_checkpoints (env db))" "cp_user_id d = sb_user_id batch"
      "cp_version d = cp_version c" using advance_Inr(1) [OF eq assms(1,2)] by blast
    note upd = advance_Inr(2) [OF eq assms(1,2), of "sb_user_id batch"]
    have "c' \<in> set (sy_checkpoints (env db))" "cp_user_id c' = sb_user_id batch"
      using c' by (auto simp: checkpoint_of_def dest: find_row_SomeD)
    with distinct_key_unique [OF uniq] d have "c' = d" by auto
    with d upd c' show ?thesis using Pair Inr by simp
  qed
qed

theorem advance_no_lost_update_witness:
  "\<exists>db'. advance_checkpoint (\<lambda>_. sample_sync_db 4) 50 ''u'' ''b'' ''h2'' None (sample_sync_db 3)
      = (Inl (GenericError (''Concurrent checkpoint modification detected for user u. Expected version '' @ show_int 3
          @ ''. Retry safe.'')), db')
    \<and> db' = sample_sync_db 4"
proof -
  have b: "find_row (\<lambda>b. sb_id b = ''b'') (sy_batches (sample_sync_db 3)) = Some (sample_batch 0 0 None)"
    by (simp add: sample_sync_db_def sample_batch_def)
  have c: "checkpoint_of (sb_user_id (sample_batch 0 0 None)) (sample_sync_db v) = Some (sample_checkpoint v)" for v
    by (simp add: checkpoint_of_def sample_sync_db_def sample_batch_def sample_checkpoint_def)
  have uniq: "distinct (map cp_user_id (sy_checkpoints (sample_sync_db 4)))"
    by (simp add: sample_sync_db_def)
  have "advance_checkpoint (\<lambda>_. sample_sync_db 4) 50 ''u'' ''b'' ''h2'' None (sample_sync_db 3)
      = (Inl (GenericError (''Concurrent checkpoint modification detected for user u. Expected version '' @ show_int 3
          @ ''. Retry safe.'')), sample_sync_db 4)"
    using b c by (simp add: advance_checkpoint_def Let_def count_rows_def sample_sync_db_def
        sample_batch_def sample_checkpoint_def)
  with advance_no_lost_update [where batch_id = "''b''" and env = "\<lambda>_. sample_sync_db 4" and now = 50
      and user = "''u''" and history = "''h2''" and next_page = None, OF b c uniq c]
  show ?thesis by simp
qed

text \<open>The states of the sync tables other operations lead to keep one checkpoint per user.\<close>

inductive sync_step :: "sync_db \<Rightarrow> sync_db \<Rightarrow> bool" where
  initialize: "initialize_sync_op resolve now op_id batch_id user connection mode correlation history worker page db
     = (Inr x, db') \<Longrightarrow> sync_step db db'"
| advance: "advance_checkpoint id now user batch_id history next_page db = (Inr (), db') \<Longrightarrow> sync_step db db'"
| refresh: "refresh_lease now user worker db = (b, db') \<Longrightarrow> sync_step db db'"
| release: "sync_step db (release_lease user worker db)"
| recover: "recover_stale_leases now db = (n, db') \<Longrightarrow> sync_step db db'"
| complete: "complete_sync_op now op_id db = (Inr (), db') \<Longrightarrow> sync_step db db'"
| fail: "fail_sync_op now op_id err db = (Inr (), db') \<Longrightarrow> sync_step db db'"
| track: "track_email_job now job_id batch_id email_id message_id status err db = (Inr (), db') \<Longrightarrow> sync_step db db'"
| finalize: "sync_step db (finalize_batch_emails batch_id db)"

definition version_of :: "uid \<Rightarrow> sync_db \<Rightarrow> int" where
  "version_of u db = (case checkpoint_of u db of None \<Rightarrow> 0 | Some c \<Rightarrow> cp_version c)"

lemma version_of_cong: "sy_checkpoints db = sy_checkpoints db' \<Longrightarrow> version_of u db = version_of u db'"
  by (simp add: version_of_def checkpoint_of_def)

lemma update_keeps_version:
  assumes "\<And>c. cp_user_id (f c) = cp_user_id c" and "\<And>c. cp_version c \<le> cp_version (f c)"
  shows "version_of u db \<le> version_of u (db\<lparr>sy_checkpoints := update_many P f (sy_checkpoints db)\<rparr>)"
  using assms by (simp add: version_of_def split: option.split)

lemma sync_step_version: "sync_step db db' \<Longrightarrow> version_of u db \<le> version_of u db'"
proof (induction rule: sync_step.induct)
  case (initialize resolve now op_id batch_id user connection mode correlation history worker page db x db')
  from initialize_cases [OF this] show ?case
    by (auto simp: version_of_def initialized_row_def split: option.split)
next
  case (advance now user batch_id history next_page db db')
  then obtain batch c where "find_row (\<lambda>b. sb_id b = batch_id) (sy_batches db) = Some batch"
    "checkpoint_of (sb_user_id batch) db = Some c" by (rule advance_Inr_reads)
  note upd = advance_Inr(2) [OF advance this, of u]
  show ?case
    by (cases "checkpoint_of u db") (simp_all add: version_of_def upd advance_row_def)
next
  case (refresh now user worker db b db')
  then show ?case by (auto simp: refresh_lease_def Let_def intro!: update_keeps_version)
next
  case (release db user worker)
  show ?case by (auto simp: release_lease_def intro!: update_keeps_version)
next
  case (recover now db n db')
  then show ?case by (auto simp: recover_stale_leases_def Let_def intro!: update_keeps_version)
next
  case (complete now op_id db db')
  then have "sy_checkpoints db = sy_checkpoints db'"
    by (auto simp: complete_sync_op_def finish_operation_def split: if_splits)
  then show ?case using version_of_cong [of db db' u] by simp
next
  case (fail now op_id err db db')
  then have "sy_checkpoints db = sy_checkpoints db'"
    by (auto simp: fail_sync_op_def finish_operation_def split: if_splits)
  then show ?case using version_of_cong [of db db' u] by simp
next
  case (track now job_id batch_id email_id message_id status err db db')
  then have "sy_checkpoints db = sy_checkpoints db'"
    by (auto simp: track_email_job_def transaction_def track_body_def Let_def split: if_splits)
  then show ?case using version_of_cong [of db db' u] by simp
next
  case (finalize db batch_id)
  have "sy_checkpoints db = sy_checkpoints (finalize_batch_emails batch_id db)"
    by (simp add: finalize_batch_emails_def)
  then show ?case using version_of_cong [of db "finalize_batch_emails batch_id db" u] by simp
qed

text \<open>
  The version of a user's checkpoint never decreases, along every sequence of operations
  of the service by any workers: the counter the optimistic check relies on is monotone.
\<close>

lemma checkpoint_version_monotone:
  assumes "rtranclp sync_step db db'"
  shows "version_of u db \<le> version_of u db'"
  using assms
proof (induction rule: rtranclp_induct)
  case base
  show ?case by simp
next
  case (step db1 db2)
  then show ?case using sync_step_version [of db1 db2 u] by simp
qed

lemma checkpoint_version_monotone_witness:
  "\<exists>db'. rtranclp sync_step empty_sync_db db' \<and> version_of ''u'' empty_sync_db \<le> version_of ''u'' db'"
proof -
  have "cr_claimed (claim_checkpoint id 0 (id ''u'') ''w1'' empty_sync_db)"
    by (simp add: claim_checkpoint_def checkpoint_of_def empty_sync_db_def)
  from initialize_granted [OF this] obtain db1 where
    "initialize_sync_op id 0 ''o1'' ''b1'' ''u'' ''c'' ''INITIAL_SYNC'' ''k'' ''h'' ''w1'' None empty_sync_db
      = (Inr \<lparr>sx_op_id = ''o1'', sx_batch_id = ''b1''\<rparr>, db1)" by blast
  then have "rtranclp sync_step empty_sync_db db1" by (blast intro: sync_step.initialize)
  then show ?thesis using checkpoint_version_monotone by blast
qed

subsection \<open>Properties of the job tracking\<close>

definition attempts_of :: "uid \<Rightarrow> batch_email_job list \<Rightarrow> int" where
  "attempts_of batch_id jobs = sum_list (map bj_attempts (filter (\<lambda>j. bj_batch_id j = batch_id) jobs))"

definition jobs_ok :: "sync_db \<Rightarrow> bool" where
  "jobs_ok db = (distinct (map bj_id (sy_jobs db))
     \<and> distinct (map (\<lambda>j. (bj_batch_id j, bj_email_id j)) (sy_jobs db))
     \<and> (\<forall>b\<in>set (sy_batches db). sb_processed_count b + sb_failed_count b \<le> attempts_of (sb_id b) (sy_jobs db)))"

lemma attempts_of_simps [simp]:
  "attempts_of b [] = 0"
  "attempts_of b (j # js) = (if bj_batch_id j = b then bj_attempts j else 0) + attempts_of b js"
  "attempts_of b (js @ js') = attempts_of b js + attempts_of b js'"
  by (simp_all add: attempts_of_def)

lemma attempts_of_update:
  assumes "distinct (map bj_id jobs)" and "e \<in> set jobs"
    and "\<And>j. bj_batch_id (f j) = bj_batch_id j" and "\<And>j. bj_attempts (f j) = bj_attempts j + 1"
  shows "attempts_of b (update_many (\<lambda>j. bj_id j = bj_id e) f jobs)
    = attempts_of b jobs + (if bj_batch_id e = b then 1 else 0)"
  using assms(1,2)
proof (induction jobs)
  case Nil
  then show ?case by simp
next
  case (Cons j js)
  show ?case
  proof (cases "bj_id j = bj_id e")
    case True
    then have "e = j" using Cons.prems by (auto simp: image_iff)
    moreover have "update_many (\<lambda>j. bj_id j = bj_id e) f js = js"
      using Cons.prems True by (intro update_many_none) (auto simp: image_iff)
    ultimately show ?thesis by (simp add: assms(3,4))
  next
    case False
    then have "e \<in> set js" using Cons.prems by auto
    with Cons False show ?thesis by simp
  qed
qed

lemma track_Inr:
  assumes "track_email_job now job_id batch_id email_id message_id status err db = (Inr (), db')"
  shows "sy_jobs db' = tracked_jobs now job_id batch_id email_id message_id status err (sy_jobs db)"
    and "\<forall>b'\<in>set (sy_batches db'). \<exists>b\<in>set (sy_batches db). sb_id b = sb_id b' \<and>
      sb_processed_count b' + sb_failed_count b'
        \<le> sb_processed_count b + sb_failed_count b + (if sb_id b = batch_id then 1 else 0)"
proof -
  from assms have cases: "sy_jobs db' = tracked_jobs now job_id batch_id email_id message_id status err (sy_jobs db)
    \<and> sy_batches db' \<in> {sy_batches db, update_many (\<lambda>b. sb_id b = batch_id) (count_tracked status) (sy_batches db)}"
    by (auto simp: track_email_job_def transaction_def track_body_def Let_def split: if_splits)
  then show "sy_jobs db' = tracked_jobs now job_id batch_id email_id message_id status err (sy_jobs db)" by simp
  have "increment_processed status + increment_failed status \<le> 1"
    by (simp add: increment_processed_def increment_failed_def)
  with cases show "\<forall>b'\<in>set (sy_batches db'). \<exists>b\<in>set (sy_batches db). sb_id b = sb_id b' \<and>
      sb_processed_count b' + sb_failed_count b'
        \<le> sb_processed_count b + sb_failed_count b + (if sb_id b = batch_id then 1 else 0)"
    by (force simp: set_update_many count_tracked_def)
qed

lemma tracked_job_present:
  "\<exists>j\<in>set (tracked_jobs now job_id batch_id email_id message_id status err jobs).
     bj_batch_id j = batch_id \<and> bj_email_id j = email_id"
proof (cases "find_row (\<lambda>j. bj_batch_id j = batch_id \<and> bj_email_id j = email_id) jobs")
  case None
  then show ?thesis by (simp add: tracked_jobs_def)
next
  case (Some e)
  then have e: "e \<in> set jobs" "bj_batch_id e = batch_id" "bj_email_id e = email_id"
    by (auto dest: find_row_SomeD)
  show ?thesis unfolding tracked_jobs_def Some option.case set_update_many
    by (rule bexI [OF _ imageI [OF e(1)]]) (simp add: e)
qed

lemma tracked_jobs_keys:
  assumes "distinct (map bj_id jobs)" and "distinct (map (\<lambda>j. (bj_batch_id j, bj_email_id j)) jobs)"
    and "job_id \<notin> bj_id ` set jobs"
    and jobs'_def: "jobs' = tracked_jobs now job_id batch_id email_id message_id status err jobs"
  shows "distinct (map bj_id jobs')" and "distinct (map (\<lambda>j. (bj_batch_id j, bj_email_id j)) jobs')"
    and "attempts_of b jobs' = attempts_of b jobs + (if b = batch_id then 1 else 0)"
proof -
  have "distinct (map bj_id jobs') \<and> distinct (map (\<lambda>j. (bj_batch_id j, bj_email_id j)) jobs')
    \<and> attempts_of b jobs' = attempts_of b jobs + (if b = batch_id then 1 else 0)"
  proof (cases "find_row (\<lambda>j. bj_batch_id j = batch_id \<and> bj_email_id j = email_id) jobs")
    case None
    then obtain j where j: "jobs' = jobs @ [j]" "bj_id j = job_id" "bj_batch_id j = batch_id" "bj_email_id j = email_id"
      "bj_attempts j = 1" by (simp add: jobs'_def tracked_jobs_def)
    show ?thesis using None assms(1-3) unfolding j(1) find_row_None_iff by (auto simp: j(2-))
  next
    case (Some e)
    then have e: "e \<in> set jobs" "bj_batch_id e = batch_id" by (auto dest: find_row_SomeD)
    have "map bj_id jobs' = map bj_id jobs"
      "map (\<lambda>j. (bj_batch_id j, bj_email_id j)) jobs' = map (\<lambda>j. (bj_batch_id j, bj_email_id j)) jobs"
      by (simp_all add: jobs'_def tracked_jobs_def Some map_update_many_key)
    moreover have "attempts_of b jobs' = attempts_of b jobs + (if bj_batch_id e = b then 1 else 0)"
      unfolding jobs'_def tracked_jobs_def Some option.case
      by (rule attempts_of_update [OF assms(1) e(1)]) simp_all
    ultimately show ?thesis using assms(1,2) e by auto
  qed
  then show "distinct (map bj_id jobs')" "distinct (map (\<lambda>j. (bj_batch_id j, bj_email_id j)) jobs')"
    "attempts_of b jobs' = attempts_of b jobs + (if b = batch_id then 1 else 0)" by simp_all
qed

text \<open>
  Tracking an email keeps one job row for each email of a batch, counts the attempt in
  that row, and never counts more successes and failures in a batch than attempts were made.
\<close>

lemma tracking_keeps_jobs_ok:
  assumes "jobs_ok db" and "job_id \<notin> bj_id ` set (sy_jobs db)"
    and "track_email_job now job_id batch_id email_id message_id status err db = (Inr (), db')"
  shows "jobs_ok db' \<and> (\<exists>!j. j \<in> set (sy_jobs db') \<and> bj_batch_id j = batch_id \<and> bj_email_id j = email_id)
    \<and> attempts_of batch_id (sy_jobs db') = attempts_of batch_id (sy_jobs db) + 1"
proof -
  note jobs = track_Inr(1) [OF assms(3)]
  have d: "distinct (map bj_id (sy_jobs db))" "distinct (map (\<lambda>j. (bj_batch_id j, bj_email_id j)) (sy_jobs db))"
    using assms(1) by (simp_all add: jobs_ok_def)
  note keys = tracked_jobs_keys [OF d assms(2), where now = now and batch_id = batch_id and email_id = email_id
      and message_id = message_id and status = status and err = err, OF jobs]
  have ok: "jobs_ok db'"
    unfolding jobs_ok_def
  proof (intro conjI keys(1) keys(2) ballI)
    fix b' assume "b' \<in> set (sy_batches db')"
    then obtain b where b: "b \<in> set (sy_batches db)" "sb_id b = sb_id b'"
      "sb_processed_count b' + sb_failed_count b'
        \<le> sb_processed_count b + sb_failed_count b + (if sb_id b = batch_id then 1 else 0)"
      using track_Inr(2) [OF assms(3)] by blast
    have "sb_processed_count b + sb_failed_count b \<le> attempts_of (sb_id b) (sy_jobs db)"
      using assms(1) b(1) by (simp add: jobs_ok_def)
    with b keys(3) [of "sb_id b"]
    show "sb_processed_count b' + sb_failed_count b' \<le> attempts_of (sb_id b') (sy_jobs db')" by simp
  qed
  have "\<exists>j\<in>set (sy_jobs db'). bj_batch_id j = batch_id \<and> bj_email_id j = email_id"
    unfolding jobs by (rule tracked_job_present)
  moreover have "j = j'" if "j \<in> set (sy_jobs db')" "j' \<in> set (sy_jobs db')"
      "bj_batch_id j = bj_batch_id j'" "bj_email_id j = bj_email_id j'" for j j'
    using distinct_key_unique [OF keys(2) that(1,2)] that by simp
  ultimately have "\<exists>!j. j \<in> set (sy_jobs db') \<and> bj_batch_id j = batch_id \<and> bj_email_id j = email_id"
    by (metis (no_types, lifting))
  with ok keys(3) [of batch_id] show ?thesis by simp
qed

lemma tracking_keeps_jobs_ok_witness:
  "\<exists>db'. track_email_job 5 ''j1'' ''b'' ''e'' ''m'' Processed None (sample_sync_db 1) = (Inr (), db') \<and> jobs_ok db'"
proof -
  have ok: "jobs_ok (sample_sync_db 1)" and new: "''j1'' \<notin> bj_id ` set (sy_jobs (sample_sync_db 1))"
    by (simp_all add: jobs_ok_def sample_sync_db_def sample_batch_def)
  obtain db' where "track_email_job 5 ''j1'' ''b'' ''e'' ''m'' Processed None (sample_sync_db 1) = (Inr (), db')"
    by (auto simp: track_email_job_def transaction_def track_body_def Let_def increment_processed_def
        sample_sync_db_def sample_batch_def)
  with tracking_keeps_jobs_ok [OF ok new this] show ?thesis by blast
qed

end
