(* ===== verification/Gmail_Checkpoint.thy ===== *)
theory Gmail_Checkpoint
  imports Checkpoints
begin

text \<open>
  \<open>GmailCheckpointService\<close> (\<open>src/src/services/gmail/checkpoint.service.ts\<close>), the second
  service that writes the sync tables of theory \<open>Checkpoints\<close>: it starts, counts, completes
  and fails batches without leases or versions. \<open>is_uuid\<close> stands for the database's check of
  a value for a \<open>uuid\<close> column; Prisma answers P2023 where it fails. User rows are not part of
  the tables; the foreign keys that point to them are taken to hold.
\<close>

definition get_current_checkpoint :: "uid \<Rightarrow> sync_db \<Rightarrow> gmail_checkpoint option" where
  "get_current_checkpoint user db = checkpoint_of user db"

definition start_batch :: "time \<Rightarrow> uid \<Rightarrow> uid \<Rightarrow> string \<Rightarrow> sync_db \<Rightarrow> (uid, sync_db) outcome" where
  "start_batch now batch_id user new_history db =
     (let batch = \<lparr>sb_id = batch_id, sb_user_id = user, sb_history_id = new_history,
            sb_page_token = None, sb_correlation_id = None, sb_status = ''pending'',
            sb_total_emails = None, sb_processed_count = 0, sb_failed_count = 0,
            sb_completed_at = None, sb_error = None, sb_created_at = now\<rparr>;
          create = \<lparr>cp_user_id = user, cp_current_history_id = None,
            cp_pending_history_id = Some new_history, cp_page_token = None,
            cp_sync_mode = ''INCREMENTAL_SYNC'', cp_version = 1, cp_status = ''syncing'',
            cp_last_sync_at = now, cp_last_error = None, cp_lease_owner = None,
            cp_lease_expires_at = None, cp_worker_id = None\<rparr>;
          upd = (\<lambda>c. c\<lparr>cp_pending_history_id := Some new_history, cp_status := ''syncing'',
            cp_last_sync_at := now\<rparr>)
      in (Inr batch_id, db\<lparr>sy_batches := sy_batches db @ [batch],
            sy_checkpoints := upsert_checkpoint user create upd (sy_checkpoints db)\<rparr>))"

datatype mark_status = Completed | Mark_failed

definition show_mark_status :: "mark_status \<Rightarrow> string" where
  "show_mark_status s = (case s of Completed \<Rightarrow> ''completed'' | Mark_failed \<Rightarrow> ''failed'')"

definition mark_body ::
  "(string \<Rightarrow> bool) \<Rightarrow> time \<Rightarrow> uid \<Rightarrow> uid \<Rightarrow> uid \<Rightarrow> string \<Rightarrow> mark_status \<Rightarrow> string option
     \<Rightarrow> sync_db \<Rightarrow> (unit, sync_db) outcome" where
  "mark_body is_uuid now job_id batch_id email_id message_id status err db =
     (let key = ''job:'' @ batch_id @ '':'' @ email_id;
          processed_at = (if status = Completed then Some now else None);
          jobs' = (if find_row (\<lambda>j. bj_id j = key) (sy_jobs db) = None
            then sy_jobs db @ [\<lparr>bj_id = job_id, bj_batch_id = batch_id, bj_email_id = email_id,
                bj_provider_message_id = message_id, bj_status = show_mark_status status,
                bj_attempts = 1, bj_last_error = err, bj_processed_at = processed_at\<rparr>]
            else update_many (\<lambda>j. bj_id j = key)
                (\<lambda>j. j\<lparr>bj_status := show_mark_status status, bj_last_error := or_else err (bj_last_error j),
                  bj_processed_at := processed_at, bj_attempts := bj_attempts j + 1\<rparr>) (sy_jobs db))
      in if \<not> is_uuid key then (Inl (PrismaError ''P2023''), db)
         else if find_row (\<lambda>b. sb_id b = batch_id) (sy_batches db) = None
         then (Inl (PrismaError ''P2025''), db)
         else (Inr (), db\<lparr>sy_jobs := jobs', sy_batches := update_many (\<lambda>b. sb_id b = batch_id)
            (\<lambda>b. b\<lparr>sb_processed_count := sb_processed_count b + (if status = Completed then 1 else 0),
               sb_failed_count := sb_failed_count b + (if status = Mark_failed then 1 else 0),
               sb_status := ''processing''\<rparr>) (sy_batches db)\<rparr>))"

definition mark_email_processed ::
  "(string \<Rightarrow> bool) \<Rightarrow> time \<Rightarrow> uid \<Rightarrow> uid \<Rightarrow> uid \<Rightarrow> string \<Rightarrow> mark_status \<Rightarrow> string option
     \<Rightarrow> sync_db \<Rightarrow> (unit, sync_db) outcome" where
  "mark_email_processed is_uuid now job_id batch_id email_id message_id status err =
     transaction (mark_body is_uuid now job_id batch_id email_id message_id status err)"

definition complete_batch :: "time \<Rightarrow> uid \<Rightarrow> sync_db \<Rightarrow> (unit, sync_db) outcome" where
  "complete_batch now batch_id db =
     (case find_row (\<lambda>b. sb_id b = batch_id) (sy_batches db) of
        None \<Rightarrow> (Inl (GenericError (''Batch '' @ batch_id @ '' or associated checkpoint not found'')), db)
      | Some batch \<Rightarrow>
        (case checkpoint_of (sb_user_id batch) db of
          None \<Rightarrow> (Inl (GenericError (''Batch '' @ batch_id @ '' or associated checkpoint not found'')), db)
        | Some checkpoint \<Rightarrow>
          if sb_processed_count batch + sb_failed_count batch < option_or (sb_total_emails batch) 0
          then (Inr (), db)
          else
            let mine = (\<lambda>c. cp_user_id c = sb_user_id batch);
                upd = (if sb_failed_count batch = 0
                  then (\<lambda>c. c\<lparr>cp_current_history_id := cp_pending_history_id checkpoint,
                         cp_pending_history_id := None, cp_status := ''idle'', cp_last_sync_at := now\<rparr>)
                  else (\<lambda>c. c\<lparr>cp_status := ''failed'', cp_last_error := Some (show_int (sb_failed_count batch)
                         @ '' emails failed in batch '' @ batch_id)\<rparr>))
            in (Inr (), db\<lparr>sy_checkpoints := update_many mine upd (sy_checkpoints db),
                  sy_batches := update_many (\<lambda>b. sb_id b = batch_id)
                    (\<lambda>b. b\<lparr>sb_status := (if sb_failed_count batch = 0 then ''completed'' else ''failed''),
                      sb_completed_at := Some now\<rparr>) (sy_batches db)\<rparr>)))"

definition fail_batch_body :: "time \<Rightarrow> uid \<Rightarrow> string \<Rightarrow> sync_db \<Rightarrow> (unit, sync_db) outcome" where
  "fail_batch_body now batch_id err db =
     (case find_row (\<lambda>b. sb_id b = batch_id) (sy_batches db) of
        None \<Rightarrow> (Inl (PrismaError ''P2025''), db)
      | Some batch \<Rightarrow>
          let db1 = db\<lparr>sy_batches := update_many (\<lambda>b. sb_id b = batch_id)
                (\<lambda>b. b\<lparr>sb_status := ''failed'', sb_error := Some err, sb_completed_at := Some now\<rparr>)
                (sy_batches db)\<rparr>
          in if checkpoint_of (sb_user_id batch) db1 = None then (Inl (PrismaError ''P2025''), db1)
             else (Inr (), db1\<lparr>sy_checkpoints := update_many (\<lambda>c. cp_user_id c = sb_user_id batch)
                (\<lambda>c. c\<lparr>cp_status := ''failed'', cp_last_error := Some err\<rparr>) (sy_checkpoints db1)\<rparr>))"

definition fail_batch :: "time \<Rightarrow> uid \<Rightarrow> string \<Rightarrow> sync_db \<Rightarrow> (unit, sync_db) outcome" where
  "fail_batch now batch_id err = transaction (fail_batch_body now batch_id err)"

definition get_pending_batch :: "uid \<Rightarrow> sync_db \<Rightarrow> sync_batch option" where
  "get_pending_batch user db = first_by (\<lambda>b. - sb_created_at b)
     (\<lambda>b. sb_user_id b = user \<and> sb_status b \<in> {''pending'', ''processing''}) (sy_batches db)"

definition set_batch_total :: "uid \<Rightarrow> int \<Rightarrow> sync_db \<Rightarrow> (unit, sync_db) outcome" where
  "set_batch_total batch_id n db =
     (if find_row (\<lambda>b. sb_id b = batch_id) (sy_batches db) = None then (Inl (PrismaError ''P2025''), db)
      else (Inr (), db\<lparr>sy_batches := update_many (\<lambda>b. sb_id b = batch_id)
        (\<lambda>b. b\<lparr>sb_total_emails := Some n\<rparr>) (sy_batches db)\<rparr>))"

subsection \<open>Properties\<close>

text \<open>
  Completing a batch moves the history cursor of its user exactly when enough emails were
  counted and none failed; then the cursor becomes the pending history id. If an email failed
  the cursor stays and the checkpoint is marked failed, and if too few were counted nothing
  changes at all. Other users' checkpoints never change.
\<close>

lemma complete_batch_cursor:
  assumes "find_row (\<lambda>b. sb_id b = batch_id) (sy_batches db) = Some b"
    and "checkpoint_of (sb_user_id b) db = Some c"
  shows "\<exists>db'. complete_batch now batch_id db = (Inr (), db')
    \<and> (\<forall>u. u \<noteq> sb_user_id b \<longrightarrow> checkpoint_of u db' = checkpoint_of u db)
    \<and> (if sb_processed_count b + sb_failed_count b < option_or (sb_total_emails b) 0 then db' = db
       else \<exists>c'. checkpoint_of (sb_user_id b) db' = Some c' \<and>
         (if sb_failed_count b = 0
          then cp_current_history_id c' = cp_pending_history_id c \<and> cp_pending_history_id c' = None
            \<and> cp_status c' = ''idle''
          else cp_current_history_id c' = cp_current_history_id c \<and> cp_status c' = ''failed''
            \<and> cp_pending_history_id c' = cp_pending_history_id c))"
proof -
  have other: "map_option (\<lambda>c. if cp_user_id c = sb_user_id b then f c else c) (checkpoint_of u db) = checkpoint_of u db"
    if "u \<noteq> sb_user_id b" for u f
    using that checkpoint_of_user [of u db] by (cases "checkpoint_of u db") auto
  show ?thesis
    using assms checkpoint_of_user [OF assms(2)] other
    by (simp add: complete_batch_def Let_def)
qed

lemma complete_batch_cursor_witness:
  "\<exists>db'. complete_batch 9 ''b'' (sample_sync_db 1) = (Inr (), db')
    \<and> map_option cp_status (checkpoint_of ''u'' db') = Some ''idle''"
proof -
  have "find_row (\<lambda>b. sb_id b = ''b'') (sy_batches (sample_sync_db 1)) = Some (sample_batch 0 0 None)"
    "checkpoint_of (sb_user_id (sample_batch 0 0 None)) (sample_sync_db 1) = Some (sample_checkpoint 1)"
    by (simp_all add: sample_sync_db_def sample_batch_def checkpoint_of_def sample_checkpoint_def)
  from complete_batch_cursor [OF this, of 9] show ?thesis
    by (auto simp: sample_batch_def)
qed

text \<open>
  No email of a batch is ever reported to its checkpoint by \<open>markEmailProcessed\<close>. The row
  is looked up by the key \<open>job:batch:email\<close> in a \<open>uuid\<close> column, which the database
  rejects, so every call throws and changes nothing.
\<close>

lemma mark_email_processed_always_fails:
  assumes "\<And>s. is_uuid s \<Longrightarrow> s = [] \<or> hd s \<in> set ''0123456789abcdefABCDEF''"
  shows "mark_email_processed is_uuid now job_id batch_id email_id message_id status err db
    = (Inl (PrismaError ''P2023''), db)"
proof -
  have "\<not> is_uuid (''job:'' @ batch_id @ '':'' @ email_id)"
    using assms [of "''job:'' @ batch_id @ '':'' @ email_id"] by auto
  then have "fst (mark_body is_uuid now job_id batch_id email_id message_id status err db) = Inl (PrismaError ''P2023'')"
    by (simp add: mark_body_def Let_def)
  then show ?thesis unfolding mark_email_processed_def by (rule transaction_Inl)
qed

lemma mark_email_processed_always_fails_witness:
  "mark_email_processed (\<lambda>s. length s = 36 \<and> hd s \<in> set ''0123456789abcdefABCDEF'') 0 ''j'' ''b'' ''e'' ''m'' Completed None
     (sample_sync_db 1) = (Inl (PrismaError ''P2023''), sample_sync_db 1)"
  by (rule mark_email_processed_always_fails) simp

text \<open>
  A batch started by this service locks the sync workers of the durable service out. It
  marks the checkpoint of a user without one as running but takes no lease, so until the batch
  is completed or failed no worker can start a sync for that user, at any time.
\<close>

lemma start_batch_locks_out_workers:
  assumes "resolve (resolve user) = resolve user" and "checkpoint_of (resolve user) db = None"
    and "start_batch t batch_id (resolve user) history db = (Inr b, db1)"
  shows "\<exists>e. initialize_sync_op resolve now op_id batch_id' user connection mode correlation history'
      worker page db1 = (Inl e, db1)"
proof -
  have "\<exists>c. checkpoint_of (resolve user) db1 = Some c \<and> cp_status c = ''syncing''
      \<and> cp_lease_expires_at c = None \<and> cp_lease_owner c = None"
    using assms(2,3) by (auto simp: start_batch_def Let_def checkpoint_of_def upsert_checkpoint_def find_row_append)
  then obtain c where "checkpoint_of (resolve user) db1 = Some c" "cp_status c = ''syncing''"
    "\<not> is_stale_lease now c" "cp_lease_owner c \<noteq> Some worker"
    by (auto simp: is_stale_lease_def)
  then show ?thesis by (rule initialize_refused [OF assms(1)])
qed

lemma start_batch_locks_out_workers_witness:
  "\<exists>db1 e. start_batch 0 ''b'' ''u'' ''h'' empty_sync_db = (Inr ''b'', db1)
    \<and> initialize_sync_op id 99999999 ''o'' ''b2'' ''u'' ''c'' ''INITIAL_SYNC'' ''k'' ''h'' ''w'' None db1 = (Inl e, db1)"
proof -
  obtain db1 where s: "start_batch 0 ''b'' (id ''u'') ''h'' empty_sync_db = (Inr ''b'', db1)"
    by (simp add: start_batch_def Let_def)
  have "checkpoint_of (id ''u'') empty_sync_db = None"
    by (simp add: empty_sync_db_def checkpoint_of_def)
  from start_batch_locks_out_workers [where resolve = id and user = "''u''" and now = 99999999 and op_id = "''o''"
      and batch_id' = "''b2''" and connection = "''c''" and mode = "''INITIAL_SYNC''" and correlation = "''k''"
      and history' = "''h''" and worker = "''w''" and page = None, OF _ this s] s
  show ?thesis by auto
qed

text \<open>
  Retries are counted twice, so a batch can be completed before all its emails were
  processed. Tracking one email as processed twice brings the count of a fresh batch to two;
  completing a batch of two emails then advances the cursor although the other email was
  never tracked.
\<close>

lemma retry_counts_twice:
  assumes "find_row (\<lambda>b. sb_id b = batch_id) (sy_batches db) = Some b"
    and "sb_processed_count b = 0" and "sb_failed_count b = 0" and "sb_total_emails b = Some 2"
    and "checkpoint_of (sb_user_id b) db = Some c"
    and "track_email_job t1 job1 batch_id email_id message_id Processed None db = (Inr (), db1)"
    and "track_email_job t2 job2 batch_id email_id message_id Processed None db1 = (Inr (), db2)"
  shows "\<exists>db3 c3. complete_batch now batch_id db2 = (Inr (), db3)
    \<and> checkpoint_of (sb_user_id b) db3 = Some c3 \<and> cp_current_history_id c3 = cp_pending_history_id c"
proof -
  let ?count = "count_tracked Processed"
  have cong: "sb_id (?count b) = sb_id b" for b by (simp add: count_tracked_def)
  have step: "find_row (\<lambda>b. sb_id b = batch_id) (sy_batches d') = Some (?count b) \<and> checkpoint_of u d' = checkpoint_of u d"
    if "track_email_job t job batch_id email_id message_id Processed None d = (Inr (), d')"
      "find_row (\<lambda>b. sb_id b = batch_id) (sy_batches d) = Some b" for t job d d' b u
    using that find_row_SomeD [OF that(2)]
    by (auto simp: track_email_job_def transaction_def track_body_def Let_def increment_processed_def
        find_row_update_many_same cong split: if_splits)
  note s1 = step [OF assms(6,1)]
  note s2 = step [OF assms(7) conjunct1 [OF s1]]
  have cp: "checkpoint_of (sb_user_id (?count (?count b))) db2 = Some c"
    using s1 s2 assms(5) by (simp add: count_tracked_def)
  then have "complete_batch now batch_id db2 = (Inr (), db2\<lparr>
      sy_checkpoints := update_many (\<lambda>c. cp_user_id c = sb_user_id b)
        (\<lambda>d. d\<lparr>cp_current_history_id := cp_pending_history_id c, cp_pending_history_id := None,
          cp_status := ''idle'', cp_last_sync_at := now\<rparr>) (sy_checkpoints db2),
      sy_batches := update_many (\<lambda>b. sb_id b = batch_id)
        (\<lambda>b. b\<lparr>sb_status := ''completed'', sb_completed_at := Some now\<rparr>) (sy_batches db2)\<rparr>)"
    using s2 assms(2-4)
    by (simp add: complete_batch_def Let_def count_tracked_def increment_processed_def increment_failed_def)
  with cp show ?thesis using checkpoint_of_user [OF assms(5)] by (simp add: count_tracked_def)
qed

lemma retry_counts_twice_witness:
  "\<exists>db1 db2 db3. track_email_job 1 ''j1'' ''b'' ''e'' ''m'' Processed None
      ((sample_sync_db 1)\<lparr>sy_batches := [sample_batch 0 0 (Some 2)]\<rparr>) = (Inr (), db1)
    \<and> track_email_job 2 ''j2'' ''b'' ''e'' ''m'' Processed None db1 = (Inr (), db2)
    \<and> complete_batch 3 ''b'' db2 = (Inr (), db3)"
proof -
  let ?db = "(sample_sync_db 1)\<lparr>sy_batches := [sample_batch 0 0 (Some 2)]\<rparr>"
  have b: "find_row (\<lambda>b. sb_id b = ''b'') (sy_batches ?db) = Some (sample_batch 0 0 (Some 2))"
    by (simp add: sample_batch_def)
  have c: "checkpoint_of (sb_user_id (sample_batch 0 0 (Some 2))) ?db = Some (sample_checkpoint 1)"
    by (simp add: checkpoint_of_def sample_sync_db_def sample_checkpoint_def sample_batch_def)
  have z: "sb_processed_count (sample_batch 0 0 (Some 2)) = 0" "sb_failed_count (sample_batch 0 0 (Some 2)) = 0"
    "sb_total_emails (sample_batch 0 0 (Some 2)) = Some 2" by (simp_all add: sample_batch_def)
  obtain db1 where t1: "track_email_job 1 ''j1'' ''b'' ''e'' ''m'' Processed None ?db = (Inr (), db1)"
    and "sy_batches db1 = [count_tracked Processed (sample_batch 0 0 (Some 2))]"
    by (auto simp: track_email_job_def transaction_def track_body_def Let_def increment_processed_def
        sample_sync_db_def sample_batch_def)
  then obtain db2 where t2: "track_email_job 2 ''j2'' ''b'' ''e'' ''m'' Processed None db1 = (Inr (), db2)"
    by (auto simp: track_email_job_def transaction_def track_body_def Let_def increment_processed_def
        count_tracked_def sample_batch_def)
  from retry_counts_twice [OF b z c t1 t2, of 3] t1 t2 show ?thesis by blast
qed

end
