(* ===== verification/Claim_Guard.thy ===== *)
theory Claim_Guard
  imports Prelude
begin

text \<open>
  The interface of a guard that admits one runner at a time: an attempt to claim a key either
  gives the runner a token, which then holds the key, or is refused; no operation takes the key
  from its token unless it releases it. The idempotency records, the sync leases and the lock
  of the application service are instances.
\<close>

locale claim_guard =
  fixes claim :: "'c \<Rightarrow> 's \<Rightarrow> 'i option \<times> 's"
    and key_of :: "'c \<Rightarrow> 'k"
    and holds :: "'i \<Rightarrow> 'k \<Rightarrow> 's \<Rightarrow> bool"
    and step :: "'o \<Rightarrow> 's \<Rightarrow> 's"
    and releases :: "'i \<Rightarrow> 'o \<Rightarrow> bool"
    and passes :: "'i \<Rightarrow> 'c \<Rightarrow> bool"
  assumes claim_holds: "claim c s = (Some i, s') \<Longrightarrow> holds i (key_of c) s'"
    and held_excludes: "holds i (key_of c) s \<Longrightarrow> \<not> passes i c \<Longrightarrow> fst (claim c s) = None"
    and step_keeps: "holds i k s \<Longrightarrow> \<not> releases i oper \<Longrightarrow> holds i k (step oper s)"
begin

lemma run_keeps: "holds i k s \<Longrightarrow> \<forall>oper\<in>set opers. \<not> releases i oper \<Longrightarrow> holds i k (fold step opers s)"
  by (induction opers arbitrary: s) (simp_all add: step_keeps)

text \<open>No second claim of a key succeeds while its first holder has not released it.\<close>

lemma exclusive:
  assumes "claim c s = (Some i, s')" and "\<forall>oper\<in>set opers. \<not> releases i oper"
    and "key_of c' = key_of c" and "\<not> passes i c'"
  shows "fst (claim c' (fold step opers s')) = None"
proof (rule held_excludes)
  show "holds i (key_of c') (fold step opers s')"
    using run_keeps [OF claim_holds [OF assms(1)] assms(2)] assms(3) by simp
qed (rule assms(4))

end

end
