(* ===== verification/Idempotency.thy ===== *)
theory Idempotency
  imports Claim_Guard
begin

text \<open>
  \<open>IdempotencyService\<close> and the canonical keys (\<open>src/src/services/idempotency\<close>): the table
  of idempotency records, the two-phase protocol claim, effect, commit or abort, the one-call
  variant, and the key builders. \<open>sha256\<close> stands for the hexadecimal digest of the crypto
  library. A call is one step on the table; \<open>now\<close> and the fresh row id are arguments.
\<close>

subsection \<open>Keys\<close>

definition MAX_KEY_LENGTH :: nat where
  "MAX_KEY_LENGTH = 255"

definition truncate_key :: "(string \<Rightarrow> string) \<Rightarrow> string \<Rightarrow> string" where
  "truncate_key sha256 key = (if length key \<le> MAX_KEY_LENGTH then key
     else take (MAX_KEY_LENGTH - 16) key @ take 16 (sha256 key))"

definition key_for_app_from_email :: "(string \<Rightarrow> string) \<Rightarrow> string \<Rightarrow> string" where
  "key_for_app_from_email sha256 message_id = truncate_key sha256 (''app:email'' @ '':'' @ message_id)"

definition with_salt :: "string \<Rightarrow> string option \<Rightarrow> string" where
  "with_salt base salt = (case truthy salt of None \<Rightarrow> base | Some s \<Rightarrow> base @ '':'' @ s)"

definition key_for_app_from_manual ::
  "(string \<Rightarrow> string) \<Rightarrow> string \<Rightarrow> string \<Rightarrow> string option \<Rightarrow> string" where
  "key_for_app_from_manual sha256 user opportunity salt =
     truncate_key sha256 (with_salt (''app:manual'' @ '':'' @ user @ '':'' @ opportunity) salt)"

definition key_for_outcome_from_email :: "(string \<Rightarrow> string) \<Rightarrow> string \<Rightarrow> string" where
  "key_for_outcome_from_email sha256 message_id = truncate_key sha256 (''outcome:email'' @ '':'' @ message_id)"

definition key_for_user_action ::
  "(string \<Rightarrow> string) \<Rightarrow> string \<Rightarrow> string \<Rightarrow> string \<Rightarrow> string \<Rightarrow> string" where
  "key_for_user_action sha256 user app action hash =
     truncate_key sha256 (''action:user'' @ '':'' @ user @ '':'' @ app @ '':'' @ action @ '':'' @ hash)"

definition key_for_status_transition ::
  "(string \<Rightarrow> string) \<Rightarrow> string \<Rightarrow> string \<Rightarrow> string \<Rightarrow> string option \<Rightarrow> string" where
  "key_for_status_transition sha256 app new_status source email =
     truncate_key sha256 (with_salt (''status:transition'' @ '':'' @ app @ '':'' @ new_status @ '':'' @ source) email)"

definition job_id_for_email_ingestion :: "(string \<Rightarrow> string) \<Rightarrow> string \<Rightarrow> string" where
  "job_id_for_email_ingestion sha256 email_id = truncate_key sha256 (''job:email'' @ '':'' @ email_id)"

definition job_id_for_resume_operation :: "(string \<Rightarrow> string) \<Rightarrow> string \<Rightarrow> string \<Rightarrow> string" where
  "job_id_for_resume_operation sha256 hash_id operation =
     truncate_key sha256 (''job:resume'' @ '':'' @ hash_id @ '':'' @ operation)"

definition job_id_for_application_merge ::
  "(string \<Rightarrow> string) \<Rightarrow> string \<Rightarrow> string \<Rightarrow> string \<Rightarrow> string" where
  "job_id_for_application_merge sha256 user primary duplicate =
     truncate_key sha256 (''merge:application'' @ '':'' @ user @ '':'' @ primary @ '':'' @ duplicate)"

definition occurrence_hash :: "(string \<Rightarrow> string) \<Rightarrow> string \<Rightarrow> string \<Rightarrow> string" where
  "occurrence_hash sha1 timestamp extra = take 12 (sha1 (timestamp @ ''|'' @ extra))"

definition IDEMPOTENCY_PREFIXES :: "string list" where
  "IDEMPOTENCY_PREFIXES = [''app:email:'', ''app:manual:'', ''outcome:email:'', ''action:user:'',
     ''status:transition:'', ''job:email:'', ''job:resume:'', ''merge:application:'']"

definition is_well_formed_key :: "string \<Rightarrow> bool" where
  "is_well_formed_key key = (key \<noteq> [] \<and> length key \<le> MAX_KEY_LENGTH
     \<and> list_ex (\<lambda>p. starts_with key p) IDEMPOTENCY_PREFIXES)"

subsection \<open>The records\<close>

record idempotency_record =
  ir_id :: uid
  ir_key :: string
  ir_operation_type :: string
  ir_result_id :: string
  ir_result_data :: "json option"
  ir_expires_at :: time

record idempotency_result =
  already_executed :: bool
  result_id :: "string option"
  result_data :: "json option"

datatype claim_outcome =
    Claimed uid
  | Unclaimed "string option" "json option"

definition DEFAULT_IDEMPOTENCY_TTL_DAYS :: int where
  "DEFAULT_IDEMPOTENCY_TTL_DAYS = 60"

definition IN_PROGRESS :: string where
  "IN_PROGRESS = ''00000000-0000-0000-0000-000000000000''"

definition compute_expires_at :: "time \<Rightarrow> int \<Rightarrow> time" where
  "compute_expires_at now ttl_days =
     now + (if 0 < ttl_days then ttl_days else DEFAULT_IDEMPOTENCY_TTL_DAYS) * (24 * 60 * 60 * 1000)"

definition validate_key :: "string \<Rightarrow> bool \<Rightarrow> error option" where
  "validate_key key strict =
     (if strict \<and> \<not> is_well_formed_key key
      then Some (ValidationError (''Idempotency key \"'' @ key @ ''\" does not match any canonical scheme. '' @
          ''Import a key builder from idempotency.keys.ts.''))
      else if key = [] then Some (ValidationError ''Idempotency key cannot be empty.'')
      else None)"

definition record_of :: "string \<Rightarrow> idempotency_record list \<Rightarrow> idempotency_record option" where
  "record_of key rows = find_row (\<lambda>r. ir_key r = key) rows"

definition final_result_id :: "idempotency_record option \<Rightarrow> string option" where
  "final_result_id row = (case row of None \<Rightarrow> None
     | Some r \<Rightarrow> if ir_result_id r = [] \<or> ir_result_id r = IN_PROGRESS then None else Some (ir_result_id r))"

definition stored_data :: "idempotency_record option \<Rightarrow> json option" where
  "stored_data row = (case row of None \<Rightarrow> None | Some r \<Rightarrow> ir_result_data r)"

definition record_or_get ::
  "time \<Rightarrow> uid \<Rightarrow> string \<Rightarrow> string \<Rightarrow> string \<Rightarrow> json option \<Rightarrow> int option \<Rightarrow> bool option
     \<Rightarrow> idempotency_record list \<Rightarrow> (idempotency_result, idempotency_record list) outcome" where
  "record_or_get now fresh key operation rid data ttl strict rows =
     (case validate_key key (option_or strict True) of Some e \<Rightarrow> (Inl e, rows)
      | None \<Rightarrow>
        if record_of key rows = None
        then (Inr \<lparr>already_executed = False, result_id = Some rid, result_data = data\<rparr>,
              rows @ [\<lparr>ir_id = fresh, ir_key = key, ir_operation_type = operation, ir_result_id = rid,
                 ir_result_data = data,
                 ir_expires_at = compute_expires_at now (option_or ttl DEFAULT_IDEMPOTENCY_TTL_DAYS)\<rparr>])
        else (Inr \<lparr>already_executed = True, result_id = map_option ir_result_id (record_of key rows),
                result_data = stored_data (record_of key rows)\<rparr>, rows))"

definition claim ::
  "time \<Rightarrow> uid \<Rightarrow> string \<Rightarrow> string \<Rightarrow> int option \<Rightarrow> bool option
     \<Rightarrow> idempotency_record list \<Rightarrow> (claim_outcome, idempotency_record list) outcome" where
  "claim now fresh key operation ttl strict rows =
     (case validate_key key (option_or strict True) of Some e \<Rightarrow> (Inl e, rows)
      | None \<Rightarrow>
        if record_of key rows = None
        then (Inr (Claimed fresh),
              rows @ [\<lparr>ir_id = fresh, ir_key = key, ir_operation_type = operation, ir_result_id = IN_PROGRESS,
                 ir_result_data = None,
                 ir_expires_at = compute_expires_at now (option_or ttl DEFAULT_IDEMPOTENCY_TTL_DAYS)\<rparr>])
        else if map_option ir_result_id (record_of key rows) = Some IN_PROGRESS
        then (Inr (Unclaimed None (Some (JObj [(''__inProgress'', JBool True)]))), rows)
        else (Inr (Unclaimed (final_result_id (record_of key rows)) (stored_data (record_of key rows))), rows))"

definition commit ::
  "uid \<Rightarrow> string \<Rightarrow> json option \<Rightarrow> idempotency_record list \<Rightarrow> (unit, idempotency_record list) outcome" where
  "commit record_id rid data rows =
     (if find_row (\<lambda>r. ir_id r = record_id) rows = None then (Inl (PrismaError ''P2025''), rows)
      else (Inr (), update_many (\<lambda>r. ir_id r = record_id)
        (\<lambda>r. r\<lparr>ir_result_id := rid, ir_result_data := data\<rparr>) rows))"

definition abort :: "uid \<Rightarrow> idempotency_record list \<Rightarrow> idempotency_record list" where
  "abort record_id rows = delete_many (\<lambda>r. ir_id r = record_id) rows"

definition check :: "string \<Rightarrow> idempotency_record list \<Rightarrow> idempotency_result" where
  "check key rows = (let row = record_of key rows in
     \<lparr>already_executed = (row \<noteq> None \<and> final_result_id row \<noteq> None), result_id = final_result_id row,
      result_data = stored_data row\<rparr>)"

definition cleanup_expired :: "time \<Rightarrow> idempotency_record list \<Rightarrow> nat \<times> idempotency_record list" where
  "cleanup_expired before rows =
     (count_rows (\<lambda>r. ir_expires_at r < before) rows, delete_many (\<lambda>r. ir_expires_at r < before) rows)"

subsection \<open>Properties of the keys\<close>

lemma length_truncate_key: "length (truncate_key sha256 key) \<le> MAX_KEY_LENGTH"
  by (simp add: truncate_key_def MAX_KEY_LENGTH_def)

lemma starts_with_truncate_key:
  assumes "starts_with key p" and "length p \<le> MAX_KEY_LENGTH - 16"
  shows "starts_with (truncate_key sha256 key) p"
proof -
  obtain t where "key = p @ t" using assms(1) by (auto simp: starts_with_iff)
  then show ?thesis using assms(2) by (auto simp: truncate_key_def starts_with_iff)
qed

lemma starts_with_salt: "starts_with base p \<Longrightarrow> starts_with (with_salt base salt) p"
  by (auto simp: with_salt_def starts_with_iff split: option.split)

lemma key_prefixes:
  "starts_with (key_for_app_from_email sha256 m) ''app:email:''"
  "starts_with (key_for_app_from_manual sha256 u opp salt) ''app:manual:''"
  "starts_with (key_for_outcome_from_email sha256 m) ''outcome:email:''"
  "starts_with (key_for_user_action sha256 u a act h) ''action:user:''"
  "starts_with (key_for_status_transition sha256 a st src email) ''status:transition:''"
  "starts_with (job_id_for_email_ingestion sha256 m) ''job:email:''"
  "starts_with (job_id_for_resume_operation sha256 r oper) ''job:resume:''"
  "starts_with (job_id_for_application_merge sha256 u a1 a2) ''merge:application:''"
  unfolding key_for_app_from_email_def key_for_app_from_manual_def key_for_outcome_from_email_def
    key_for_user_action_def key_for_status_transition_def job_id_for_email_ingestion_def
    job_id_for_resume_operation_def job_id_for_application_merge_def
  by (intro starts_with_truncate_key starts_with_salt; simp add: MAX_KEY_LENGTH_def)+

lemma canonical_valid:
  assumes "list_ex (\<lambda>p. starts_with key p) IDEMPOTENCY_PREFIXES"
  shows "validate_key (truncate_key sha256 key) True = None"
proof -
  have "\<forall>p\<in>set IDEMPOTENCY_PREFIXES. p \<noteq> [] \<and> length p \<le> MAX_KEY_LENGTH - 16"
    by (simp add: IDEMPOTENCY_PREFIXES_def MAX_KEY_LENGTH_def)
  then obtain p where p: "p \<in> set IDEMPOTENCY_PREFIXES" "starts_with (truncate_key sha256 key) p" "p \<noteq> []"
    using assms starts_with_truncate_key by (fastforce simp: list_ex_iff)
  then show ?thesis
    using length_truncate_key [of sha256 key]
    by (auto simp: validate_key_def is_well_formed_key_def list_ex_iff starts_with_iff)
qed

text \<open>
  Every canonical key builder gives a key that the strict validation of the service
  accepts, for all arguments, long ones included: it keeps its family's prefix and at most 255
  characters.
\<close>

lemma canonical_keys_valid:
  "validate_key (key_for_app_from_email sha256 m) True = None
   \<and> validate_key (key_for_app_from_manual sha256 u opp salt) True = None
   \<and> validate_key (key_for_outcome_from_email sha256 m) True = None
   \<and> validate_key (key_for_user_action sha256 u a act h) True = None
   \<and> validate_key (key_for_status_transition sha256 a st src email) True = None
   \<and> validate_key (job_id_for_email_ingestion sha256 m) True = None
   \<and> validate_key (job_id_for_resume_operation sha256 r oper) True = None
   \<and> validate_key (job_id_for_application_merge sha256 u a1 a2) True = None"
  unfolding key_for_app_from_email_def key_for_app_from_manual_def key_for_outcome_from_email_def
    key_for_user_action_def key_for_status_transition_def job_id_for_email_ingestion_def
    job_id_for_resume_operation_def job_id_for_application_merge_def
  by (simp_all add: canonical_valid starts_with_salt IDEMPOTENCY_PREFIXES_def)

text \<open>
  Keys of different operations never collide: whatever the arguments, an application
  created from an email, one created by hand, an outcome, a user action, a status transition
  and the three kinds of queue jobs have eight different keys.
\<close>

lemma key_families_disjoint:
  "distinct [key_for_app_from_email sha256 m1, key_for_app_from_manual sha256 u1 opp salt,
     key_for_outcome_from_email sha256 m2, key_for_user_action sha256 u2 a1 act h,
     key_for_status_transition sha256 a2 st src email, job_id_for_email_ingestion sha256 m3,
     job_id_for_resume_operation sha256 r oper, job_id_for_application_merge sha256 u3 a3 a4]"
  (is "distinct ?keys")
proof -
  have fam: "take 6 k = take 6 p" if "starts_with k p" "6 \<le> length p" for k p :: string
    using that by (auto simp: starts_with_iff)
  note families = key_prefixes [of sha256, THEN fam, simplified]
  have "distinct (map (take 6) ?keys)" by (simp add: families)
  then show ?thesis by (simp only: distinct_map)
qed

text \<open>
  The key of a manually created application does not determine its arguments: the
  separator may occur in them, so two different pairs of user and opportunity share a key.
  The key of an email's application does determine the email while it needs no truncation.
\<close>

lemma manual_key_collision:
  "key_for_app_from_manual sha256 (u @ '':'' @ x) y salt = key_for_app_from_manual sha256 u (x @ '':'' @ y) salt
   \<and> (length m \<le> 245 \<and> length m' \<le> 245 \<and> key_for_app_from_email sha256 m = key_for_app_from_email sha256 m' \<longrightarrow> m = m')"
  by (simp add: key_for_app_from_manual_def key_for_app_from_email_def truncate_key_def MAX_KEY_LENGTH_def)

lemma manual_key_collision_witness:
  "key_for_app_from_manual (\<lambda>s. s) (''a'' @ '':'' @ ''b'') ''c'' None = key_for_app_from_manual (\<lambda>s. s) ''a'' (''b'' @ '':'' @ ''c'') None"
  using manual_key_collision [of "\<lambda>s. s" "''a''" "''b''" "''c''" None "''m''" "''m''"] by simp

subsection \<open>The claim protocol\<close>

text \<open>Every operation of the service, as a step on the table.\<close>

datatype guard_op =
    Op_record time uid string string string "json option" "int option" "bool option"
  | Op_claim time uid string string "int option" "bool option"
  | Op_commit uid string "json option"
  | Op_abort uid
  | Op_cleanup time

fun guard_step :: "guard_op \<Rightarrow> idempotency_record list \<Rightarrow> idempotency_record list" where
  "guard_step (Op_record now fresh key operation rid data ttl strict) rows =
     snd (record_or_get now fresh key operation rid data ttl strict rows)"
| "guard_step (Op_claim now fresh key operation ttl strict) rows = snd (claim now fresh key operation ttl strict rows)"
| "guard_step (Op_commit record_id rid data) rows = snd (commit record_id rid data rows)"
| "guard_step (Op_abort record_id) rows = abort record_id rows"
| "guard_step (Op_cleanup before) rows = snd (cleanup_expired before rows)"

text \<open>A token is the id and the expiry time of the record that holds the key.\<close>

definition holds_key :: "uid \<times> time \<Rightarrow> string \<Rightarrow> idempotency_record list \<Rightarrow> bool" where
  "holds_key i key rows = (\<exists>r\<in>set rows. ir_id r = fst i \<and> ir_key r = key \<and> ir_expires_at r = snd i)"

fun frees :: "uid \<times> time \<Rightarrow> guard_op \<Rightarrow> bool" where
  "frees i (Op_abort record_id) = (record_id = fst i)"
| "frees i (Op_cleanup before) = (snd i < before)"
| "frees i _ = False"

type_synonym claim_args = "time \<times> uid \<times> string \<times> string \<times> int option \<times> bool option"

fun try_claim :: "claim_args \<Rightarrow> idempotency_record list \<Rightarrow> (uid \<times> time) option \<times> idempotency_record list" where
  "try_claim (now, fresh, key, operation, ttl, strict) rows =
     (case claim now fresh key operation ttl strict rows of
        (Inr (Claimed i), rows') \<Rightarrow>
          (Some (i, compute_expires_at now (option_or ttl DEFAULT_IDEMPOTENCY_TTL_DAYS)), rows')
      | (_, rows') \<Rightarrow> (None, rows'))"

definition claim_key :: "claim_args \<Rightarrow> string" where
  "claim_key c = fst (snd (snd c))"

lemma holds_key_record_of: "holds_key i key rows \<Longrightarrow> record_of key rows \<noteq> None"
  by (auto simp: holds_key_def record_of_def find_row_None_iff)

lemma holds_key_append: "holds_key i key rows \<Longrightarrow> holds_key i key (rows @ rs)"
  by (auto simp: holds_key_def)

lemma guard_step_keeps: "holds_key i key rows \<Longrightarrow> \<not> frees i oper \<Longrightarrow> holds_key i key (guard_step oper rows)"
  by (cases oper)
    (auto simp: record_or_get_def claim_def abort_def cleanup_expired_def holds_key_append split: option.split,
     auto simp: holds_key_def commit_def ex_update_many)

interpretation idempotent: claim_guard try_claim claim_key holds_key guard_step frees "\<lambda>_ _. False"
proof
  fix c s i s' assume "try_claim c s = (Some i, s')"
  then show "holds_key i (claim_key c) s'"
    by (cases c) (auto simp: claim_def claim_key_def holds_key_def split: option.splits if_splits prod.splits)
next
  fix i c s assume "holds_key i (claim_key c) s"
  then show "fst (try_claim c s) = None"
    by (cases c) (auto simp: claim_def claim_key_def dest!: holds_key_record_of split: option.splits)
next
  fix i k s oper assume "holds_key i k s" and "\<not> frees i oper"
  then show "holds_key i k (guard_step oper s)" by (rule guard_step_keeps)
qed

text \<open>
  C13: at most one runner. After a claim of a key succeeded, no other claim of it succeeds,
  whatever operations of the service any workers interleave, until the claimer aborts its
  record or a cleanup runs after the record expired. In particular a runner that crashes
  between claim and commit blocks the key until then.
\<close>

theorem one_runner_per_key:
  assumes "claim now fresh key operation ttl strict rows = (Inr (Claimed i), rows1)"
    and "\<forall>oper\<in>set opers. \<not> frees (i, compute_expires_at now (option_or ttl DEFAULT_IDEMPOTENCY_TTL_DAYS)) oper"
  shows "fst (claim now' fresh' key operation' ttl' strict' (fold guard_step opers rows1)) \<noteq> Inr (Claimed j)"
proof
  let ?c = "(now, fresh, key, operation, ttl, strict)" and ?c' = "(now', fresh', key, operation', ttl', strict')"
  assume *: "fst (claim now' fresh' key operation' ttl' strict' (fold guard_step opers rows1)) = Inr (Claimed j)"
  have "try_claim ?c rows = (Some (i, compute_expires_at now (option_or ttl DEFAULT_IDEMPOTENCY_TTL_DAYS)), rows1)"
    using assms(1) by simp
  from idempotent.exclusive [OF this assms(2), of ?c']
  have "fst (try_claim ?c' (fold guard_step opers rows1)) = None" by (simp add: claim_key_def)
  with * show False by (auto split: prod.splits)
qed

definition email_key :: string where
  "email_key = key_for_app_from_email (\<lambda>s. s) ''m''"

lemma claim_email_key: "claim 0 i email_key ''app'' None None [] = (Inr (Claimed i),
    [\<lparr>ir_id = i, ir_key = email_key, ir_operation_type = ''app'', ir_result_id = IN_PROGRESS,
      ir_result_data = None, ir_expires_at = 5184000000\<rparr>])"
proof -
  have "validate_key email_key True = None"
    unfolding email_key_def key_for_app_from_email_def by (rule canonical_valid) (simp add: IDEMPOTENCY_PREFIXES_def)
  then show ?thesis
    by (simp add: claim_def record_of_def compute_expires_at_def DEFAULT_IDEMPOTENCY_TTL_DAYS_def)
qed

theorem one_runner_per_key_witness:
  "\<exists>rows1. claim 0 ''i'' email_key ''app'' None None [] = (Inr (Claimed ''i''), rows1)
    \<and> fst (claim 9 ''j'' email_key ''app'' None None (fold guard_step [Op_cleanup 5, Op_abort ''x''] rows1)) \<noteq> Inr (Claimed ''j'')"
proof -
  obtain rows1 where c: "claim 0 ''i'' email_key ''app'' None None [] = (Inr (Claimed ''i''), rows1)"
    using claim_email_key by blast
  show ?thesis
    using c one_runner_per_key [OF c, of "[Op_cleanup 5, Op_abort ''x'']" 9 "''j''" "''app''" None None "''j''"]
    by (simp add: compute_expires_at_def DEFAULT_IDEMPOTENCY_TTL_DAYS_def)
qed

text \<open>The record that holds a key stays the one found under it until it is freed.\<close>

definition commits :: "uid \<Rightarrow> guard_op \<Rightarrow> bool" where
  "commits i oper = (case oper of Op_commit record_id _ _ \<Rightarrow> record_id = i | _ \<Rightarrow> False)"

lemma record_of_append: "record_of key rows = Some r \<Longrightarrow> record_of key (rows @ rs) = Some r"
  by (simp add: record_of_def find_row_append)

lemma record_of_delete: "record_of key rows = Some r \<Longrightarrow> \<not> P r \<Longrightarrow> record_of key (delete_many P rows) = Some r"
  by (simp add: record_of_def find_row_delete_many)

lemma record_of_commit:
  "record_of key (snd (commit i rid data rows)) = map_option
     (\<lambda>r. if ir_id r = i then r\<lparr>ir_result_id := rid, ir_result_data := data\<rparr> else r) (record_of key rows)"
proof -
  have "snd (commit i rid data rows) = update_many (\<lambda>r. ir_id r = i)
      (\<lambda>r. r\<lparr>ir_result_id := rid, ir_result_data := data\<rparr>) rows"
    by (auto simp: commit_def find_row_None_iff update_many_none)
  then show ?thesis by (simp add: record_of_def find_row_update_many_same)
qed

lemma guard_step_keeps_record:
  assumes "record_of key rows = Some r" and "\<not> frees (ir_id r, ir_expires_at r) oper" and "\<not> commits (ir_id r) oper"
  shows "record_of key (guard_step oper rows) = Some r"
  using assms
  by (cases oper)
    (auto simp: record_or_get_def claim_def abort_def cleanup_expired_def record_of_append record_of_delete
      record_of_commit commits_def split: option.split)

lemma run_keeps_record:
  assumes "record_of key rows = Some r"
    and "\<forall>oper\<in>set opers. \<not> frees (ir_id r, ir_expires_at r) oper \<and> \<not> commits (ir_id r) oper"
  shows "record_of key (fold guard_step opers rows) = Some r"
  using assms by (induction opers arbitrary: rows) (simp_all add: guard_step_keeps_record)

text \<open>
  A replay gets the first run's result. Once the claimer has committed a result under a
  key, every later attempt for that key, claim or one-call variant, runs nothing and returns
  the committed id and data, until the record expires and is cleaned up.
\<close>

lemma replay_returns_result:
  assumes "record_of key rows = None" and "claim now i key operation ttl strict rows = (Inr (Claimed i), rows1)"
    and "commit i rid data rows1 = (Inr (), rows2)" and "rid \<noteq> []" and "rid \<noteq> IN_PROGRESS"
    and later: "\<forall>oper\<in>set opers. \<not> commits i oper
      \<and> \<not> frees (i, compute_expires_at now (option_or ttl DEFAULT_IDEMPOTENCY_TTL_DAYS)) oper"
    and ok: "validate_key key (option_or strict' True) = None"
  shows "claim now' j key operation' ttl' strict' (fold guard_step opers rows2)
      = (Inr (Unclaimed (Some rid) data), fold guard_step opers rows2)
    \<and> record_or_get now' j key operation' rid' data' ttl' strict' (fold guard_step opers rows2)
      = (Inr \<lparr>already_executed = True, result_id = Some rid, result_data = data\<rparr>, fold guard_step opers rows2)
    \<and> check key (fold guard_step opers rows2) = \<lparr>already_executed = True, result_id = Some rid, result_data = data\<rparr>"
proof -
  let ?e = "compute_expires_at now (option_or ttl DEFAULT_IDEMPOTENCY_TTL_DAYS)"
  obtain r where "record_of key rows1 = Some r" "ir_id r = i" "ir_expires_at r = ?e"
    using assms(1,2) by (auto simp: claim_def record_of_def find_row_append split: option.splits)
  moreover have "rows2 = snd (commit i rid data rows1)" using assms(3) by simp
  ultimately obtain r' where r': "record_of key rows2 = Some r'" "ir_id r' = i" "ir_expires_at r' = ?e"
    "ir_result_id r' = rid" "ir_result_data r' = data"
    by (simp add: record_of_commit)
  have "record_of key (fold guard_step opers rows2) = Some r'"
    by (rule run_keeps_record [OF r'(1)]) (use later r' in simp)
  with ok assms(4,5) r' show ?thesis
    by (simp add: claim_def record_or_get_def check_def final_result_id_def stored_data_def)
qed

lemma replay_returns_result_witness:
  "\<exists>rows1 rows2. claim 0 ''i'' email_key ''app'' None None [] = (Inr (Claimed ''i''), rows1)
    \<and> commit ''i'' ''app-1'' None rows1 = (Inr (), rows2)
    \<and> claim 5 ''j'' email_key ''app'' None None (fold guard_step [Op_abort ''z''] rows2)
        = (Inr (Unclaimed (Some ''app-1'') None), fold guard_step [Op_abort ''z''] rows2)"
proof -
  obtain rows1 where c: "claim 0 ''i'' email_key ''app'' None None [] = (Inr (Claimed ''i''), rows1)"
    and r: "find_row (\<lambda>r. ir_id r = ''i'') rows1 \<noteq> None"
    using claim_email_key by simp
  then obtain rows2 where m: "commit ''i'' ''app-1'' None rows1 = (Inr (), rows2)" by (simp add: commit_def)
  have ok: "validate_key email_key (option_or None True) = None"
    using claim_email_key [of "''i''"] by (auto simp: claim_def split: option.splits)
  have "record_of email_key [] = None" by (simp add: record_of_def)
  from replay_returns_result [OF this c m _ _ _ ok, of "[Op_abort ''z'']" 5 "''j''" "''app''" None] c m
  show ?thesis by (simp add: IN_PROGRESS_def commits_def)
qed

definition keys_unique :: "idempotency_record list \<Rightarrow> bool" where
  "keys_unique rows = distinct (map ir_key rows)"

lemma guard_step_unique: "keys_unique rows \<Longrightarrow> keys_unique (guard_step oper rows)"
  by (cases oper)
    (auto simp: keys_unique_def record_or_get_def claim_def abort_def cleanup_expired_def commit_def record_of_def
      find_row_None_iff map_update_many_key intro: distinct_delete_many split: option.split)

text \<open>
  An aborted run can be repeated. The keys of the table stay unique under every operation,
  and after the claimer of a key aborts its record the next claim of the key succeeds.
\<close>

lemma abort_frees_key:
  assumes "keys_unique rows" and "record_of key rows = Some r"
    and "validate_key key (option_or strict True) = None"
  shows "(\<forall>oper. keys_unique (guard_step oper rows))
    \<and> fst (claim now fresh key operation ttl strict (abort (ir_id r) rows)) = Inr (Claimed fresh)"
proof -
  have r: "r \<in> set rows" "ir_key r = key" using assms(2) by (auto simp: record_of_def dest: find_row_SomeD)
  have "record_of key (abort (ir_id r) rows) = None"
    using distinct_key_unique [OF assms(1) [unfolded keys_unique_def] _ r(1)] r(2)
    by (auto simp: record_of_def find_row_None_iff abort_def)
  then show ?thesis using assms(1,3) by (simp add: claim_def guard_step_unique)
qed

lemma abort_frees_key_witness:
  "\<exists>rows1. claim 0 ''i'' email_key ''app'' None None [] = (Inr (Claimed ''i''), rows1)
    \<and> fst (claim 1 ''j'' email_key ''app'' None None (abort ''i'' rows1)) = Inr (Claimed ''j'')"
proof -
  let ?r = "\<lparr>ir_id = ''i'', ir_key = email_key, ir_operation_type = ''app'', ir_result_id = IN_PROGRESS,
      ir_result_data = None, ir_expires_at = 5184000000\<rparr>"
  have ok: "validate_key email_key (option_or None True) = None"
    using claim_email_key [of "''i''"] by (auto simp: claim_def split: option.splits)
  have "keys_unique [?r]" "record_of email_key [?r] = Some ?r" by (simp_all add: keys_unique_def record_of_def)
  from abort_frees_key [OF this ok, of 1 "''j''" "''app''" None] claim_email_key [of "''i''"]
  show ?thesis by simp
qed

end
