(* ===== verification/Job_Queue.thy ===== *)
theory Job_Queue
  imports Idempotency
begin

text \<open>
  The producers of the job queues (\<open>src/src/services/queue/queue.service.ts\<close>) whose job ids
  are derived from their payload. A queue is the list of the jobs it keeps; BullMQ documents
  that an \<open>add\<close> with the id of a job the queue still keeps adds nothing and returns that id.
  Retry options and the retention of finished jobs belong to BullMQ.
\<close>

record 'p queued_job =
  qj_id :: string
  qj_name :: string
  qj_payload :: 'p

definition queue_add :: "string option \<Rightarrow> string \<Rightarrow> string \<Rightarrow> 'p \<Rightarrow> 'p queued_job list \<Rightarrow> string \<times> 'p queued_job list" where
  "queue_add job_id fresh name payload q =
     (let i = option_or job_id fresh
      in (i, if find_row (\<lambda>j. qj_id j = i) q = None
             then q @ [\<lparr>qj_id = i, qj_name = name, qj_payload = payload\<rparr>] else q))"

record resume_payload =
  rp_user_id :: uid
  rp_storage_key :: string
  rp_file_hash :: string

datatype tracking_type = PROCESS_EMAIL | REFRESH_STATUS | SYNC_ATS

fun show_tracking_type :: "tracking_type \<Rightarrow> string" where
  "show_tracking_type PROCESS_EMAIL = ''PROCESS_EMAIL''"
| "show_tracking_type REFRESH_STATUS = ''REFRESH_STATUS''"
| "show_tracking_type SYNC_ATS = ''SYNC_ATS''"

record tracking_payload =
  tp_type :: tracking_type
  tp_user_id :: uid
  tp_cell_id :: "string option"
  tp_application_id :: "uid option"
  tp_email_message_id :: "uid option"
  tp_batch_id :: "uid option"

datatype gmail_job_type = GMAIL_INITIAL_SYNC | GMAIL_INCREMENTAL_SYNC

fun show_gmail_job_type :: "gmail_job_type \<Rightarrow> string" where
  "show_gmail_job_type GMAIL_INITIAL_SYNC = ''GMAIL_INITIAL_SYNC''"
| "show_gmail_job_type GMAIL_INCREMENTAL_SYNC = ''GMAIL_INCREMENTAL_SYNC''"

record gmail_sync_payload =
  gq_type :: gmail_job_type
  gq_user_id :: uid
  gq_cell_id :: "string option"
  gq_legacy_user_id :: string
  gq_connection_id :: uid
  gq_history_id :: "string option"
  gq_page_token :: "string option"
  gq_priority :: int

definition add_resume_parsing_job :: "(string \<Rightarrow> string) \<Rightarrow> string \<Rightarrow> resume_payload \<Rightarrow> string option
    \<Rightarrow> resume_payload queued_job list \<Rightarrow> string \<times> resume_payload queued_job list" where
  "add_resume_parsing_job sha256 fresh payload opt_id =
     queue_add (Some (option_or opt_id (job_id_for_resume_operation sha256 (rp_file_hash payload) ''parse'')))
       fresh ''PARSE_RESUME'' payload"

definition tracking_job_id :: "(string \<Rightarrow> string) \<Rightarrow> tracking_payload \<Rightarrow> string option \<Rightarrow> string option" where
  "tracking_job_id sha256 payload opt_id =
     (case truthy opt_id of Some i \<Rightarrow> Some i
      | None \<Rightarrow>
        (case (tp_type payload, truthy (tp_email_message_id payload), truthy (tp_application_id payload)) of
           (PROCESS_EMAIL, Some e, _) \<Rightarrow> Some (job_id_for_email_ingestion sha256 e)
         | (REFRESH_STATUS, _, Some a) \<Rightarrow> Some (''refresh:'' @ a)
         | (SYNC_ATS, _, Some a) \<Rightarrow> Some (''sync:'' @ a)
         | _ \<Rightarrow> opt_id))"

definition add_application_tracking_job :: "(string \<Rightarrow> string) \<Rightarrow> string \<Rightarrow> tracking_payload \<Rightarrow> string option
    \<Rightarrow> tracking_payload queued_job list \<Rightarrow> string \<times> tracking_payload queued_job list" where
  "add_application_tracking_job sha256 fresh payload opt_id =
     queue_add (tracking_job_id sha256 payload opt_id) fresh (show_tracking_type (tp_type payload)) payload"

definition add_gmail_sync_job :: "string \<Rightarrow> gmail_sync_payload \<Rightarrow> string option
    \<Rightarrow> gmail_sync_payload queued_job list \<Rightarrow> string \<times> gmail_sync_payload queued_job list" where
  "add_gmail_sync_job fresh payload opt_id =
     queue_add (Some (option_or opt_id (gq_user_id payload @ '':'' @ show_gmail_job_type (gq_type payload)
       @ '':'' @ gq_connection_id payload))) fresh (show_gmail_job_type (gq_type payload)) payload"

definition job_ids_distinct :: "'p queued_job list \<Rightarrow> bool" where
  "job_ids_distinct q = distinct (map qj_id q)"

lemma queue_add_distinct:
  "job_ids_distinct q \<Longrightarrow> job_ids_distinct (snd (queue_add i fresh name p q))"
  by (auto simp: queue_add_def job_ids_distinct_def Let_def find_row_None_iff)

lemma queue_add_again:
  "queue_add (Some i) fresh' name' p' (snd (queue_add (Some i) fresh name p q)) = (i, snd (queue_add (Some i) fresh name p q))"
  by (simp add: queue_add_def find_row_append split: option.splits)

text \<open>
  Webhook retries coalesce. Enqueueing the processing of an email twice, whatever users
  and metadata the payloads carry, leaves one job, with the id derived from the email; and no
  producer ever puts two jobs with one id into a queue.
\<close>

lemma email_jobs_coalesce:
  assumes "tp_type p = PROCESS_EMAIL" and "tp_email_message_id p = Some m" and "m \<noteq> []"
    and "tp_type p' = PROCESS_EMAIL" and "tp_email_message_id p' = Some m" and "job_ids_distinct q"
    and "add_application_tracking_job sha256 fresh p None q = (i, q1)"
  shows "add_application_tracking_job sha256 fresh' p' None q1 = (i, q1)
    \<and> i = job_id_for_email_ingestion sha256 m \<and> job_ids_distinct q1"
proof -
  have t: "truthy (Some m) = Some m" using assms(3) by (cases m) (simp_all add: truthy_def)
  have id: "tracking_job_id sha256 x None = Some (job_id_for_email_ingestion sha256 m)"
    if "tp_type x = PROCESS_EMAIL" "tp_email_message_id x = Some m" for x
    using that t by (simp add: tracking_job_id_def) (simp add: truthy_def)
  have "q1 = snd (queue_add (Some (job_id_for_email_ingestion sha256 m)) fresh ''PROCESS_EMAIL'' p q)"
    "i = job_id_for_email_ingestion sha256 m"
    using assms(1,7) id [OF assms(1,2)] by (auto simp: add_application_tracking_job_def queue_add_def Let_def)
  then show ?thesis
    using id [OF assms(4,5)] queue_add_distinct [OF assms(6)] queue_add_again
    by (simp add: add_application_tracking_job_def)
qed

lemma email_jobs_coalesce_witness:
  "let p = \<lparr>tp_type = PROCESS_EMAIL, tp_user_id = ''u'', tp_cell_id = None, tp_application_id = None,
         tp_email_message_id = Some ''m'', tp_batch_id = None\<rparr>;
       (i, q1) = add_application_tracking_job id ''f'' p None []
   in add_application_tracking_job id ''g'' (p\<lparr>tp_user_id := ''v''\<rparr>) None q1 = (i, q1)"
proof -
  let ?p = "\<lparr>tp_type = PROCESS_EMAIL, tp_user_id = ''u'', tp_cell_id = None, tp_application_id = None,
         tp_email_message_id = Some ''m'', tp_batch_id = None\<rparr>"
  obtain i q1 where a: "add_application_tracking_job id ''f'' ?p None [] = (i, q1)" by fastforce
  from email_jobs_coalesce [OF _ _ _ _ _ _ this, of "''m''" "?p\<lparr>tp_user_id := ''v''\<rparr>" "''g''"] a show ?thesis
    by (simp add: job_ids_distinct_def)
qed

end
