(* ===== verification/Gmail_Coordinator.thy ===== *)
theory Gmail_Coordinator
  imports Job_Queue Applications
begin

text \<open>
  The asynchronous boundary of the Gmail ingestion
  (\<open>src/src/services/gmail/gmail-ingestion-coordinator.ts\<close>): ownership of the connection,
  the idempotency claim around the enqueueing, backpressure, and the classification of
  failures. The queue may be unreachable: \<open>queue_error\<close> is the error its client throws then.
\<close>

datatype sync_mode = INITIAL_SYNC | INCREMENTAL_SYNC

fun show_sync_mode :: "sync_mode \<Rightarrow> string" where
  "show_sync_mode INITIAL_SYNC = ''INITIAL_SYNC''"
| "show_sync_mode INCREMENTAL_SYNC = ''INCREMENTAL_SYNC''"

datatype priority = LOW | NORMAL | HIGH

record gmail_ingestion_command =
  gc_user_id :: uid
  gc_connection_id :: uid
  gc_mode :: sync_mode
  gc_idempotency_key :: string
  gc_priority :: "priority option"
  gc_start_history_id :: "string option"
  gc_cell_id :: "string option"
  gc_legacy_user_id :: "string option"
  gc_page_token :: "string option"

record email_connection =
  ec_id :: uid
  ec_user_id :: uid
  ec_legacy_user_id :: "string option"
  ec_status :: string

record gmail_db =
  gd_connections :: "email_connection list"
  gd_records :: "idempotency_record list"
  gd_sync_jobs :: "string list"
  gd_queue :: "gmail_sync_payload queued_job list"

definition validate_user_owns_connection :: "uid \<Rightarrow> uid \<Rightarrow> gmail_db \<Rightarrow> error option" where
  "validate_user_owns_connection user connection db =
     (case find_row (\<lambda>c. user_ownership_filter user None (ec_user_id c, ec_legacy_user_id c) \<and> ec_id c = connection)
        (gd_connections db) of
        None \<Rightarrow> Some (NotFoundError ''UserEmailConnection'' connection)
      | Some c \<Rightarrow> if ec_status c \<noteq> ''ACTIVE''
          then Some (ValidationError (''Connection '' @ connection @ '' is not active (status: '' @ ec_status c @ '')''))
          else None)"

definition is_backpressured :: "nat \<Rightarrow> gmail_db \<Rightarrow> bool" where
  "is_backpressured limit db = (limit \<le> count_rows (\<lambda>s. s \<in> {''PENDING'', ''RUNNING''}) (gd_sync_jobs db))"

definition sync_payload :: "gmail_ingestion_command \<Rightarrow> gmail_sync_payload" where
  "sync_payload c = \<lparr>
     gq_type = (if gc_mode c = INITIAL_SYNC then GMAIL_INITIAL_SYNC else GMAIL_INCREMENTAL_SYNC),
     gq_user_id = gc_user_id c, gq_cell_id = gc_cell_id c,
     gq_legacy_user_id = option_or (gc_legacy_user_id c) (gc_user_id c),
     gq_connection_id = gc_connection_id c, gq_history_id = gc_start_history_id c,
     gq_page_token = gc_page_token c, gq_priority = (if gc_priority c = Some HIGH then 10 else 0)\<rparr>"

definition ingestion_result_id :: "gmail_ingestion_command \<Rightarrow> string" where
  "ingestion_result_id c =
     ''gmail:'' @ gc_user_id c @ '':'' @ gc_connection_id c @ '':'' @ show_sync_mode (gc_mode c)"

text \<open>The block guarded by the claim: its error is followed by an abort of the record.\<close>

definition enqueue_claimed :: "nat \<Rightarrow> error option \<Rightarrow> json \<Rightarrow> string \<Rightarrow> uid \<Rightarrow> gmail_ingestion_command
    \<Rightarrow> gmail_db \<Rightarrow> (string, gmail_db) outcome" where
  "enqueue_claimed limit queue_error snapshot fresh_job record_id c db =
     (if is_backpressured limit db \<and> gc_priority c \<noteq> Some HIGH
      then (Inl (ValidationError ''Ingestion temporarily unavailable due to high load. Please retry.''),
            db\<lparr>gd_records := abort record_id (gd_records db)\<rparr>)
      else case queue_error of Some e \<Rightarrow> (Inl e, db)
      | None \<Rightarrow>
        let db1 = db\<lparr>gd_queue := snd (add_gmail_sync_job fresh_job (sync_payload c) None (gd_queue db))\<rparr>
        in case commit record_id (ingestion_result_id c) (Some snapshot) (gd_records db1) of
             (Inl e, rows) \<Rightarrow> (Inl e, db1\<lparr>gd_records := rows\<rparr>)
           | (Inr _, rows) \<Rightarrow> (Inr (ingestion_result_id c), db1\<lparr>gd_records := rows\<rparr>))"

definition enqueue_gmail_ingestion :: "nat \<Rightarrow> error option \<Rightarrow> time \<Rightarrow> uid \<Rightarrow> string \<Rightarrow> json
    \<Rightarrow> gmail_ingestion_command \<Rightarrow> gmail_db \<Rightarrow> (string, gmail_db) outcome" where
  "enqueue_gmail_ingestion limit queue_error now fresh fresh_job snapshot c db =
     (case validate_user_owns_connection (gc_user_id c) (gc_connection_id c) db of
        Some e \<Rightarrow> (Inl e, db)
      | None \<Rightarrow>
        (case claim now fresh (gc_idempotency_key c) ''gmail:ingestion'' (Some 1) None (gd_records db) of
          (Inl e, rows) \<Rightarrow> (Inl e, db\<lparr>gd_records := rows\<rparr>)
        | (Inr (Unclaimed rid data), rows) \<Rightarrow> (Inr (option_or rid ''unknown''), db\<lparr>gd_records := rows\<rparr>)
        | (Inr (Claimed record_id), rows) \<Rightarrow>
            (case enqueue_claimed limit queue_error snapshot fresh_job record_id c (db\<lparr>gd_records := rows\<rparr>) of
              (Inl e, db') \<Rightarrow> (Inl e, db'\<lparr>gd_records := abort record_id (gd_records db')\<rparr>)
            | (Inr r, db') \<Rightarrow> (Inr r, db'))))"

datatype failure_category =
    TRANSIENT_API_ERROR | NETWORK_ERROR | RATE_LIMIT | AUTH_REVOKED | INVALID_CONNECTION
  | MALFORMED_DATA | QUOTA_EXCEEDED | UNKNOWN

record failure_classification =
  fc_retryable :: bool
  fc_backoff_ms :: "int option"
  fc_category :: failure_category

definition classify_failure :: "string \<Rightarrow> int option \<Rightarrow> failure_classification" where
  "classify_failure msg code =
     (if str_includes msg ''revoked'' \<or> str_includes msg ''not active''
      then \<lparr>fc_retryable = False, fc_backoff_ms = None, fc_category = AUTH_REVOKED\<rparr>
      else if str_includes msg ''not found'' \<or> str_includes msg ''Invalid connection''
      then \<lparr>fc_retryable = False, fc_backoff_ms = None, fc_category = INVALID_CONNECTION\<rparr>
      else if code = Some 429 \<or> str_includes msg ''rate limit'' \<or> str_includes msg ''quota''
      then \<lparr>fc_retryable = True, fc_backoff_ms = Some 60000, fc_category = RATE_LIMIT\<rparr>
      else if code = Some 403 \<or> code = Some 500 \<or> code = Some 503
      then \<lparr>fc_retryable = True, fc_backoff_ms = Some 5000, fc_category = TRANSIENT_API_ERROR\<rparr>
      else if str_includes msg ''network'' \<or> str_includes msg ''timeout'' \<or> str_includes msg ''ETIMEDOUT''
      then \<lparr>fc_retryable = True, fc_backoff_ms = Some 10000, fc_category = NETWORK_ERROR\<rparr>
      else \<lparr>fc_retryable = True, fc_backoff_ms = Some 30000, fc_category = UNKNOWN\<rparr>)"

subsection \<open>Properties\<close>

lemma claim_cases:
  assumes "claim now fresh key operation ttl strict rows = (r, rows')"
  obtains (error) e where "r = Inl e" "rows' = rows"
    | (unclaimed) rid data where "r = Inr (Unclaimed rid data)" "rows' = rows" "record_of key rows \<noteq> None"
    | (claimed) row where "r = Inr (Claimed fresh)" "rows' = rows @ [row]" "ir_id row = fresh" "ir_key row = key"
        "record_of key rows = None"
        "ir_expires_at row = compute_expires_at now (option_or ttl DEFAULT_IDEMPOTENCY_TTL_DAYS)"
  using assms by (fastforce simp: claim_def split: option.splits if_splits)

lemma abort_fresh:
  assumes "fresh \<notin> ir_id ` set rows" and "ir_id row = fresh"
  shows "abort fresh (rows @ [row]) = rows"
  using assms by (auto simp: abort_def delete_many_def filter_id_conv image_iff)

lemma abort_idem [simp]: "abort i (abort i rows) = abort i rows"
  by (simp add: abort_def delete_many_def)

lemma enqueue_claimed_Inl:
  assumes "find_row (\<lambda>r. ir_id r = record_id) (gd_records db) \<noteq> None"
    and "enqueue_claimed limit queue_error snapshot fresh_job record_id c db = (Inl e, db')"
  shows "db'\<lparr>gd_records := abort record_id (gd_records db')\<rparr> = db\<lparr>gd_records := abort record_id (gd_records db)\<rparr>"
proof (cases "is_backpressured limit db \<and> gc_priority c \<noteq> Some HIGH")
  case True
  then have "db' = db\<lparr>gd_records := abort record_id (gd_records db)\<rparr>"
    using assms(2) by (simp add: enqueue_claimed_def)
  then show ?thesis by simp
next
  case False
  note eq = assms(2) [unfolded enqueue_claimed_def if_not_P [OF False]]
  obtain rows where "commit record_id (ingestion_result_id c) (Some snapshot) (gd_records db) = (Inr (), rows)"
    using assms(1) by (simp add: commit_def)
  with eq have "db' = db" by (cases queue_error) (simp_all add: Let_def)
  then show ?thesis by simp
qed

text \<open>
  An enqueueing that throws leaves nothing behind: no idempotency record, no queued job.
  Whether the connection is not the user's or not active, the key is malformed, the system is
  under backpressure, or the queue is unreachable, the state is as before, so the request can
  be repeated.
\<close>

lemma failed_enqueue_leaves_no_trace:
  assumes "fresh \<notin> ir_id ` set (gd_records db)"
    and "enqueue_gmail_ingestion limit queue_error now fresh fresh_job snapshot c db = (Inl e, db')"
  shows "db' = db"
proof (cases "claim now fresh (gc_idempotency_key c) ''gmail:ingestion'' (Some 1) None (gd_records db)")
  case (Pair r rows)
  then show ?thesis
  proof (cases rule: claim_cases)
    case (claimed row)
    note undo = abort_fresh [OF assms(1) claimed(3)]
    have found: "find_row (\<lambda>r. ir_id r = fresh) (gd_records (db\<lparr>gd_records := rows\<rparr>)) \<noteq> None"
      using claimed(2,3) by (simp add: find_row_append split: option.split)
    show ?thesis
    proof (cases "enqueue_claimed limit queue_error snapshot fresh_job fresh c (db\<lparr>gd_records := rows\<rparr>)")
      case (Pair r2 db2)
      show ?thesis
      proof (cases "validate_user_owns_connection (gc_user_id c) (gc_connection_id c) db")
        case None
        with assms(2) Pair \<open>claim _ _ _ _ _ _ _ = _\<close> claimed(1) obtain e' where "r2 = Inl e'"
          "db' = db2\<lparr>gd_records := abort fresh (gd_records db2)\<rparr>"
          by (cases r2) (auto simp: enqueue_gmail_ingestion_def)
        with enqueue_claimed_Inl [OF found] Pair undo claimed(2) show ?thesis by simp
      qed (use assms(2) in \<open>simp add: enqueue_gmail_ingestion_def\<close>)
    qed
  qed (use assms(2) Pair in \<open>auto simp: enqueue_gmail_ingestion_def split: option.splits\<close>)
qed

definition sample_command :: gmail_ingestion_command where
  "sample_command = \<lparr>gc_user_id = ''u'', gc_connection_id = ''c'', gc_mode = INITIAL_SYNC,
     gc_idempotency_key = email_key, gc_priority = None, gc_start_history_id = None, gc_cell_id = None,
     gc_legacy_user_id = None, gc_page_token = None\<rparr>"

definition sample_gmail_db :: gmail_db where
  "sample_gmail_db = \<lparr>gd_connections = [\<lparr>ec_id = ''c'', ec_user_id = ''u'', ec_legacy_user_id = None,
     ec_status = ''ACTIVE''\<rparr>], gd_records = [], gd_sync_jobs = [], gd_queue = []\<rparr>"

lemma sample_owned: "validate_user_owns_connection ''u'' ''c'' sample_gmail_db = None"
  by (simp add: validate_user_owns_connection_def sample_gmail_db_def user_ownership_filter_def)

lemma valid_email_key: "validate_key email_key True = None"
  using claim_email_key [of "''i''"] by (auto simp: claim_def split: option.splits)

lemma failed_enqueue_leaves_no_trace_witness:
  "\<exists>e db'. enqueue_gmail_ingestion 5 (Some (GenericError ''ECONNREFUSED'')) 0 ''r'' ''j'' JNull sample_command sample_gmail_db
    = (Inl e, db') \<and> db' = sample_gmail_db"
proof -
  obtain e db' where r: "enqueue_gmail_ingestion 5 (Some (GenericError ''ECONNREFUSED'')) 0 ''r'' ''j'' JNull
      sample_command sample_gmail_db = (Inl e, db')"
    using sample_owned valid_email_key
    by (auto simp: enqueue_gmail_ingestion_def sample_command_def claim_def record_of_def sample_gmail_db_def
        enqueue_claimed_def is_backpressured_def)
  have "''r'' \<notin> ir_id ` set (gd_records sample_gmail_db)" by (simp add: sample_gmail_db_def)
  from failed_enqueue_leaves_no_trace [OF this r] r show ?thesis by blast
qed

lemma enqueue_claimed_Inr:
  assumes "enqueue_claimed limit queue_error snapshot fresh_job record_id c db = (Inr r, db')"
  shows "r = ingestion_result_id c \<and> gd_connections db' = gd_connections db
    \<and> commit record_id r (Some snapshot) (gd_records db) = (Inr (), gd_records db')
    \<and> gd_queue db' = snd (add_gmail_sync_job fresh_job (sync_payload c) None (gd_queue db))"
  using assms by (auto simp: enqueue_claimed_def Let_def split: if_splits option.splits prod.splits sum.splits)

lemma enqueue_Inr_fresh:
  assumes "record_of (gc_idempotency_key c) (gd_records db) = None"
    and "enqueue_gmail_ingestion limit queue_error now fresh fresh_job snapshot c db = (Inr r, db')"
  obtains row where "record_of (gc_idempotency_key c) (gd_records db') = Some row" "ir_id row = fresh"
    "ir_expires_at row = compute_expires_at now 1" "ir_result_id row = ingestion_result_id c"
    "ir_result_data row = Some snapshot" "gd_connections db' = gd_connections db" "r = ingestion_result_id c"
    "validate_key (gc_idempotency_key c) True = None"
    "validate_user_owns_connection (gc_user_id c) (gc_connection_id c) db = None"
    "gd_queue db' = snd (add_gmail_sync_job fresh_job (sync_payload c) None (gd_queue db))"
proof -
  let ?row = "\<lparr>ir_id = fresh, ir_key = gc_idempotency_key c, ir_operation_type = ''gmail:ingestion'',
    ir_result_id = IN_PROGRESS, ir_result_data = None, ir_expires_at = compute_expires_at now 1\<rparr>"
  have v: "validate_key (gc_idempotency_key c) True = None"
    "validate_user_owns_connection (gc_user_id c) (gc_connection_id c) db = None"
    using assms(2) by (auto simp: enqueue_gmail_ingestion_def claim_def split: option.splits)
  have e: "enqueue_claimed limit queue_error snapshot fresh_job fresh c
      (db\<lparr>gd_records := gd_records db @ [?row]\<rparr>) = (Inr r, db')"
    using assms v by (auto simp: enqueue_gmail_ingestion_def claim_def split: prod.splits sum.splits)
  note f = enqueue_claimed_Inr [OF e]
  have "record_of (gc_idempotency_key c) (gd_records db @ [?row]) = Some ?row"
    using assms(1) by (simp add: record_of_def find_row_append)
  then have "record_of (gc_idempotency_key c) (gd_records db') = Some (?row\<lparr>ir_result_id := r, ir_result_data := Some snapshot\<rparr>)"
    using conjunct1 [OF conjunct2 [OF conjunct2 [OF f]]]
      record_of_commit [of "gc_idempotency_key c" fresh r "Some snapshot" "gd_records (db\<lparr>gd_records := gd_records db @ [?row]\<rparr>)"]
    by simp
  then show thesis using that f v by simp
qed

lemma validate_connection_cong:
  "gd_connections db' = gd_connections db \<Longrightarrow>
    validate_user_owns_connection u c db' = validate_user_owns_connection u c db"
  by (simp add: validate_user_owns_connection_def)

text \<open>
  One enqueueing per key. After a command was enqueued, every command of an active
  connection with the same key, of whatever mode and priority, gets the first one's result and
  enqueues nothing, whatever other users of the idempotency table do, until the record expires
  after its day.
\<close>

lemma enqueued_once_per_key:
  assumes "record_of (gc_idempotency_key c) (gd_records db) = None"
    and "enqueue_gmail_ingestion limit queue_error now fresh fresh_job snapshot c db = (Inr r, db1)"
    and others: "\<forall>oper\<in>set opers. \<not> frees (fresh, compute_expires_at now 1) oper \<and> \<not> commits fresh oper"
    and db2: "db2 = db1\<lparr>gd_records := fold guard_step opers (gd_records db1)\<rparr>"
    and "gc_idempotency_key c' = gc_idempotency_key c"
    and "validate_user_owns_connection (gc_user_id c') (gc_connection_id c') db2 = None"
  shows "enqueue_gmail_ingestion limit' queue_error' now' fresh' fresh_job' snapshot' c' db2 = (Inr r, db2)"
  using assms(1,2)
proof (rule enqueue_Inr_fresh)
  fix row
  assume row: "record_of (gc_idempotency_key c) (gd_records db1) = Some row" "ir_id row = fresh"
    "ir_expires_at row = compute_expires_at now 1" "ir_result_id row = ingestion_result_id c"
    "r = ingestion_result_id c" "validate_key (gc_idempotency_key c) True = None"
  have "record_of (gc_idempotency_key c) (gd_records db2) = Some row"
    using run_keeps_record [OF row(1)] others row(2,3) by (simp add: db2)
  moreover have "ingestion_result_id c \<noteq> IN_PROGRESS" "ingestion_result_id c \<noteq> []"
    by (simp_all add: ingestion_result_id_def IN_PROGRESS_def)
  ultimately show ?thesis
    using row assms(5,6)
    by (simp add: enqueue_gmail_ingestion_def claim_def final_result_id_def)
qed

lemma enqueued_once_per_key_witness:
  "\<exists>r db1. enqueue_gmail_ingestion 5 None 0 ''r'' ''j'' JNull sample_command sample_gmail_db = (Inr r, db1)
    \<and> enqueue_gmail_ingestion 5 None 7 ''r2'' ''j2'' JNull (sample_command\<lparr>gc_mode := INCREMENTAL_SYNC\<rparr>) db1 = (Inr r, db1)"
proof -
  have c: "record_of (gc_idempotency_key sample_command) (gd_records sample_gmail_db) = None"
    by (simp add: record_of_def sample_gmail_db_def)
  obtain r db1 where e: "enqueue_gmail_ingestion 5 None 0 ''r'' ''j'' JNull sample_command sample_gmail_db = (Inr r, db1)"
    using sample_owned valid_email_key c
    by (simp add: enqueue_gmail_ingestion_def sample_command_def claim_def enqueue_claimed_def
        is_backpressured_def sample_gmail_db_def Let_def commit_def)
  have "gd_connections db1 = gd_connections sample_gmail_db"
    by (rule enqueue_Inr_fresh [OF c e])
  then have own: "validate_user_owns_connection ''u'' ''c'' db1 = None"
    using sample_owned validate_connection_cong by metis
  have "enqueue_gmail_ingestion 5 None 7 ''r2'' ''j2'' JNull (sample_command\<lparr>gc_mode := INCREMENTAL_SYNC\<rparr>) db1 = (Inr r, db1)"
    by (rule enqueued_once_per_key [where opers = "[]", OF c e]) (simp_all add: own, simp_all add: own sample_command_def)
  with e show ?thesis by blast
qed

text \<open>
  The keys the Gmail route builds, \<open>gmail:user:connection:mode:window\<close>, are of no family
  the idempotency service knows, so its strict validation refuses them and no request of the
  route is ever enqueued: the call throws for every state and every command with such a key.
\<close>

lemma route_keys_never_enqueued:
  "fst (enqueue_gmail_ingestion limit queue_error now fresh fresh_job snapshot
      (c\<lparr>gc_idempotency_key := ''gmail:'' @ rest\<rparr>) db)
    \<in> {Inl e | e. True} \<and> snd (enqueue_gmail_ingestion limit queue_error now fresh fresh_job snapshot
      (c\<lparr>gc_idempotency_key := ''gmail:'' @ rest\<rparr>) db) = db"
proof -
  have "\<not> is_well_formed_key (''gmail:'' @ rest)"
    by (simp add: is_well_formed_key_def IDEMPOTENCY_PREFIXES_def)
  then obtain e where "validate_key (''gmail:'' @ rest) True = Some e" by (simp add: validate_key_def)
  then show ?thesis
    by (simp add: enqueue_gmail_ingestion_def claim_def split: option.split)
qed

end
