(* ===== verification/Outbox.thy ===== *)
theory Outbox
  imports Idempotency
begin

text \<open>
  The transactional outbox: \<open>src/src/services/event/outbox-dispatcher.service.ts\<close> and
  \<open>event-dispatcher.service.ts\<close>. Events are rows of one table; the queues are the log of the
  jobs added to them, where an add with the deterministic id of a job already there adds
  nothing. \<open>hydrate\<close> stands for the object the raw claim query gives for a row: the client
  library returns the columns under their database names, so a field whose column is named
  differently is missing (\<open>raw_row\<close>); \<open>typed_row\<close> is the object its declared type promises.
  \<open>fails\<close> gives the error the queue client throws for an event, if any. The raw query's locks
  make a claim one step; rows are visible to the reads outside a user's transaction.
\<close>

record outbox_event =
  oe_id :: uid
  oe_event_type :: string
  oe_aggregate_id :: string
  oe_aggregate_type :: string
  oe_user_id :: uid
  oe_cell_id :: string
  oe_payload :: json
  oe_status :: string
  oe_created_at :: time
  oe_processed_at :: "time option"
  oe_retry_count :: int
  oe_correlation_id :: string
  oe_error :: "string option"
  oe_lease_owner :: "string option"
  oe_lease_expires_at :: "time option"
  oe_next_attempt_at :: "time option"

record outbox_job =
  oj_id :: "string option"
  oj_queue :: string
  oj_type :: string
  oj_event_id :: uid

record outbox_db =
  od_events :: "outbox_event list"
  od_jobs :: "outbox_job list"

record outbox_options =
  oo_batch_size :: nat
  oo_lease_ttl_ms :: int
  oo_max_retries :: int

definition LEASE_TTL_MS :: int where "LEASE_TTL_MS = 30000"
definition MAX_RETRIES :: int where "MAX_RETRIES = 5"
definition BASE_RETRY_DELAY_MS :: int where "BASE_RETRY_DELAY_MS = 1000"
definition MAX_RETRY_DELAY_MS :: int where "MAX_RETRY_DELAY_MS = 60000"

definition default_options :: outbox_options where
  "default_options = \<lparr>oo_batch_size = 50, oo_lease_ttl_ms = LEASE_TTL_MS, oo_max_retries = MAX_RETRIES\<rparr>"

subsection \<open>The objects of events and their jobs\<close>

record event_object =
  eo_id :: uid
  eo_event_type :: "string option"
  eo_user_id :: "uid option"
  eo_payload :: json

definition typed_row :: "outbox_event \<Rightarrow> event_object" where
  "typed_row e = \<lparr>eo_id = oe_id e, eo_event_type = Some (oe_event_type e), eo_user_id = Some (oe_user_id e),
     eo_payload = oe_payload e\<rparr>"

definition raw_row :: "outbox_event \<Rightarrow> event_object" where
  "raw_row e = \<lparr>eo_id = oe_id e, eo_event_type = None, eo_user_id = None, eo_payload = oe_payload e\<rparr>"

definition embedding_events :: "string list" where
  "embedding_events = [''OPPORTUNITY_RESOLVED'', ''OPPORTUNITY_OBSERVED'', ''SKILL_OBSERVED'', ''PREDICTION_GENERATED'',
     ''ACTION_RECORDED'', ''OUTCOME_RECORDED'', ''APPLICATION_CREATED'', ''APPLICATION_SUBMITTED'']"

definition file_hash :: "json \<Rightarrow> string" where
  "file_hash payload = (case json_field ''fileHash'' payload of Some (JStr s) \<Rightarrow> s | _ \<Rightarrow> ''undefined'')"

definition job_for :: "(string \<Rightarrow> string) \<Rightarrow> event_object \<Rightarrow> outbox_job option" where
  "job_for sha256 ev = (case eo_event_type ev of None \<Rightarrow> None | Some t \<Rightarrow>
     if t = ''RESUME_UPLOADED'' then
       Some \<lparr>oj_id = None, oj_queue = ''malware-scan'', oj_type = ''SCAN_RESUME'', oj_event_id = eo_id ev\<rparr>
     else if t = ''RESUME_CLEANED'' then
       Some \<lparr>oj_id = Some (job_id_for_resume_operation sha256 (file_hash (eo_payload ev)) ''parse''),
         oj_queue = ''resume-parsing'', oj_type = ''PARSE_RESUME'', oj_event_id = eo_id ev\<rparr>
     else if t \<in> set embedding_events then
       Some \<lparr>oj_id = None, oj_queue = ''intelligence'', oj_type = ''GENERATE_EMBEDDING'', oj_event_id = eo_id ev\<rparr>
     else if t = ''RESUME_PARSED'' then
       Some \<lparr>oj_id = None, oj_queue = ''intelligence'', oj_type = ''MATCH_RESUME'', oj_event_id = eo_id ev\<rparr>
     else None)"

definition submit :: "outbox_job \<Rightarrow> outbox_job list \<Rightarrow> outbox_job list" where
  "submit j jobs = (if oj_id j \<noteq> None \<and> find_row (\<lambda>k. oj_queue k = oj_queue j \<and> oj_id k = oj_id j) jobs \<noteq> None
     then jobs else jobs @ [j])"

subsection \<open>The dispatcher\<close>

definition claimable :: "int \<Rightarrow> time \<Rightarrow> outbox_event \<Rightarrow> bool" where
  "claimable max_retries now e =
     ((oe_status e = ''pending'' \<or>
       (oe_status e = ''failed''
        \<and> (case oe_next_attempt_at e of None \<Rightarrow> True | Some t \<Rightarrow> t \<le> now)
        \<and> (oe_lease_owner e = None \<or> (case oe_lease_expires_at e of None \<Rightarrow> False | Some t \<Rightarrow> t < now))))
      \<and> oe_retry_count e < max_retries)"

definition claim_row :: "string \<Rightarrow> time \<Rightarrow> outbox_event \<Rightarrow> outbox_event" where
  "claim_row dispatcher expires e = e\<lparr>oe_status := ''processing'', oe_lease_owner := Some dispatcher,
     oe_lease_expires_at := Some expires, oe_error := None\<rparr>"

definition claimed_rows :: "outbox_options \<Rightarrow> time \<Rightarrow> outbox_db \<Rightarrow> outbox_event list" where
  "claimed_rows opts now db = take (oo_batch_size opts)
     (sort_key oe_created_at (filter (claimable (oo_max_retries opts) now) (od_events db)))"

definition claim_batch :: "(outbox_event \<Rightarrow> event_object) \<Rightarrow> outbox_options \<Rightarrow> string \<Rightarrow> time
    \<Rightarrow> outbox_db \<Rightarrow> event_object list \<times> outbox_db" where
  "claim_batch hydrate opts dispatcher now db =
     (let events = claimed_rows opts now db; ids = set (map oe_id events)
      in (map hydrate events,
          db\<lparr>od_events := update_many (\<lambda>e. oe_id e \<in> ids)
            (claim_row dispatcher (now + oo_lease_ttl_ms opts)) (od_events db)\<rparr>))"

definition with_rls_transaction :: "uid option \<Rightarrow> ('s \<Rightarrow> ('a, 's) outcome) \<Rightarrow> 's \<Rightarrow> ('a, 's) outcome" where
  "with_rls_transaction user f s =
     (if (case user of None \<Rightarrow> True | Some u \<Rightarrow> trim u = [])
      then (Inl (GenericError ''withRlsTransaction requires a non-empty userId''), s)
      else transaction f s)"

definition update_event :: "uid \<Rightarrow> (outbox_event \<Rightarrow> outbox_event) \<Rightarrow> outbox_db \<Rightarrow> (unit, outbox_db) outcome" where
  "update_event i f db = (if find_row (\<lambda>e. oe_id e = i) (od_events db) = None then (Inl (PrismaError ''P2025''), db)
     else (Inr (), db\<lparr>od_events := update_many (\<lambda>e. oe_id e = i) f (od_events db)\<rparr>))"

definition mark_processed :: "time \<Rightarrow> uid \<Rightarrow> uid option \<Rightarrow> outbox_db \<Rightarrow> (unit, outbox_db) outcome" where
  "mark_processed now event_id user = with_rls_transaction user (update_event event_id
     (\<lambda>e. e\<lparr>oe_status := ''processed'', oe_processed_at := Some now, oe_lease_owner := None,
        oe_lease_expires_at := None\<rparr>))"

definition backoff_ms :: "int \<Rightarrow> int" where
  "backoff_ms retry = min (BASE_RETRY_DELAY_MS * 2 ^ nat (retry - 1)) MAX_RETRY_DELAY_MS"

definition failed_row :: "outbox_options \<Rightarrow> time \<Rightarrow> string \<Rightarrow> int \<Rightarrow> outbox_event \<Rightarrow> outbox_event" where
  "failed_row opts now msg retry e = e\<lparr>
     oe_status := (if oo_max_retries opts \<le> retry then ''dlq'' else ''failed''), oe_error := Some msg,
     oe_retry_count := retry,
     oe_next_attempt_at := (if oo_max_retries opts \<le> retry then None else Some (now + backoff_ms retry)),
     oe_lease_owner := None, oe_lease_expires_at := None\<rparr>"

definition mark_failed :: "outbox_options \<Rightarrow> time \<Rightarrow> uid \<Rightarrow> string \<Rightarrow> outbox_db \<Rightarrow> (unit, outbox_db) outcome" where
  "mark_failed opts now event_id msg db =
     (let event = find_row (\<lambda>e. oe_id e = event_id) (od_events db);
          retry = (case event of None \<Rightarrow> 0 | Some e \<Rightarrow> oe_retry_count e) + 1;
          owner = (case event of None \<Rightarrow> [] | Some e \<Rightarrow> oe_user_id e)
      in with_rls_transaction (Some owner) (update_event event_id (failed_row opts now msg retry)) db)"

definition error_text :: "error \<Rightarrow> string" where
  "error_text e = (case e of GenericError s \<Rightarrow> s | PrismaError s \<Rightarrow> s | _ \<Rightarrow> [])"

definition deliver :: "(string \<Rightarrow> string) \<Rightarrow> time \<Rightarrow> (uid \<Rightarrow> error option) \<Rightarrow> event_object
    \<Rightarrow> outbox_db \<Rightarrow> (unit, outbox_db) outcome" where
  "deliver sha256 now fails ev db =
     (case job_for sha256 ev of
        None \<Rightarrow> mark_processed now (eo_id ev) (eo_user_id ev) db
      | Some j \<Rightarrow>
        (case fails (eo_id ev) of
           Some e \<Rightarrow> (Inl e, db)
         | None \<Rightarrow> mark_processed now (eo_id ev) (eo_user_id ev) (db\<lparr>od_jobs := submit j (od_jobs db)\<rparr>)))"

definition dispatch_event :: "(string \<Rightarrow> string) \<Rightarrow> outbox_options \<Rightarrow> time \<Rightarrow> (uid \<Rightarrow> error option) \<Rightarrow> event_object
    \<Rightarrow> outbox_db \<Rightarrow> (unit, outbox_db) outcome" where
  "dispatch_event sha256 opts now fails ev db =
     (case deliver sha256 now fails ev db of
        (Inr u, db') \<Rightarrow> (Inr u, db')
      | (Inl e, db') \<Rightarrow> mark_failed opts now (eo_id ev) (error_text e) db')"

fun dispatch_events :: "(string \<Rightarrow> string) \<Rightarrow> outbox_options \<Rightarrow> time \<Rightarrow> (uid \<Rightarrow> error option) \<Rightarrow> event_object list
    \<Rightarrow> outbox_db \<Rightarrow> outbox_db" where
  "dispatch_events sha256 opts now fails [] db = db"
| "dispatch_events sha256 opts now fails (ev # evs) db =
     (case dispatch_event sha256 opts now fails ev db of
        (Inl e, db') \<Rightarrow> db'
      | (Inr _, db') \<Rightarrow> dispatch_events sha256 opts now fails evs db')"

definition dispatch_batch :: "(outbox_event \<Rightarrow> event_object) \<Rightarrow> (string \<Rightarrow> string) \<Rightarrow> outbox_options \<Rightarrow> string
    \<Rightarrow> time \<Rightarrow> (uid \<Rightarrow> error option) \<Rightarrow> outbox_db \<Rightarrow> outbox_db" where
  "dispatch_batch hydrate sha256 opts dispatcher now fails db =
     (case claim_batch hydrate opts dispatcher now db of
        (evs, db') \<Rightarrow> dispatch_events sha256 opts now fails evs db')"

definition requeue_dlq_event :: "uid \<Rightarrow> outbox_db \<Rightarrow> (unit, outbox_db) outcome" where
  "requeue_dlq_event event_id db =
     (let owner = (case find_row (\<lambda>e. oe_id e = event_id) (od_events db) of None \<Rightarrow> [] | Some e \<Rightarrow> oe_user_id e)
      in with_rls_transaction (Some owner) (update_event event_id
        (\<lambda>e. e\<lparr>oe_status := ''pending'', oe_retry_count := 0, oe_error := None, oe_next_attempt_at := None,
           oe_lease_owner := None, oe_lease_expires_at := None\<rparr>)) db)"

definition get_stats :: "outbox_db \<Rightarrow> nat list" where
  "get_stats db = map (\<lambda>s. count_rows (\<lambda>e. oe_status e = s) (od_events db))
     [''pending'', ''processing'', ''failed'', ''dlq'', ''processed'']"

subsection \<open>The publisher\<close>

definition publish_in_transaction :: "time \<Rightarrow> uid \<Rightarrow> string \<Rightarrow> string \<Rightarrow> string \<Rightarrow> uid \<Rightarrow> string \<Rightarrow> json \<Rightarrow> string
    \<Rightarrow> outbox_db \<Rightarrow> event_object \<times> outbox_db" where
  "publish_in_transaction now event_id event_type aggregate_id aggregate_type user cell payload correlation db =
     (let e = \<lparr>oe_id = event_id, oe_event_type = event_type, oe_aggregate_id = aggregate_id,
          oe_aggregate_type = aggregate_type, oe_user_id = user, oe_cell_id = cell, oe_payload = payload,
          oe_status = ''pending'', oe_created_at = now, oe_processed_at = None, oe_retry_count = 0,
          oe_correlation_id = correlation, oe_error = None, oe_lease_owner = None,
          oe_lease_expires_at = None, oe_next_attempt_at = None\<rparr>
      in (typed_row e, db\<lparr>od_events := od_events db @ [e]\<rparr>))"

definition dispatch_to_queue :: "(string \<Rightarrow> string) \<Rightarrow> (uid \<Rightarrow> error option) \<Rightarrow> event_object
    \<Rightarrow> outbox_db \<Rightarrow> (unit, outbox_db) outcome" where
  "dispatch_to_queue sha256 fails ev db =
     (case job_for sha256 ev of None \<Rightarrow> (Inr (), db)
      | Some j \<Rightarrow> (case fails (eo_id ev) of Some e \<Rightarrow> (Inl e, db)
          | None \<Rightarrow> (Inr (), db\<lparr>od_jobs := submit j (od_jobs db)\<rparr>)))"

definition publish_from_event :: "(string \<Rightarrow> string) \<Rightarrow> time \<Rightarrow> (uid \<Rightarrow> error option) \<Rightarrow> event_object
    \<Rightarrow> outbox_db \<Rightarrow> outbox_db" where
  "publish_from_event sha256 now fails ev db =
     (case dispatch_to_queue sha256 fails ev db of
        (Inl e, db') \<Rightarrow> db'
      | (Inr _, db') \<Rightarrow> snd (update_event (eo_id ev)
          (\<lambda>e. e\<lparr>oe_status := ''processed'', oe_processed_at := Some now\<rparr>) db'))"

subsection \<open>At-least-once delivery\<close>

text \<open>The job of an event is in the log, or its type has none.\<close>

definition delivered :: "(string \<Rightarrow> string) \<Rightarrow> event_object \<Rightarrow> outbox_job list \<Rightarrow> bool" where
  "delivered sha256 ev jobs = (case job_for sha256 ev of None \<Rightarrow> True
     | Some j \<Rightarrow> \<exists>k\<in>set jobs. oj_queue k = oj_queue j
         \<and> (if oj_id j = None then k = j else oj_id k = oj_id j))"

definition outbox_ok :: "(string \<Rightarrow> string) \<Rightarrow> outbox_db \<Rightarrow> bool" where
  "outbox_ok sha256 db = (distinct (map oe_id (od_events db))
     \<and> (\<forall>e\<in>set (od_events db). oe_status e = ''processed'' \<longrightarrow> delivered sha256 (typed_row e) (od_jobs db)))"

lemma delivered_submit: "delivered sha256 ev jobs \<Longrightarrow> delivered sha256 ev (submit j jobs)"
  by (auto simp: delivered_def submit_def split: option.split)

lemma submit_delivers: "job_for sha256 ev = Some j \<Longrightarrow> delivered sha256 ev (submit j jobs)"
  by (auto simp: delivered_def submit_def dest: find_row_SomeD)

lemma typed_row_id: "typed_row e = typed_row e' \<Longrightarrow> oe_id e = oe_id e'"
  by (simp add: typed_row_def)

text \<open>Updates of the rows that keep what their objects show and mark only delivered events.\<close>

lemma outbox_ok_update:
  assumes ok: "outbox_ok sha256 db" and core: "\<And>e. typed_row (f e) = typed_row e"
    and del: "\<And>e. e \<in> set (od_events db) \<Longrightarrow> P e \<Longrightarrow> oe_status (f e) = ''processed'' \<Longrightarrow> delivered sha256 (typed_row e) (od_jobs db)"
  shows "outbox_ok sha256 (db\<lparr>od_events := update_many P f (od_events db)\<rparr>)"
proof -
  have "map oe_id (update_many P f (od_events db)) = map oe_id (od_events db)"
    by (rule map_update_many_key) (rule typed_row_id [OF core])
  moreover have "delivered sha256 (typed_row e') (od_jobs db)"
    if e': "e' \<in> set (update_many P f (od_events db))" "oe_status e' = ''processed''" for e'
  proof -
    obtain e where "e \<in> set (od_events db)" "e' = (if P e then f e else e)"
      using e'(1) by (auto simp: set_update_many)
    then show ?thesis using ok del [of e] core e'(2) by (auto simp: outbox_ok_def split: if_splits)
  qed
  ultimately show ?thesis using ok by (auto simp: outbox_ok_def)
qed

lemma outbox_ok_submit: "outbox_ok sha256 db \<Longrightarrow> outbox_ok sha256 (db\<lparr>od_jobs := submit j (od_jobs db)\<rparr>)"
  by (auto simp: outbox_ok_def delivered_submit)

definition same_objects :: "outbox_db \<Rightarrow> outbox_db \<Rightarrow> bool" where
  "same_objects db db' = (map typed_row (od_events db') = map typed_row (od_events db))"

lemma same_objects_update:
  "(\<And>e. typed_row (f e) = typed_row e) \<Longrightarrow> same_objects db (db\<lparr>od_events := update_many P f (od_events db)\<rparr>)"
  by (simp add: same_objects_def map_update_many_key)

lemma same_objects_trans: "same_objects a b \<Longrightarrow> same_objects b c \<Longrightarrow> same_objects a c"
  by (simp add: same_objects_def)

lemma snd_with_rls: "snd (with_rls_transaction user f s) = s \<or> with_rls_transaction user f s = transaction f s"
  by (simp add: with_rls_transaction_def)

lemma update_event_snd:
  "snd (update_event i f db) = db \<or>
   update_event i f db = (Inr (), db\<lparr>od_events := update_many (\<lambda>e. oe_id e = i) f (od_events db)\<rparr>)"
  by (simp add: update_event_def)

lemma snd_rls_update:
  "snd (with_rls_transaction user (update_event i f) db) \<in>
     {db, db\<lparr>od_events := update_many (\<lambda>e. oe_id e = i) f (od_events db)\<rparr>}"
  using update_event_snd [of i f db]
  by (auto simp: with_rls_transaction_def transaction_def split: prod.split sum.split)

lemma rls_update_ok:
  assumes "outbox_ok sha256 db" and "\<And>e. typed_row (f e) = typed_row e"
    and "\<And>e. e \<in> set (od_events db) \<Longrightarrow> oe_id e = i \<Longrightarrow> oe_status (f e) = ''processed''
      \<Longrightarrow> delivered sha256 (typed_row e) (od_jobs db)"
  shows "outbox_ok sha256 (snd (with_rls_transaction user (update_event i f) db))"
    and "same_objects db (snd (with_rls_transaction user (update_event i f) db))"
  using snd_rls_update [of user i f db] outbox_ok_update [OF assms(1,2), of "\<lambda>e. oe_id e = i"] assms(3)
    same_objects_update [OF assms(2), of db "\<lambda>e. oe_id e = i"] assms(1)
  by (auto simp: same_objects_def)

lemma mark_processed_ok:
  assumes "outbox_ok sha256 db" and "ev \<in> typed_row ` set (od_events db)" and "delivered sha256 ev (od_jobs db)"
  shows "outbox_ok sha256 (snd (mark_processed now (eo_id ev) user db))"
    and "same_objects db (snd (mark_processed now (eo_id ev) user db))"
proof -
  obtain e0 where e0: "e0 \<in> set (od_events db)" "ev = typed_row e0" using assms(2) by blast
  have same: "e = e0" if "e \<in> set (od_events db)" "oe_id e = eo_id ev" for e
  proof (rule distinct_key_unique [OF _ that(1) e0(1)])
    show "distinct (map oe_id (od_events db))" using assms(1) by (simp add: outbox_ok_def)
    show "oe_id e = oe_id e0" using that(2) e0(2) by (simp add: typed_row_def)
  qed
  show "outbox_ok sha256 (snd (mark_processed now (eo_id ev) user db))"
    unfolding mark_processed_def
    by (rule rls_update_ok(1) [OF assms(1)]) (simp add: typed_row_def, use same assms(3) e0(2) in blast)
  show "same_objects db (snd (mark_processed now (eo_id ev) user db))"
    unfolding mark_processed_def
    by (rule rls_update_ok(2) [OF assms(1)]) (simp add: typed_row_def, use same assms(3) e0(2) in blast)
qed

lemma mark_failed_ok:
  assumes "outbox_ok sha256 db"
  shows "outbox_ok sha256 (snd (mark_failed opts now i msg db))" and "same_objects db (snd (mark_failed opts now i msg db))"
  unfolding mark_failed_def Let_def
  by (rule rls_update_ok [OF assms]; simp add: failed_row_def typed_row_def split: if_splits)+

lemma deliver_ok:
  assumes "outbox_ok sha256 db" and "ev \<in> typed_row ` set (od_events db)"
  shows "outbox_ok sha256 (snd (deliver sha256 now fails ev db)) \<and> same_objects db (snd (deliver sha256 now fails ev db))"
proof (cases "job_for sha256 ev")
  case None
  then have "delivered sha256 ev (od_jobs db)" by (simp add: delivered_def)
  with None mark_processed_ok [OF assms] show ?thesis by (simp add: deliver_def)
next
  case (Some j)
  let ?db = "db\<lparr>od_jobs := submit j (od_jobs db)\<rparr>"
  have "same_objects ?db x = same_objects db x" for x by (simp add: same_objects_def)
  moreover have "delivered sha256 ev (od_jobs ?db)" using submit_delivers [OF Some] by simp
  ultimately show ?thesis
    using Some assms mark_processed_ok [OF outbox_ok_submit [OF assms(1)], of ev j now "eo_user_id ev"]
    by (simp add: deliver_def same_objects_def split: option.split)
qed

lemma dispatch_event_ok:
  assumes "outbox_ok sha256 db" and "ev \<in> typed_row ` set (od_events db)"
  shows "outbox_ok sha256 (snd (dispatch_event sha256 opts now fails ev db))
    \<and> same_objects db (snd (dispatch_event sha256 opts now fails ev db))"
proof (cases "deliver sha256 now fails ev db")
  case (Pair r db')
  with deliver_ok [OF assms, of now fails] have "outbox_ok sha256 db'" "same_objects db db'" by simp_all
  with Pair mark_failed_ok [of sha256 db' opts now "eo_id ev"] show ?thesis
    by (cases r) (auto simp: dispatch_event_def intro: same_objects_trans)
qed

lemma dispatch_events_ok:
  "outbox_ok sha256 db \<Longrightarrow> set evs \<subseteq> typed_row ` set (od_events db) \<Longrightarrow>
    outbox_ok sha256 (dispatch_events sha256 opts now fails evs db)"
proof (induction evs arbitrary: db)
  case (Cons ev evs)
  obtain r db' where r: "dispatch_event sha256 opts now fails ev db = (r, db')" by fastforce
  with dispatch_event_ok [of sha256 db ev opts now fails] Cons.prems
  have ok: "outbox_ok sha256 db'" "same_objects db db'" by simp_all
  then have "set evs \<subseteq> typed_row ` set (od_events db')"
    using Cons.prems by (metis image_set insert_subset list.simps(15) same_objects_def)
  with Cons.IH ok(1) r show ?case by (simp split: sum.split)
qed simp

lemma dispatch_batch_ok:
  assumes "outbox_ok sha256 db"
  shows "outbox_ok sha256 (dispatch_batch typed_row sha256 opts dispatcher now fails db)"
proof -
  obtain evs db1 where c: "claim_batch typed_row opts dispatcher now db = (evs, db1)" by fastforce
  have core: "typed_row (claim_row w t e) = typed_row e" for w t e by (simp add: claim_row_def typed_row_def)
  have db1: "db1 = db\<lparr>od_events := update_many (\<lambda>e. oe_id e \<in> set (map oe_id (claimed_rows opts now db)))
      (claim_row dispatcher (now + oo_lease_ttl_ms opts)) (od_events db)\<rparr>"
    using c by (simp add: claim_batch_def Let_def)
  have ok: "outbox_ok sha256 db1"
    unfolding db1 by (rule outbox_ok_update [OF assms core]) (simp add: claim_row_def)
  have "same_objects db db1"
    unfolding db1 by (rule same_objects_update [OF core])
  then have "typed_row ` set (od_events db1) = typed_row ` set (od_events db)"
    by (metis image_set same_objects_def)
  moreover have "set evs \<subseteq> typed_row ` set (od_events db)"
    using c set_take_subset [of "oo_batch_size opts"]
    by (fastforce simp: claim_batch_def Let_def claimed_rows_def)
  ultimately show ?thesis
    using dispatch_events_ok [OF ok] c by (simp add: dispatch_batch_def)
qed

text \<open>
  The steps of the outbox: dispatchers run batches, business transactions publish events and
  may deliver any event of the table on the fast path, operators requeue dead letters.
\<close>

inductive outbox_step :: "(outbox_event \<Rightarrow> event_object) \<Rightarrow> (string \<Rightarrow> string) \<Rightarrow> outbox_options \<Rightarrow> outbox_db \<Rightarrow> outbox_db \<Rightarrow> bool"
  for hydrate sha256 opts where
  batch: "outbox_step hydrate sha256 opts db (dispatch_batch hydrate sha256 opts dispatcher now fails db)"
| publish: "i \<notin> oe_id ` set (od_events db) \<Longrightarrow> outbox_step hydrate sha256 opts db
    (snd (publish_in_transaction now i event_type aggregate_id aggregate_type user cell payload correlation db))"
| fast_path: "e \<in> set (od_events db) \<Longrightarrow>
    outbox_step hydrate sha256 opts db (publish_from_event sha256 now fails (typed_row e) db)"
| requeue: "outbox_step hydrate sha256 opts db (snd (requeue_dlq_event i db))"

lemma publish_from_event_ok:
  assumes "outbox_ok sha256 db" and "e \<in> set (od_events db)"
  shows "outbox_ok sha256 (publish_from_event sha256 now fails (typed_row e) db)"
proof (cases "dispatch_to_queue sha256 fails (typed_row e) db")
  case (Pair r db1)
  have db1: "outbox_ok sha256 db1" "od_events db1 = od_events db"
    using Pair outbox_ok_submit [OF assms(1)] assms(1)
    by (auto simp: dispatch_to_queue_def split: option.splits)
  show ?thesis
  proof (cases r)
    case (Inl x)
    with Pair db1 show ?thesis by (simp add: publish_from_event_def)
  next
    case (Inr u)
    then have del: "delivered sha256 (typed_row e) (od_jobs db1)"
    proof (cases "job_for sha256 (typed_row e)")
      case None
      then show ?thesis by (simp add: delivered_def)
    next
      case (Some j)
      then have "od_jobs db1 = submit j (od_jobs db)"
        using Pair Inr by (auto simp: dispatch_to_queue_def split: option.splits)
      then show ?thesis using submit_delivers [OF Some] by simp
    qed
    have ok: "outbox_ok sha256 (db1\<lparr>od_events := update_many (\<lambda>x. oe_id x = oe_id e)
        (\<lambda>e. e\<lparr>oe_status := ''processed'', oe_processed_at := Some now\<rparr>) (od_events db1)\<rparr>)"
    proof (rule outbox_ok_update [OF db1(1)])
      fix x assume x: "x \<in> set (od_events db1)" "oe_id x = oe_id e"
      have "x = e"
        by (rule distinct_key_unique [of oe_id "od_events db"]) (use assms db1(2) x in \<open>simp_all add: outbox_ok_def\<close>)
      then show "delivered sha256 (typed_row x) (od_jobs db1)" using del by simp
    qed (simp add: typed_row_def)
    have "eo_id (typed_row e) = oe_id e" by (simp add: typed_row_def)
    with Pair Inr ok db1(1) show ?thesis
      by (cases "find_row (\<lambda>x. oe_id x = oe_id e) (od_events db1)")
        (simp_all add: publish_from_event_def update_event_def)
  qed
qed

lemma requeue_ok: "outbox_ok sha256 db \<Longrightarrow> outbox_ok sha256 (snd (requeue_dlq_event i db))"
  unfolding requeue_dlq_event_def Let_def
  by (rule rls_update_ok(1); simp add: typed_row_def)

lemma outbox_step_ok:
  "outbox_step typed_row sha256 opts db db' \<Longrightarrow> outbox_ok sha256 db \<Longrightarrow> outbox_ok sha256 db'"
proof (induction rule: outbox_step.induct)
  case (publish i db now event_type aggregate_id aggregate_type user cell payload correlation)
  then show ?case by (auto simp: publish_in_transaction_def Let_def outbox_ok_def)
qed (simp_all add: dispatch_batch_ok publish_from_event_ok requeue_ok)


definition sample_event :: outbox_event where
  "sample_event = \<lparr>oe_id = ''e'', oe_event_type = ''RESUME_UPLOADED'', oe_aggregate_id = ''r'',
     oe_aggregate_type = ''RESUME'', oe_user_id = ''u'', oe_cell_id = ''c'', oe_payload = JNull,
     oe_status = ''pending'', oe_created_at = 0, oe_processed_at = None, oe_retry_count = 0,
     oe_correlation_id = ''k'', oe_error = None, oe_lease_owner = None, oe_lease_expires_at = None,
     oe_next_attempt_at = None\<rparr>"


subsection \<open>Failures\<close>

lemma mark_failed_row:
  assumes "find_row (\<lambda>x. oe_id x = i) (od_events db) = Some e" and "trim (oe_user_id e) \<noteq> []"
  shows "mark_failed opts now i msg db = (Inr (), db\<lparr>od_events :=
    update_many (\<lambda>x. oe_id x = i) (failed_row opts now msg (oe_retry_count e + 1)) (od_events db)\<rparr>)"
  using assms by (simp add: mark_failed_def Let_def with_rls_transaction_def transaction_def update_event_def)

lemma backoff_bounds: "1 \<le> retry \<Longrightarrow> BASE_RETRY_DELAY_MS \<le> backoff_ms retry \<and> backoff_ms retry \<le> MAX_RETRY_DELAY_MS"
  by (simp add: backoff_ms_def BASE_RETRY_DELAY_MS_def MAX_RETRY_DELAY_MS_def)

text \<open>
  Retries are bounded and delayed. A failed dispatch raises the event's retry count by one.
  If the maximum is reached the event is a dead letter, which no dispatcher claims at any time;
  otherwise it can be claimed again exactly from the end of its backoff on, which lies between
  one and sixty seconds.
\<close>

lemma failed_dispatch_schedule:
  assumes "find_row (\<lambda>x. oe_id x = eo_id ev) (od_events db) = Some e" and "trim (oe_user_id e) \<noteq> []"
    and "0 \<le> oe_retry_count e" and "fails (eo_id ev) = Some err" and "job_for sha256 ev \<noteq> None"
  shows "\<exists>db' e'. dispatch_event sha256 opts now fails ev db = (Inr (), db') \<and> od_jobs db' = od_jobs db
    \<and> find_row (\<lambda>x. oe_id x = eo_id ev) (od_events db') = Some e'
    \<and> oe_retry_count e' = oe_retry_count e + 1 \<and> oe_error e' = Some (error_text err)
    \<and> (if oo_max_retries opts \<le> oe_retry_count e + 1
       then oe_status e' = ''dlq'' \<and> (\<forall>m t. \<not> claimable m t e')
       else oe_status e' = ''failed'' \<and> (\<exists>d. 1000 \<le> d \<and> d \<le> 60000 \<and>
         (\<forall>t. claimable (oo_max_retries opts) t e' = (now + d \<le> t))))"
proof -
  let ?r = "oe_retry_count e + 1"
  let ?e' = "failed_row opts now (error_text err) ?r e"
  obtain j where j: "job_for sha256 ev = Some j" using assms(5) by blast
  have d: "dispatch_event sha256 opts now fails ev db = (Inr (), db\<lparr>od_events :=
      update_many (\<lambda>x. oe_id x = eo_id ev) (failed_row opts now (error_text err) ?r) (od_events db)\<rparr>)"
    using mark_failed_row [OF assms(1,2)] by (simp add: dispatch_event_def deliver_def j assms(4))
  have f: "find_row (\<lambda>x. oe_id x = eo_id ev) (update_many (\<lambda>x. oe_id x = eo_id ev)
      (failed_row opts now (error_text err) ?r) (od_events db)) = Some ?e'"
    using assms(1) find_row_SomeD [OF assms(1)]
    by (simp add: find_row_update_many_same failed_row_def)
  have b: "1000 \<le> backoff_ms ?r \<and> backoff_ms ?r \<le> 60000"
    using backoff_bounds [of ?r] assms(3) by (simp add: BASE_RETRY_DELAY_MS_def MAX_RETRY_DELAY_MS_def)
  have "if oo_max_retries opts \<le> ?r then oe_status ?e' = ''dlq'' \<and> (\<forall>m t. \<not> claimable m t ?e')
    else oe_status ?e' = ''failed'' \<and> (\<forall>t. claimable (oo_max_retries opts) t ?e' = (now + backoff_ms ?r \<le> t))"
    by (simp add: failed_row_def claimable_def)
  moreover have "oe_retry_count ?e' = ?r" "oe_error ?e' = Some (error_text err)" by (simp_all add: failed_row_def)
  ultimately show ?thesis using d f b by (auto split: if_splits)
qed

lemma failed_dispatch_schedule_witness:
  "\<exists>db' e'. dispatch_event id default_options 7 (\<lambda>_. Some (GenericError ''down'')) (typed_row sample_event)
      \<lparr>od_events = [sample_event], od_jobs = []\<rparr> = (Inr (), db')
    \<and> find_row (\<lambda>x. oe_id x = ''e'') (od_events db') = Some e' \<and> oe_status e' = ''failed''"
proof -
  have *: "find_row (\<lambda>x. oe_id x = eo_id (typed_row sample_event)) (od_events \<lparr>od_events = [sample_event], od_jobs = []\<rparr>)
      = Some sample_event" "trim (oe_user_id sample_event) \<noteq> []" "0 \<le> oe_retry_count sample_event"
    "job_for id (typed_row sample_event) \<noteq> None"
    by (simp_all add: typed_row_def sample_event_def trim_def is_space_def job_for_def)
  from failed_dispatch_schedule [where fails = "\<lambda>_. Some (GenericError ''down'')" and opts = default_options
      and now = 7, OF *(1-3) refl *(4)]
  show ?thesis by (auto simp: typed_row_def default_options_def MAX_RETRIES_def sample_event_def split: if_splits)
qed

lemma update_event_other:
  assumes "e \<in> set (od_events db)" and "oe_id e \<noteq> i"
  shows "e \<in> set (od_events (snd (with_rls_transaction user (update_event i f) db)))"
proof -
  have "e \<in> set (update_many (\<lambda>x. oe_id x = i) f (od_events db))"
    using assms unfolding set_update_many by (metis (mono_tags, lifting) imageI)
  then show ?thesis using snd_rls_update [of user i f db] assms(1) by auto
qed

lemma dispatch_event_other:
  assumes "e \<in> set (od_events db)" and "oe_id e \<noteq> eo_id ev"
  shows "e \<in> set (od_events (snd (dispatch_event sha256 opts now fails ev db)))"
proof -
  have "e \<in> set (od_events (snd (deliver sha256 now fails ev db)))"
    using assms update_event_other [of e] unfolding deliver_def mark_processed_def
    by (simp split: option.split)
  then have "e \<in> set (od_events (snd (mark_failed opts now (eo_id ev) m (snd (deliver sha256 now fails ev db)))))" for m
    unfolding mark_failed_def Let_def by (rule update_event_other) (rule assms(2))
  then show ?thesis
    using \<open>e \<in> set (od_events (snd (deliver sha256 now fails ev db)))\<close>
    by (cases "deliver sha256 now fails ev db") (auto simp: dispatch_event_def split: sum.split)
qed

lemma dispatch_events_other:
  "e \<in> set (od_events db) \<Longrightarrow> oe_id e \<notin> eo_id ` set evs \<Longrightarrow>
    e \<in> set (od_events (dispatch_events sha256 opts now fails evs db))"
proof (induction evs arbitrary: db)
  case (Cons ev evs)
  obtain r db' where r: "dispatch_event sha256 opts now fails ev db = (r, db')" by fastforce
  with dispatch_event_other [of e db ev sha256 opts now fails] Cons.prems
  have "e \<in> set (od_events db')" by simp
  with Cons r show ?case by (simp split: sum.split)
qed simp

lemma claimed_rows_sub: "r \<in> set (claimed_rows opts now db) \<Longrightarrow> r \<in> set (od_events db) \<and> claimable (oo_max_retries opts) now r"
  using set_take_subset [of "oo_batch_size opts"] by (fastforce simp: claimed_rows_def)

text \<open>
  A dispatcher that stops between its claim and its dispatch strands the event. An event
  marked \<open>processing\<close> is never claimed again: however often and late batches run, on whatever
  dispatcher, the row stays exactly as it is, expired lease included.
\<close>

lemma processing_events_stranded:
  assumes "e \<in> set (od_events db)" and "oe_status e = ''processing''" and "distinct (map oe_id (od_events db))"
    and "\<And>x. eo_id (hydrate x) = oe_id x"
  shows "e \<in> set (od_events (dispatch_batch hydrate sha256 opts dispatcher now fails db))"
proof -
  let ?rows = "claimed_rows opts now db"
  have "oe_id e \<notin> oe_id ` set ?rows"
  proof
    assume "oe_id e \<in> oe_id ` set ?rows"
    then obtain r where r: "r \<in> set ?rows" "oe_id r = oe_id e" by auto
    with claimed_rows_sub [OF r(1)] distinct_key_unique [OF assms(3), of r e] assms(1,2)
    show False by (auto simp: claimable_def)
  qed
  moreover have "e \<in> set (od_events (db\<lparr>od_events := update_many (\<lambda>e. oe_id e \<in> oe_id ` set ?rows)
      (claim_row dispatcher (now + oo_lease_ttl_ms opts)) (od_events db)\<rparr>))"
  proof -
    have "(if oe_id e \<in> oe_id ` set ?rows then claim_row dispatcher (now + oo_lease_ttl_ms opts) e else e)
        \<in> set (update_many (\<lambda>e. oe_id e \<in> oe_id ` set ?rows) (claim_row dispatcher (now + oo_lease_ttl_ms opts)) (od_events db))"
      unfolding set_update_many by (rule imageI) (rule assms(1))
    with \<open>oe_id e \<notin> oe_id ` set ?rows\<close> show ?thesis by simp
  qed
  ultimately show ?thesis
    unfolding dispatch_batch_def claim_batch_def Let_def prod.case
    by (intro dispatch_events_other) (simp_all add: image_image assms(4))
qed

lemma processing_events_stranded_witness:
  "sample_event\<lparr>oe_status := ''processing'', oe_lease_expires_at := Some 30\<rparr> \<in> set (od_events
     (dispatch_batch typed_row id default_options ''d'' 999999 (\<lambda>_. None)
       \<lparr>od_events = [sample_event\<lparr>oe_status := ''processing'', oe_lease_expires_at := Some 30\<rparr>], od_jobs = []\<rparr>))"
  by (rule processing_events_stranded) (simp_all add: typed_row_def)

subsection \<open>The objects of the raw query\<close>

definition NO_USER :: string where
  "NO_USER = ''withRlsTransaction requires a non-empty userId''"

definition refuse_row :: "outbox_options \<Rightarrow> time \<Rightarrow> outbox_event \<Rightarrow> outbox_event" where
  "refuse_row opts now e = failed_row opts now NO_USER (oe_retry_count e + 1) e"

lemma dispatch_raw:
  assumes "distinct (map oe_id (od_events db))" and "e \<in> set (od_events db)" and "trim (oe_user_id e) \<noteq> []"
    and "eo_id ev = oe_id e" and "eo_event_type ev = None" and "eo_user_id ev = None"
  shows "dispatch_event sha256 opts now fails ev db =
    (Inr (), db\<lparr>od_events := update_many (\<lambda>x. oe_id x = oe_id e) (refuse_row opts now) (od_events db)\<rparr>)"
proof -
  have "find_row (\<lambda>x. oe_id x = oe_id e) (od_events db) = Some e"
    by (rule find_row_unique [OF assms(1,2)])
  note f = mark_failed_row [OF this assms(3), of opts now NO_USER]
  have "update_many (\<lambda>x. oe_id x = oe_id e) (failed_row opts now NO_USER (oe_retry_count e + 1)) (od_events db)
      = update_many (\<lambda>x. oe_id x = oe_id e) (refuse_row opts now) (od_events db)"
    using distinct_key_unique [OF assms(1) _ assms(2)] by (auto simp: update_many_def refuse_row_def)
  with f show ?thesis
    by (simp add: dispatch_event_def deliver_def job_for_def assms mark_processed_def with_rls_transaction_def
        error_text_def flip: NO_USER_def)
qed

lemma dispatch_raw_events:
  assumes "distinct (map oe_id es)" and "oe_id ` set es \<subseteq> oe_id ` set (od_events db)"
    and "distinct (map oe_id (od_events db))" and "\<forall>e\<in>set (od_events db). trim (oe_user_id e) \<noteq> []"
  shows "dispatch_events sha256 opts now fails (map raw_row es) db =
    db\<lparr>od_events := update_many (\<lambda>x. oe_id x \<in> oe_id ` set es) (refuse_row opts now) (od_events db)\<rparr>"
  using assms
proof (induction es arbitrary: db)
  case Nil
  show ?case by (simp add: update_many_none)
next
  case (Cons e es)
  let ?u = "\<lambda>P xs. update_many P (refuse_row opts now) xs"
  obtain e0 where e0: "e0 \<in> set (od_events db)" "oe_id e0 = oe_id e" using Cons.prems(2) by auto
  let ?db = "db\<lparr>od_events := ?u (\<lambda>x. oe_id x = oe_id e) (od_events db)\<rparr>"
  have keep: "oe_id (refuse_row opts now x) = oe_id x" "oe_user_id (refuse_row opts now x) = oe_user_id x" for x
    by (simp_all add: refuse_row_def failed_row_def)
  have d: "dispatch_event sha256 opts now fails (raw_row e) db = (Inr (), ?db)"
    using dispatch_raw [OF Cons.prems(3) e0(1), of "raw_row e"] Cons.prems(4) e0 by (simp add: raw_row_def)
  have ids: "map oe_id (od_events ?db) = map oe_id (od_events db)" by (simp add: map_update_many_key keep)
  have "dispatch_events sha256 opts now fails (map raw_row es) ?db =
      ?db\<lparr>od_events := ?u (\<lambda>x. oe_id x \<in> oe_id ` set es) (od_events ?db)\<rparr>"
  proof (rule Cons.IH)
    show "oe_id ` set es \<subseteq> oe_id ` set (od_events ?db)"
      using Cons.prems(2) ids by (metis image_set insert_subset list.simps(15) list.simps(9))
    show "\<forall>e\<in>set (od_events ?db). trim (oe_user_id e) \<noteq> []"
      using Cons.prems(4) by (auto simp: set_update_many keep)
  qed (use Cons.prems ids in auto)
  moreover have "?u (\<lambda>x. oe_id x \<in> oe_id ` set es) (?u (\<lambda>x. oe_id x = oe_id e) xs)
      = ?u (\<lambda>x. oe_id x \<in> oe_id ` set (e # es)) xs" for xs
    using Cons.prems(1) by (auto simp: update_many_def keep)
  ultimately show ?case using d by simp
qed

text \<open>
  With the objects the raw query really returns, nothing is ever delivered. The event type
  and the user id are missing, so every claimed event is taken for one without a queue, marking
  it processed throws, and it is marked failed: a batch adds no job, and each event it claimed
  is one failure closer to the dead letters.
\<close>

lemma raw_rows_never_delivered:
  assumes "distinct (map oe_id (od_events db))" and "\<forall>e\<in>set (od_events db). trim (oe_user_id e) \<noteq> []"
    and "db' = dispatch_batch raw_row sha256 opts dispatcher now fails db"
  shows "od_jobs db' = od_jobs db
    \<and> (\<forall>e\<in>set (claimed_rows opts now db). \<exists>e'\<in>set (od_events db'). oe_id e' = oe_id e
         \<and> oe_retry_count e' = oe_retry_count e + 1
         \<and> oe_status e' = (if oo_max_retries opts \<le> oe_retry_count e + 1 then ''dlq'' else ''failed''))
    \<and> (\<forall>e'\<in>set (od_events db'). oe_status e' = ''processed'' \<longrightarrow> e' \<in> set (od_events db))"
proof -
  let ?rows = "claimed_rows opts now db"
  let ?c = "claim_row dispatcher (now + oo_lease_ttl_ms opts)"
  let ?hit = "\<lambda>e. oe_id e \<in> oe_id ` set ?rows"
  let ?db1 = "db\<lparr>od_events := update_many ?hit ?c (od_events db)\<rparr>"
  have keep: "oe_id (?c x) = oe_id x" "oe_user_id (?c x) = oe_user_id x" "oe_retry_count (?c x) = oe_retry_count x" for x
    by (simp_all add: claim_row_def)
  have ids: "map oe_id (od_events ?db1) = map oe_id (od_events db)" by (simp add: map_update_many_key keep)
  have drows: "distinct (map oe_id ?rows)"
  proof -
    have "distinct (map oe_id (sort_key oe_created_at (filter (claimable (oo_max_retries opts) now) (od_events db))))"
      using assms(1) by (simp add: distinct_map inj_on_def)
    then show ?thesis unfolding claimed_rows_def by (metis distinct_take take_map)
  qed
  have "dispatch_events sha256 opts now fails (map raw_row ?rows) ?db1 =
      ?db1\<lparr>od_events := update_many ?hit (refuse_row opts now) (od_events ?db1)\<rparr>"
  proof (rule dispatch_raw_events [OF drows])
    show "oe_id ` set ?rows \<subseteq> oe_id ` set (od_events ?db1)"
      using ids claimed_rows_sub by (metis (no_types, lifting) image_mono image_set subsetI)
    show "\<forall>e\<in>set (od_events ?db1). trim (oe_user_id e) \<noteq> []"
      using assms(2) by (auto simp: set_update_many keep)
  qed (use assms(1) ids in simp)
  moreover have "update_many ?hit (refuse_row opts now) (update_many ?hit ?c xs)
      = update_many ?hit (\<lambda>e. refuse_row opts now (?c e)) xs" for xs
    by (auto simp: update_many_def keep)
  ultimately have db': "db' = db\<lparr>od_events := update_many ?hit (\<lambda>e. refuse_row opts now (?c e)) (od_events db)\<rparr>"
    by (simp add: assms(3) dispatch_batch_def claim_batch_def Let_def)
  have "refuse_row opts now (?c e) \<in> set (od_events db')" if "e \<in> set ?rows" for e
    using that claimed_rows_sub [OF that] by (force simp: db' set_update_many)
  moreover have "oe_id (refuse_row opts now (?c e)) = oe_id e \<and> oe_retry_count (refuse_row opts now (?c e)) = oe_retry_count e + 1
     \<and> oe_status (refuse_row opts now (?c e)) = (if oo_max_retries opts \<le> oe_retry_count e + 1 then ''dlq'' else ''failed'')" for e
    by (simp add: refuse_row_def failed_row_def claim_row_def)
  moreover have "\<forall>e'\<in>set (od_events db'). oe_status e' = ''processed'' \<longrightarrow> e' \<in> set (od_events db)"
    by (auto simp: db' set_update_many refuse_row_def failed_row_def split: if_splits)
  moreover have "od_jobs db' = od_jobs db" by (simp add: db')
  ultimately show ?thesis by blast
qed

lemma raw_rows_never_delivered_witness:
  "od_jobs (dispatch_batch raw_row id default_options ''d'' 5 (\<lambda>_. None) \<lparr>od_events = [sample_event], od_jobs = []\<rparr>) = []"
proof -
  have "distinct (map oe_id (od_events \<lparr>od_events = [sample_event], od_jobs = []\<rparr>))"
    "\<forall>e\<in>set (od_events \<lparr>od_events = [sample_event], od_jobs = []\<rparr>). trim (oe_user_id e) \<noteq> []"
    by (simp_all add: sample_event_def trim_def is_space_def)
  from raw_rows_never_delivered [OF this refl, of id default_options "''d''" 5 "\<lambda>_. None"] show ?thesis by simp
qed

end
