(* ===== verification/Extraction_Runs.thy ===== *)
theory Extraction_Runs
  imports Applications
begin

text \<open>
  The tables of the candidate intelligence and the lifecycle of extraction runs
  (\<open>src/src/services/candidate-intelligence/extraction-run.service.ts\<close>). \<open>route\<close> stands for
  the cell routing service's answer for a user; foreign keys are taken to hold. A status
  transition reads the run and then updates it: \<open>env\<close> is what others commit in between.
\<close>

record extraction_run =
  er_id :: uid
  er_user_id :: uid
  er_cell_id :: "string option"
  er_source_type :: string
  er_source_id :: uid
  er_source_version :: "string option"
  er_source_identity :: "string option"
  er_model_id :: string
  er_parser_version :: "string option"
  er_model_provider :: "string option"
  er_model_version :: "string option"
  er_prompt_version :: "string option"
  er_schema_version :: "string option"
  er_status :: string
  er_failure_reason :: "string option"
  er_started_at :: "time option"
  er_completed_at :: "time option"

record fact_provenance =
  fp_id :: uid
  fp_user_id :: uid
  fp_cell_id :: "string option"
  fp_source_type :: string
  fp_source_id :: string
  fp_source_version :: "string option"
  fp_source_identity :: "string option"
  fp_extraction_run_id :: uid
  fp_parser_version :: "string option"
  fp_model_provider :: "string option"
  fp_model_version :: "string option"
  fp_prompt_version :: "string option"
  fp_schema_version :: string

record fact_observation =
  fo_id :: uid
  fo_user_id :: uid
  fo_extraction_run_id :: "uid option"
  fo_provenance_id :: "uid option"
  fo_fact_type :: string
  fo_fact_data :: json
  fo_source_type :: string
  fo_source_id :: uid
  fo_source_version :: "string option"
  fo_extraction_method :: string
  fo_model_version :: "string option"
  fo_confidence :: rat
  fo_evidence_reference :: "string option"
  fo_valid_from :: "time option"
  fo_valid_to :: "time option"
  fo_observed_at :: time
  fo_snapshot_id :: "uid option"
  fo_version :: int
  fo_is_current :: bool
  fo_superseded_by_id :: "uid option"
  fo_superseded_at :: "time option"
  fo_corrected_by :: "uid option"
  fo_corrected_at :: "time option"
  fo_correction_reason :: "string option"
  fo_is_user_corrected :: bool
  fo_needs_review :: bool
  fo_reviewed_at :: "time option"
  fo_reviewed_by :: "uid option"
  fo_review_status :: "string option"
  fo_review_notes :: "string option"
  fo_deleted_at :: "time option"

record canonical_intelligence =
  ci_id :: uid
  ci_user_id :: uid
  ci_cell_id :: string
  ci_fact_type :: string
  ci_deduplication_key :: string
  ci_source_fact_id :: uid
  ci_provenance_id :: uid
  ci_confidence :: rat
  ci_last_observed_at :: time
  ci_is_active :: bool

record snapshot_row =
  sn_id :: uid
  sn_user_id :: uid
  sn_snapshot_type :: string
  sn_reference_id :: "uid option"
  sn_captured_at :: time
  sn_description :: "string option"
  sn_last_fact_id :: "uid option"
  sn_schema_version :: string
  sn_candidate_state :: "json option"

record intel_db =
  in_runs :: "extraction_run list"
  in_provenances :: "fact_provenance list"
  in_facts :: "fact_observation list"
  in_canonicals :: "canonical_intelligence list"
  in_snapshots :: "snapshot_row list"
  in_resumes :: "(uid \<times> uid) list"
  in_emails :: "(uid \<times> uid) list"

definition empty_intel_db :: intel_db where
  "empty_intel_db = \<lparr>in_runs = [], in_provenances = [], in_facts = [], in_canonicals = [],
     in_snapshots = [], in_resumes = [], in_emails = []\<rparr>"

subsection \<open>Creating a run\<close>

record create_run_input =
  ri_user_id :: uid
  ri_cell_id :: "string option"
  ri_model_id :: string
  ri_source_type :: string
  ri_source_id :: string
  ri_source_version :: "string option"
  ri_source_identity :: "string option"
  ri_parser_version :: string
  ri_model_provider :: "string option"
  ri_model_version :: "string option"
  ri_prompt_version :: "string option"
  ri_schema_version :: string

record extraction_context =
  xc_run_id :: uid
  xc_provenance_id :: uid
  xc_cell_id :: string

definition assert_source_ownership :: "uid \<Rightarrow> string \<Rightarrow> string \<Rightarrow> intel_db \<Rightarrow> error option" where
  "assert_source_ownership user source_type source_id db =
     (if source_type = ''RESUME'' \<or> source_type = ''LINKEDIN_PROFILE'' then
        (if find_row (\<lambda>r. fst r = source_id \<and> snd r = user) (in_resumes db) = None
         then Some (InvalidSourceReferenceError source_type source_id) else None)
      else if source_type = ''EMAIL'' then
        (case find_row (\<lambda>m. fst m = source_id) (in_emails db) of
           None \<Rightarrow> Some (InvalidSourceReferenceError source_type source_id)
         | Some m \<Rightarrow> if snd m \<noteq> user then Some (InvalidSourceReferenceError source_type source_id) else None)
      else None)"

definition new_run :: "uid \<Rightarrow> string \<Rightarrow> create_run_input \<Rightarrow> string \<Rightarrow> extraction_run" where
  "new_run run_id cell inp status = \<lparr>er_id = run_id, er_user_id = ri_user_id inp, er_cell_id = Some cell,
     er_source_type = ri_source_type inp, er_source_id = ri_source_id inp,
     er_source_version = ri_source_version inp, er_source_identity = ri_source_identity inp,
     er_model_id = ri_model_id inp, er_parser_version = Some (ri_parser_version inp),
     er_model_provider = ri_model_provider inp, er_model_version = ri_model_version inp,
     er_prompt_version = ri_prompt_version inp, er_schema_version = Some (ri_schema_version inp),
     er_status = status, er_failure_reason = None, er_started_at = None, er_completed_at = None\<rparr>"

definition new_provenance :: "uid \<Rightarrow> uid \<Rightarrow> string \<Rightarrow> create_run_input \<Rightarrow> fact_provenance" where
  "new_provenance prov_id run_id cell inp = \<lparr>fp_id = prov_id, fp_user_id = ri_user_id inp, fp_cell_id = Some cell,
     fp_source_type = ri_source_type inp, fp_source_id = ri_source_id inp,
     fp_source_version = ri_source_version inp, fp_source_identity = ri_source_identity inp,
     fp_extraction_run_id = run_id, fp_parser_version = Some (ri_parser_version inp),
     fp_model_provider = ri_model_provider inp, fp_model_version = ri_model_version inp,
     fp_prompt_version = ri_prompt_version inp, fp_schema_version = ri_schema_version inp\<rparr>"

definition create_run :: "(uid \<Rightarrow> error + string) \<Rightarrow> uid \<Rightarrow> uid \<Rightarrow> create_run_input
    \<Rightarrow> intel_db \<Rightarrow> (extraction_context, intel_db) outcome" where
  "create_run route run_id prov_id inp db =
     (case route (ri_user_id inp) of Inl e \<Rightarrow> (Inl e, db)
      | Inr home \<Rightarrow>
        let cell = option_or (ri_cell_id inp) home
        in if truthy (ri_cell_id inp) \<noteq> None \<and> ri_cell_id inp \<noteq> Some home
           then (Inl (CellBoundaryViolationError (ri_user_id inp) home cell), db)
           else if ri_source_id inp = [] \<or> ri_source_type inp = []
           then (Inl (InvalidSourceReferenceError (ri_source_type inp) (ri_source_id inp)), db)
           else case assert_source_ownership (ri_user_id inp) (ri_source_type inp) (ri_source_id inp) db of
             Some e \<Rightarrow> (Inl e, db)
           | None \<Rightarrow> (Inr \<lparr>xc_run_id = run_id, xc_provenance_id = prov_id, xc_cell_id = cell\<rparr>,
               db\<lparr>in_runs := in_runs db @ [new_run run_id cell inp ''pending''],
                  in_provenances := in_provenances db @ [new_provenance prov_id run_id cell inp]\<rparr>))"

subsection \<open>Transitions\<close>

definition TERMINAL_STATUSES :: "string set" where
  "TERMINAL_STATUSES = {''completed'', ''failed''}"

definition assert_run_ownership :: "uid \<Rightarrow> uid \<Rightarrow> intel_db \<Rightarrow> error + extraction_run" where
  "assert_run_ownership run_id user db =
     (case find_row (\<lambda>r. er_id r = run_id) (in_runs db) of
        None \<Rightarrow> Inl (ExtractionRunNotFoundError run_id)
      | Some run \<Rightarrow> if er_user_id run \<noteq> user then Inl (CrossUserOwnershipError ''ExtractionRun'' run_id) else Inr run)"

definition assert_non_terminal :: "extraction_run \<Rightarrow> error option" where
  "assert_non_terminal run = (if er_status run \<in> TERMINAL_STATUSES
     then Some (ImmutabilityViolationError ''ExtractionRun'' (er_id run)) else None)"

definition update_run :: "uid \<Rightarrow> (extraction_run \<Rightarrow> extraction_run) \<Rightarrow> intel_db \<Rightarrow> (extraction_run, intel_db) outcome" where
  "update_run run_id f db =
     (case find_row (\<lambda>r. er_id r = run_id) (in_runs db) of
        None \<Rightarrow> (Inl (PrismaError ''P2025''), db)
      | Some run \<Rightarrow> (Inr (f run), db\<lparr>in_runs := update_many (\<lambda>r. er_id r = run_id) f (in_runs db)\<rparr>))"

definition guarded_update :: "(intel_db \<Rightarrow> intel_db) \<Rightarrow> uid \<Rightarrow> uid \<Rightarrow> (extraction_run \<Rightarrow> extraction_run)
    \<Rightarrow> intel_db \<Rightarrow> (extraction_run, intel_db) outcome" where
  "guarded_update env run_id user f db =
     (case assert_run_ownership run_id user db of
        Inl e \<Rightarrow> (Inl e, env db)
      | Inr run \<Rightarrow> (case assert_non_terminal run of
          Some e \<Rightarrow> (Inl e, env db)
        | None \<Rightarrow> update_run run_id f (env db)))"

definition start_run :: "(intel_db \<Rightarrow> intel_db) \<Rightarrow> time \<Rightarrow> uid \<Rightarrow> uid \<Rightarrow> intel_db \<Rightarrow> (extraction_run, intel_db) outcome" where
  "start_run env now run_id user =
     guarded_update env run_id user (\<lambda>r. r\<lparr>er_status := ''running'', er_started_at := Some now\<rparr>)"

definition complete_run :: "(intel_db \<Rightarrow> intel_db) \<Rightarrow> time \<Rightarrow> uid \<Rightarrow> uid \<Rightarrow> intel_db \<Rightarrow> (extraction_run, intel_db) outcome" where
  "complete_run env now run_id user =
     guarded_update env run_id user (\<lambda>r. r\<lparr>er_status := ''completed'', er_completed_at := Some now\<rparr>)"

definition fail_run :: "(intel_db \<Rightarrow> intel_db) \<Rightarrow> time \<Rightarrow> uid \<Rightarrow> uid \<Rightarrow> string \<Rightarrow> intel_db \<Rightarrow> (extraction_run, intel_db) outcome" where
  "fail_run env now run_id user reason =
     guarded_update env run_id user (\<lambda>r. r\<lparr>er_status := ''failed'', er_failure_reason := Some reason,
       er_completed_at := Some now\<rparr>)"

subsection \<open>Queries\<close>

definition get_run_by_id :: "uid \<Rightarrow> uid \<Rightarrow> intel_db \<Rightarrow> error + extraction_run" where
  "get_run_by_id run_id user db = assert_run_ownership run_id user db"

text \<open>The database sorts null start times last in ascending and first in descending order.\<close>

definition get_runs_for_source :: "uid \<Rightarrow> string \<Rightarrow> uid \<Rightarrow> intel_db \<Rightarrow> extraction_run list" where
  "get_runs_for_source user source_type source_id db =
     sort_key (\<lambda>r. case er_started_at r of Some t \<Rightarrow> (0::int, t) | None \<Rightarrow> (1, 0))
       (find_many (\<lambda>r. er_user_id r = user \<and> er_source_type r = source_type \<and> er_source_id r = source_id) (in_runs db))"

definition get_runs_for_user :: "uid \<Rightarrow> string option \<Rightarrow> intel_db \<Rightarrow> extraction_run list" where
  "get_runs_for_user user status db =
     sort_key (\<lambda>r. case er_started_at r of Some t \<Rightarrow> (1::int, - t) | None \<Rightarrow> (0, 0))
       (find_many (\<lambda>r. er_user_id r = user \<and> (case truthy status of None \<Rightarrow> True | Some s \<Rightarrow> er_status r = s)) (in_runs db))"

subsection \<open>Properties\<close>

text \<open>The operations of the service as steps, each seen from the rows it starts with.\<close>

datatype run_op =
    Op_create uid uid create_run_input
  | Op_start time uid uid
  | Op_complete time uid uid
  | Op_fail time uid uid string

fun run_step :: "(uid \<Rightarrow> error + string) \<Rightarrow> run_op \<Rightarrow> intel_db \<Rightarrow> intel_db" where
  "run_step route (Op_create run_id prov_id inp) db = snd (create_run route run_id prov_id inp db)"
| "run_step route (Op_start now run_id user) db = snd (start_run id now run_id user db)"
| "run_step route (Op_complete now run_id user) db = snd (complete_run id now run_id user db)"
| "run_step route (Op_fail now run_id user reason) db = snd (fail_run id now run_id user reason db)"

fun acting_user :: "run_op \<Rightarrow> uid" where
  "acting_user (Op_create run_id prov_id inp) = ri_user_id inp"
| "acting_user (Op_start now run_id user) = user"
| "acting_user (Op_complete now run_id user) = user"
| "acting_user (Op_fail now run_id user reason) = user"

fun fresh_ids :: "run_op \<Rightarrow> intel_db \<Rightarrow> bool" where
  "fresh_ids (Op_create run_id prov_id inp) db =
     (run_id \<notin> er_id ` set (in_runs db) \<and> prov_id \<notin> fp_id ` set (in_provenances db))"
| "fresh_ids _ db = True"

text \<open>
  Every run has exactly one provenance record, with the same owner, cell and source, and every
  provenance record belongs to a run.
\<close>

definition run_key :: "extraction_run \<Rightarrow> uid \<times> uid \<times> string option \<times> string \<times> string" where
  "run_key r = (er_id r, er_user_id r, er_cell_id r, er_source_type r, er_source_id r)"

definition provenance_key :: "fact_provenance \<Rightarrow> uid \<times> uid \<times> string option \<times> string \<times> string" where
  "provenance_key p = (fp_extraction_run_id p, fp_user_id p, fp_cell_id p, fp_source_type p, fp_source_id p)"

definition runs_ok :: "(uid \<Rightarrow> error + string) \<Rightarrow> intel_db \<Rightarrow> bool" where
  "runs_ok route db = (distinct (map er_id (in_runs db)) \<and> distinct (map fp_id (in_provenances db))
     \<and> map run_key (in_runs db) = map provenance_key (in_provenances db)
     \<and> (\<forall>r\<in>set (in_runs db). er_source_id r \<noteq> [] \<and> er_source_type r \<noteq> []
          \<and> (\<exists>home. route (er_user_id r) = Inr home \<and> er_cell_id r = Some home)))"

lemma guarded_update_snd:
  "snd (guarded_update id run_id user f db) \<in> {db, db\<lparr>in_runs := update_many (\<lambda>r. er_id r = run_id) f (in_runs db)\<rparr>}"
  by (simp add: guarded_update_def update_run_def split: sum.split option.split)

lemma guarded_update_keeps:
  assumes "distinct (map er_id (in_runs db))" and "r \<in> set (in_runs db)"
    and "er_status r \<in> TERMINAL_STATUSES \<or> er_user_id r \<noteq> user"
  shows "r \<in> set (in_runs (snd (guarded_update id run_id user f db)))"
proof (cases "er_id r = run_id")
  case True
  then have "find_row (\<lambda>x. er_id x = run_id) (in_runs db) = Some r"
    using find_row_unique [OF assms(1,2)] by simp
  with assms(2,3) show ?thesis
    by (auto simp: guarded_update_def assert_run_ownership_def assert_non_terminal_def)
next
  case False
  then have "r \<in> set (update_many (\<lambda>r. er_id r = run_id) f (in_runs db))"
    using assms(2) unfolding set_update_many by (metis (mono_tags, lifting) imageI)
  then show ?thesis using guarded_update_snd [of run_id user f db] assms(2) by auto
qed

lemma guarded_update_ok:
  assumes "runs_ok route db" and "\<And>r. run_key (f r) = run_key r"
  shows "runs_ok route (snd (guarded_update id run_id user f db))"
proof -
  let ?rows = "update_many (\<lambda>r. er_id r = run_id) f (in_runs db)"
  have k: "er_id (f r) = er_id r" "er_user_id (f r) = er_user_id r" "er_cell_id (f r) = er_cell_id r"
    "er_source_type (f r) = er_source_type r" "er_source_id (f r) = er_source_id r" for r
    using assms(2) [of r] by (simp_all add: run_key_def)
  have "runs_ok route (db\<lparr>in_runs := ?rows\<rparr>)"
    using assms(1) by (auto simp: runs_ok_def map_update_many_key k assms(2) set_update_many)
  with guarded_update_snd [of run_id user f db] assms(1) show ?thesis by auto
qed

lemma create_run_ok:
  assumes "runs_ok route db" and "run_id \<notin> er_id ` set (in_runs db)" and "prov_id \<notin> fp_id ` set (in_provenances db)"
    and falsy: "ri_cell_id inp \<noteq> Some []"
  shows "runs_ok route (snd (create_run route run_id prov_id inp db))"
proof -
  have t: "truthy (ri_cell_id inp) = ri_cell_id inp"
    using falsy by (auto simp: truthy_def split: option.split list.split)
  show ?thesis
    using assms(1-3)
    by (auto simp: create_run_def Let_def runs_ok_def new_run_def new_provenance_def run_key_def provenance_key_def t
      option_or_def split: sum.split option.split)
qed


definition sample_run :: extraction_run where
  "sample_run = (new_run ''r'' ''c'' \<lparr>ri_user_id = ''u'', ri_cell_id = None, ri_model_id = ''m'', ri_source_type = ''MANUAL'',
     ri_source_id = ''s'', ri_source_version = None, ri_source_identity = None, ri_parser_version = ''1'',
     ri_model_provider = None, ri_model_version = None, ri_prompt_version = None, ri_schema_version = ''1''\<rparr> ''completed'')"


text \<open>
  Chain of custody. Every operation with fresh ids keeps this: each run has a non-empty
  source and the cell its user is routed to, and exactly one provenance record, which names the
  same owner, cell and source.
\<close>

lemma runs_keep_provenance:
  assumes "runs_ok route db" and "fresh_ids oper db"
    and "\<forall>run_id prov_id inp. oper = Op_create run_id prov_id inp \<longrightarrow> ri_cell_id inp \<noteq> Some []"
  shows "runs_ok route (run_step route oper db)"
proof (cases oper)
  case (Op_create run_id prov_id inp)
  with assms create_run_ok show ?thesis by simp
qed (use assms(1) guarded_update_ok in \<open>simp_all add: start_run_def complete_run_def fail_run_def run_key_def\<close>)

definition sample_run_input :: create_run_input where
  "sample_run_input = \<lparr>ri_user_id = ''u'', ri_cell_id = None, ri_model_id = ''m'', ri_source_type = ''MANUAL'',
     ri_source_id = ''s'', ri_source_version = None, ri_source_identity = None, ri_parser_version = ''1'',
     ri_model_provider = None, ri_model_version = None, ri_prompt_version = None, ri_schema_version = ''1''\<rparr>"

lemma runs_keep_provenance_witness:
  "runs_ok (\<lambda>_. Inr ''c'') (run_step (\<lambda>_. Inr ''c'') (Op_create ''r'' ''p'' sample_run_input) empty_intel_db)
   \<and> in_runs (run_step (\<lambda>_. Inr ''c'') (Op_create ''r'' ''p'' sample_run_input) empty_intel_db) \<noteq> []"
proof
  show "runs_ok (\<lambda>_. Inr ''c'') (run_step (\<lambda>_. Inr ''c'') (Op_create ''r'' ''p'' sample_run_input) empty_intel_db)"
    by (rule runs_keep_provenance) (simp_all add: runs_ok_def empty_intel_db_def sample_run_input_def)
  show "in_runs (run_step (\<lambda>_. Inr ''c'') (Op_create ''r'' ''p'' sample_run_input) empty_intel_db) \<noteq> []"
    by (simp add: create_run_def sample_run_input_def truthy_def Let_def assert_source_ownership_def)
qed

text \<open>
  The check and the update of a transition are two statements: if another call completes the
  run in between, the transition still goes through and overwrites the terminal status.
\<close>

lemma interleaved_transition_overwrites_terminal:
  assumes "find_row (\<lambda>r. er_id r = run_id) (in_runs db) = Some r" and "er_user_id r = user"
    and "er_status r \<notin> TERMINAL_STATUSES"
  shows "\<exists>r'. fst (complete_run id t1 run_id user db) = Inr r' \<and> er_status r' = ''completed''
    \<and> (\<exists>r''. fst (fail_run (\<lambda>d. snd (complete_run id t1 run_id user d)) t2 run_id user reason db) = Inr r''
         \<and> er_status r'' = ''failed'')"
proof -
  have "er_id r = run_id" using find_row_SomeD [OF assms(1)] by simp
  then show ?thesis
    using assms by (simp add: complete_run_def fail_run_def guarded_update_def assert_run_ownership_def
        assert_non_terminal_def update_run_def find_row_update_many_same)
qed

end
