(* ===== verification/Ownership.thy ===== *)
theory Ownership
  imports Extraction_Runs
begin

text \<open>
  \<open>OwnershipGuard\<close> (\<open>src/src/services/ownership/ownership.guard.ts\<close>): the checks that a user
  may access an application, a timeline event, a company, a recruiter, or a row of the
  candidate intelligence. Companies and recruiters are given with the applications linked to
  them. The locale states what a guard promises; every guard is an interpretation.
\<close>

locale ownership_check =
  fixes guard :: "uid \<Rightarrow> uid \<Rightarrow> 'db \<Rightarrow> error + 'a"
    and rows :: "'db \<Rightarrow> 'r list"
    and row_id :: "'r \<Rightarrow> uid"
    and owns :: "uid \<Rightarrow> 'r \<Rightarrow> bool"
    and view :: "'r \<Rightarrow> 'a"
  assumes grants: "guard user i db = Inr a \<Longrightarrow> \<exists>r\<in>set (rows db). row_id r = i \<and> owns user r \<and> view r = a"
    and complete: "distinct (map row_id (rows db)) \<Longrightarrow> r \<in> set (rows db) \<Longrightarrow> owns user r
      \<Longrightarrow> guard user (row_id r) db = Inr (view r)"
begin

lemma refuses_foreign:
  assumes "distinct (map row_id (rows db))" and "r \<in> set (rows db)" and "\<not> owns user r"
  shows "\<exists>e. guard user (row_id r) db = Inl e"
proof (cases "guard user (row_id r) db")
  case (Inr a)
  then obtain r' where "r' \<in> set (rows db)" "row_id r' = row_id r" "owns user r'" using grants by blast
  with distinct_key_unique [OF assms(1) _ assms(2)] assms(3) show ?thesis by auto
qed auto

lemma refuses_missing: "i \<notin> row_id ` set (rows db) \<Longrightarrow> \<exists>e. guard user i db = Inl e"
  using grants [of user i db] by (cases "guard user i db") auto

lemma access_iff:
  assumes "distinct (map row_id (rows db))"
  shows "(\<exists>a. guard user i db = Inr a) \<longleftrightarrow> (\<exists>r\<in>set (rows db). row_id r = i \<and> owns user r)"
  using grants complete [OF assms] by blast

end

text \<open>Where a row has one owner, no two users are ever granted the same row.\<close>

locale exclusive_ownership = ownership_check +
  assumes one_owner: "owns user r \<Longrightarrow> owns user' r \<Longrightarrow> user = user'"
begin

lemma isolates:
  assumes "distinct (map row_id (rows db))" and "guard user i db = Inr a" and "guard user' i db = Inr a'"
  shows "user = user' \<and> a = a'"
proof -
  obtain r r' where "r \<in> set (rows db)" "row_id r = i" "owns user r" "view r = a"
    "r' \<in> set (rows db)" "row_id r' = i" "owns user' r'" "view r' = a'"
    using grants [OF assms(2)] grants [OF assms(3)] by blast
  with distinct_key_unique [OF assms(1)] one_owner show ?thesis by metis
qed

end

subsection \<open>The guards\<close>

definition owned_row :: "(uid \<Rightarrow> error) \<Rightarrow> error \<Rightarrow> ('r \<Rightarrow> uid) \<Rightarrow> ('r \<Rightarrow> uid) \<Rightarrow> uid \<Rightarrow> uid \<Rightarrow> 'r list \<Rightarrow> error + 'r" where
  "owned_row missing foreign row_id owner user i rows =
     (case find_row (\<lambda>r. row_id r = i) rows of None \<Rightarrow> Inl (missing i)
      | Some r \<Rightarrow> if owner r \<noteq> user then Inl foreign else Inr r)"

definition map_result :: "('a \<Rightarrow> 'b) \<Rightarrow> error + 'a \<Rightarrow> error + 'b" where
  "map_result f r = (case r of Inl e \<Rightarrow> Inl e | Inr a \<Rightarrow> Inr (f a))"

definition ensure_application_access :: "uid \<Rightarrow> uid \<Rightarrow> app_db \<Rightarrow> error + (uid \<times> uid \<times> string option)" where
  "ensure_application_access user application_id db =
     (case find_row (\<lambda>a. ja_id a = application_id \<and> owned_application user a) (db_applications db) of
        None \<Rightarrow> Inl (NotFoundError ''Application'' application_id)
      | Some a \<Rightarrow> Inr (ja_id a, ja_user_id a, ja_legacy_user_id a))"

definition event_owned :: "uid \<Rightarrow> app_db \<Rightarrow> timeline_event \<Rightarrow> bool" where
  "event_owned user db e = (\<exists>a\<in>set (db_applications db). ja_id a = te_application_id e \<and> owned_application user a)"

definition ensure_timeline_access :: "uid \<Rightarrow> uid \<Rightarrow> app_db \<Rightarrow> error + (uid \<times> uid)" where
  "ensure_timeline_access user event_id db =
     (case find_row (\<lambda>e. te_id e = event_id \<and> event_owned user db e) (db_timeline db) of
        None \<Rightarrow> Inl (NotFoundError ''Timeline event'' event_id)
      | Some e \<Rightarrow> Inr (te_id e, te_application_id e))"

definition ensure_company_access :: "uid \<Rightarrow> uid \<Rightarrow> uid list \<Rightarrow> app_db \<Rightarrow> error + uid" where
  "ensure_company_access user company_id companies db =
     (case find_row (\<lambda>c. c = company_id \<and>
          (\<exists>a\<in>set (db_applications db). ja_company_id a = Some c \<and> owned_application user a)) companies of
        None \<Rightarrow> Inl (NotFoundError ''Company'' company_id)
      | Some c \<Rightarrow> Inr c)"

definition ensure_recruiter_access :: "uid \<Rightarrow> uid \<Rightarrow> (uid \<times> uid list) list \<Rightarrow> app_db \<Rightarrow> error + uid" where
  "ensure_recruiter_access user recruiter_id recruiters db =
     (case find_row (\<lambda>r. fst r = recruiter_id \<and>
          (\<exists>a\<in>set (db_applications db). ja_id a \<in> set (snd r) \<and> owned_application user a)) recruiters of
        None \<Rightarrow> Inl (NotFoundError ''Recruiter'' recruiter_id)
      | Some r \<Rightarrow> Inr (fst r))"

definition ensure_extraction_run_access :: "uid \<Rightarrow> uid \<Rightarrow> intel_db \<Rightarrow> error + (uid \<times> uid \<times> string option \<times> string)" where
  "ensure_extraction_run_access user run_id db = map_result
     (\<lambda>r. (er_id r, er_user_id r, er_cell_id r, er_status r))
     (owned_row ExtractionRunNotFoundError (CrossUserOwnershipError ''ExtractionRun'' run_id)
        er_id er_user_id user run_id (in_runs db))"

definition ensure_provenance_access :: "uid \<Rightarrow> uid \<Rightarrow> intel_db \<Rightarrow> error + (uid \<times> uid \<times> string option \<times> uid)" where
  "ensure_provenance_access user provenance_id db = map_result
     (\<lambda>p. (fp_id p, fp_user_id p, fp_cell_id p, fp_extraction_run_id p))
     (owned_row (NotFoundError ''FactProvenance'') (CrossUserOwnershipError ''FactProvenance'' provenance_id)
        fp_id fp_user_id user provenance_id (in_provenances db))"

definition ensure_fact_access :: "uid \<Rightarrow> uid \<Rightarrow> intel_db \<Rightarrow> error + (uid \<times> uid \<times> uid option \<times> uid option)" where
  "ensure_fact_access user fact_id db = map_result
     (\<lambda>f. (fo_id f, fo_user_id f, fo_extraction_run_id f, fo_provenance_id f))
     (owned_row (NotFoundError ''FactObservation'') (CrossUserOwnershipError ''FactObservation'' fact_id)
        fo_id fo_user_id user fact_id (in_facts db))"

definition ensure_canonical_intelligence_access ::
  "uid \<Rightarrow> uid \<Rightarrow> intel_db \<Rightarrow> error + (uid \<times> uid \<times> string \<times> string \<times> string \<times> bool)" where
  "ensure_canonical_intelligence_access user canonical_id db = map_result
     (\<lambda>c. (ci_id c, ci_user_id c, ci_cell_id c, ci_fact_type c, ci_deduplication_key c, ci_is_active c))
     (owned_row CanonicalIntelligenceNotFoundError (CrossUserOwnershipError ''CanonicalCandidateIntelligence'' canonical_id)
        ci_id ci_user_id user canonical_id (in_canonicals db))"

definition ensure_extraction_run_cell_boundary :: "(uid \<Rightarrow> error + string) \<Rightarrow> uid \<Rightarrow> uid \<Rightarrow> intel_db \<Rightarrow> error + unit" where
  "ensure_extraction_run_cell_boundary route user run_id db =
     (case ensure_extraction_run_access user run_id db of
        Inl e \<Rightarrow> Inl e
      | Inr (_, _, cell, _) \<Rightarrow>
          (case route user of Inl e \<Rightarrow> Inl e
           | Inr home \<Rightarrow> if cell \<noteq> Some home
               then Inl (CellBoundaryViolationError user home (option_or cell ''unknown'')) else Inr ()))"

definition assert_extraction_run_mutable :: "uid \<Rightarrow> string \<Rightarrow> error option" where
  "assert_extraction_run_mutable run_id status =
     (if status \<in> {''completed'', ''failed''} then Some (ImmutabilityViolationError ''ExtractionRun'' run_id) else None)"

subsection \<open>Interpretations\<close>

lemma map_result_Inr [simp]: "map_result f x = Inr b \<longleftrightarrow> (\<exists>a. x = Inr a \<and> b = f a)"
  by (auto simp: map_result_def split: sum.split)

lemma owned_row_Inr:
  "owned_row missing foreign row_id owner user i rows = Inr r \<Longrightarrow> r \<in> set rows \<and> row_id r = i \<and> owner r = user"
  by (auto simp: owned_row_def split: option.splits if_splits dest: find_row_SomeD)

lemma owned_row_complete:
  "distinct (map row_id rows) \<Longrightarrow> r \<in> set rows \<Longrightarrow> owner r = user \<Longrightarrow>
    owned_row missing foreign row_id owner user (row_id r) rows = Inr r"
  using find_row_unique [of row_id rows r] by (simp add: owned_row_def)

interpretation run_guard: exclusive_ownership ensure_extraction_run_access in_runs er_id "\<lambda>u r. er_user_id r = u"
  "\<lambda>r. (er_id r, er_user_id r, er_cell_id r, er_status r)"
  by unfold_locales
    (auto simp: ensure_extraction_run_access_def owned_row_complete dest!: owned_row_Inr)

interpretation provenance_guard: exclusive_ownership ensure_provenance_access in_provenances fp_id
  "\<lambda>u p. fp_user_id p = u" "\<lambda>p. (fp_id p, fp_user_id p, fp_cell_id p, fp_extraction_run_id p)"
  by unfold_locales (auto simp: ensure_provenance_access_def owned_row_complete dest!: owned_row_Inr)

interpretation fact_guard: exclusive_ownership ensure_fact_access in_facts fo_id
  "\<lambda>u f. fo_user_id f = u" "\<lambda>f. (fo_id f, fo_user_id f, fo_extraction_run_id f, fo_provenance_id f)"
  by unfold_locales (auto simp: ensure_fact_access_def owned_row_complete dest!: owned_row_Inr)

interpretation canonical_guard: exclusive_ownership ensure_canonical_intelligence_access in_canonicals ci_id
  "\<lambda>u c. ci_user_id c = u"
  "\<lambda>c. (ci_id c, ci_user_id c, ci_cell_id c, ci_fact_type c, ci_deduplication_key c, ci_is_active c)"
  by unfold_locales (auto simp: ensure_canonical_intelligence_access_def owned_row_complete dest!: owned_row_Inr)

interpretation application_guard: ownership_check ensure_application_access db_applications ja_id owned_application
  "\<lambda>a. (ja_id a, ja_user_id a, ja_legacy_user_id a)"
proof
  fix user i db a assume "ensure_application_access user i db = Inr a"
  then show "\<exists>r\<in>set (db_applications db). ja_id r = i \<and> owned_application user r \<and> (ja_id r, ja_user_id r, ja_legacy_user_id r) = a"
    by (auto simp: ensure_application_access_def split: option.splits dest!: find_row_SomeD)
next
  fix db :: app_db and r user assume *: "distinct (map ja_id (db_applications db))" "r \<in> set (db_applications db)" "owned_application user r"
  have "find_row (\<lambda>a. ja_id a = ja_id r \<and> owned_application user a) (db_applications db)
      = find_row (\<lambda>a. ja_id a = ja_id r) (db_applications db)"
    using distinct_key_unique [OF *(1) _ *(2)] *(3) by (intro find_row_cong_pred) auto
  with find_row_unique [OF *(1,2)]
  show "ensure_application_access user (ja_id r) db = Inr (ja_id r, ja_user_id r, ja_legacy_user_id r)"
    by (simp add: ensure_application_access_def)
qed



text \<open>
  An application is accessible exactly to the users whose id is its user id or its legacy user
  id, and a timeline event only to users to whom its application is.
\<close>

lemma application_access_exact:
  assumes "distinct (map ja_id (db_applications db))"
  shows "((\<exists>a. ensure_application_access u i db = Inr a) \<longleftrightarrow>
      (\<exists>a\<in>set (db_applications db). ja_id a = i \<and> (ja_user_id a = u \<or> ja_legacy_user_id a = Some u)))
    \<and> (\<forall>e a. ensure_timeline_access u e db = Inr (e, a) \<longrightarrow> (\<exists>x. ensure_application_access u a db = Inr x))"
proof -
  have "\<exists>x. ensure_application_access u a db = Inr x" if "ensure_timeline_access u e db = Inr (e, a)" for e a
    using that application_guard.access_iff [OF assms, of u a]
    by (auto simp: ensure_timeline_access_def event_owned_def split: option.splits dest!: find_row_SomeD)
  then show ?thesis
    using application_guard.access_iff [OF assms, of u i]
    by (auto simp: owned_application_def user_ownership_filter_def)
qed

end
