(* ===== verification/Facts.thy ===== *)
theory Facts
  imports Extraction_Runs
begin

text \<open>
  Versioned facts: \<open>src/src/services/fact.service.ts\<close> and
  \<open>fact-correction.service.ts\<close>. Facts are rows of the candidate intelligence tables of
  theory \<open>Extraction_Runs\<close>; a new version supersedes the old one by a link from the old row to
  the new one. Confidences are rationals (exact arithmetic). The two history queries are loops
  that follow the links and are partial functions: \<open>None\<close> stands for a loop that never ends.
\<close>

subsection \<open>Quality and precedence\<close>

datatype fact_quality_status = OBSERVED | INFERRED | USER_CONFIRMED | SUPERSEDED | INVALID

definition get_fact_quality_status :: "fact_observation \<Rightarrow> fact_quality_status" where
  "get_fact_quality_status f =
     (if fo_deleted_at f \<noteq> None \<or> fo_review_status f = Some ''rejected'' then INVALID
      else if \<not> fo_is_current f \<and> fo_superseded_by_id f \<noteq> None then SUPERSEDED
      else if fo_is_user_corrected f \<and> fo_is_current f then USER_CONFIRMED
      else if str_includes (to_upper (fo_extraction_method f)) ''INFER'' then INFERRED
      else OBSERVED)"

datatype precedence = Prec_a | Prec_b | Tie

definition EPSILON :: rat where
  "EPSILON = 1 / 1000"

definition resolve_fact_precedence :: "fact_observation \<Rightarrow> fact_observation \<Rightarrow> precedence" where
  "resolve_fact_precedence a b =
     (let a_invalid = (\<not> fo_is_current a \<or> fo_deleted_at a \<noteq> None);
          b_invalid = (\<not> fo_is_current b \<or> fo_deleted_at b \<noteq> None);
          delta = fo_confidence a - fo_confidence b
      in if a_invalid \<and> b_invalid then Tie
         else if a_invalid then Prec_b
         else if b_invalid then Prec_a
         else if fo_is_user_corrected a \<and> \<not> fo_is_user_corrected b then Prec_a
         else if \<not> fo_is_user_corrected a \<and> fo_is_user_corrected b then Prec_b
         else if EPSILON < delta then Prec_a
         else if delta < - EPSILON then Prec_b
         else if fo_observed_at b < fo_observed_at a then Prec_a
         else if fo_observed_at a < fo_observed_at b then Prec_b
         else Tie)"

subsection \<open>Recording\<close>

record record_fact_input =
  rf_user_id :: uid
  rf_extraction_run_id :: uid
  rf_provenance_id :: uid
  rf_fact_type :: string
  rf_fact_data :: json
  rf_source_type :: string
  rf_source_id :: uid
  rf_source_version :: "string option"
  rf_extraction_method :: string
  rf_model_version :: "string option"
  rf_evidence_reference :: "string option"
  rf_confidence :: rat
  rf_observed_at :: time
  rf_valid_from :: "time option"
  rf_valid_to :: "time option"
  rf_snapshot_id :: "uid option"

definition new_fact :: "uid \<Rightarrow> int \<Rightarrow> record_fact_input \<Rightarrow> fact_observation" where
  "new_fact fact_id version inp = \<lparr>fo_id = fact_id, fo_user_id = rf_user_id inp,
     fo_extraction_run_id = Some (rf_extraction_run_id inp), fo_provenance_id = Some (rf_provenance_id inp),
     fo_fact_type = rf_fact_type inp, fo_fact_data = rf_fact_data inp, fo_source_type = rf_source_type inp,
     fo_source_id = rf_source_id inp, fo_source_version = rf_source_version inp,
     fo_extraction_method = rf_extraction_method inp, fo_model_version = rf_model_version inp,
     fo_confidence = rf_confidence inp, fo_evidence_reference = rf_evidence_reference inp,
     fo_valid_from = rf_valid_from inp, fo_valid_to = rf_valid_to inp, fo_observed_at = rf_observed_at inp,
     fo_snapshot_id = rf_snapshot_id inp, fo_version = version, fo_is_current = True,
     fo_superseded_by_id = None, fo_superseded_at = None, fo_corrected_by = None, fo_corrected_at = None,
     fo_correction_reason = None, fo_is_user_corrected = False, fo_needs_review = False,
     fo_reviewed_at = None, fo_reviewed_by = None, fo_review_status = None, fo_review_notes = None,
     fo_deleted_at = None\<rparr>"

definition superseded_row :: "time \<Rightarrow> uid \<Rightarrow> fact_observation \<Rightarrow> fact_observation" where
  "superseded_row now new_id f =
     f\<lparr>fo_is_current := False, fo_superseded_by_id := Some new_id, fo_superseded_at := Some now\<rparr>"

definition append_version :: "time \<Rightarrow> uid option \<Rightarrow> fact_observation \<Rightarrow> fact_observation list \<Rightarrow> fact_observation list" where
  "append_version now old new facts = (case old of None \<Rightarrow> facts @ [new]
     | Some i \<Rightarrow> update_many (\<lambda>f. fo_id f = i) (superseded_row now (fo_id new)) (facts @ [new]))"

definition record_fact :: "time \<Rightarrow> uid \<Rightarrow> record_fact_input \<Rightarrow> intel_db \<Rightarrow> fact_observation \<times> intel_db" where
  "record_fact now fact_id inp db =
     (let existing = first_by (\<lambda>f. - fo_version f)
            (\<lambda>f. fo_user_id f = rf_user_id inp \<and> fo_fact_type f = rf_fact_type inp \<and> fo_is_current f) (in_facts db);
          next_version = (case existing of None \<Rightarrow> 1 | Some f \<Rightarrow> fo_version f + 1);
          new = new_fact fact_id next_version inp
      in (new, db\<lparr>in_facts := append_version now (map_option fo_id existing) new (in_facts db)\<rparr>))"

definition create_extraction_run :: "(uid \<Rightarrow> error + string) \<Rightarrow> time \<Rightarrow> uid \<Rightarrow> uid \<Rightarrow> create_run_input
    \<Rightarrow> intel_db \<Rightarrow> (uid \<times> uid, intel_db) outcome" where
  "create_extraction_run route now run_id prov_id inp db =
     (case (case truthy (ri_cell_id inp) of Some c \<Rightarrow> Inr c | None \<Rightarrow> route (ri_user_id inp)) of
        Inl e \<Rightarrow> (Inl e, db)
      | Inr cell \<Rightarrow> (Inr (run_id, prov_id),
          db\<lparr>in_runs := in_runs db @ [(new_run run_id cell inp ''completed'')\<lparr>er_completed_at := Some now\<rparr>],
             in_provenances := in_provenances db @ [new_provenance prov_id run_id cell inp]\<rparr>))"

subsection \<open>Queries\<close>

definition matches_type :: "string option \<Rightarrow> fact_observation \<Rightarrow> bool" where
  "matches_type fact_type f = (case fact_type of None \<Rightarrow> True | Some t \<Rightarrow> fo_fact_type f = t)"

definition get_current_facts :: "uid \<Rightarrow> string option \<Rightarrow> intel_db \<Rightarrow> fact_observation list" where
  "get_current_facts user fact_type db = sort_key (\<lambda>f. - fo_observed_at f)
     (find_many (\<lambda>f. fo_user_id f = user \<and> matches_type fact_type f \<and> fo_is_current f \<and> fo_deleted_at f = None)
       (in_facts db))"

partial_function (option) follow_links ::
  "fact_observation list \<Rightarrow> uid option \<Rightarrow> fact_observation list \<Rightarrow> fact_observation list option" where
  "follow_links facts current history =
     (case truthy current of
        None \<Rightarrow> Some history
      | Some i \<Rightarrow>
        (case find_row (\<lambda>f. fo_id f = i) facts of
           None \<Rightarrow> Some history
         | Some f \<Rightarrow> follow_links facts (fo_superseded_by_id f) (history @ [f])))"

declare follow_links.simps [code]

definition get_fact_history :: "uid \<Rightarrow> intel_db \<Rightarrow> fact_observation list option" where
  "get_fact_history fact_id db = follow_links (in_facts db) (Some fact_id) []"

definition valid_at :: "time \<Rightarrow> fact_observation \<Rightarrow> bool" where
  "valid_at t f = ((case fo_valid_from f of None \<Rightarrow> False | Some v \<Rightarrow> v \<le> t)
     \<and> (case fo_valid_to f of None \<Rightarrow> True | Some v \<Rightarrow> t \<le> v))"

definition get_facts_valid_at :: "uid \<Rightarrow> time \<Rightarrow> string option \<Rightarrow> intel_db \<Rightarrow> fact_observation list" where
  "get_facts_valid_at user t fact_type db = sort_key (\<lambda>f. - fo_observed_at f)
     (find_many (\<lambda>f. fo_user_id f = user \<and> matches_type fact_type f \<and> fo_is_current f \<and> fo_deleted_at f = None
        \<and> valid_at t f) (in_facts db))"

definition get_snapshot_facts :: "uid \<Rightarrow> intel_db \<Rightarrow> fact_observation list" where
  "get_snapshot_facts snapshot_id db = sort_key fo_fact_type
     (find_many (\<lambda>f. fo_snapshot_id f = Some snapshot_id) (in_facts db))"

subsection \<open>Superseding, deleting, correcting, reviewing\<close>

definition update_fact :: "uid \<Rightarrow> (fact_observation \<Rightarrow> fact_observation) \<Rightarrow> intel_db \<Rightarrow> (unit, intel_db) outcome" where
  "update_fact fact_id f db =
     (if find_row (\<lambda>f. fo_id f = fact_id) (in_facts db) = None then (Inl (PrismaError ''P2025''), db)
      else (Inr (), db\<lparr>in_facts := update_many (\<lambda>f. fo_id f = fact_id) f (in_facts db)\<rparr>))"

definition supersede_fact :: "time \<Rightarrow> uid \<Rightarrow> uid \<Rightarrow> intel_db \<Rightarrow> (unit, intel_db) outcome" where
  "supersede_fact now fact_id new_id = update_fact fact_id (superseded_row now new_id)"

definition delete_fact :: "time \<Rightarrow> uid \<Rightarrow> intel_db \<Rightarrow> (unit, intel_db) outcome" where
  "delete_fact now fact_id = update_fact fact_id (\<lambda>f. f\<lparr>fo_deleted_at := Some now, fo_is_current := False\<rparr>)"

definition correction_run_input :: "uid \<Rightarrow> fact_observation \<Rightarrow> fact_provenance \<Rightarrow> create_run_input" where
  "correction_run_input user original prov = \<lparr>ri_user_id = fo_user_id original, ri_cell_id = fp_cell_id prov,
     ri_model_id = ''manual-correction'', ri_source_type = ''MANUAL'', ri_source_id = user,
     ri_source_version = Some ''1'', ri_source_identity = Some (''correction:'' @ fo_id original),
     ri_parser_version = ''manual-correction'', ri_model_provider = None, ri_model_version = None,
     ri_prompt_version = None, ri_schema_version = ''epic-4-prompt-3''\<rparr>"

definition corrected_fact :: "time \<Rightarrow> uid \<Rightarrow> uid \<Rightarrow> uid \<Rightarrow> fact_observation \<Rightarrow> json \<Rightarrow> uid \<Rightarrow> string \<Rightarrow> string option
    \<Rightarrow> fact_observation" where
  "corrected_fact now fact_id run_id prov_id original data user reason evidence = \<lparr>fo_id = fact_id,
     fo_user_id = fo_user_id original, fo_extraction_run_id = Some run_id, fo_provenance_id = Some prov_id,
     fo_fact_type = fo_fact_type original, fo_fact_data = data, fo_source_type = ''MANUAL'', fo_source_id = user,
     fo_source_version = Some ''1'', fo_extraction_method = ''USER_CORRECTION'', fo_model_version = None,
     fo_confidence = 1, fo_evidence_reference = Some (option_or evidence (''Corrected by user '' @ user)),
     fo_valid_from = fo_valid_from original, fo_valid_to = fo_valid_to original, fo_observed_at = now,
     fo_snapshot_id = fo_snapshot_id original, fo_version = fo_version original + 1, fo_is_current = True,
     fo_superseded_by_id = None, fo_superseded_at = None, fo_corrected_by = Some user,
     fo_corrected_at = Some now, fo_correction_reason = Some reason, fo_is_user_corrected = True,
     fo_needs_review = False, fo_reviewed_at = None, fo_reviewed_by = None, fo_review_status = None,
     fo_review_notes = None, fo_deleted_at = None\<rparr>"

definition propose_correction :: "(uid \<Rightarrow> error + string) \<Rightarrow> time \<Rightarrow> uid \<Rightarrow> uid \<Rightarrow> uid \<Rightarrow> uid \<Rightarrow> json \<Rightarrow> uid
    \<Rightarrow> string \<Rightarrow> string option \<Rightarrow> intel_db \<Rightarrow> (fact_observation, intel_db) outcome" where
  "propose_correction route now fact_id run_id prov_id original_id data user reason evidence db =
     (case find_row (\<lambda>f. fo_id f = original_id) (in_facts db) of
        None \<Rightarrow> (Inl (GenericError (''Fact not found: '' @ original_id)), db)
      | Some original \<Rightarrow>
        (case find_row (\<lambda>p. Some (fp_id p) = fo_provenance_id original) (in_provenances db) of
           None \<Rightarrow> (Inl (GenericError (''Fact provenance not found: '' @ original_id)), db)
         | Some prov \<Rightarrow>
           (case create_extraction_run route now run_id prov_id (correction_run_input user original prov) db of
              (Inl e, db') \<Rightarrow> (Inl e, db')
            | (Inr (r, p), db') \<Rightarrow>
                let new = corrected_fact now fact_id r p original data user reason evidence
                in (Inr new, db'\<lparr>in_facts := append_version now (Some original_id) new (in_facts db')\<rparr>))))"

definition flag_for_review :: "uid \<Rightarrow> string \<Rightarrow> intel_db \<Rightarrow> (unit, intel_db) outcome" where
  "flag_for_review fact_id reason = update_fact fact_id
     (\<lambda>f. f\<lparr>fo_needs_review := True, fo_review_status := Some ''pending'', fo_review_notes := Some reason\<rparr>)"

definition review_fact :: "time \<Rightarrow> uid \<Rightarrow> uid \<Rightarrow> string \<Rightarrow> string option \<Rightarrow> intel_db \<Rightarrow> (unit, intel_db) outcome" where
  "review_fact now fact_id admin status notes = update_fact fact_id
     (\<lambda>f. f\<lparr>fo_review_status := Some status, fo_reviewed_at := Some now, fo_reviewed_by := Some admin,
        fo_needs_review := False, fo_review_notes := or_else notes (fo_review_notes f)\<rparr>)"

definition get_pending_reviews :: "nat \<Rightarrow> intel_db \<Rightarrow> fact_observation list" where
  "get_pending_reviews n db = take n (sort_key fo_confidence
     (find_many (\<lambda>f. fo_needs_review f \<and> fo_review_status f = Some ''pending'') (in_facts db)))"

definition get_facts_by_review_status :: "string \<Rightarrow> nat \<Rightarrow> intel_db \<Rightarrow> fact_observation list" where
  "get_facts_by_review_status status n db = take n
     (sort_key (\<lambda>f. case fo_reviewed_at f of Some t \<Rightarrow> (1::int, - t) | None \<Rightarrow> (0, 0))
       (find_many (\<lambda>f. fo_review_status f = Some status) (in_facts db)))"

definition get_correction_history :: "uid \<Rightarrow> intel_db \<Rightarrow> fact_observation list option" where
  "get_correction_history fact_id db = follow_links (in_facts db) (Some fact_id) []"

subsection \<open>The invariant of the versions\<close>

text \<open>
  At most one current fact for each user and type; links never lead to the fact itself or to an
  older row. \<open>frozen\<close> forgets the lifecycle fields: what is left of a row is the observation.
\<close>

definition one_current :: "fact_observation list \<Rightarrow> bool" where
  "one_current facts = (\<forall>f\<in>set facts. \<forall>g\<in>set facts. fo_is_current f \<and> fo_is_current g
     \<and> fo_user_id f = fo_user_id g \<and> fo_fact_type f = fo_fact_type g \<longrightarrow> f = g)"

definition forward :: "fact_observation list \<Rightarrow> bool" where
  "forward facts = (\<forall>k<length facts. \<forall>m\<le>k. fo_superseded_by_id (facts ! k) \<noteq> Some (fo_id (facts ! m)))"

definition facts_ok :: "fact_observation list \<Rightarrow> bool" where
  "facts_ok facts = (distinct (map fo_id facts) \<and> [] \<notin> fo_id ` set facts \<and> one_current facts \<and> forward facts)"

definition frozen :: "fact_observation \<Rightarrow> fact_observation" where
  "frozen f = f\<lparr>fo_is_current := True, fo_superseded_by_id := None, fo_superseded_at := None, fo_deleted_at := None,
     fo_needs_review := False, fo_reviewed_at := None, fo_reviewed_by := None, fo_review_status := None,
     fo_review_notes := None\<rparr>"

lemma update_many_nth: "k < length xs \<Longrightarrow> update_many P f xs ! k = (if P (xs ! k) then f (xs ! k) else xs ! k)"
  by (simp add: update_many_def)

lemma frozen_id: "frozen f = frozen g \<Longrightarrow> fo_id f = fo_id g \<and> fo_user_id f = fo_user_id g \<and> fo_fact_type f = fo_fact_type g"
  by (cases f; cases g) (simp add: frozen_def)

lemma lifecycle_update_ok:
  assumes ok: "facts_ok facts" and fr: "\<And>f. frozen (g f) = frozen f"
    and link: "\<And>f. fo_superseded_by_id (g f) = fo_superseded_by_id f" and cur: "\<And>f. fo_is_current (g f) \<Longrightarrow> fo_is_current f"
  shows "facts_ok (update_many P g facts)" and "map frozen (update_many P g facts) = map frozen facts"
proof -
  have k: "fo_id (g f) = fo_id f" "fo_user_id (g f) = fo_user_id f" "fo_fact_type (g f) = fo_fact_type f" for f
    using frozen_id [OF fr] by blast+
  let ?h = "\<lambda>f. if P f then g f else f"
  have h: "fo_id (?h f) = fo_id f" "fo_user_id (?h f) = fo_user_id f" "fo_fact_type (?h f) = fo_fact_type f"
    "fo_superseded_by_id (?h f) = fo_superseded_by_id f" "fo_is_current (?h f) \<Longrightarrow> fo_is_current f" for f
    using k link cur by (auto split: if_splits)
  have "one_current (update_many P g facts)"
    unfolding one_current_def set_update_many
  proof (intro ballI impI)
    fix f' g' assume "f' \<in> ?h ` set facts" "g' \<in> ?h ` set facts"
      and c: "fo_is_current f' \<and> fo_is_current g' \<and> fo_user_id f' = fo_user_id g' \<and> fo_fact_type f' = fo_fact_type g'"
    then obtain x y where "x \<in> set facts" "f' = ?h x" "y \<in> set facts" "g' = ?h y" by blast
    moreover from this c h have "fo_is_current x \<and> fo_is_current y \<and> fo_user_id x = fo_user_id y \<and> fo_fact_type x = fo_fact_type y"
      by metis
    ultimately show "f' = g'" using ok by (metis facts_ok_def one_current_def)
  qed
  moreover have "forward (update_many P g facts)"
    using ok by (auto simp: facts_ok_def forward_def update_many_nth link k)
  moreover have "fo_id ` set (update_many P g facts) = fo_id ` set facts"
    by (metis (no_types) image_set map_update_many_key k(1))
  ultimately show "facts_ok (update_many P g facts)"
    using ok by (simp add: facts_ok_def map_update_many_key k)
  show "map frozen (update_many P g facts) = map frozen facts"
    by (rule map_update_many_key) (rule fr)
qed

lemma append_version_split:
  "fo_id new \<notin> fo_id ` set facts \<Longrightarrow> old = None \<or> (\<exists>f\<in>set facts. old = Some (fo_id f)) \<Longrightarrow>
   append_version now old new facts =
     (case old of None \<Rightarrow> facts | Some i \<Rightarrow> update_many (\<lambda>f. fo_id f = i) (superseded_row now (fo_id new)) facts) @ [new]"
  by (auto simp: append_version_def)

lemma append_version_ok:
  assumes ok: "facts_ok facts" and fresh: "fo_id new \<notin> fo_id ` set facts" "fo_id new \<noteq> []"
    and new: "fo_superseded_by_id new = None" "fo_is_current new"
    and old: "case old of None \<Rightarrow> \<forall>f\<in>set facts. \<not> (fo_is_current f \<and> fo_user_id f = fo_user_id new \<and> fo_fact_type f = fo_fact_type new)
      | Some i \<Rightarrow> \<exists>f\<in>set facts. fo_id f = i \<and> fo_is_current f \<and> fo_user_id f = fo_user_id new \<and> fo_fact_type f = fo_fact_type new"
  shows "facts_ok (append_version now old new facts)"
    and "map frozen (append_version now old new facts) = map frozen facts @ [frozen new]"
proof -
  let ?P = "\<lambda>f. old = Some (fo_id f)" and ?g = "superseded_row now (fo_id new)"
  let ?rows = "update_many ?P ?g facts"
  have split: "append_version now old new facts = ?rows @ [new]"
  proof (cases old)
    case None
    then show ?thesis by (simp add: append_version_def update_many_none)
  next
    case (Some i)
    with old fresh(1) show ?thesis by (auto simp: append_version_def eq_commute [of i])
  qed
  have k: "fo_id (?g f) = fo_id f" "frozen (?g f) = frozen f" for f
    by (simp_all add: superseded_row_def frozen_def)
  have ids: "map fo_id ?rows = map fo_id facts" by (simp add: map_update_many_key k)
  then have idset: "fo_id ` set ?rows = fo_id ` set facts" by (metis image_set)
  have stays: "x \<in> set facts \<and> \<not> ?P x" if h: "x \<in> set ?rows" "fo_is_current x" for x
  proof -
    obtain f where f: "f \<in> set facts" "x = (if ?P f then ?g f else f)"
      using h(1) unfolding set_update_many by blast
    have "\<not> fo_is_current (?g f)" by (simp add: superseded_row_def)
    with f h(2) show ?thesis by (cases "?P f") simp_all
  qed
  have noclash: False if x: "x \<in> set ?rows" "fo_is_current x" "fo_user_id x = fo_user_id new" "fo_fact_type x = fo_fact_type new" for x
  proof (cases old)
    case None
    with stays [OF x(1,2)] x old show False by simp
  next
    case (Some i)
    with old obtain f where f: "f \<in> set facts" "fo_id f = i" "fo_is_current f" "fo_user_id f = fo_user_id new"
      "fo_fact_type f = fo_fact_type new" by auto
    from stays [OF x(1,2)] have "x \<in> set facts" "\<not> ?P x" by simp_all
    moreover have "x = f" using ok x f \<open>x \<in> set facts\<close> by (simp add: facts_ok_def one_current_def)
    ultimately show False using Some f by simp
  qed
  have "one_current (?rows @ [new])"
    unfolding one_current_def
  proof (intro ballI impI)
    fix f g assume mem: "f \<in> set (?rows @ [new])" "g \<in> set (?rows @ [new])"
      and c: "fo_is_current f \<and> fo_is_current g \<and> fo_user_id f = fo_user_id g \<and> fo_fact_type f = fo_fact_type g"
    show "f = g"
    proof (cases "f \<in> set ?rows \<and> g \<in> set ?rows")
      case True
      with c stays have "f \<in> set facts" "g \<in> set facts" by blast+
      with c ok show ?thesis by (simp add: facts_ok_def one_current_def)
    next
      case False
      with mem consider "f = new" "g = new" | "f = new" "g \<in> set ?rows" | "g = new" "f \<in> set ?rows" by auto
      then show ?thesis using c noclash by cases auto
    qed
  qed
  moreover have "forward (?rows @ [new])"
    unfolding forward_def
  proof (intro allI impI)
    fix n m assume n: "n < length (?rows @ [new])" "m \<le> n"
    show "fo_superseded_by_id ((?rows @ [new]) ! n) \<noteq> Some (fo_id ((?rows @ [new]) ! m))"
    proof (cases "n < length facts")
      case True
      then have r: "(?rows @ [new]) ! n = (if ?P (facts ! n) then ?g (facts ! n) else facts ! n)"
        "fo_id ((?rows @ [new]) ! m) = fo_id (facts ! m)"
        using n by (simp_all add: nth_append update_many_nth k)
      have "fo_id (facts ! m) \<noteq> fo_id new" using True n fresh(1) by (metis image_eqI nth_mem order_le_less_trans)
      moreover have "fo_superseded_by_id (facts ! n) \<noteq> Some (fo_id (facts ! m))"
        using ok True n by (simp add: facts_ok_def forward_def)
      ultimately show ?thesis unfolding r by (auto simp: superseded_row_def)
    qed (use n new in \<open>simp add: nth_append\<close>)
  qed
  ultimately show "facts_ok (append_version now old new facts)"
    using ok fresh by (auto simp: split facts_ok_def ids idset)
  show "map frozen (append_version now old new facts) = map frozen facts @ [frozen new]"
    by (simp add: split map_update_many_key k)
qed

text \<open>
  The operations as steps. A correction is of a current fact; ids of new rows are fresh uuids.
  \<open>supersedeFact\<close>, which links any two rows, is left out here and treated below.
\<close>

inductive fact_step :: "intel_db \<Rightarrow> intel_db \<Rightarrow> bool" where
  recording: "fact_id \<notin> fo_id ` set (in_facts db) \<Longrightarrow> fact_id \<noteq> [] \<Longrightarrow> fact_step db (snd (record_fact now fact_id inp db))"
| correct: "fact_id \<notin> fo_id ` set (in_facts db) \<Longrightarrow> fact_id \<noteq> [] \<Longrightarrow>
    find_row (\<lambda>f. fo_id f = original_id) (in_facts db) = Some original \<Longrightarrow> fo_is_current original \<Longrightarrow>
    propose_correction route now fact_id run_id prov_id original_id data user reason evidence db = (Inr new, db') \<Longrightarrow>
    fact_step db db'"
| delete: "delete_fact now fact_id db = (Inr u, db') \<Longrightarrow> fact_step db db'"
| flag: "flag_for_review fact_id reason db = (Inr u, db') \<Longrightarrow> fact_step db db'"
| review: "review_fact now fact_id admin status note_text db = (Inr u, db') \<Longrightarrow> fact_step db db'"

lemma record_fact_ok:
  assumes "facts_ok (in_facts db)" and "fact_id \<notin> fo_id ` set (in_facts db)" and "fact_id \<noteq> []"
    and db'_def: "db' = snd (record_fact now fact_id inp db)"
  shows "facts_ok (in_facts db') \<and> (\<exists>zs. map frozen (in_facts db') = map frozen (in_facts db) @ zs)"
proof -
  let ?cur = "\<lambda>f. fo_user_id f = rf_user_id inp \<and> fo_fact_type f = rf_fact_type inp \<and> fo_is_current f"
  let ?ex = "first_by (\<lambda>f. - fo_version f) ?cur (in_facts db)"
  let ?new = "new_fact fact_id (case ?ex of None \<Rightarrow> 1 | Some f \<Rightarrow> fo_version f + 1) inp"
  have db': "in_facts db' = append_version now (map_option fo_id ?ex) ?new (in_facts db)"
    by (simp add: db'_def record_fact_def Let_def)
  have n: "fo_id ?new = fact_id" "fo_superseded_by_id ?new = None" "fo_is_current ?new"
    "fo_user_id ?new = rf_user_id inp" "fo_fact_type ?new = rf_fact_type inp"
    by (simp_all add: new_fact_def)
  have old: "case map_option fo_id ?ex of
      None \<Rightarrow> \<forall>f\<in>set (in_facts db). \<not> (fo_is_current f \<and> fo_user_id f = fo_user_id ?new \<and> fo_fact_type f = fo_fact_type ?new)
    | Some i \<Rightarrow> \<exists>f\<in>set (in_facts db). fo_id f = i \<and> fo_is_current f \<and> fo_user_id f = fo_user_id ?new \<and> fo_fact_type f = fo_fact_type ?new"
  proof (cases ?ex)
    case None
    then have "\<forall>f\<in>set (in_facts db). \<not> ?cur f" by (simp only: first_by_None_iff)
    with None n show ?thesis by auto
  next
    case (Some f)
    with first_by_SomeD [OF Some] n show ?thesis by auto
  qed
  show ?thesis
    using append_version_ok [OF assms(1), of ?new "map_option fo_id ?ex" now] assms(2,3) n old by (simp add: db')
qed

lemma correction_ok:
  assumes "facts_ok (in_facts db)" and "fact_id \<notin> fo_id ` set (in_facts db)" and "fact_id \<noteq> []"
    and "find_row (\<lambda>f. fo_id f = original_id) (in_facts db) = Some original" and "fo_is_current original"
    and "propose_correction route now fact_id run_id prov_id original_id data user reason evidence db = (Inr new, db')"
  shows "facts_ok (in_facts db') \<and> (\<exists>zs. map frozen (in_facts db') = map frozen (in_facts db) @ zs)"
proof -
  have o1: "original \<in> set (in_facts db)" "fo_id original = original_id"
    using find_row_SomeD [OF assms(4)] by simp_all
  obtain r p where new: "new = corrected_fact now fact_id r p original data user reason evidence"
    and db': "in_facts db' = append_version now (Some original_id) new (in_facts db)"
    using assms(4,6) by (auto simp: propose_correction_def create_extraction_run_def Let_def split: option.splits sum.splits)
  have n: "fo_id new = fact_id" "fo_superseded_by_id new = None" "fo_is_current new"
    "fo_user_id new = fo_user_id original" "fo_fact_type new = fo_fact_type original"
    by (simp_all add: new corrected_fact_def)
  show ?thesis
    using append_version_ok [OF assms(1), of new "Some original_id" now] assms(2,3,5) n o1 by (auto simp: db')
qed

lemma update_fact_ok:
  assumes "facts_ok (in_facts db)" and "update_fact i g db = (Inr u, db')"
    and "\<And>f. frozen (g f) = frozen f" and "\<And>f. fo_superseded_by_id (g f) = fo_superseded_by_id f"
    and "\<And>f. fo_is_current (g f) \<Longrightarrow> fo_is_current f"
  shows "facts_ok (in_facts db') \<and> (\<exists>zs. map frozen (in_facts db') = map frozen (in_facts db) @ zs)"
proof -
  have "in_facts db' = update_many (\<lambda>f. fo_id f = i) g (in_facts db)"
    using assms(2) by (auto simp: update_fact_def split: if_splits)
  with lifecycle_update_ok [OF assms(1,3-5)] show ?thesis by simp
qed

lemma fact_step_ok:
  "fact_step db db' \<Longrightarrow> facts_ok (in_facts db) \<Longrightarrow>
    facts_ok (in_facts db') \<and> (\<exists>zs. map frozen (in_facts db') = map frozen (in_facts db) @ zs)"
proof (induction rule: fact_step.induct)
  case (recording fact_id db now inp)
  then show ?case using record_fact_ok [OF _ _ _ refl] by blast
next
  case (correct fact_id db original_id original route now run_id prov_id data user reason evidence new db')
  then show ?case using correction_ok by blast
next
  case (delete now fact_id db u db')
  show ?case
    by (rule update_fact_ok [OF delete(2) delete(1) [unfolded delete_fact_def]]) (simp_all add: frozen_def)
next
  case (flag fact_id reason db u db')
  show ?case
    by (rule update_fact_ok [OF flag(2) flag(1) [unfolded flag_for_review_def]]) (simp_all add: frozen_def)
next
  case (review now fact_id admin status note_text db u db')
  show ?case
    by (rule update_fact_ok [OF review(2) review(1) [unfolded review_fact_def]]) (simp_all add: frozen_def)
qed

lemma fact_steps_ok:
  "rtranclp fact_step db db' \<Longrightarrow> facts_ok (in_facts db) \<Longrightarrow>
    facts_ok (in_facts db') \<and> (\<exists>zs. map frozen (in_facts db') = map frozen (in_facts db) @ zs)"
proof (induction rule: rtranclp_induct)
  case base
  then show ?case by simp
next
  case (step y z)
  then show ?case using fact_step_ok [of y z] by fastforce
qed

lemma facts_ok_empty: "facts_ok (in_facts empty_intel_db)"
  by (simp add: facts_ok_def one_current_def forward_def empty_intel_db_def)

text \<open>
  C20: versions. Along every sequence of recordings, corrections of current facts, deletions and
  reviews, each user has at most one current fact of a type, and no observation is ever lost
  or rewritten: the rows that were there are still there, in order, equal up to their lifecycle
  fields.
\<close>

theorem fact_versions_invariant:
  assumes "rtranclp fact_step empty_intel_db db" and "rtranclp fact_step db db'"
  shows "one_current (in_facts db') \<and> (\<exists>zs. map frozen (in_facts db') = map frozen (in_facts db) @ zs)"
  using fact_steps_ok [OF assms(2)] fact_steps_ok [OF assms(1) facts_ok_empty] by (auto simp: facts_ok_def)

definition sample_fact_input :: record_fact_input where
  "sample_fact_input = \<lparr>rf_user_id = ''u'', rf_extraction_run_id = ''r'', rf_provenance_id = ''p'', rf_fact_type = ''SKILL'',
     rf_fact_data = JNull, rf_source_type = ''RESUME'', rf_source_id = ''s'', rf_source_version = None,
     rf_extraction_method = ''REGEX'', rf_model_version = None, rf_evidence_reference = None, rf_confidence = 1,
     rf_observed_at = 0, rf_valid_from = None, rf_valid_to = None, rf_snapshot_id = None\<rparr>"

definition one_fact_db :: intel_db where
  "one_fact_db = snd (record_fact 1 ''f1'' sample_fact_input empty_intel_db)"

definition two_facts_db :: intel_db where
  "two_facts_db = snd (record_fact 2 ''f2'' sample_fact_input one_fact_db)"

lemma in_facts_one: "in_facts one_fact_db = [new_fact ''f1'' 1 sample_fact_input]"
  by (simp add: one_fact_db_def record_fact_def empty_intel_db_def first_by_def append_version_def Let_def)

lemma sample_fact_steps: "fact_step empty_intel_db one_fact_db" "fact_step one_fact_db two_facts_db"
proof -
  show "fact_step empty_intel_db one_fact_db"
    unfolding one_fact_db_def by (rule fact_step.recording) (simp_all add: empty_intel_db_def)
  show "fact_step one_fact_db two_facts_db"
    unfolding two_facts_db_def by (rule fact_step.recording) (simp_all add: in_facts_one new_fact_def)
qed

theorem fact_versions_invariant_witness:
  "rtranclp fact_step empty_intel_db one_fact_db \<and> one_current (in_facts two_facts_db)
   \<and> (\<exists>zs. map frozen (in_facts two_facts_db) = map frozen (in_facts one_fact_db) @ zs)"
proof -
  have "rtranclp fact_step empty_intel_db one_fact_db" "rtranclp fact_step one_fact_db two_facts_db"
    using sample_fact_steps by blast+
  with fact_versions_invariant [OF this] show ?thesis by blast
qed

subsection \<open>The history loop\<close>

fun linked :: "fact_observation list \<Rightarrow> uid option \<Rightarrow> fact_observation list \<Rightarrow> bool" where
  "linked facts current [] = (\<forall>f\<in>set facts. truthy current \<noteq> Some (fo_id f))"
| "linked facts current (f # h) = (f \<in> set facts \<and> truthy current = Some (fo_id f) \<and> linked facts (fo_superseded_by_id f) h)"

lemma follow_links_returns:
  assumes "facts_ok facts" and "n \<le> length facts" and "\<forall>m<n. current \<noteq> Some (fo_id (facts ! m))"
  shows "\<exists>h. follow_links facts current history = Some (history @ h) \<and> linked facts current h"
  using assms(2,3)
proof (induction "length facts - n" arbitrary: n current history rule: less_induct)
  case less
  show ?case
  proof (cases "truthy current")
    case None
    then show ?thesis by (subst follow_links.simps) auto
  next
    case (Some i)
    then have cur: "current = Some i" "i \<noteq> []" by (auto simp: truthy_def split: option.splits list.splits)
    show ?thesis
    proof (cases "find_row (\<lambda>f. fo_id f = i) facts")
      case None
      then have "linked facts current []" using Some by (auto simp: find_row_None_iff)
      with Some None show ?thesis by (subst follow_links.simps) auto
    next
      case (Some f)
      then have f: "f \<in> set facts" "fo_id f = i" by (auto dest: find_row_SomeD)
      then obtain k where k: "k < length facts" "facts ! k = f" by (metis in_set_conv_nth)
      have nk: "n \<le> k" using less.prems(2) cur f k by (metis not_le)
      have "\<forall>m<Suc k. fo_superseded_by_id f \<noteq> Some (fo_id (facts ! m))"
        using assms(1) k by (auto simp: facts_ok_def forward_def less_Suc_eq_le)
      with less.hyps [of "Suc k" "fo_superseded_by_id f" "history @ [f]"] k nk obtain h where
        "follow_links facts (fo_superseded_by_id f) (history @ [f]) = Some ((history @ [f]) @ h)"
        "linked facts (fo_superseded_by_id f) h" by fastforce
      with Some \<open>truthy current = Some i\<close> f show ?thesis
        by (subst follow_links.simps) (auto intro!: exI [of _ "f # h"])
    qed
  qed
qed

text \<open>
  The history query of a fact returns in every state those operations reach, for every id,
  and what it returns starts with the fact and goes from each version to the one that
  superseded it, up to one without a successor in the table.
\<close>

lemma fact_history_returns:
  assumes "rtranclp fact_step empty_intel_db db"
  shows "\<exists>h. get_fact_history fact_id db = Some h \<and> get_correction_history fact_id db = Some h
    \<and> linked (in_facts db) (Some fact_id) h"
  using follow_links_returns [of "in_facts db" 0 "Some fact_id" "[]"] fact_steps_ok [OF assms facts_ok_empty]
  by (auto simp: get_fact_history_def get_correction_history_def)

lemma fact_history_returns_witness:
  "\<exists>h. get_fact_history ''f1'' two_facts_db = Some h \<and> linked (in_facts two_facts_db) (Some ''f1'') h"
proof -
  have "rtranclp fact_step empty_intel_db two_facts_db"
    using sample_fact_steps by (meson converse_rtranclp_into_rtranclp rtranclp.rtrancl_refl)
  from fact_history_returns [OF this, of "''f1''"] show ?thesis by blast
qed

lemma self_link_diverges:
  assumes "follow_links facts current history = Some h"
  shows "current = Some i \<longrightarrow> i \<noteq> [] \<longrightarrow> find_row (\<lambda>f. fo_id f = i) facts = Some f \<longrightarrow> fo_superseded_by_id f = Some i \<longrightarrow> False"
proof (rule follow_links.raw_induct [where P = "\<lambda>facts current history h. current = Some i \<longrightarrow> i \<noteq> []
      \<longrightarrow> find_row (\<lambda>f. fo_id f = i) facts = Some f \<longrightarrow> fo_superseded_by_id f = Some i \<longrightarrow> False", OF _ assms], intro impI)
  fix follow facts current history h
  assume IH: "\<And>facts current history h. follow facts current history = Some h \<Longrightarrow> current = Some i \<longrightarrow> i \<noteq> []
      \<longrightarrow> find_row (\<lambda>f. fo_id f = i) facts = Some f \<longrightarrow> fo_superseded_by_id f = Some i \<longrightarrow> False"
    and body: "(case truthy current of None \<Rightarrow> Some history | Some i \<Rightarrow>
        (case find_row (\<lambda>f. fo_id f = i) facts of None \<Rightarrow> Some history
         | Some f \<Rightarrow> follow facts (fo_superseded_by_id f) (history @ [f]))) = Some h"
    and c: "current = Some i" "i \<noteq> []" "find_row (\<lambda>f. fo_id f = i) facts = Some f" "fo_superseded_by_id f = Some i"
  have "truthy (Some i) = Some i" using c(2) by (cases i) (simp_all add: truthy_def)
  with body c have "follow facts (Some i) (history @ [f]) = Some h" by simp
  from IH [OF this] c show False by simp
qed

text \<open>
  Superseding a fact by itself, which \<open>supersedeFact\<close> accepts, makes both history queries
  of the fact run forever.
\<close>

lemma self_supersession_never_returns:
  assumes "supersede_fact now i i db = (Inr u, db')" and "i \<noteq> []"
  shows "get_fact_history i db' = None \<and> get_correction_history i db' = None"
proof -
  obtain f where f: "find_row (\<lambda>f. fo_id f = i) (in_facts db) = Some f"
    using assms(1) by (auto simp: supersede_fact_def update_fact_def split: if_splits)
  have "fo_id f = i" using find_row_SomeD [OF f] by simp
  then have "find_row (\<lambda>f. fo_id f = i) (in_facts db') = Some (superseded_row now i f)"
    using assms(1) f by (auto simp: supersede_fact_def update_fact_def find_row_update_many_same superseded_row_def split: if_splits)
  moreover have "fo_superseded_by_id (superseded_row now i f) = Some i" by (simp add: superseded_row_def)
  ultimately have "follow_links (in_facts db') (Some i) [] \<noteq> Some h" for h
    using self_link_diverges [of "in_facts db'" "Some i" "[]" h i] assms(2) by blast
  then have "follow_links (in_facts db') (Some i) [] = None" by (metis option.exhaust)
  then show ?thesis by (simp add: get_fact_history_def get_correction_history_def)
qed

lemma self_supersession_never_returns_witness:
  "\<exists>db'. supersede_fact 5 ''f1'' ''f1'' one_fact_db = (Inr (), db') \<and> get_fact_history ''f1'' db' = None"
proof -
  obtain db' where s: "supersede_fact 5 ''f1'' ''f1'' one_fact_db = (Inr (), db')"
    by (simp add: supersede_fact_def update_fact_def in_facts_one new_fact_def)
  from self_supersession_never_returns [OF this] s show ?thesis by auto
qed

text \<open>
  Correcting a fact that was already superseded leaves two current facts: the correction and
  the version that had superseded the original.
\<close>

lemma correcting_superseded_fact_splits:
  assumes "find_row (\<lambda>f. fo_id f = original_id) (in_facts db) = Some original" and "\<not> fo_is_current original"
    and "g \<in> set (in_facts db)" and "fo_is_current g" and "fo_user_id g = fo_user_id original"
    and "fo_fact_type g = fo_fact_type original" and "fact_id \<notin> fo_id ` set (in_facts db)" and "fo_id g \<noteq> original_id"
    and "propose_correction route now fact_id run_id prov_id original_id data user reason evidence db = (Inr new, db')"
  shows "\<not> one_current (in_facts db')"
proof -
  obtain r p where new: "new = corrected_fact now fact_id r p original data user reason evidence"
    and db': "in_facts db' = append_version now (Some original_id) new (in_facts db)"
    using assms(1,9) by (auto simp: propose_correction_def create_extraction_run_def Let_def split: option.splits sum.splits)
  have n: "fo_id new = fact_id" "fo_is_current new" "fo_user_id new = fo_user_id original" "fo_fact_type new = fo_fact_type original"
    by (simp_all add: new corrected_fact_def)
  have oid: "original \<in> set (in_facts db)" "fo_id original = original_id" using find_row_SomeD [OF assms(1)] by simp_all
  have "new \<in> set (in_facts db')" "g \<in> set (in_facts db')"
    using n(1) assms(3,7,8) oid by (force simp: db' append_version_def set_update_many)+
  moreover have "new \<noteq> g" using n(1) assms(3,7) by auto
  ultimately show ?thesis using n assms(4-6) unfolding one_current_def by metis
qed

subsection \<open>Precedence\<close>

definition swap_precedence :: "precedence \<Rightarrow> precedence" where
  "swap_precedence p = (case p of Prec_a \<Rightarrow> Prec_b | Prec_b \<Rightarrow> Prec_a | Tie \<Rightarrow> Tie)"

definition usable :: "fact_observation \<Rightarrow> bool" where
  "usable f = (fo_is_current f \<and> fo_deleted_at f = None)"

lemma precedence_swap: "resolve_fact_precedence b a = swap_precedence (resolve_fact_precedence a b)"
  by (simp add: resolve_fact_precedence_def swap_precedence_def Let_def EPSILON_def)

definition machine_fact :: "rat \<Rightarrow> time \<Rightarrow> fact_observation" where
  "machine_fact confidence observed = (new_fact ''f'' 1 sample_fact_input)\<lparr>fo_confidence := confidence, fo_observed_at := observed\<rparr>"

lemma machine_fact_simps [simp]: "fo_confidence (machine_fact c t) = c" "fo_observed_at (machine_fact c t) = t"
  "fo_is_current (machine_fact c t)" "fo_deleted_at (machine_fact c t) = None" "\<not> fo_is_user_corrected (machine_fact c t)"
  by (simp_all add: machine_fact_def new_fact_def)

text \<open>
  The precedence of facts does not depend on the order of its arguments; a usable fact beats
  an unusable one and a usable correction every machine fact, whatever the confidences. But it
  is no order: confidences closer than the threshold are decided by recency, and three machine
  facts can beat each other in a circle.
\<close>

lemma precedence_fair_but_cyclic:
  "resolve_fact_precedence b a = swap_precedence (resolve_fact_precedence a b)
   \<and> (usable a \<and> \<not> usable b \<longrightarrow> resolve_fact_precedence a b = Prec_a)
   \<and> (usable a \<and> usable b \<and> fo_is_user_corrected a \<and> \<not> fo_is_user_corrected b \<longrightarrow> resolve_fact_precedence a b = Prec_a)
   \<and> (\<exists>x y z. resolve_fact_precedence x y = Prec_a \<and> resolve_fact_precedence y z = Prec_a \<and> resolve_fact_precedence z x = Prec_a)"
proof -
  let ?x = "machine_fact (5000 / 10000) 3" and ?y = "machine_fact (5008 / 10000) 2" and ?z = "machine_fact (5016 / 10000) 1"
  have "resolve_fact_precedence ?x ?y = Prec_a \<and> resolve_fact_precedence ?y ?z = Prec_a \<and> resolve_fact_precedence ?z ?x = Prec_a"
    by (simp add: resolve_fact_precedence_def EPSILON_def)
  then have "\<exists>x y z. resolve_fact_precedence x y = Prec_a \<and> resolve_fact_precedence y z = Prec_a \<and> resolve_fact_precedence z x = Prec_a"
    by blast
  moreover have "usable a \<and> \<not> usable b \<longrightarrow> resolve_fact_precedence a b = Prec_a"
    by (auto simp: usable_def resolve_fact_precedence_def Let_def)
  moreover have "usable a \<and> usable b \<and> fo_is_user_corrected a \<and> \<not> fo_is_user_corrected b \<longrightarrow> resolve_fact_precedence a b = Prec_a"
    by (auto simp: usable_def resolve_fact_precedence_def Let_def)
  ultimately show ?thesis using precedence_swap by blast
qed

lemma precedence_fair_but_cyclic_witness:
  "resolve_fact_precedence ((machine_fact 0 0)\<lparr>fo_is_user_corrected := True\<rparr>) (machine_fact 1 9) = Prec_a"
  using precedence_fair_but_cyclic [of "machine_fact 1 9" "(machine_fact 0 0)\<lparr>fo_is_user_corrected := True\<rparr>"]
  by (simp add: usable_def)

end
