(* ===== verification/Snapshots.thy ===== *)
theory Snapshots
  imports Facts
begin

text \<open>
  \<open>SnapshotService\<close> (\<open>src/src/services/snapshot.service.ts\<close>): the legacy snapshots, which copy
  the current facts of a user, and the intelligence snapshots, which store the canonical state
  as a JSON projection. \<open>to_iso\<close> stands for \<open>toISOString\<close>.
\<close>

definition snapshot_copy :: "uid \<Rightarrow> uid \<Rightarrow> fact_observation \<Rightarrow> fact_observation" where
  "snapshot_copy snapshot_id fact_id f = f\<lparr>fo_id := fact_id, fo_snapshot_id := Some snapshot_id,
     fo_is_current := True, fo_superseded_by_id := None, fo_superseded_at := None, fo_corrected_by := None,
     fo_corrected_at := None, fo_correction_reason := None, fo_is_user_corrected := False,
     fo_needs_review := False, fo_reviewed_at := None, fo_reviewed_by := None, fo_review_status := None,
     fo_review_notes := None, fo_deleted_at := None\<rparr>"

definition create_snapshot :: "time \<Rightarrow> uid \<Rightarrow> uid list \<Rightarrow> uid \<Rightarrow> string \<Rightarrow> uid option \<Rightarrow> string option
    \<Rightarrow> intel_db \<Rightarrow> snapshot_row \<times> intel_db" where
  "create_snapshot now snapshot_id fresh user snapshot_type reference description db =
     (let snapshot = \<lparr>sn_id = snapshot_id, sn_user_id = user, sn_snapshot_type = snapshot_type,
            sn_reference_id = reference, sn_captured_at = now, sn_description = description,
            sn_last_fact_id = None, sn_schema_version = ''legacy'', sn_candidate_state = None\<rparr>;
          current = find_many (\<lambda>f. fo_user_id f = user \<and> fo_is_current f \<and> fo_deleted_at f = None) (in_facts db)
      in (snapshot, db\<lparr>in_snapshots := in_snapshots db @ [snapshot],
            in_facts := in_facts db @ map2 (snapshot_copy snapshot_id) fresh current\<rparr>))"

definition canonical_entry :: "(time \<Rightarrow> string) \<Rightarrow> intel_db \<Rightarrow> canonical_intelligence \<Rightarrow> json" where
  "canonical_entry to_iso db c = JObj [
     (''factType'', JStr (ci_fact_type c)), (''deduplicationKey'', JStr (ci_deduplication_key c)),
     (''confidence'', JNum (ci_confidence c)), (''lastObservedAt'', JStr (to_iso (ci_last_observed_at c))),
     (''isUserCorrected'', JBool (case find_row (\<lambda>f. fo_id f = ci_source_fact_id c) (in_facts db) of
        Some f \<Rightarrow> fo_is_user_corrected f | None \<Rightarrow> False)),
     (''sourceFactId'', JStr (ci_source_fact_id c)), (''provenanceId'', JStr (ci_provenance_id c))]"

definition active_canonicals :: "uid \<Rightarrow> intel_db \<Rightarrow> canonical_intelligence list" where
  "active_canonicals user db = sort_key ci_fact_type
     (find_many (\<lambda>c. ci_user_id c = user \<and> ci_is_active c) (in_canonicals db))"

definition candidate_state :: "(time \<Rightarrow> string) \<Rightarrow> time \<Rightarrow> uid \<Rightarrow> uid option \<Rightarrow> intel_db \<Rightarrow> json" where
  "candidate_state to_iso captured user last_fact db = JObj [
     (''schemaVersion'', JStr ''v1''), (''capturedAt'', JStr (to_iso captured)), (''userId'', JStr user),
     (''lastFactId'', jopt last_fact), (''facts'', JArr (map (canonical_entry to_iso db) (active_canonicals user db)))]"

definition capture_intelligence_snapshot :: "(time \<Rightarrow> string) \<Rightarrow> time \<Rightarrow> uid \<Rightarrow> uid \<Rightarrow> string \<Rightarrow> uid option \<Rightarrow> string option
    \<Rightarrow> intel_db \<Rightarrow> snapshot_row \<times> intel_db" where
  "capture_intelligence_snapshot to_iso now snapshot_id user snapshot_type reference description db =
     (let last_fact = map_option fo_id (first_by (\<lambda>f. - fo_observed_at f)
            (\<lambda>f. fo_user_id f = user \<and> fo_is_current f \<and> fo_deleted_at f = None) (in_facts db));
          snapshot = \<lparr>sn_id = snapshot_id, sn_user_id = user, sn_snapshot_type = snapshot_type,
            sn_reference_id = reference, sn_captured_at = now, sn_description = description,
            sn_last_fact_id = last_fact, sn_schema_version = ''v1'',
            sn_candidate_state = Some (candidate_state to_iso now user last_fact db)\<rparr>
      in (snapshot, db\<lparr>in_snapshots := in_snapshots db @ [snapshot]\<rparr>))"

definition parse_candidate_state :: "json option \<Rightarrow> json option" where
  "parse_candidate_state j = (case j of None \<Rightarrow> None
     | Some obj \<Rightarrow> (case json_field ''schemaVersion'' obj of
         Some (JStr v) \<Rightarrow> if v = ''v1'' then Some obj else None | _ \<Rightarrow> None))"

definition reconstruct_state_at :: "uid \<Rightarrow> time \<Rightarrow> intel_db \<Rightarrow> (snapshot_row \<times> json option) option" where
  "reconstruct_state_at user t db =
     (case first_by (\<lambda>s. - sn_captured_at s)
         (\<lambda>s. sn_user_id s = user \<and> sn_schema_version s = ''v1'' \<and> sn_captured_at s \<le> t) (in_snapshots db) of
        None \<Rightarrow> None
      | Some s \<Rightarrow> Some (s, parse_candidate_state (sn_candidate_state s)))"

definition get_snapshot_history :: "uid \<Rightarrow> intel_db \<Rightarrow> snapshot_row list" where
  "get_snapshot_history user db = sort_key sn_captured_at
     (find_many (\<lambda>s. sn_user_id s = user \<and> sn_schema_version s = ''v1'') (in_snapshots db))"

definition get_snapshot_for_application :: "uid \<Rightarrow> intel_db \<Rightarrow> snapshot_row option" where
  "get_snapshot_for_application application_id db =
     find_row (\<lambda>s. sn_reference_id s = Some application_id \<and> sn_snapshot_type s = ''APPLICATION'') (in_snapshots db)"

definition get_snapshots_by_type :: "uid \<Rightarrow> string \<Rightarrow> intel_db \<Rightarrow> snapshot_row list" where
  "get_snapshots_by_type user snapshot_type db = sort_key (\<lambda>s. - sn_captured_at s)
     (find_many (\<lambda>s. sn_user_id s = user \<and> sn_snapshot_type s = snapshot_type) (in_snapshots db))"

definition get_snapshot :: "uid \<Rightarrow> intel_db \<Rightarrow> snapshot_row option" where
  "get_snapshot snapshot_id db = find_row (\<lambda>s. sn_id s = snapshot_id) (in_snapshots db)"

subsection \<open>Properties\<close>

lemma first_by_eqI:
  assumes "r \<in> set rows" and "P r"
    and "\<And>r'. r' \<in> set rows \<Longrightarrow> P r' \<Longrightarrow> r' \<noteq> r \<Longrightarrow> k r < k r'"
  shows "first_by k P rows = Some r"
proof (cases "first_by k P rows")
  case None
  with assms(1,2) show ?thesis by (auto simp: first_by_None_iff)
next
  case (Some x)
  with first_by_SomeD [OF Some] first_by_least [OF Some assms(1,2)] assms(3) [of x] show ?thesis
    by (metis not_le)
qed

text \<open>
  C36: what the system knew. After a capture at time \<open>now\<close>, later than the user's earlier
  snapshots, reconstructing the user's state at any time from \<open>now\<close> on, until the next capture,
  gives that snapshot and exactly the active canonical facts of that moment; reconstructions of
  earlier times and of other users are as before, and no fact row was created or changed.
\<close>

theorem capture_reconstruct_roundtrip:
  assumes "capture_intelligence_snapshot to_iso now snapshot_id user snapshot_type reference description db = (s, db')"
    and "\<And>x. x \<in> set (in_snapshots db) \<Longrightarrow> sn_user_id x = user \<Longrightarrow> sn_captured_at x < now"
  shows "(now \<le> t \<longrightarrow> (\<exists>last_fact. reconstruct_state_at user t db' =
        Some (s, Some (JObj [(''schemaVersion'', JStr ''v1''), (''capturedAt'', JStr (to_iso now)), (''userId'', JStr user),
          (''lastFactId'', jopt last_fact), (''facts'', JArr (map (canonical_entry to_iso db) (active_canonicals user db)))]))))
    \<and> (t < now \<longrightarrow> reconstruct_state_at user t db' = reconstruct_state_at user t db)
    \<and> (user' \<noteq> user \<longrightarrow> reconstruct_state_at user' t db' = reconstruct_state_at user' t db)
    \<and> in_facts db' = in_facts db"
proof -
  let ?P = "\<lambda>u t s. sn_user_id s = u \<and> sn_schema_version s = ''v1'' \<and> sn_captured_at s \<le> t"
  obtain last_fact where s: "sn_user_id s = user" "sn_captured_at s = now" "sn_schema_version s = ''v1''"
    "sn_candidate_state s = Some (candidate_state to_iso now user last_fact db)"
    and db': "db' = db\<lparr>in_snapshots := in_snapshots db @ [s]\<rparr>"
    using assms(1) by (auto simp: capture_intelligence_snapshot_def Let_def)
  have later: "first_by (\<lambda>s. - sn_captured_at s) (?P user t) (in_snapshots db @ [s]) = Some s" if "now \<le> t"
    by (rule first_by_eqI) (use that s assms(2) in auto)
  have same: "first_by (\<lambda>s. - sn_captured_at s) (?P u t) (in_snapshots db @ [s])
      = first_by (\<lambda>s. - sn_captured_at s) (?P u t) (in_snapshots db)" if "\<not> ?P u t s" for u
    unfolding first_by_def filter_append using that by auto
  have "parse_candidate_state (sn_candidate_state s) = Some (candidate_state to_iso now user last_fact db)"
    by (simp add: s(4) parse_candidate_state_def candidate_state_def)
  with later have "now \<le> t \<longrightarrow> reconstruct_state_at user t db' = Some (s, Some (candidate_state to_iso now user last_fact db))"
    by (auto simp: reconstruct_state_at_def db')
  moreover have "t < now \<longrightarrow> reconstruct_state_at user t db' = reconstruct_state_at user t db"
    using same [of user] s by (simp add: reconstruct_state_at_def db')
  moreover have "user' \<noteq> user \<longrightarrow> reconstruct_state_at user' t db' = reconstruct_state_at user' t db"
    using same [of user'] s by (simp add: reconstruct_state_at_def db')
  moreover have "in_facts db' = in_facts db" by (simp add: db')
  ultimately show ?thesis by (auto simp: candidate_state_def)
qed

theorem capture_reconstruct_roundtrip_witness:
  "\<exists>s db'. capture_intelligence_snapshot (\<lambda>_. ''t'') 5 ''s'' ''u'' ''MANUAL'' None None one_fact_db = (s, db')
    \<and> map_option fst (reconstruct_state_at ''u'' 7 db') = Some s"
proof -
  obtain s db' where c: "capture_intelligence_snapshot (\<lambda>_. ''t'') 5 ''s'' ''u'' ''MANUAL'' None None one_fact_db = (s, db')"
    by fastforce
  have "in_snapshots one_fact_db = []" by (simp add: one_fact_db_def record_fact_def empty_intel_db_def Let_def)
  then have "sn_captured_at x < 5" if "x \<in> set (in_snapshots one_fact_db)" "sn_user_id x = ''u''" for x
    using that by simp
  from capture_reconstruct_roundtrip [OF c this, of 7] c show ?thesis by auto
qed

text \<open>
  A legacy snapshot breaks the versions. If a user has a current fact, creating a legacy
  snapshot leaves at least two current facts of the same type: the copies are current too.
\<close>

lemma legacy_snapshot_duplicates_current:
  assumes "f \<in> set (in_facts db)" and "fo_user_id f = user" and "fo_is_current f" and "fo_deleted_at f = None"
    and "create_snapshot now snapshot_id fresh user snapshot_type reference description db = (s, db')"
    and "length fresh = length (in_facts db)" and "set fresh \<inter> fo_id ` set (in_facts db) = {}"
  shows "\<not> one_current (in_facts db')"
proof -
  let ?cur = "find_many (\<lambda>f. fo_user_id f = user \<and> fo_is_current f \<and> fo_deleted_at f = None) (in_facts db)"
  have "f \<in> set ?cur" using assms(1-4) by (simp add: find_many_def)
  then obtain k where k: "k < length ?cur" "?cur ! k = f" by (auto simp: in_set_conv_nth)
  have "length ?cur \<le> length fresh" using assms(6) by (simp add: find_many_def)
  then have kf: "k < length fresh" using k by simp
  let ?g = "snapshot_copy snapshot_id (fresh ! k) f"
  have "k < length (map2 (snapshot_copy snapshot_id) fresh ?cur)" using k kf by simp
  from nth_mem [OF this] have "?g \<in> set (map2 (snapshot_copy snapshot_id) fresh ?cur)" using k kf by simp
  then have "?g \<in> set (in_facts db')" "f \<in> set (in_facts db')"
    using assms(1,5) by (auto simp: create_snapshot_def Let_def)
  moreover have "fo_id ?g \<noteq> fo_id f"
    using assms(1,7) kf by (auto simp: snapshot_copy_def) (metis disjoint_iff image_eqI nth_mem)
  moreover have "fo_is_current ?g" "fo_user_id ?g = fo_user_id f" "fo_fact_type ?g = fo_fact_type f"
    by (simp_all add: snapshot_copy_def)
  ultimately show ?thesis using assms(3) unfolding one_current_def by metis
qed

lemma legacy_snapshot_duplicates_current_witness:
  "\<exists>s db'. create_snapshot 5 ''s'' [''x''] ''u'' ''APPLICATION'' None None one_fact_db = (s, db') \<and> \<not> one_current (in_facts db')"
proof -
  obtain s db' where c: "create_snapshot 5 ''s'' [''x''] ''u'' ''APPLICATION'' None None one_fact_db = (s, db')" by fastforce
  have "\<not> one_current (in_facts db')"
    by (rule legacy_snapshot_duplicates_current [OF _ _ _ _ c, of "new_fact ''f1'' 1 sample_fact_input"])
      (simp_all add: in_facts_one new_fact_def sample_fact_input_def)
  with c show ?thesis by blast
qed

end
