(* ===== verification/Circuit_Breaker.thy ===== *)
theory Circuit_Breaker
  imports Prelude
begin

text \<open>
  The circuit breaker of \<open>src/lib/circuit-breaker.ts\<close> that isolates the Gmail client and the
  storage service. A call is two atomic steps with other calls between them: its admission, which
  may move the breaker to half-open, and its settlement, which reports success or failure.
\<close>

datatype circuit_state = CLOSED | OPEN | HALF_OPEN

record breaker_options =
  bo_failure_threshold :: int
  bo_reset_timeout :: int
  bo_request_timeout :: int

definition default_breaker_options :: breaker_options where
  "default_breaker_options =
     \<lparr>bo_failure_threshold = 5, bo_reset_timeout = 30000, bo_request_timeout = 5000\<rparr>"

record breaker =
  br_state :: circuit_state
  br_failure_count :: int
  br_next_attempt_at :: time

definition new_breaker :: breaker where
  "new_breaker = \<lparr>br_state = CLOSED, br_failure_count = 0, br_next_attempt_at = 0\<rparr>"

definition admit :: "string \<Rightarrow> time \<Rightarrow> breaker \<Rightarrow> (unit, breaker) outcome" where
  "admit name now b =
     (if br_state b = OPEN
      then (if br_next_attempt_at b < now then (Inr (), b\<lparr>br_state := HALF_OPEN\<rparr>)
            else (Inl (CircuitBreakerError (''Circuit ['' @ name @ ''] is OPEN. Fast-failing request.'')), b))
      else (Inr (), b))"

definition on_success :: "breaker \<Rightarrow> breaker" where
  "on_success b = b\<lparr>br_state := (if br_state b = HALF_OPEN then CLOSED else br_state b), br_failure_count := 0\<rparr>"

definition on_failure :: "breaker_options \<Rightarrow> time \<Rightarrow> breaker \<Rightarrow> breaker" where
  "on_failure opts now b =
     (let b' = b\<lparr>br_failure_count := br_failure_count b + 1\<rparr>
      in if br_state b' = HALF_OPEN \<or> bo_failure_threshold opts \<le> br_failure_count b'
         then b'\<lparr>br_state := OPEN, br_next_attempt_at := now + bo_reset_timeout opts\<rparr> else b')"

text \<open>
  The promise of \<open>executeWithTimeout\<close> is settled by what happens first, the timer or the
  action; what happens later is ignored. An action without any such event, and with a timer that
  was never fired, leaves it pending.
\<close>

datatype 'a settle_event = Timer_fires | Action_resolves 'a | Action_rejects error

fun execute_with_timeout :: "'a settle_event list \<Rightarrow> (error + 'a) option" where
  "execute_with_timeout [] = None"
| "execute_with_timeout (Timer_fires # _) = Some (Inl (GenericError ''Circuit breaker request timed out''))"
| "execute_with_timeout (Action_resolves a # _) = Some (Inr a)"
| "execute_with_timeout (Action_rejects e # _) = Some (Inl e)"

text \<open>
  A whole call: \<open>env\<close> is what other calls do to the breaker while the action runs, \<open>ended\<close>
  the time of the settlement. \<open>None\<close> is a call that is still pending.
\<close>

definition fire :: "(breaker \<Rightarrow> breaker) \<Rightarrow> string \<Rightarrow> breaker_options \<Rightarrow> time \<Rightarrow> time \<Rightarrow> 'a settle_event list
    \<Rightarrow> breaker \<Rightarrow> ('a, breaker) outcome option" where
  "fire env name opts started ended events b =
     (case admit name started b of
        (Inl e, b') \<Rightarrow> Some (Inl e, b')
      | (Inr _, b') \<Rightarrow>
          (case execute_with_timeout events of
             None \<Rightarrow> None
           | Some (Inr a) \<Rightarrow> Some (Inr a, on_success (env b'))
           | Some (Inl e) \<Rightarrow> Some (Inl e, on_failure opts ended (env b'))))"

subsection \<open>Calls in any order\<close>

text \<open>
  The calls of all users of one breaker, as the sequence of their admissions and settlements. A
  settlement may be of any earlier call, so any settlement may come at any time. An admission
  also says whether the action was started.
\<close>

datatype breaker_event = Call_starts time | Call_succeeds time | Call_fails time

fun event_time :: "breaker_event \<Rightarrow> time" where
  "event_time (Call_starts t) = t"
| "event_time (Call_succeeds t) = t"
| "event_time (Call_fails t) = t"

fun breaker_step :: "breaker_options \<Rightarrow> breaker_event \<Rightarrow> breaker \<Rightarrow> breaker" where
  "breaker_step opts (Call_starts t) b = snd (admit [] t b)"
| "breaker_step opts (Call_succeeds t) b = on_success b"
| "breaker_step opts (Call_fails t) b = on_failure opts t b"

fun starts_action :: "breaker_event \<Rightarrow> breaker \<Rightarrow> bool" where
  "starts_action (Call_starts t) b = (\<not> throws (admit [] t b))"
| "starts_action _ b = False"

fun actions_started :: "breaker_options \<Rightarrow> breaker_event list \<Rightarrow> breaker \<Rightarrow> nat" where
  "actions_started opts [] b = 0"
| "actions_started opts (ev # evs) b =
     (if starts_action ev b then 1 else 0) + actions_started opts evs (breaker_step opts ev b)"

lemmas breaker_simps = admit_def on_success_def on_failure_def Let_def throws_def

lemma open_step:
  assumes "br_state b = OPEN" and "N \<le> br_next_attempt_at b"
    and "N - bo_reset_timeout opts \<le> event_time ev" and "event_time ev \<le> N"
  shows "br_state (breaker_step opts ev b) = OPEN \<and> N \<le> br_next_attempt_at (breaker_step opts ev b)
    \<and> \<not> starts_action ev b"
  using assms by (cases ev) (auto simp: breaker_simps)

lemma open_run:
  "\<lbrakk> br_state b = OPEN; N \<le> br_next_attempt_at b;
     \<forall>ev\<in>set evs. N - bo_reset_timeout opts \<le> event_time ev \<and> event_time ev \<le> N \<rbrakk>
   \<Longrightarrow> actions_started opts evs b = 0 \<and> br_state (fold (breaker_step opts) evs b) = OPEN"
proof (induction evs arbitrary: b)
  case (Cons ev evs)
  with open_step [OF Cons.prems(1,2), of opts ev] show ?case by simp
qed simp

text \<open>
  An open breaker protects its dependency. However the calls in flight settle, late
  successes included, no action is started until the reset timeout has passed since the breaker
  opened: it stays open and every call is refused.
\<close>

lemma open_circuit_fast_fails:
  assumes "br_state b = OPEN" and "br_next_attempt_at b = opened + bo_reset_timeout opts"
    and "\<forall>ev\<in>set evs. opened \<le> event_time ev \<and> event_time ev \<le> opened + bo_reset_timeout opts"
  shows "actions_started opts evs b = 0 \<and> br_state (fold (breaker_step opts) evs b) = OPEN"
  using open_run [of b "opened + bo_reset_timeout opts" evs opts] assms by simp

lemma open_circuit_fast_fails_witness:
  "actions_started default_breaker_options [Call_succeeds 200, Call_starts 300, Call_fails 400, Call_starts 30100]
     \<lparr>br_state = OPEN, br_failure_count = 5, br_next_attempt_at = 30100\<rparr> = 0"
  using open_circuit_fast_fails [of "\<lparr>br_state = OPEN, br_failure_count = 5, br_next_attempt_at = 30100\<rparr>" 100
    default_breaker_options "[Call_succeeds 200, Call_starts 300, Call_fails 400, Call_starts 30100]"]
  by (simp add: default_breaker_options_def)

text \<open>Failures without a success between them are counted, and the threshold opens the breaker.\<close>

lemma fails_closed:
  assumes "br_state b = CLOSED" and "br_failure_count b + int (length ts) < bo_failure_threshold opts"
  shows "fold (on_failure opts) ts b = b\<lparr>br_failure_count := br_failure_count b + int (length ts)\<rparr>"
  using assms
proof (induction ts arbitrary: b)
  case (Cons t ts)
  have "on_failure opts t b = b\<lparr>br_failure_count := br_failure_count b + 1\<rparr>"
    using Cons.prems by (simp add: breaker_simps)
  with Cons.prems show ?case by (simp add: Cons.IH add.assoc)
qed simp

lemma breaker_trips:
  assumes "br_state b = CLOSED" and "br_failure_count b = 0" and "int (length ts) + 1 = bo_failure_threshold opts"
  shows "fold (on_failure opts) (ts @ [t]) b = \<lparr>br_state = OPEN,
    br_failure_count = bo_failure_threshold opts, br_next_attempt_at = t + bo_reset_timeout opts\<rparr>"
  using fails_closed [of b ts opts] assms by (cases b) (simp add: breaker_simps)

text \<open>
  C37: the life cycle of a breaker. Consecutive failures below the threshold leave it closed and
  every call is made; the failure that reaches the threshold opens it. When the reset timeout
  has passed, the next call is made as a probe, and its outcome alone decides: success closes
  the breaker with no failure counted, whatever else failed before, and failure opens it again
  for a full reset timeout.
\<close>

theorem breaker_trips_and_recovers:
  assumes "int (length ts) + 1 = bo_failure_threshold opts" and "t + bo_reset_timeout opts < now"
  shows "br_state (fold (on_failure opts) ts new_breaker) = CLOSED
    \<and> br_state (fold (on_failure opts) (ts @ [t]) new_breaker) = OPEN
    \<and> fire id name opts now ended [Action_resolves a] (fold (on_failure opts) (ts @ [t]) new_breaker)
        = Some (Inr a, \<lparr>br_state = CLOSED, br_failure_count = 0, br_next_attempt_at = t + bo_reset_timeout opts\<rparr>)
    \<and> fire id name opts now ended [Action_rejects e :: 'a settle_event] (fold (on_failure opts) (ts @ [t]) new_breaker)
        = Some (Inl e, \<lparr>br_state = OPEN, br_failure_count = bo_failure_threshold opts + 1,
            br_next_attempt_at = ended + bo_reset_timeout opts\<rparr>)"
  unfolding breaker_trips [of new_breaker, OF _ _ assms(1), simplified new_breaker_def, simplified] new_breaker_def
  using fails_closed [of "\<lparr>br_state = CLOSED, br_failure_count = 0, br_next_attempt_at = 0\<rparr>" ts opts] assms
  by (simp add: fire_def breaker_simps)

theorem breaker_trips_and_recovers_witness:
  "br_state (fold (on_failure default_breaker_options) ([1, 2, 3, 4] @ [5]) new_breaker) = OPEN"
proof -
  have "int (length [1, 2, 3, 4 :: int]) + 1 = bo_failure_threshold default_breaker_options"
    and "(5 :: int) + bo_reset_timeout default_breaker_options < 30006"
    by (simp_all add: default_breaker_options_def)
  from breaker_trips_and_recovers [where a = "()", OF this, THEN conjunct2, THEN conjunct1] show ?thesis .
qed

text \<open>
  The half-open state does not limit its probes: every call that starts while a probe is under
  way is made as well.
\<close>

lemma half_open_admits_all: "br_state b = HALF_OPEN \<Longrightarrow> admit name now b = (Inr (), b)"
  by (simp add: admit_def)

end
