(* ===== verification/Retry.thy ===== *)
theory Retry
  imports Prelude
begin

text \<open>
  The retry loops: \<open>withRetry\<close> of \<open>src/infrastructure/retry.ts\<close>,
  \<open>executeWithTransientRetry\<close> of \<open>src/db/transaction-utils.ts\<close> and the loop of the Gmail
  client. The operation that is retried is a function on the state of the world, so each attempt
  may end differently; a loop gives the delays it slept and how its last attempt ended. The
  random numbers of the jitter are an argument.
\<close>

subsection \<open>The general loop\<close>

record retry_options =
  ro_max_retries :: int
  ro_initial_delay_ms :: rat
  ro_max_delay_ms :: rat
  ro_backoff_multiplier :: rat
  ro_jitter :: bool
  ro_retry_on :: "(error \<Rightarrow> bool) option"

definition default_retry_options :: retry_options where
  "default_retry_options = \<lparr>ro_max_retries = 3, ro_initial_delay_ms = 100, ro_max_delay_ms = 10000,
     ro_backoff_multiplier = 2, ro_jitter = True, ro_retry_on = None\<rparr>"

definition calculate_delay :: "rat \<Rightarrow> nat \<Rightarrow> retry_options \<Rightarrow> rat" where
  "calculate_delay random attempt opts =
     (let delay = min (ro_initial_delay_ms opts * ro_backoff_multiplier opts ^ attempt) (ro_max_delay_ms opts)
      in if ro_jitter opts then delay * (1 / 2 + random * (1 / 2)) else delay)"

definition refuses_retry :: "retry_options \<Rightarrow> error \<Rightarrow> bool" where
  "refuses_retry opts e = (case ro_retry_on opts of None \<Rightarrow> False | Some p \<Rightarrow> \<not> p e)"

function with_retry_loop :: "retry_options \<Rightarrow> (nat \<Rightarrow> rat) \<Rightarrow> ('s \<Rightarrow> ('a, 's) outcome) \<Rightarrow> nat \<Rightarrow> error option
    \<Rightarrow> 's \<Rightarrow> rat list \<times> ('a, 's) outcome" where
  "with_retry_loop opts random fn attempt last_error s =
     (if int attempt \<le> ro_max_retries opts
      then (case fn s of
              (Inr a, s') \<Rightarrow> ([], Inr a, s')
            | (Inl e, s') \<Rightarrow>
                if refuses_retry opts e then ([], Inl e, s')
                else if int attempt = ro_max_retries opts then ([], Inl e, s')
                else (let (delays, r) = with_retry_loop opts random fn (Suc attempt) (Some e) s'
                      in (calculate_delay (random attempt) attempt opts # delays, r)))
      else ([], Inl (option_or last_error (GenericError ''Unexpected error in retry loop'')), s))"
  by pat_completeness auto

termination
  by (relation "measure (\<lambda>(opts, _, _, attempt, _, _). nat (ro_max_retries opts + 1 - int attempt))") auto

declare with_retry_loop.simps [simp del]

definition with_retry :: "retry_options \<Rightarrow> (nat \<Rightarrow> rat) \<Rightarrow> ('s \<Rightarrow> ('a, 's) outcome) \<Rightarrow> 's \<Rightarrow> rat list \<times> ('a, 's) outcome" where
  "with_retry opts random fn s = with_retry_loop opts random fn 0 None s"

subsection \<open>Transactions with transient errors\<close>

record transaction_retry_options =
  tr_max_retries :: int
  tr_base_delay_ms :: rat

definition default_transaction_retry :: transaction_retry_options where
  "default_transaction_retry = \<lparr>tr_max_retries = 3, tr_base_delay_ms = 100\<rparr>"

definition is_transient :: "error \<Rightarrow> bool" where
  "is_transient e = (e = PrismaError ''P2034'')"

text \<open>
  \<open>transact\<close> is \<open>client.$transaction(action)\<close> with its fixed options. The loop is a
  do-while: its counter holds the number of attempts that failed so far.
\<close>

function transient_loop :: "transaction_retry_options \<Rightarrow> (nat \<Rightarrow> rat) \<Rightarrow> ('s \<Rightarrow> ('a, 's) outcome) \<Rightarrow> nat
    \<Rightarrow> 's \<Rightarrow> rat list \<times> ('a, 's) outcome" where
  "transient_loop opts random transact attempts s =
     (case transact s of
        (Inr a, s') \<Rightarrow> ([], Inr a, s')
      | (Inl e, s') \<Rightarrow>
          if \<not> is_transient e \<or> tr_max_retries opts < int (Suc attempts) then ([], Inl e, s')
          else (let (delays, r) = transient_loop opts random transact (Suc attempts) s'
                in ((tr_base_delay_ms opts * 2 ^ attempts + random attempts * 50) # delays, r)))"
  by pat_completeness auto

termination
  by (relation "measure (\<lambda>(opts, _, _, attempts, _). nat (tr_max_retries opts - int attempts))") auto

declare transient_loop.simps [simp del]

definition execute_with_transient_retry :: "transaction_retry_options \<Rightarrow> (nat \<Rightarrow> rat) \<Rightarrow> ('s \<Rightarrow> ('a, 's) outcome)
    \<Rightarrow> 's \<Rightarrow> rat list \<times> ('a, 's) outcome" where
  "execute_with_transient_retry opts random transact s = transient_loop opts random transact 0 s"

subsection \<open>What a retry loop is\<close>

text \<open>
  The reference: the attempts of an operation are its runs one after another, each from the
  state the previous one left. The loop ends with the first attempt that succeeds or fails with
  an error that is not retried, and with attempt \<open>n\<close> if there is none among the first \<open>n\<close>.
\<close>

definition attempt_at :: "('s \<Rightarrow> ('a, 's) outcome) \<Rightarrow> nat \<Rightarrow> 's \<Rightarrow> ('a, 's) outcome" where
  "attempt_at fn k s = fn (((snd \<circ> fn) ^^ k) s)"

definition final_outcome :: "(error \<Rightarrow> bool) \<Rightarrow> ('a, 's) outcome \<Rightarrow> bool" where
  "final_outcome retryable r = (case fst r of Inr _ \<Rightarrow> True | Inl e \<Rightarrow> \<not> retryable e)"

definition last_attempt :: "(error \<Rightarrow> bool) \<Rightarrow> nat \<Rightarrow> ('s \<Rightarrow> ('a, 's) outcome) \<Rightarrow> 's \<Rightarrow> nat" where
  "last_attempt retryable n fn s =
     option_or (List.find (\<lambda>k. final_outcome retryable (attempt_at fn k s)) [0..<n]) n"

definition retry_reference :: "(error \<Rightarrow> bool) \<Rightarrow> nat \<Rightarrow> ('s \<Rightarrow> ('a, 's) outcome) \<Rightarrow> 's \<Rightarrow> ('a, 's) outcome" where
  "retry_reference retryable n fn s = attempt_at fn (last_attempt retryable n fn s) s"

lemma attempt_at_0 [simp]: "attempt_at fn 0 s = fn s"
  by (simp add: attempt_at_def)

lemma attempt_at_Suc: "attempt_at fn (Suc k) s = attempt_at fn k (snd (fn s))"
  by (simp add: attempt_at_def funpow_swap1)

lemma last_attempt_0 [simp]: "last_attempt retryable 0 fn s = 0"
  by (simp add: last_attempt_def)

lemma find_upt_Suc: "List.find P [0..<Suc n] = (if P 0 then Some 0 else map_option Suc (List.find (\<lambda>k. P (Suc k)) [0..<n]))"
proof -
  have "List.find P (map Suc ks) = map_option Suc (List.find (\<lambda>k. P (Suc k)) ks)" for ks
    by (induction ks) auto
  then show ?thesis by (simp add: upt_conv_Cons map_Suc_upt [symmetric] del: upt_Suc)
qed

lemma last_attempt_Suc: "last_attempt retryable (Suc n) fn s =
     (if final_outcome retryable (fn s) then 0 else Suc (last_attempt retryable n fn (snd (fn s))))"
  unfolding last_attempt_def find_upt_Suc
  by (auto simp: attempt_at_Suc option_or_def split: option.split)

lemma retry_reference_step: "retry_reference retryable (Suc n) fn s =
    (if final_outcome retryable (fn s) then fn s else retry_reference retryable n fn (snd (fn s)))"
  by (simp add: retry_reference_def last_attempt_Suc attempt_at_Suc)

lemma retry_reference_0 [simp]: "retry_reference retryable 0 fn s = fn s"
  by (simp add: retry_reference_def)

lemma with_retry_loop_reference:
  "ro_max_retries opts = int attempt + int n \<Longrightarrow>
     snd (with_retry_loop opts random fn attempt le s) = retry_reference (\<lambda>e. \<not> refuses_retry opts e) n fn s
   \<and> length (fst (with_retry_loop opts random fn attempt le s)) = last_attempt (\<lambda>e. \<not> refuses_retry opts e) n fn s"
proof (induction n arbitrary: attempt le s)
  case 0
  then show ?case
    by (subst (1 2) with_retry_loop.simps) (auto split: prod.split sum.split)
next
  case (Suc n)
  obtain r s' where fn: "fn s = (r, s')" by fastforce
  have "ro_max_retries opts = int (Suc attempt) + int n" using Suc.prems by simp
  note IH = Suc.IH [OF this]
  show ?case
    unfolding retry_reference_step last_attempt_Suc fn
    using Suc.prems IH
    by (subst (1 2) with_retry_loop.simps)
       (auto simp: fn final_outcome_def case_prod_beta Let_def split: sum.split)
qed

lemma transient_loop_reference:
  "tr_max_retries opts = int attempts + int n \<Longrightarrow>
     snd (transient_loop opts random fn attempts s) = retry_reference is_transient n fn s
   \<and> length (fst (transient_loop opts random fn attempts s)) = last_attempt is_transient n fn s"
proof (induction n arbitrary: attempts s)
  case 0
  then show ?case
    by (subst (1 2) transient_loop.simps) (auto split: prod.split sum.split)
next
  case (Suc n)
  obtain r s' where fn: "fn s = (r, s')" by fastforce
  have "tr_max_retries opts = int (Suc attempts) + int n" using Suc.prems by simp
  note IH = Suc.IH [OF this]
  show ?case
    unfolding retry_reference_step last_attempt_Suc fn
    using Suc.prems IH
    by (subst (1 2) transient_loop.simps)
       (auto simp: fn final_outcome_def case_prod_beta Let_def split: sum.split)
qed

lemma last_attempt_le: "last_attempt retryable n fn s \<le> n"
proof (induction n arbitrary: s)
  case (Suc n)
  then show ?case by (simp add: last_attempt_Suc)
qed simp

text \<open>
  The two retry loops of the server are the same loop. Both return, make at most one more
  attempt than the retries allowed, sleep once before each attempt but the first, and end the
  way the reference says: with the first attempt that succeeds or fails with an error that is
  not retried, or with the last one allowed.
\<close>

lemma retry_loops_agree:
  assumes "ro_max_retries opts = int n" and "tr_max_retries topts = int n"
    and "ro_retry_on opts = Some is_transient"
  shows "snd (with_retry opts random fn s) = retry_reference is_transient n fn s
    \<and> snd (execute_with_transient_retry topts random' fn s) = retry_reference is_transient n fn s
    \<and> length (fst (with_retry opts random fn s)) = last_attempt is_transient n fn s
    \<and> length (fst (execute_with_transient_retry topts random' fn s)) = last_attempt is_transient n fn s
    \<and> last_attempt is_transient n fn s \<le> n"
  using with_retry_loop_reference [of opts 0 n random fn None s] transient_loop_reference [of topts 0 n random' fn s]
    last_attempt_le [of is_transient n fn s] assms
  by (simp add: with_retry_def execute_with_transient_retry_def refuses_retry_def)

definition flaky :: "nat \<Rightarrow> (string, nat) outcome" where
  "flaky n = (if n < 2 then (Inl (PrismaError ''P2034''), Suc n) else (Inr ''ok'', n))"

lemma retry_loops_agree_witness:
  "snd (with_retry (default_retry_options\<lparr>ro_retry_on := Some is_transient\<rparr>) (\<lambda>_. 0) flaky 0)
     = snd (execute_with_transient_retry default_transaction_retry (\<lambda>_. 0) flaky 0)"
proof -
  let ?opts = "default_retry_options\<lparr>ro_retry_on := Some is_transient\<rparr>"
  have "ro_max_retries ?opts = int 3" and "tr_max_retries default_transaction_retry = int 3"
    and "ro_retry_on ?opts = Some is_transient"
    by (simp_all add: default_retry_options_def default_transaction_retry_def)
  from retry_loops_agree [OF this, of "\<lambda>_. 0" flaky 0 "\<lambda>_. 0"] show ?thesis by simp
qed

lemma calculate_delay_bounds:
  assumes "0 \<le> r" and "r < 1" and "0 \<le> ro_initial_delay_ms opts" and "1 \<le> ro_backoff_multiplier opts"
    and "0 \<le> ro_max_delay_ms opts"
  shows "calculate_delay r k opts \<le> ro_max_delay_ms opts
    \<and> min (ro_initial_delay_ms opts) (ro_max_delay_ms opts) / 2 \<le> calculate_delay r k opts"
proof -
  let ?d = "min (ro_initial_delay_ms opts * ro_backoff_multiplier opts ^ k) (ro_max_delay_ms opts)"
  let ?f = "1 / 2 + r * (1 / 2)"
  have "ro_initial_delay_ms opts * 1 \<le> ro_initial_delay_ms opts * ro_backoff_multiplier opts ^ k"
    using assms(3,4) by (intro mult_left_mono one_le_power)
  then have low: "min (ro_initial_delay_ms opts) (ro_max_delay_ms opts) \<le> ?d" by auto
  have pos: "0 \<le> ?d" using low assms(3,5) by auto
  have "?d * ?f \<le> ?d * 1" using pos assms(2) by (intro mult_left_mono) auto
  moreover have "?d * (1 / 2) \<le> ?d * ?f" using pos assms(1) by (intro mult_left_mono) auto
  moreover have "?d \<le> ro_max_delay_ms opts" by simp
  ultimately show ?thesis using low pos unfolding calculate_delay_def Let_def by auto
qed

lemma with_retry_loop_delays:
  "d \<in> set (fst (with_retry_loop opts random fn attempt le s)) \<Longrightarrow> \<exists>k. d = calculate_delay (random k) k opts"
proof (induction opts random fn attempt le s rule: with_retry_loop.induct)
  case (1 opts random fn attempt le s)
  obtain r s' where fn: "fn s = (r, s')" by fastforce
  show ?case
    using 1(2) 1(1) [OF _ fn [symmetric]]
    by (subst (asm) with_retry_loop.simps)
       (auto simp: fn Let_def case_prod_beta split: if_splits sum.splits)
qed

lemma sum_list_le: "\<forall>d\<in>set ds. d \<le> m \<Longrightarrow> sum_list ds \<le> of_nat (length ds) * (m :: rat)"
  by (induction ds) (auto simp: algebra_simps intro: add_mono)

text \<open>
  The delays are bounded. Every delay of the general loop is between half the capped
  initial delay and the cap, so a caller sleeps no longer than the number of retries times the
  cap, whatever the jitter and the outcomes of the attempts.
\<close>

lemma retry_delays_bounded:
  assumes "\<forall>k. 0 \<le> random k \<and> random k < 1" and "0 \<le> ro_initial_delay_ms opts"
    and "1 \<le> ro_backoff_multiplier opts" and "0 \<le> ro_max_delay_ms opts" and "ro_max_retries opts = int n"
  shows "(\<forall>d\<in>set (fst (with_retry opts random fn s)).
        min (ro_initial_delay_ms opts) (ro_max_delay_ms opts) / 2 \<le> d \<and> d \<le> ro_max_delay_ms opts)
    \<and> sum_list (fst (with_retry opts random fn s)) \<le> of_nat n * ro_max_delay_ms opts"
proof -
  have each: "\<forall>d\<in>set (fst (with_retry opts random fn s)).
      min (ro_initial_delay_ms opts) (ro_max_delay_ms opts) / 2 \<le> d \<and> d \<le> ro_max_delay_ms opts"
    unfolding with_retry_def
  proof
    fix d assume "d \<in> set (fst (with_retry_loop opts random fn 0 None s))"
    from with_retry_loop_delays [OF this] obtain k where "d = calculate_delay (random k) k opts" by blast
    then show "min (ro_initial_delay_ms opts) (ro_max_delay_ms opts) / 2 \<le> d \<and> d \<le> ro_max_delay_ms opts"
      using calculate_delay_bounds [of "random k" opts k] assms(1-4) by simp
  qed
  then have "sum_list (fst (with_retry opts random fn s)) \<le> of_nat (length (fst (with_retry opts random fn s))) * ro_max_delay_ms opts"
    by (intro sum_list_le) simp
  also have "length (fst (with_retry opts random fn s)) \<le> n"
    using with_retry_loop_reference [of opts 0 n random fn None s] assms(5)
    by (simp add: with_retry_def last_attempt_le)
  then have "of_nat (length (fst (with_retry opts random fn s))) * ro_max_delay_ms opts \<le> of_nat n * ro_max_delay_ms opts"
    using assms(4) by (intro mult_right_mono) simp_all
  finally show ?thesis using each by simp
qed

lemma retry_delays_bounded_witness:
  "sum_list (fst (with_retry default_retry_options (\<lambda>_. 1 / 2) flaky 0)) \<le> 30000"
  using retry_delays_bounded [of "\<lambda>_. 1 / 2" default_retry_options 3 flaky 0]
  by (simp add: default_retry_options_def)

text \<open>
  With a negative number of retries the loops differ: the general loop makes no attempt at all
  and throws an error of its own, the transaction loop always makes one.
\<close>

lemma negative_retries:
  assumes "ro_max_retries opts < 0" and "tr_max_retries topts < 0"
  shows "with_retry opts random fn s = ([], Inl (GenericError ''Unexpected error in retry loop''), s)
    \<and> execute_with_transient_retry topts random fn s = ([], fn s)"
  using assms unfolding with_retry_def execute_with_transient_retry_def
  by (subst with_retry_loop.simps, subst transient_loop.simps) (auto split: prod.split sum.split)

end
