(* ===== verification/Gmail_Parts.thy ===== *)
theory Gmail_Parts
  imports Prelude "HOL-Library.AList"
begin

text \<open>
  The parsing helpers of \<open>services/gmail/utils/gmail.utils.ts\<close> and of the Gmail client over
  the nested parts of a message. What the runtime decodes is an argument: \<open>base64\<close> for
  \<open>Buffer.from(_, 'base64')\<close> read as UTF-8, \<open>parse_date\<close> for \<open>new Date(_)\<close>, which
  gives no time for an invalid date.
\<close>

record part_header =
  ph_name :: "string option"
  ph_value :: "string option"

record part_body =
  pb_data :: "string option"
  pb_attachment_id :: "string option"
  pb_size :: "int option"

datatype gmail_part = Part (part_mime_type: "string option") (part_filename: "string option")
  (part_headers: "part_header list option") (part_parts: "gmail_part list option")
  (part_body: "part_body option")

definition get_header :: "part_header list option \<Rightarrow> string \<Rightarrow> string" where
  "get_header headers name = (case headers of None \<Rightarrow> []
     | Some hs \<Rightarrow> (case List.find (\<lambda>h. map_option to_lower (ph_name h) = Some (to_lower name)) hs of
         None \<Rightarrow> [] | Some h \<Rightarrow> option_or (ph_value h) []))"

definition parse_address_list :: "string \<Rightarrow> string list" where
  "parse_address_list s = (if s = [] then []
     else filter (\<lambda>a. 0 < length a) (map trim (split_on (CHR '','') s)))"

record email_recipients =
  rc_to :: "string list"
  rc_cc :: "string list"
  rc_bcc :: "string list"

definition parse_recipients :: "part_header list option \<Rightarrow> email_recipients" where
  "parse_recipients headers = \<lparr>rc_to = parse_address_list (get_header headers ''To''),
     rc_cc = parse_address_list (get_header headers ''Cc''), rc_bcc = parse_address_list (get_header headers ''Bcc'')\<rparr>"

definition decode_base64_url :: "(string \<Rightarrow> string) \<Rightarrow> string \<Rightarrow> string" where
  "decode_base64_url base64 data =
     base64 (map (\<lambda>c. if c = CHR ''_'' then CHR ''/'' else c) (map (\<lambda>c. if c = CHR ''-'' then CHR ''+'' else c) data))"

definition body_data :: "gmail_part \<Rightarrow> string option" where
  "body_data p = (case part_body p of None \<Rightarrow> None | Some b \<Rightarrow> truthy (pb_data b))"

text \<open>The search gives the first result of a child that is not empty.\<close>

fun first_text :: "string option list \<Rightarrow> string option" where
  "first_text [] = None"
| "first_text (r # rs) = (if truthy r \<noteq> None then r else first_text rs)"

fun extract_body_by_mime_type :: "(string \<Rightarrow> string) \<Rightarrow> string \<Rightarrow> gmail_part \<Rightarrow> string option" where
  "extract_body_by_mime_type base64 mime (Part m f h ps b) =
     (if m = Some mime \<and> body_data (Part m f h ps b) \<noteq> None
      then map_option (decode_base64_url base64) (body_data (Part m f h ps b))
      else (case ps of None \<Rightarrow> None | Some children \<Rightarrow> first_text (map (extract_body_by_mime_type base64 mime) children)))"

definition extract_body_text :: "(string \<Rightarrow> string) \<Rightarrow> gmail_part option \<Rightarrow> string option" where
  "extract_body_text base64 payload = (case payload of None \<Rightarrow> None | Some p \<Rightarrow> extract_body_by_mime_type base64 ''text/plain'' p)"

definition extract_body_html :: "(string \<Rightarrow> string) \<Rightarrow> gmail_part option \<Rightarrow> string option" where
  "extract_body_html base64 payload = (case payload of None \<Rightarrow> None | Some p \<Rightarrow> extract_body_by_mime_type base64 ''text/html'' p)"

definition is_attachment :: "gmail_part \<Rightarrow> bool" where
  "is_attachment p = (truthy (part_filename p) \<noteq> None
     \<and> (case part_body p of None \<Rightarrow> False | Some b \<Rightarrow> truthy (pb_attachment_id b) \<noteq> None))"

fun part_has_attachments :: "gmail_part \<Rightarrow> bool" where
  "part_has_attachments (Part m f h ps b) = (is_attachment (Part m f h ps b)
     \<or> (case ps of None \<Rightarrow> False | Some children \<Rightarrow> list_ex part_has_attachments children))"

definition has_attachments :: "gmail_part option \<Rightarrow> bool" where
  "has_attachments payload = (case payload of None \<Rightarrow> False | Some p \<Rightarrow> part_has_attachments p)"

definition parse_email_date :: "(string \<Rightarrow> time option) \<Rightarrow> time \<Rightarrow> string \<Rightarrow> time" where
  "parse_email_date parse_date now s = (if s = [] then now else option_or (parse_date s) now)"

text \<open>\<open>flattenParts\<close> and \<open>headersToRecord\<close> of the client.\<close>

fun flatten_parts :: "gmail_part \<Rightarrow> gmail_part list" where
  "flatten_parts (Part m f h ps b) =
     Part m f h ps b # (case ps of None \<Rightarrow> [] | Some children \<Rightarrow> concat (map flatten_parts children))"

definition headers_to_record :: "part_header list option \<Rightarrow> (string \<times> string) list" where
  "headers_to_record headers = (case headers of None \<Rightarrow> []
     | Some hs \<Rightarrow> fold (\<lambda>h rec. case (ph_name h, ph_value h) of
         (Some n, Some v) \<Rightarrow> AList.update n v rec | _ \<Rightarrow> rec) hs [])"

subsection \<open>The searches agree\<close>

lemma first_text_append: "first_text (xs @ ys) = (if \<exists>r\<in>set xs. truthy r \<noteq> None then first_text xs else first_text ys)"
  by (induction xs) auto

lemma first_text_None_iff: "truthy (first_text xs) = None \<longleftrightarrow> (\<forall>r\<in>set xs. truthy r = None)"
  by (induction xs) (auto simp: truthy_def)

text \<open>A part's own text, as the recursive search reads it.\<close>

definition own_text :: "(string \<Rightarrow> string) \<Rightarrow> string \<Rightarrow> gmail_part \<Rightarrow> string option" where
  "own_text base64 mime p = (if part_mime_type p = Some mime then map_option (decode_base64_url base64) (body_data p) else None)"

lemma first_text_concat: "first_text (concat xss) = first_text (map first_text xss)"
proof (induction xss)
  case (Cons xs xss)
  have "(\<exists>r\<in>set xs. truthy r \<noteq> None) \<longleftrightarrow> truthy (first_text xs) \<noteq> None"
    using first_text_None_iff [of xs] by metis
  moreover have "first_text xs = first_text [first_text xs]" if "truthy (first_text xs) \<noteq> None"
    using that by simp
  ultimately show ?case using Cons by (auto simp: first_text_append)
qed simp

lemma body_data_truthy: "body_data p = Some d \<Longrightarrow> d \<noteq> []"
  by (auto simp: body_data_def truthy_def split: option.splits list.splits)

lemma extract_body_flat:
  assumes "\<And>d. d \<noteq> [] \<Longrightarrow> base64 d \<noteq> []"
  shows "extract_body_by_mime_type base64 mime p = first_text (map (own_text base64 mime) (flatten_parts p))"
proof (induction p)
  case (Part m f h ps b)
  let ?p = "Part m f h ps b"
  have dec: "decode_base64_url base64 d \<noteq> []" if "body_data ?p = Some d" for d
    using assms body_data_truthy [OF that] by (simp add: decode_base64_url_def)
  show ?case
  proof (cases "m = Some mime \<and> body_data ?p \<noteq> None")
    case True
    then obtain d where d: "body_data ?p = Some d" by auto
    with True dec [OF d] show ?thesis
      by (auto simp: own_text_def truthy_def split: list.split)
  next
    case False
    then have own: "own_text base64 mime ?p = None" by (auto simp: own_text_def)
    show ?thesis
    proof (cases ps)
      case None
      with False own show ?thesis by (auto simp: truthy_def)
    next
      case (Some children)
      have "map (extract_body_by_mime_type base64 mime) children
          = map (\<lambda>q. first_text (map (own_text base64 mime) (flatten_parts q))) children"
        using Part.IH Some by (auto intro!: map_cong)
      then have "first_text (map (extract_body_by_mime_type base64 mime) children)
          = first_text (map (own_text base64 mime) (concat (map flatten_parts children)))"
        by (simp only: map_concat first_text_concat map_map comp_def)
      with False own Some show ?thesis by (auto simp: truthy_def)
    qed
  qed
qed

lemma part_has_attachments_flat: "part_has_attachments p \<longleftrightarrow> list_ex is_attachment (flatten_parts p)"
proof (induction p)
  case (Part m f h ps b)
  then show ?case by (cases ps) (auto simp: list_ex_iff)
qed

text \<open>
  The recursive searches of a message are searches through its flattened parts. The body of
  a MIME type is the first text of that type in document order, and a message has attachments
  exactly when the list of parts the client downloads attachments from is not empty.
\<close>

lemma part_searches_flat:
  assumes "\<forall>d. d \<noteq> [] \<longrightarrow> base64 d \<noteq> []"
  shows "extract_body_text base64 (Some p) = first_text (map (own_text base64 ''text/plain'') (flatten_parts p))
    \<and> extract_body_html base64 (Some p) = first_text (map (own_text base64 ''text/html'') (flatten_parts p))
    \<and> (has_attachments (Some p) \<longleftrightarrow> filter is_attachment (flatten_parts p) \<noteq> [])"
  using assms extract_body_flat [of base64 _ p]
  by (auto simp: extract_body_text_def extract_body_html_def has_attachments_def part_has_attachments_flat
      filter_empty_conv list_ex_iff)

definition sample_part :: gmail_part where
  "sample_part = Part (Some ''multipart/mixed'') None None (Some
     [Part (Some ''text/html'') None None None (Some \<lparr>pb_data = Some ''h'', pb_attachment_id = None, pb_size = None\<rparr>),
      Part (Some ''text/plain'') None None None (Some \<lparr>pb_data = Some ''-_'', pb_attachment_id = None, pb_size = None\<rparr>),
      Part (Some ''application/pdf'') (Some ''cv.pdf'') None None
        (Some \<lparr>pb_data = None, pb_attachment_id = Some ''a1'', pb_size = Some 10\<rparr>)]) None"

lemma part_searches_flat_witness:
  "extract_body_text id (Some sample_part) = Some ''+/'' \<and> has_attachments (Some sample_part)"
  using part_searches_flat [of id sample_part]
  by (simp add: sample_part_def own_text_def body_data_def truthy_def decode_base64_url_def is_attachment_def)

end
