(* ===== verification/Http_Errors.thy ===== *)
theory Http_Errors
  imports Prelude
begin

text \<open>
  What an error looks like from outside: the HTTP status, the code and the message its class
  declares (\<open>src/errors\<close>, \<open>domain/candidate-intelligence.ts\<close>), and the response the
  error middleware (\<open>middleware/error-handler.ts\<close>) makes of it. Logging is left out.
\<close>

fun error_message :: "error \<Rightarrow> string" where
  "error_message (NotFoundError resource identifier) = resource @ '' not found: '' @ identifier"
| "error_message (CrossUserOwnershipError resource_type resource_id) =
     ''Cross-user access denied: resource \"'' @ resource_type @ ''\" ('' @ resource_id @
     '') does not belong to the requesting user.''"
| "error_message (CellBoundaryViolationError user expected actual) =
     ''Cell boundary violation for user '' @ user @ '': expected cell \"'' @ expected @ ''\" but found \"'' @ actual @ ''\".''"
| "error_message (ExtractionRunNotFoundError run_id) = ''ExtractionRun not found: '' @ run_id"
| "error_message (ImmutabilityViolationError resource_type resource_id) =
     ''Immutability violation: \"'' @ resource_type @ ''\" ('' @ resource_id @
     '') is in a terminal state and must not be mutated.''"
| "error_message (InvalidSourceReferenceError source_type source_id) =
     ''Invalid source reference: sourceType=\"'' @ source_type @ ''\" sourceId=\"'' @ source_id @
     ''\" could not be resolved to a user-owned document.''"
| "error_message (CanonicalIntelligenceNotFoundError i) = ''CanonicalCandidateIntelligence not found: '' @ i"
| "error_message (MaterialisationOwnershipError fact_id) =
     ''Materialisation rejected: FactObservation ('' @ fact_id @ '') does not belong to the requesting user.''"
| "error_message (FactNotEligibleError fact_id reason) =
     ''FactObservation ('' @ fact_id @ '') is not eligible for materialisation: '' @ reason"
| "error_message (DomainValidationError m) = m"
| "error_message (ValidationError m) = m"
| "error_message (OAuthError m _) = m"
| "error_message (TokenError m _) = m"
| "error_message (ForbiddenError m _) = m"
| "error_message (ConflictError m _) = m"
| "error_message (EncryptionError m) = m"
| "error_message (GmailApiError m _) = m"
| "error_message (RateLimitError m) = m"
| "error_message (TypeError m) = m"
| "error_message (SsrfError m) = m"
| "error_message (UnauthorizedError m) = m"
| "error_message ForbiddenInternalError = ''Forbidden: internal endpoint''"
| "error_message (MissingPartitionKeyError table partition_key) =
     ''Query on \"'' @ table @ ''\" is missing required partition key: \"'' @ partition_key @
     ''\". All queries must be scoped to a partition to prevent full-table scans.''"
| "error_message (CircuitBreakerError m) = m"
| "error_message (PrismaError m) = m"
| "error_message (ApiError m _) = m"
| "error_message (GenericError m) = m"

text \<open>The subclasses of \<open>AppError\<close>: HTTP status, code, and whether they are operational.\<close>

fun app_error :: "error \<Rightarrow> (int \<times> string \<times> bool) option" where
  "app_error (OAuthError _ code) = Some (401, code, True)"
| "app_error (TokenError _ code) = Some (401, code, True)"
| "app_error (GmailApiError _ gmail_code) =
     Some (if gmail_code = Some 429 then 429 else 502, ''GMAIL_API_ERROR'', True)"
| "app_error (EncryptionError _) = Some (500, ''ENCRYPTION_ERROR'', False)"
| "app_error (ValidationError _) = Some (400, ''VALIDATION_ERROR'', True)"
| "app_error (NotFoundError _ _) = Some (404, ''NOT_FOUND'', True)"
| "app_error (ForbiddenError _ code) = Some (403, code, True)"
| "app_error (ConflictError _ code) = Some (409, code, True)"
| "app_error (DomainValidationError _) = Some (400, ''DOMAIN_VALIDATION_ERROR'', True)"
| "app_error (RateLimitError _) = Some (429, ''RATE_LIMIT_EXCEEDED'', True)"
| "app_error (UnauthorizedError _) = Some (401, ''UNAUTHORIZED'', True)"
| "app_error ForbiddenInternalError = Some (403, ''FORBIDDEN_INTERNAL'', True)"
| "app_error (MissingPartitionKeyError _ _) = Some (500, ''MISSING_PARTITION_KEY'', False)"
| "app_error _ = None"

text \<open>The status the candidate intelligence errors declare; they extend \<open>Error\<close> directly.\<close>

fun declared_status :: "error \<Rightarrow> int option" where
  "declared_status (CrossUserOwnershipError _ _) = Some 403"
| "declared_status (CellBoundaryViolationError _ _ _) = Some 403"
| "declared_status (ExtractionRunNotFoundError _) = Some 404"
| "declared_status (ImmutabilityViolationError _ _) = Some 409"
| "declared_status (InvalidSourceReferenceError _ _) = Some 422"
| "declared_status (MaterialisationOwnershipError _) = Some 403"
| "declared_status (FactNotEligibleError _ _) = Some 422"
| "declared_status (CanonicalIntelligenceNotFoundError _) = Some 404"
| "declared_status e = map_option fst (app_error e)"

record error_response =
  rs_status :: int
  rs_code :: string
  rs_message :: string

definition prisma_response :: "string \<Rightarrow> error_response" where
  "prisma_response code =
     (if code = ''P2002'' then \<lparr>rs_status = 409, rs_code = ''CONFLICT'', rs_message = ''A record with this value already exists.''\<rparr>
      else if code = ''P2025'' then \<lparr>rs_status = 404, rs_code = ''NOT_FOUND'', rs_message = ''The requested resource was not found.''\<rparr>
      else if starts_with code ''P20'' then \<lparr>rs_status = 400, rs_code = ''BAD_REQUEST'', rs_message = ''Invalid database request.''\<rparr>
      else \<lparr>rs_status = 500, rs_code = ''INTERNAL_SERVER_ERROR'', rs_message = ''An unexpected database error occurred''\<rparr>)"

definition error_handler :: "bool \<Rightarrow> error \<Rightarrow> error_response" where
  "error_handler is_production err =
     (case app_error err of
        Some (status, code, _) \<Rightarrow> \<lparr>rs_status = status, rs_code = code, rs_message = error_message err\<rparr>
      | None \<Rightarrow>
          (case err of
             PrismaError code \<Rightarrow> prisma_response code
           | _ \<Rightarrow> \<lparr>rs_status = 500, rs_code = ''INTERNAL_SERVER_ERROR'',
               rs_message = (if is_production then ''An unexpected error occurred'' else error_message err)\<rparr>))"

lemma prisma_response_status: "400 \<le> rs_status (prisma_response code) \<and> rs_status (prisma_response code) < 600"
  by (simp add: prisma_response_def)

text \<open>
  The responses of the error middleware in production. It always answers with an error
  status; the classes of the application answer with the status and message they declare; the
  message of any other error is never sent, so a database or library error does not leak. But
  the ownership, cell boundary and immutability errors of candidate intelligence are no
  application errors: whatever status they declare, the client sees an internal server error.
\<close>

lemma production_error_responses:
  "400 \<le> rs_status (error_handler True err) \<and> rs_status (error_handler True err) < 600
   \<and> (\<forall>status code op. app_error err = Some (status, code, op) \<longrightarrow>
        error_handler True err = \<lparr>rs_status = status, rs_code = code, rs_message = error_message err\<rparr>)
   \<and> (app_error err = None \<longrightarrow> rs_message (error_handler True err) \<in>
        {''An unexpected error occurred'', ''An unexpected database error occurred'', ''Invalid database request.'',
         ''The requested resource was not found.'', ''A record with this value already exists.''})
   \<and> (app_error err = None \<and> declared_status err \<noteq> None \<longrightarrow> rs_status (error_handler True err) = 500
        \<and> declared_status err \<noteq> Some (rs_status (error_handler True err)))"
proof -
  have "400 \<le> rs_status (error_handler True err) \<and> rs_status (error_handler True err) < 600"
    using prisma_response_status by (cases err) (auto simp: error_handler_def)
  moreover have "app_error err = None \<longrightarrow> rs_message (error_handler True err) \<in>
        {''An unexpected error occurred'', ''An unexpected database error occurred'', ''Invalid database request.'',
         ''The requested resource was not found.'', ''A record with this value already exists.''}"
    by (cases err) (simp_all add: error_handler_def prisma_response_def)
  moreover have "app_error err = None \<and> declared_status err \<noteq> None \<longrightarrow> rs_status (error_handler True err) = 500
        \<and> declared_status err \<noteq> Some (rs_status (error_handler True err))"
    by (cases err) (simp_all add: error_handler_def)
  moreover have "\<forall>status code op. app_error err = Some (status, code, op) \<longrightarrow>
      error_handler True err = \<lparr>rs_status = status, rs_code = code, rs_message = error_message err\<rparr>"
    by (simp add: error_handler_def)
  ultimately show ?thesis by blast
qed

lemma production_error_responses_witness:
  "rs_status (error_handler True (CrossUserOwnershipError ''ExtractionRun'' ''r'')) = 500
   \<and> declared_status (CrossUserOwnershipError ''ExtractionRun'' ''r'') = Some 403"
  using production_error_responses [of "CrossUserOwnershipError ''ExtractionRun'' ''r''"] by simp

end
