(* ===== verification/Gmail_Client.thy ===== *)
theory Gmail_Client
  imports Circuit_Breaker Retry Gmail_Parts Http_Errors
begin

text \<open>
  The Gmail client (\<open>services/gmail/client/gmail-client.ts\<close>). The Gmail API is a record of
  functions on the state of the world: each request gives an error or the \<open>data\<close> of its
  response. Its entries are objects and its payloads typed parts, as the API documents; fields
  may be missing or of another type. Every operation is a request body, retried on transient
  errors, inside the circuit breaker of the client.
\<close>

definition GMAIL_CLIENT_MAX_RETRIES :: nat where "GMAIL_CLIENT_MAX_RETRIES = 3"
definition GMAIL_CLIENT_INITIAL_RETRY_DELAY_MS :: int where "GMAIL_CLIENT_INITIAL_RETRY_DELAY_MS = 1000"
definition GMAIL_LIST_MESSAGES_MAX_RESULTS :: int where "GMAIL_LIST_MESSAGES_MAX_RESULTS = 100"
definition GMAIL_HISTORY_MAX_RESULTS :: int where "GMAIL_HISTORY_MAX_RESULTS = 100"

definition RETRYABLE_STATUS_CODES :: "int set" where
  "RETRYABLE_STATUS_CODES = {429, 500, 503}"

definition extract_status_code :: "error \<Rightarrow> int option" where
  "extract_status_code e = (case e of ApiError _ code \<Rightarrow> code | _ \<Rightarrow> None)"

definition gmail_retryable :: "error \<Rightarrow> bool" where
  "gmail_retryable e = (case extract_status_code e of None \<Rightarrow> False
     | Some c \<Rightarrow> c \<noteq> 0 \<and> c \<in> RETRYABLE_STATUS_CODES)"

definition gmail_error :: "error \<Rightarrow> error" where
  "gmail_error e = GmailApiError (''Gmail API error: '' @ error_message e) (extract_status_code e)"

subsection \<open>Retries inside the circuit breaker\<close>

function gmail_retry_loop :: "('s \<Rightarrow> ('a, 's) outcome) \<Rightarrow> nat \<Rightarrow> 's \<Rightarrow> int list \<times> ('a, 's) outcome" where
  "gmail_retry_loop fn attempt s =
     (case fn s of
        (Inr a, s') \<Rightarrow> ([], Inr a, s')
      | (Inl e, s') \<Rightarrow>
          if gmail_retryable e \<and> attempt < GMAIL_CLIENT_MAX_RETRIES
          then (let (delays, r) = gmail_retry_loop fn (Suc attempt) s'
                in ((GMAIL_CLIENT_INITIAL_RETRY_DELAY_MS * 2 ^ attempt) # delays, r))
          else ([], Inl (gmail_error e), s'))"
  by pat_completeness auto

termination
  by (relation "measure (\<lambda>(_, attempt, _). GMAIL_CLIENT_MAX_RETRIES - attempt)") auto

declare gmail_retry_loop.simps [simp del]

definition gmail_with_retry :: "('s \<Rightarrow> ('a, 's) outcome) \<Rightarrow> 's \<Rightarrow> int list \<times> ('a, 's) outcome" where
  "gmail_with_retry fn s = gmail_retry_loop fn 0 s"

definition gmail_breaker_options :: breaker_options where
  "gmail_breaker_options = \<lparr>bo_failure_threshold = 5, bo_reset_timeout = 30000, bo_request_timeout = 5000\<rparr>"

text \<open>
  One call of the client, from the breaker and the world to the result and both afterwards.
  \<open>durations k\<close> is how long attempt \<open>k\<close> takes. The timer of the breaker runs beside the
  whole retry loop; the loop is not stopped when it fires. \<open>env\<close> is what other calls do to
  the breaker meanwhile. The timer is always among the events, so the call is never pending.
\<close>

definition gmail_call :: "(breaker \<Rightarrow> breaker) \<Rightarrow> time \<Rightarrow> (nat \<Rightarrow> int) \<Rightarrow> ('s \<Rightarrow> ('a, 's) outcome)
    \<Rightarrow> breaker \<times> 's \<Rightarrow> ('a, breaker \<times> 's) outcome" where
  "gmail_call env started durations fn bs =
     (case admit ''GmailAPI'' started (fst bs) of
        (Inl e, b') \<Rightarrow> (Inl e, b', snd bs)
      | (Inr _, _) \<Rightarrow>
          (let loop = gmail_with_retry fn (snd bs);
               elapsed = sum_list (map durations [0..<Suc (length (fst loop))]) + sum_list (fst loop);
               settled = (case fst (snd loop) of Inr a \<Rightarrow> Action_resolves a | Inl e \<Rightarrow> Action_rejects e);
               in_time = elapsed < bo_request_timeout gmail_breaker_options;
               events = (if in_time then [settled, Timer_fires] else [Timer_fires, settled]);
               ended = started + min elapsed (bo_request_timeout gmail_breaker_options)
           in case fire env ''GmailAPI'' gmail_breaker_options started ended events (fst bs) of
                None \<Rightarrow> (Inl (GenericError ''pending''), fst bs, snd (snd loop))
              | Some (r, b') \<Rightarrow> (r, b', snd (snd loop))))"

subsection \<open>Reading responses\<close>

definition read_string :: "json option \<Rightarrow> string" where
  "read_string j = (case j of Some (JStr s) \<Rightarrow> s | _ \<Rightarrow> [])"

definition read_optional_string :: "json option \<Rightarrow> string option" where
  "read_optional_string j = (case j of Some (JStr s) \<Rightarrow> if 0 < length s then Some s else None | _ \<Rightarrow> None)"

definition read_number :: "json option \<Rightarrow> rat" where
  "read_number j = (case j of Some (JNum n) \<Rightarrow> n | _ \<Rightarrow> 0)"

definition read_optional_number :: "json option \<Rightarrow> rat option" where
  "read_optional_number j = (case j of Some (JNum n) \<Rightarrow> Some n | _ \<Rightarrow> None)"

definition read_array :: "json option \<Rightarrow> json list" where
  "read_array j = (case j of Some (JArr xs) \<Rightarrow> xs | _ \<Rightarrow> [])"

record gmail_message_ref =
  mr_id :: string
  mr_thread_id :: string

record list_messages_options =
  lm_query :: "string option"
  lm_max_results :: "int option"
  lm_page_token :: "string option"
  lm_label_ids :: "string list option"

record list_messages_result =
  lr_messages :: "gmail_message_ref list"
  lr_next_page_token :: "string option"
  lr_result_size_estimate :: rat

record raw_message =
  rw_id :: "json option"
  rw_thread_id :: "json option"
  rw_label_ids :: "string list option"
  rw_payload :: "gmail_part option"

record gmail_message =
  gm_id :: string
  gm_thread_id :: string
  gm_label_ids :: "string list"
  gm_sender :: string
  gm_recipients :: email_recipients
  gm_subject :: string
  gm_body_text :: "string option"
  gm_body_html :: "string option"
  gm_has_attachments :: bool
  gm_received_at :: time
  gm_headers :: "(string \<times> string) list"

record gmail_thread =
  gt_id :: string
  gt_history_id :: string
  gt_messages :: "gmail_message list"

record gmail_attachment =
  ga_attachment_id :: string
  ga_message_id :: string
  ga_filename :: string
  ga_mime_type :: string
  ga_size :: int
  ga_data :: "string option"

record gmail_label =
  gl_id :: string
  gl_name :: string
  gl_system :: bool
  gl_messages_total :: "rat option"
  gl_messages_unread :: "rat option"

record gmail_profile =
  gp_email_address :: string
  gp_messages_total :: rat
  gp_threads_total :: rat
  gp_history_id :: string

record gmail_history_result =
  hr_history_id :: string
  hr_next_page_token :: "string option"
  hr_messages_added :: "gmail_message_ref list"

record 's gmail_api =
  api_list :: "string option \<Rightarrow> int \<Rightarrow> string option \<Rightarrow> string list option \<Rightarrow> 's \<Rightarrow> (json, 's) outcome"
  api_get :: "string \<Rightarrow> 's \<Rightarrow> (raw_message, 's) outcome"
  api_attachment :: "string \<Rightarrow> string \<Rightarrow> 's \<Rightarrow> (json, 's) outcome"
  api_thread :: "string \<Rightarrow> 's \<Rightarrow> (json \<times> raw_message list, 's) outcome"
  api_labels :: "'s \<Rightarrow> (json, 's) outcome"
  api_profile :: "'s \<Rightarrow> (json, 's) outcome"
  api_history :: "string \<Rightarrow> int \<Rightarrow> string option \<Rightarrow> 's \<Rightarrow> (json, 's) outcome"

record date_codec =
  dc_base64 :: "string \<Rightarrow> string"
  dc_parse_date :: "string \<Rightarrow> time option"
  dc_now :: time

definition parse_message :: "date_codec \<Rightarrow> raw_message \<Rightarrow> gmail_message" where
  "parse_message codec raw =
     (let payload = rw_payload raw; headers = (case payload of None \<Rightarrow> None | Some p \<Rightarrow> part_headers p)
      in \<lparr>gm_id = read_string (rw_id raw), gm_thread_id = read_string (rw_thread_id raw),
          gm_label_ids = option_or (rw_label_ids raw) [], gm_sender = get_header headers ''From'',
          gm_recipients = parse_recipients headers, gm_subject = get_header headers ''Subject'',
          gm_body_text = extract_body_text (dc_base64 codec) payload,
          gm_body_html = extract_body_html (dc_base64 codec) payload,
          gm_has_attachments = has_attachments payload,
          gm_received_at = parse_email_date (dc_parse_date codec) (dc_now codec) (get_header headers ''Date''),
          gm_headers = headers_to_record headers\<rparr>)"

definition map_outcome :: "('a \<Rightarrow> 'b) \<Rightarrow> ('a, 's) outcome \<Rightarrow> ('b, 's) outcome" where
  "map_outcome f r = (case r of (Inl e, s) \<Rightarrow> (Inl e, s) | (Inr a, s) \<Rightarrow> (Inr (f a), s))"

definition read_ref :: "json \<Rightarrow> gmail_message_ref" where
  "read_ref m = \<lparr>mr_id = read_string (json_field ''id'' m), mr_thread_id = read_string (json_field ''threadId'' m)\<rparr>"

subsection \<open>The operations\<close>

definition list_messages_body :: "'s gmail_api \<Rightarrow> list_messages_options \<Rightarrow> 's \<Rightarrow> (list_messages_result, 's) outcome" where
  "list_messages_body api opts s = map_outcome
     (\<lambda>data. \<lparr>lr_messages = map read_ref (read_array (json_field ''messages'' data)),
        lr_next_page_token = read_optional_string (json_field ''nextPageToken'' data),
        lr_result_size_estimate = read_number (json_field ''resultSizeEstimate'' data)\<rparr>)
     (api_list api (lm_query opts) (min (option_or (lm_max_results opts) GMAIL_LIST_MESSAGES_MAX_RESULTS) 500)
        (lm_page_token opts) (lm_label_ids opts) s)"

definition get_message_body :: "'s gmail_api \<Rightarrow> date_codec \<Rightarrow> string \<Rightarrow> 's \<Rightarrow> (gmail_message, 's) outcome" where
  "get_message_body api codec message_id s = map_outcome (parse_message codec) (api_get api message_id s)"

definition get_thread_body :: "'s gmail_api \<Rightarrow> date_codec \<Rightarrow> string \<Rightarrow> 's \<Rightarrow> (gmail_thread, 's) outcome" where
  "get_thread_body api codec thread_id s = map_outcome
     (\<lambda>(data, messages). \<lparr>gt_id = (if read_string (json_field ''id'' data) = [] then thread_id else read_string (json_field ''id'' data)),
        gt_history_id = read_string (json_field ''historyId'' data),
        gt_messages = map (parse_message codec) messages\<rparr>)
     (api_thread api thread_id s)"

definition attachment_of :: "string \<Rightarrow> gmail_part \<Rightarrow> json \<Rightarrow> gmail_attachment" where
  "attachment_of message_id p data =
     \<lparr>ga_attachment_id = (case part_body p of None \<Rightarrow> [] | Some b \<Rightarrow> option_or (pb_attachment_id b) []),
      ga_message_id = message_id, ga_filename = option_or (part_filename p) [],
      ga_mime_type = option_or (part_mime_type p) ''application/octet-stream'',
      ga_size = (case part_body p of None \<Rightarrow> 0 | Some b \<Rightarrow> option_or (pb_size b) 0),
      ga_data = read_optional_string (json_field ''data'' data)\<rparr>"

fun download_attachments :: "'s gmail_api \<Rightarrow> string \<Rightarrow> gmail_part list \<Rightarrow> 's \<Rightarrow> (gmail_attachment list, 's) outcome" where
  "download_attachments api message_id [] s = (Inr [], s)"
| "download_attachments api message_id (p # ps) s =
     (if is_attachment p
      then (case api_attachment api message_id
                (case part_body p of None \<Rightarrow> [] | Some b \<Rightarrow> option_or (pb_attachment_id b) []) s of
              (Inl e, s') \<Rightarrow> (Inl e, s')
            | (Inr data, s') \<Rightarrow> map_outcome (\<lambda>rest. attachment_of message_id p data # rest)
                (download_attachments api message_id ps s'))
      else download_attachments api message_id ps s)"

definition get_attachments_body :: "'s gmail_api \<Rightarrow> string \<Rightarrow> 's \<Rightarrow> (gmail_attachment list, 's) outcome" where
  "get_attachments_body api message_id s =
     (case api_get api message_id s of
        (Inl e, s') \<Rightarrow> (Inl e, s')
      | (Inr raw, s') \<Rightarrow> download_attachments api message_id
          (case rw_payload raw of None \<Rightarrow> [] | Some p \<Rightarrow> flatten_parts p) s')"

definition read_label :: "json \<Rightarrow> gmail_label" where
  "read_label l = \<lparr>gl_id = read_string (json_field ''id'' l), gl_name = read_string (json_field ''name'' l),
     gl_system = (read_string (json_field ''type'' l) = ''system''),
     gl_messages_total = read_optional_number (json_field ''messagesTotal'' l),
     gl_messages_unread = read_optional_number (json_field ''messagesUnread'' l)\<rparr>"

definition get_labels_body :: "'s gmail_api \<Rightarrow> 's \<Rightarrow> (gmail_label list, 's) outcome" where
  "get_labels_body api s = map_outcome (\<lambda>data. map read_label (read_array (json_field ''labels'' data))) (api_labels api s)"

definition get_profile_body :: "'s gmail_api \<Rightarrow> 's \<Rightarrow> (gmail_profile, 's) outcome" where
  "get_profile_body api s = map_outcome
     (\<lambda>data. \<lparr>gp_email_address = read_string (json_field ''emailAddress'' data),
        gp_messages_total = read_number (json_field ''messagesTotal'' data),
        gp_threads_total = read_number (json_field ''threadsTotal'' data),
        gp_history_id = read_string (json_field ''historyId'' data)\<rparr>) (api_profile api s)"

definition history_refs :: "json \<Rightarrow> gmail_message_ref list" where
  "history_refs data = concat (map (\<lambda>rec. filter (\<lambda>r. mr_id r \<noteq> [] \<and> mr_thread_id r \<noteq> [])
     (map (\<lambda>added. case json_field ''message'' added of None \<Rightarrow> \<lparr>mr_id = [], mr_thread_id = []\<rparr> | Some m \<Rightarrow> read_ref m)
       (read_array (json_field ''messagesAdded'' rec)))) (read_array (json_field ''history'' data)))"

definition get_history_body :: "'s gmail_api \<Rightarrow> string \<Rightarrow> int option \<Rightarrow> string option \<Rightarrow> 's \<Rightarrow> (gmail_history_result, 's) outcome" where
  "get_history_body api start_history_id max_results page_token s = map_outcome
     (\<lambda>data. \<lparr>hr_history_id = (if read_string (json_field ''historyId'' data) = [] then start_history_id
           else read_string (json_field ''historyId'' data)),
        hr_next_page_token = read_optional_string (json_field ''nextPageToken'' data),
        hr_messages_added = history_refs data\<rparr>)
     (api_history api start_history_id (option_or max_results GMAIL_HISTORY_MAX_RESULTS) page_token s)"

text \<open>Each public method is its body in a call of the client.\<close>

definition list_messages where "list_messages env started durations api opts = gmail_call env started durations (list_messages_body api opts)"
definition get_message where "get_message env started durations api codec i = gmail_call env started durations (get_message_body api codec i)"
definition get_thread where "get_thread env started durations api codec i = gmail_call env started durations (get_thread_body api codec i)"
definition get_attachments where "get_attachments env started durations api i = gmail_call env started durations (get_attachments_body api i)"
definition get_labels where "get_labels env started durations api = gmail_call env started durations (get_labels_body api)"
definition get_profile where "get_profile env started durations api = gmail_call env started durations (get_profile_body api)"
definition get_history where "get_history env started durations api start max_results page = gmail_call env started durations (get_history_body api start max_results page)"

subsection \<open>What a call gives\<close>

definition wrap_error :: "('a, 's) outcome \<Rightarrow> ('a, 's) outcome" where
  "wrap_error r = (case r of (Inl e, s) \<Rightarrow> (Inl (gmail_error e), s) | (Inr a, s) \<Rightarrow> (Inr a, s))"

lemma gmail_retry_loop_reference:
  "attempt + n = GMAIL_CLIENT_MAX_RETRIES \<Longrightarrow> gmail_retry_loop fn attempt s =
     (map (\<lambda>k. GMAIL_CLIENT_INITIAL_RETRY_DELAY_MS * 2 ^ k) [attempt..<attempt + last_attempt gmail_retryable n fn s],
      wrap_error (retry_reference gmail_retryable n fn s))"
proof (induction n arbitrary: attempt s)
  case 0
  then show ?case
    by (subst gmail_retry_loop.simps) (auto simp: wrap_error_def split: prod.split sum.split)
next
  case (Suc n)
  obtain r s' where fn: "fn s = (r, s')" by fastforce
  have "Suc attempt + n = GMAIL_CLIENT_MAX_RETRIES" using Suc.prems by simp
  note IH = Suc.IH [OF this, of s']
  have "attempt < GMAIL_CLIENT_MAX_RETRIES" using Suc.prems by simp
  moreover have "[attempt..<Suc (attempt + k)] = attempt # [Suc attempt..<Suc (attempt + k)]" for k
    by (simp add: upt_conv_Cons)
  ultimately show ?case
    by (subst gmail_retry_loop.simps)
       (auto simp: fn IH retry_reference_step last_attempt_Suc final_outcome_def wrap_error_def
         split: sum.split simp del: upt_Suc)
qed

lemma gmail_with_retry_reference: "gmail_with_retry fn s =
     (map (\<lambda>k. GMAIL_CLIENT_INITIAL_RETRY_DELAY_MS * 2 ^ k) [0..<last_attempt gmail_retryable 3 fn s],
      wrap_error (retry_reference gmail_retryable 3 fn s))"
  using gmail_retry_loop_reference [of 0 3 fn s] by (simp add: gmail_with_retry_def GMAIL_CLIENT_MAX_RETRIES_def)

lemma sum_durations_nonneg: "\<forall>k. 0 \<le> durations k \<Longrightarrow> 0 \<le> sum_list (map durations ks)" for durations :: "nat \<Rightarrow> int"
  by (induction ks) auto

lemma three_retries_slow:
  assumes "\<forall>k. 0 \<le> durations k" and "last_attempt gmail_retryable 3 fn s = 3"
  shows "\<not> sum_list (map durations [0..<Suc (length (fst (gmail_with_retry fn s)))]) + sum_list (fst (gmail_with_retry fn s))
    < bo_request_timeout gmail_breaker_options"
proof -
  have "[0..<3] = [0, 1, 2 :: nat]" by (simp add: upt_conv_Cons)
  then have "sum_list (fst (gmail_with_retry fn s)) = 7000"
    by (simp add: gmail_with_retry_reference assms(2) GMAIL_CLIENT_INITIAL_RETRY_DELAY_MS_def)
  then show ?thesis
    using sum_durations_nonneg [OF assms(1), of "[0..<Suc (length (fst (gmail_with_retry fn s)))]"]
    by (simp add: gmail_breaker_options_def not_less del: upt_Suc)
qed

text \<open>
  What a call of the client gives. A refused call asks Gmail nothing. A result is the result
  of the first attempt that did not fail with a transient error, and then the breaker counts no
  failures any more. But only the first two retries can give one: the delays before the third
  add up to more than the request timeout of the breaker, so when the third retry is needed the
  caller is told that the request timed out, and a failure is counted, even where that retry
  succeeded.
\<close>

lemma gmail_call_outcomes:
  assumes "\<forall>k. 0 \<le> durations k"
  shows "(\<forall>e b'. admit ''GmailAPI'' started b = (Inl e, b') \<longrightarrow> gmail_call env started durations fn (b, s) = (Inl e, b, s))
    \<and> (\<forall>a b' s'. gmail_call env started durations fn (b, s) = (Inr a, b', s') \<longrightarrow>
        retry_reference gmail_retryable 3 fn s = (Inr a, s') \<and> last_attempt gmail_retryable 3 fn s < 3 \<and> br_failure_count b' = 0)
    \<and> (\<forall>b'. admit ''GmailAPI'' started b = (Inr (), b') \<and> last_attempt gmail_retryable 3 fn s = 3 \<longrightarrow>
        gmail_call env started durations fn (b, s) = (Inl (GenericError ''Circuit breaker request timed out''),
          on_failure gmail_breaker_options (started + 5000) (env b'), snd (retry_reference gmail_retryable 3 fn s)))"
proof (intro conjI allI impI)
  fix e b' assume "admit ''GmailAPI'' started b = (Inl e, b')"
  then show "gmail_call env started durations fn (b, s) = (Inl e, b, s)"
    by (auto simp: gmail_call_def admit_def split: if_splits)
next
  fix a b' s' assume c: "gmail_call env started durations fn (b, s) = (Inr a, b', s')"
  then obtain b1 where adm: "admit ''GmailAPI'' started b = (Inr (), b1)"
    by (cases "admit ''GmailAPI'' started b") (auto simp: gmail_call_def split: sum.splits)
  obtain r t where ref: "retry_reference gmail_retryable 3 fn s = (r, t)" by fastforce
  let ?in_time = "sum_list (map durations [0..<Suc (length (fst (gmail_with_retry fn s)))])
    + sum_list (fst (gmail_with_retry fn s)) < bo_request_timeout gmail_breaker_options"
  have it: "?in_time"
  proof (rule ccontr)
    assume "\<not> ?in_time"
    with c adm show False by (auto simp: gmail_call_def fire_def Let_def)
  qed
  with three_retries_slow [OF assms, of fn s] have "last_attempt gmail_retryable 3 fn s \<noteq> 3" by blast
  moreover have "last_attempt gmail_retryable 3 fn s \<le> 3" by (rule last_attempt_le)
  moreover have "r = Inr a \<and> t = s' \<and> br_failure_count b' = 0"
    using c it by (cases r) (auto simp: gmail_call_def fire_def Let_def adm gmail_with_retry_reference ref wrap_error_def on_success_def)
  ultimately show "retry_reference gmail_retryable 3 fn s = (Inr a, s')" and "last_attempt gmail_retryable 3 fn s < 3"
    and "br_failure_count b' = 0" using ref by auto
next
  fix b' assume a: "admit ''GmailAPI'' started b = (Inr (), b') \<and> last_attempt gmail_retryable 3 fn s = 3"
  then have slow: "\<not> sum_list (map durations [0..<Suc (length (fst (gmail_with_retry fn s)))])
      + sum_list (fst (gmail_with_retry fn s)) < bo_request_timeout gmail_breaker_options"
    using three_retries_slow [OF assms, of fn s] by blast
  have "snd (snd (gmail_with_retry fn s)) = snd (retry_reference gmail_retryable 3 fn s)"
    by (auto simp: gmail_with_retry_reference wrap_error_def split: prod.split sum.split)
  moreover have "min x (bo_request_timeout gmail_breaker_options) = 5000" if "\<not> x < bo_request_timeout gmail_breaker_options" for x
    using that by (simp add: gmail_breaker_options_def)
  ultimately show "gmail_call env started durations fn (b, s) = (Inl (GenericError ''Circuit breaker request timed out''),
      on_failure gmail_breaker_options (started + 5000) (env b'), snd (retry_reference gmail_retryable 3 fn s))"
    using a slow by (simp add: gmail_call_def fire_def Let_def)
qed

text \<open>A server that fails three times with 503 and then answers.\<close>

definition recovering :: "nat \<Rightarrow> (string, nat) outcome" where
  "recovering n = (if n < 3 then (Inl (ApiError ''unavailable'' (Some 503)), Suc n) else (Inr ''ok'', n))"

lemma gmail_call_outcomes_witness:
  "fst (retry_reference gmail_retryable 3 recovering 0) = Inr ''ok''
   \<and> fst (gmail_call id 100 (\<lambda>_. 1) recovering (new_breaker, 0)) = Inl (GenericError ''Circuit breaker request timed out'')"
proof -
  have "last_attempt gmail_retryable (Suc n) recovering k = Suc (last_attempt gmail_retryable n recovering (Suc k))
      \<and> retry_reference gmail_retryable (Suc n) recovering k = retry_reference gmail_retryable n recovering (Suc k)"
    if "k < 3" for n k
    using that by (simp add: last_attempt_Suc retry_reference_step recovering_def final_outcome_def gmail_retryable_def
        extract_status_code_def RETRYABLE_STATUS_CODES_def)
  then have "last_attempt gmail_retryable (Suc (Suc (Suc 0))) recovering 0 = Suc (Suc (Suc 0))
      \<and> fst (retry_reference gmail_retryable (Suc (Suc (Suc 0))) recovering 0) = Inr ''ok''"
    by (simp add: recovering_def)
  then have "last_attempt gmail_retryable 3 recovering 0 = 3 \<and> fst (retry_reference gmail_retryable 3 recovering 0) = Inr ''ok''"
    unfolding numeral_3_eq_3 .
  moreover have "admit ''GmailAPI'' 100 new_breaker = (Inr (), new_breaker)" by (simp add: admit_def new_breaker_def)
  moreover have "\<forall>k. 0 \<le> (\<lambda>_ :: nat. 1 :: int) k" by simp
  note gmail_call_outcomes [OF this, of 100 new_breaker id recovering 0, THEN conjunct2, THEN conjunct2,
      THEN spec, of new_breaker]
  ultimately show ?thesis by (metis fst_conv)
qed

text \<open>The history entries the client keeps have both ids.\<close>

lemma history_refs_ids: "r \<in> set (history_refs data) \<Longrightarrow> mr_id r \<noteq> [] \<and> mr_thread_id r \<noteq> []"
  by (auto simp: history_refs_def)

end
