(* ===== verification/Cache_Store.thy ===== *)
theory Cache_Store
  imports Prelude "HOL-Library.AList"
begin

text \<open>
  The expiring key-value store of \<open>lib/cache.ts\<close>, the interface services use it through, and
  its specification: a store is the partial map of its live entries, as a function of the time.
\<close>

record 'v cache_entry =
  ce_value :: 'v
  ce_expires_at :: time

type_synonym 'v cache_store = "(string \<times> 'v cache_entry) list"

definition cache_get :: "time \<Rightarrow> string \<Rightarrow> 'v cache_store \<Rightarrow> 'v option \<times> 'v cache_store" where
  "cache_get now key store =
     (case map_of store key of
        None \<Rightarrow> (None, store)
      | Some entry \<Rightarrow> if ce_expires_at entry \<le> now then (None, AList.delete key store)
          else (Some (ce_value entry), store))"

definition cache_set :: "time \<Rightarrow> string \<Rightarrow> 'v \<Rightarrow> int \<Rightarrow> 'v cache_store \<Rightarrow> 'v cache_store" where
  "cache_set now key v ttl_ms store = AList.update key \<lparr>ce_value = v, ce_expires_at = now + ttl_ms\<rparr> store"

definition cache_delete_prefix :: "string \<Rightarrow> 'v cache_store \<Rightarrow> 'v cache_store" where
  "cache_delete_prefix prefix store = filter (\<lambda>(k, _). \<not> starts_with k prefix) store"

definition cache_clear :: "'v cache_store \<Rightarrow> 'v cache_store" where
  "cache_clear store = []"

subsection \<open>The interface\<close>

text \<open>
  What a client may rely on: \<open>live t s\<close> are the entries it can see at time \<open>t\<close>. A read
  returns what is live and changes nothing that is live now or later; a write makes its key
  visible for its time to live and leaves the other keys alone.
\<close>

locale expiring_cache =
  fixes live :: "time \<Rightarrow> 's \<Rightarrow> string \<rightharpoonup> 'v"
    and get :: "time \<Rightarrow> string \<Rightarrow> 's \<Rightarrow> 'v option \<times> 's"
    and put :: "time \<Rightarrow> string \<Rightarrow> 'v \<Rightarrow> int \<Rightarrow> 's \<Rightarrow> 's"
    and remove :: "string \<Rightarrow> 's \<Rightarrow> 's"
  assumes get_live: "fst (get now k s) = live now s k"
    and get_keeps: "now \<le> t \<Longrightarrow> live t (snd (get now k s)) = live t s"
    and put_live: "live t (put now k v ttl s) = (\<lambda>j. if j = k then (if t < now + ttl then Some v else None) else live t s j)"
    and remove_live: "live t (remove k s) = (\<lambda>j. if j = k then None else live t s j)"
    and live_expires: "t \<le> t' \<Longrightarrow> live t s k = None \<Longrightarrow> live t' s k = None"
begin

lemma get_after_put: "fst (get t k (put now k v ttl s)) = (if t < now + ttl then Some v else None)"
  by (simp add: get_live put_live)

lemma get_after_remove: "fst (get t k (remove k s)) = None"
  by (simp add: get_live remove_live)

lemma miss_stays: "fst (get now k s) = None \<Longrightarrow> now \<le> t \<Longrightarrow> fst (get t k (snd (get now k s))) = None"
  using live_expires get_keeps by (metis get_live)

end

definition live_entries :: "time \<Rightarrow> 'v cache_store \<Rightarrow> string \<rightharpoonup> 'v" where
  "live_entries t store k = (case map_of store k of None \<Rightarrow> None
     | Some entry \<Rightarrow> if ce_expires_at entry \<le> t then None else Some (ce_value entry))"

definition cache_remove :: "string \<Rightarrow> 'v cache_store \<Rightarrow> 'v cache_store" where
  "cache_remove key store = AList.delete key store"

interpretation memory_cache: expiring_cache live_entries cache_get cache_set cache_remove
proof
  fix now t :: time and k :: string and s :: "'v cache_store"
  show "fst (cache_get now k s) = live_entries now s k"
    by (simp add: cache_get_def live_entries_def split: option.split)
  show "now \<le> t \<Longrightarrow> live_entries t (snd (cache_get now k s)) = live_entries t s"
    by (rule ext) (auto simp: cache_get_def live_entries_def delete_conv' split: option.split)
next
  fix t now :: time and k :: string and v :: 'v and ttl :: int and s :: "'v cache_store"
  show "live_entries t (cache_set now k v ttl s) = (\<lambda>j. if j = k then (if t < now + ttl then Some v else None) else live_entries t s j)"
    by (rule ext) (simp add: live_entries_def cache_set_def update_conv')
next
  fix t :: time and k :: string and s :: "'v cache_store"
  show "live_entries t (cache_remove k s) = (\<lambda>j. if j = k then None else live_entries t s j)"
    by (rule ext) (simp add: live_entries_def cache_remove_def delete_conv')
next
  fix t t' :: time and k :: string and s :: "'v cache_store"
  show "t \<le> t' \<Longrightarrow> live_entries t s k = None \<Longrightarrow> live_entries t' s k = None"
    by (auto simp: live_entries_def split: option.splits if_splits)
qed

lemma map_of_filter_key: "map_of (filter (\<lambda>(k, _). P k) xs) = (\<lambda>k. if P k then map_of xs k else None)"
  by (induction xs) auto

text \<open>
  C38: the store refines the map of its live entries, at every time from the operation on. A read
  returns the entry of the map and keeps it; a write is an update that lasts for its time to
  live; deleting a prefix restricts the map to the other keys; clearing leaves the empty map.
\<close>

theorem cache_refines_live_map:
  assumes "now \<le> t"
  shows "fst (cache_get now k store) = live_entries now store k
    \<and> live_entries t (snd (cache_get now k store)) = live_entries t store
    \<and> live_entries t (cache_set now k v ttl store)
        = (live_entries t store)(k := (if t < now + ttl then Some v else None))
    \<and> live_entries t (cache_delete_prefix p store) = (live_entries t store) |` {key. \<not> starts_with key p}
    \<and> live_entries t (cache_clear store) = Map.empty"
proof -
  have "live_entries t (cache_delete_prefix p store) = (live_entries t store) |` {key. \<not> starts_with key p}"
    by (rule ext) (simp add: live_entries_def cache_delete_prefix_def map_of_filter_key restrict_map_def split: option.split)
  moreover have "live_entries t (cache_clear store) = Map.empty"
    by (rule ext) (simp add: live_entries_def cache_clear_def)
  moreover have "live_entries t (cache_set now k v ttl store)
        = (live_entries t store)(k := (if t < now + ttl then Some v else None))"
    by (rule ext) (simp add: memory_cache.put_live)
  ultimately show ?thesis using memory_cache.get_live memory_cache.get_keeps [OF assms] by blast
qed

theorem cache_refines_live_map_witness:
  "live_entries 20 (cache_set 5 ''a'' True 10 []) ''a'' = None \<and> live_entries 12 (cache_set 5 ''a'' True 10 []) ''a'' = Some True"
  using cache_refines_live_map [of 5 20 "''a''" "[]" True 10] cache_refines_live_map [of 5 12 "''a''" "[]" True 10] by simp

end
