(* ===== verification/Placement.thy ===== *)
theory Placement
  imports Cache_Store Http_Errors
begin

text \<open>
  Where a user's data lives: \<open>services/placement\<close>, \<open>services/cell/cell.service.ts\<close> and
  \<open>services/routing/cell-routing.service.ts\<close>. The placement of a user is read through an
  in-process map and a shared cache from the user's row; the cell follows from region and shard.
\<close>

subsection \<open>Regions and shards\<close>

definition SUPPORTED_REGIONS :: "string list" where
  "SUPPORTED_REGIONS = [''us-east-1'', ''us-west-2'', ''eu-west-1'', ''eu-central-1'', ''ap-southeast-1'', ''ap-northeast-1'']"

definition DEFAULT_REGION :: string where "DEFAULT_REGION = ''us-east-1''"

definition SHARD_COUNT :: nat where "SHARD_COUNT = 256"

definition is_supported_region :: "string \<Rightarrow> bool" where
  "is_supported_region r = (r \<in> set SUPPORTED_REGIONS)"

definition normalize_region :: "string option \<Rightarrow> string" where
  "normalize_region candidate = (case truthy candidate of None \<Rightarrow> DEFAULT_REGION
     | Some r \<Rightarrow> (let lower = to_lower (trim r) in if lower \<in> set SUPPORTED_REGIONS then lower else DEFAULT_REGION))"

text \<open>
  The FNV-1a hash in 32-bit arithmetic; \<open>Math.imul\<close> and \<open>>>> 0\<close> keep the low 32 bits.
\<close>

fun fnv1a :: "32 word \<Rightarrow> string \<Rightarrow> 32 word" where
  "fnv1a hash [] = hash"
| "fnv1a hash (c # cs) = fnv1a (xor hash (of_char c) * 16777619) cs"

definition compute_shard_key :: "string \<Rightarrow> nat" where
  "compute_shard_key user = (if user = [] then 0 else unat (fnv1a 2166136261 user) mod SHARD_COUNT)"

definition pad_start3 :: "string \<Rightarrow> string" where
  "pad_start3 s = replicate (3 - length s) (CHR ''0'') @ s"

definition cell_id_of :: "string \<Rightarrow> nat \<Rightarrow> string" where
  "cell_id_of region shard = region @ ''-shard-'' @ pad_start3 (show_nat shard)"

definition has_prefix :: "string \<Rightarrow> string list \<Rightarrow> bool" where
  "has_prefix s ps = list_ex (starts_with s) ps"

definition before :: "char \<Rightarrow> string \<Rightarrow> string" where
  "before d s = takeWhile (\<lambda>c. c \<noteq> d) s"

definition region_from_accept_language :: "string option \<Rightarrow> string option" where
  "region_from_accept_language raw = (case truthy raw of None \<Rightarrow> None
     | Some s \<Rightarrow>
       (let tag = trim (before (CHR '';'') (to_lower (before (CHR '','') s)))
        in if tag = [] then None
           else if has_prefix tag [''en-us'', ''es-us''] then Some ''us-east-1''
           else if has_prefix tag [''en-gb'', ''en-ie''] then Some ''eu-west-1''
           else if has_prefix tag [''de'', ''fr'', ''nl'', ''pl''] then Some ''eu-central-1''
           else if has_prefix tag [''en-au'', ''en-nz'', ''en-sg'', ''id''] then Some ''ap-southeast-1''
           else if starts_with tag ''ja'' then Some ''ap-northeast-1''
           else None))"

definition region_from_cf_country :: "string option \<Rightarrow> string option" where
  "region_from_cf_country raw = (case truthy raw of None \<Rightarrow> None
     | Some s \<Rightarrow>
       (let code = to_upper s
        in if code = ''US'' then Some ''us-east-1''
           else if code = ''CA'' then Some ''us-west-2''
           else if code \<in> {''GB'', ''IE''} then Some ''eu-west-1''
           else if code \<in> {''DE'', ''FR'', ''NL'', ''PL'', ''BE''} then Some ''eu-central-1''
           else if code \<in> {''SG'', ''AU'', ''ID'', ''MY''} then Some ''ap-southeast-1''
           else if code = ''JP'' then Some ''ap-northeast-1''
           else None))"

record region_hints =
  rh_country :: "string option"
  rh_accept_language :: "string option"
  rh_suggested_region :: "string option"

definition resolve_region_from_hints :: "region_hints \<Rightarrow> string" where
  "resolve_region_from_hints hints =
     (let derived = option_or (or_else (region_from_cf_country (rh_country hints))
            (region_from_accept_language (rh_accept_language hints))) DEFAULT_REGION
      in case truthy (rh_suggested_region hints) of
           None \<Rightarrow> derived
         | Some r \<Rightarrow> if is_supported_region r then r else derived)"

subsection \<open>The shard key is an 8-bit hash\<close>

fun fnv_byte :: "8 word \<Rightarrow> string \<Rightarrow> 8 word" where
  "fnv_byte hash [] = hash"
| "fnv_byte hash (c # cs) = fnv_byte (xor hash (of_char c) * 147) cs"

lemma ucast_times: "(ucast (a * b) :: 8 word) = ucast a * ucast b" for a b :: "32 word"
proof (transfer, simp)
  fix a b :: int
  have "take_bit 8 (take_bit 32 a * take_bit 32 b) = take_bit 8 (take_bit 8 (take_bit 32 a) * take_bit 8 (take_bit 32 b))"
    by (simp only: take_bit_mult)
  also have "\<dots> = take_bit 8 (a * b)" by (simp add: take_bit_mult)
  finally show "take_bit 8 (a * b) = take_bit 8 (take_bit 32 a * take_bit 32 b)" ..
qed

lemma ucast_xor: "(ucast (xor a b) :: 8 word) = xor (ucast a) (ucast b)" for a b :: "32 word"
  by transfer (simp add: take_bit_xor)

lemma ucast_of_char: "(ucast (of_char c :: 32 word) :: 8 word) = of_char c"
proof -
  have "(ucast (of_int k :: 32 word) :: 8 word) = of_int k" for k
    by transfer simp
  then show ?thesis by (metis of_int_of_char)
qed

lemma byte_constants: "(16777619 :: 8 word) = 147" "(2166136261 :: 8 word) = 0xC5"
  by (transfer, simp add: take_bit_eq_mod)+

lemma ucast_fnv1a: "(ucast (fnv1a hash s) :: 8 word) = fnv_byte (ucast hash) s"
  by (induction s arbitrary: hash) (simp_all add: ucast_times ucast_xor ucast_of_char byte_constants)

text \<open>
  The shard key. It is below the number of shards, and it is the hash of an 8-bit
  computation: the low byte of each product depends only on the low bytes of its factors, and
  the modulus keeps nothing else, so the other 24 bits of the hash never reach the shard.
\<close>

lemma shard_key_is_low_byte:
  "compute_shard_key user < SHARD_COUNT
   \<and> compute_shard_key user = (if user = [] then 0 else unat (fnv_byte 0xC5 user))"
proof -
  have "unat (ucast w :: 8 word) = unat w mod 256" for w :: "32 word"
    by (simp add: unsigned_ucast_eq take_bit_eq_mod)
  then have "unat (fnv1a 2166136261 user) mod 256 = unat (fnv_byte (ucast (2166136261 :: 32 word)) user)"
    by (metis ucast_fnv1a)
  moreover have "unat (fnv_byte 0xC5 user) < 256"
    using unsigned_less [of "fnv_byte 0xC5 user"] by simp
  ultimately show ?thesis by (simp add: compute_shard_key_def SHARD_COUNT_def byte_constants)
qed

subsection \<open>The placement service\<close>

record placement_context =
  pc_region :: string
  pc_cell_id :: string
  pc_data_residency_region :: string
  pc_shard_key :: nat
  pc_tenant_id :: "string option"
  pc_stale :: bool

text \<open>A row of the table \<open>users\<close>.\<close>

record user_row =
  us_id :: uid
  us_cell_id :: "string option"
  us_region :: "string option"
  us_data_residency_region :: "string option"
  us_shard_key :: "nat option"
  us_tenant_id :: "string option"
  us_deletion_status :: string
  us_legal_hold_reason :: "string option"
  us_deleted_at :: "time option"
  us_deletion_requested_at :: "time option"
  us_deletion_completed_at :: "time option"
  us_consent_version :: "string option"
  us_consent_granted_at :: "time option"

text \<open>
  The shared cache is any type with the operations of \<open>ICacheService\<close>; a failed operation of
  it is a miss. \<open>pl_users\<close> is the database, read and written without a replica lag.
\<close>

record 'c cache_ops =
  ca_get :: "time \<Rightarrow> string \<Rightarrow> 'c \<Rightarrow> placement_context option \<times> 'c"
  ca_set :: "time \<Rightarrow> string \<Rightarrow> placement_context \<Rightarrow> int \<Rightarrow> 'c \<Rightarrow> 'c"
  ca_del :: "string \<Rightarrow> 'c \<Rightarrow> 'c"

record 'c placement_state =
  pl_in_process :: "(uid \<times> placement_context cache_entry) list"
  pl_cache :: 'c
  pl_users :: "user_row list"

definition IN_PROCESS_TTL_MS :: int where "IN_PROCESS_TTL_MS = 60000"

definition cache_key :: "uid \<Rightarrow> string" where
  "cache_key user = ''placement:v1:'' @ user"

definition read_in_process :: "time \<Rightarrow> uid \<Rightarrow> 'c placement_state \<Rightarrow> placement_context option \<times> 'c placement_state" where
  "read_in_process now user st =
     (case map_of (pl_in_process st) user of
        None \<Rightarrow> (None, st)
      | Some entry \<Rightarrow> if ce_expires_at entry < now
          then (None, st\<lparr>pl_in_process := AList.delete user (pl_in_process st)\<rparr>)
          else (Some (ce_value entry), st))"

definition write_in_process :: "time \<Rightarrow> uid \<Rightarrow> placement_context \<Rightarrow> 'c placement_state \<Rightarrow> 'c placement_state" where
  "write_in_process now user ctx st =
     (let entries = AList.update user \<lparr>ce_value = ctx, ce_expires_at = now + IN_PROCESS_TTL_MS\<rparr> (pl_in_process st)
      in st\<lparr>pl_in_process := (if 4096 < length entries then tl entries else entries)\<rparr>)"

definition row_context :: "uid \<Rightarrow> user_row \<Rightarrow> placement_context" where
  "row_context user row =
     (let region = normalize_region (us_region row);
          shard = option_or (us_shard_key row) (compute_shard_key user)
      in \<lparr>pc_region = region, pc_cell_id = cell_id_of region shard,
          pc_data_residency_region = (case truthy (us_data_residency_region row) of
             None \<Rightarrow> region | Some r \<Rightarrow> normalize_region (Some r)),
          pc_shard_key = shard, pc_tenant_id = us_tenant_id row,
          pc_stale = (us_shard_key row = None \<or> us_data_residency_region row = None)\<rparr>)"

definition read_from_database :: "uid \<Rightarrow> 'c placement_state \<Rightarrow> placement_context option" where
  "read_from_database user st = map_option (row_context user) (find_row (\<lambda>u. us_id u = user) (pl_users st))"

definition compute_fallback_context :: "uid \<Rightarrow> bool \<Rightarrow> placement_context" where
  "compute_fallback_context user stale =
     \<lparr>pc_region = DEFAULT_REGION, pc_cell_id = cell_id_of DEFAULT_REGION (compute_shard_key user),
      pc_data_residency_region = DEFAULT_REGION, pc_shard_key = compute_shard_key user,
      pc_tenant_id = None, pc_stale = stale\<rparr>"

definition resolve_placement_context :: "'c cache_ops \<Rightarrow> time \<Rightarrow> uid \<Rightarrow> 'c placement_state
    \<Rightarrow> (placement_context, 'c placement_state) outcome" where
  "resolve_placement_context ops now user st =
     (if user = [] then (Inl (ValidationError ''userId is required to resolve placement context''), st)
      else case read_in_process now user st of
        (Some ctx, st1) \<Rightarrow> (Inr ctx, st1)
      | (None, st1) \<Rightarrow>
          (case ca_get ops now (cache_key user) (pl_cache st1) of
             (Some ctx, c) \<Rightarrow> (Inr ctx, write_in_process now user ctx (st1\<lparr>pl_cache := c\<rparr>))
           | (None, c) \<Rightarrow>
               (let ctx = option_or (read_from_database user st1) (compute_fallback_context user True)
                in (Inr ctx, write_in_process now user ctx
                      (st1\<lparr>pl_cache := ca_set ops now (cache_key user) ctx 300 c\<rparr>)))))"

definition get_home_region :: "'c cache_ops \<Rightarrow> time \<Rightarrow> uid \<Rightarrow> 'c placement_state \<Rightarrow> (string, 'c placement_state) outcome" where
  "get_home_region ops now user st = (case resolve_placement_context ops now user st of
     (Inl e, st') \<Rightarrow> (Inl e, st') | (Inr ctx, st') \<Rightarrow> (Inr (pc_region ctx), st'))"

definition get_shard_key :: "time \<Rightarrow> uid \<Rightarrow> 'c placement_state \<Rightarrow> nat \<times> 'c placement_state" where
  "get_shard_key now user st = (case read_in_process now user st of
     (Some ctx, st') \<Rightarrow> (pc_shard_key ctx, st') | (None, st') \<Rightarrow> (compute_shard_key user, st'))"

record data_plane_target =
  dp_region :: string
  dp_shard_key :: nat
  dp_data_residency_region :: string
  dp_cell_id :: string

definition resolve_data_plane :: "time \<Rightarrow> uid \<Rightarrow> 'c placement_state \<Rightarrow> data_plane_target \<times> 'c placement_state" where
  "resolve_data_plane now user st =
     (let (hit, st1) = read_in_process now user st; region = option_or (map_option pc_region hit) DEFAULT_REGION;
          (hit2, st2) = read_in_process now user st1;
          shard = compute_shard_key user
      in (\<lparr>dp_region = region, dp_shard_key = shard,
           dp_data_residency_region = option_or (map_option pc_data_residency_region hit2) region,
           dp_cell_id = cell_id_of region shard\<rparr>, st2))"

definition invalidate_cache :: "'c cache_ops \<Rightarrow> uid \<Rightarrow> 'c placement_state \<Rightarrow> 'c placement_state" where
  "invalidate_cache ops user st = st\<lparr>pl_in_process := AList.delete user (pl_in_process st),
     pl_cache := ca_del ops (cache_key user) (pl_cache st)\<rparr>"

definition residency_migrates :: "uid \<Rightarrow> 'c placement_state \<Rightarrow> bool" where
  "residency_migrates user st = (case read_from_database user st of None \<Rightarrow> False
     | Some ctx \<Rightarrow> pc_data_residency_region ctx \<noteq> [] \<and> pc_data_residency_region ctx = pc_region ctx)"

definition set_user_region :: "'c cache_ops \<Rightarrow> uid \<Rightarrow> string \<Rightarrow> 'c placement_state \<Rightarrow> (unit, 'c placement_state) outcome" where
  "set_user_region ops user next_region st =
     (if user = [] then (Inl (ValidationError ''userId is required''), st)
      else if \<not> is_supported_region next_region
      then (Inl (ValidationError (''Unsupported region: '' @ next_region @ ''. Allowed: u, s, -, e, a, s, t, -, 1'')), st)
      else if find_row (\<lambda>u. us_id u = user) (pl_users st) = None then (Inl (PrismaError ''P2025''), st)
      else (Inr (), invalidate_cache ops user (st\<lparr>pl_users := update_many (\<lambda>u. us_id u = user)
        (\<lambda>u. u\<lparr>us_region := Some next_region, us_data_residency_region :=
           (if residency_migrates user st then Some next_region else us_data_residency_region u)\<rparr>) (pl_users st)\<rparr>)))"

subsection \<open>Cells and routing\<close>

record cell_row =
  cl_id :: string
  cl_region :: string
  cl_residency_policy_id :: "string option"
  cl_status :: string
  cl_lifecycle_state :: string
  cl_routing_state :: string

definition get_deterministic_cell_id :: "uid \<Rightarrow> string \<Rightarrow> string" where
  "get_deterministic_cell_id user region = cell_id_of region (compute_shard_key user)"

definition get_or_create_cell :: "string \<Rightarrow> string \<Rightarrow> cell_row list \<Rightarrow> cell_row \<times> cell_row list" where
  "get_or_create_cell cell_id region cells =
     (case find_row (\<lambda>c. cl_id c = cell_id) cells of
        Some c \<Rightarrow> (c, cells)
      | None \<Rightarrow> (let c = \<lparr>cl_id = cell_id, cl_region = region, cl_residency_policy_id = None, cl_status = ''ACTIVE'',
            cl_lifecycle_state = ''ACTIVE'', cl_routing_state = ''ROUTABLE''\<rparr> in (c, cells @ [c])))"

text \<open>The resolution of a home cell copies the cell's fields, so it is the row itself.\<close>

definition resolve_user_home_cell :: "uid \<Rightarrow> string \<Rightarrow> cell_row list \<Rightarrow> cell_row \<times> cell_row list" where
  "resolve_user_home_cell user region = get_or_create_cell (get_deterministic_cell_id user region) region"

definition ensure_routable :: "string \<Rightarrow> cell_row list \<Rightarrow> error option" where
  "ensure_routable cell_id cells =
     (case find_row (\<lambda>c. cl_id c = cell_id) cells of
        None \<Rightarrow> Some (GenericError (''Cell not found: '' @ cell_id))
      | Some c \<Rightarrow> if cl_status c \<noteq> ''ACTIVE'' \<or> cl_routing_state c \<noteq> ''ROUTABLE''
          then Some (GenericError (''Cell is not routable: '' @ cell_id)) else None)"

record routing_decision =
  rd_user_id :: uid
  rd_cell_id :: string
  rd_region :: string
  rd_residency_region :: string
  rd_routing_state :: string

definition resolve_user_routing :: "'c cache_ops \<Rightarrow> time \<Rightarrow> uid \<Rightarrow> 'c placement_state \<times> cell_row list
    \<Rightarrow> (routing_decision, 'c placement_state \<times> cell_row list) outcome" where
  "resolve_user_routing ops now user s =
     (case resolve_placement_context ops now user (fst s) of
        (Inl e, st) \<Rightarrow> (Inl e, st, snd s)
      | (Inr ctx, st) \<Rightarrow>
          (let (cell, cells) = resolve_user_home_cell user (pc_region ctx) (snd s)
           in (Inr \<lparr>rd_user_id = user, rd_cell_id = cl_id cell, rd_region = pc_region ctx,
                rd_residency_region = pc_data_residency_region ctx, rd_routing_state = cl_routing_state cell\<rparr>, st, cells)))"

definition ensure_cell_matches_user :: "'c cache_ops \<Rightarrow> time \<Rightarrow> uid \<Rightarrow> string \<Rightarrow> 'c placement_state
    \<Rightarrow> (unit, 'c placement_state) outcome" where
  "ensure_cell_matches_user ops now user cell_id st =
     (case resolve_placement_context ops now user st of
        (Inl e, st') \<Rightarrow> (Inl e, st')
      | (Inr ctx, st') \<Rightarrow> if pc_cell_id ctx \<noteq> cell_id
          then (Inl (GenericError (''Cross-cell access denied for user '' @ user)), st') else (Inr (), st'))"

subsection \<open>Routing agrees with the guard\<close>

lemma update_new_key: "k \<notin> fst ` set al \<Longrightarrow> AList.update k v al = al @ [(k, v)]"
  by (induction al) auto

lemma length_update: "length (AList.update k v al) = (if k \<in> fst ` set al then length al else Suc (length al))"
  by (induction al) auto

lemma written_in_process:
  assumes "length (pl_in_process st) \<le> 4096"
  shows "map_of (pl_in_process (write_in_process now user ctx st)) user
      = Some \<lparr>ce_value = ctx, ce_expires_at = now + IN_PROCESS_TTL_MS\<rparr>
    \<and> length (pl_in_process (write_in_process now user ctx st)) \<le> 4096"
proof (cases "user \<in> fst ` set (pl_in_process st)")
  case True
  then show ?thesis using assms by (simp add: write_in_process_def Let_def length_update update_Some_unfold)
next
  case False
  then have "map_of (pl_in_process st) user = None" by (simp add: map_of_eq_None_iff)
  moreover have "map_of (tl xs) user = None" if "map_of xs user = None" for xs :: "(uid \<times> placement_context cache_entry) list"
    using that by (cases xs) (auto split: if_splits)
  ultimately show ?thesis
    using assms False by (cases "pl_in_process st") (auto simp: write_in_process_def Let_def update_new_key map_add_def)
qed

lemma resolve_hit:
  "map_of (pl_in_process st) user = Some \<lparr>ce_value = ctx, ce_expires_at = e\<rparr> \<Longrightarrow> now \<le> e \<Longrightarrow> user \<noteq> []
    \<Longrightarrow> resolve_placement_context ops now user st = (Inr ctx, st)"
  by (simp add: resolve_placement_context_def read_in_process_def)

lemma read_in_process_length: "length (pl_in_process st) \<le> 4096 \<Longrightarrow> length (pl_in_process (snd (read_in_process now user st))) \<le> 4096"
  using length_delete_le [of user "pl_in_process st"]
  by (auto simp: read_in_process_def split: option.split)

text \<open>A resolved placement stays the process's answer for a minute, whatever happens elsewhere.\<close>

lemma resolved_stays:
  assumes "resolve_placement_context ops now user st = (Inr ctx, st')" and "length (pl_in_process st) \<le> 4096"
    and "map_of (pl_in_process st) user = None"
    and "t \<le> now + IN_PROCESS_TTL_MS"
  shows "resolve_placement_context ops t user st' = (Inr ctx, st')"
proof -
  have u: "user \<noteq> []" using assms(1) by (auto simp: resolve_placement_context_def)
  have miss: "read_in_process now user st = (None, st)" using assms(3) by (simp add: read_in_process_def)
  obtain base where "st' = write_in_process now user ctx base" and "pl_in_process base = pl_in_process st"
    using assms(1) u miss by (auto simp: resolve_placement_context_def Let_def split: option.splits prod.splits)
  with written_in_process [of base now user ctx] assms(2,4) u show ?thesis by (auto intro: resolve_hit)
qed

definition consistent_context :: "uid \<Rightarrow> placement_context \<Rightarrow> bool" where
  "consistent_context user ctx = (pc_cell_id ctx = cell_id_of (pc_region ctx) (compute_shard_key user))"

text \<open>Nothing the service may answer for the user puts them on a shard that is not their own.\<close>

definition placement_ok :: "'c cache_ops \<Rightarrow> uid \<Rightarrow> 'c placement_state \<Rightarrow> bool" where
  "placement_ok ops user st = (length (pl_in_process st) \<le> 4096
     \<and> (\<forall>e. map_of (pl_in_process st) user = Some e \<longrightarrow> consistent_context user (ce_value e))
     \<and> (\<forall>t ctx. fst (ca_get ops t (cache_key user) (pl_cache st)) = Some ctx \<longrightarrow> consistent_context user ctx)
     \<and> (\<forall>row\<in>set (pl_users st). us_id row = user \<longrightarrow> us_shard_key row \<in> {None, Some (compute_shard_key user)}))"

lemma row_context_consistent:
  "us_shard_key row \<in> {None, Some (compute_shard_key user)} \<Longrightarrow> consistent_context user (row_context user row)"
  by (auto simp: consistent_context_def row_context_def Let_def)

lemma resolve_consistent:
  assumes "placement_ok ops user st" and "resolve_placement_context ops now user st = (Inr ctx, st')"
  shows "consistent_context user ctx"
proof (cases "fst (read_in_process now user st)")
  case (Some c)
  then show ?thesis
    using assms by (auto simp: resolve_placement_context_def placement_ok_def read_in_process_def split: option.splits if_splits)
next
  case None
  obtain st1 where r: "read_in_process now user st = (None, st1)" using None by (cases "read_in_process now user st") auto
  have c: "pl_cache st1 = pl_cache st" "pl_users st1 = pl_users st"
    using r by (auto simp: read_in_process_def split: option.splits if_splits)
  show ?thesis
  proof (cases "ca_get ops now (cache_key user) (pl_cache st)")
    case (Pair hit cache)
    show ?thesis
    proof (cases hit)
      case (Some cached)
      then have "fst (ca_get ops now (cache_key user) (pl_cache st)) = Some cached" by (simp add: Pair)
      then have "consistent_context user cached" using assms(1) unfolding placement_ok_def by blast
      with assms(2) r c Pair Some show ?thesis by (auto simp: resolve_placement_context_def split: if_splits)
    next
      case None
      then have ctx: "ctx = option_or (read_from_database user st1) (compute_fallback_context user True)"
        using assms(2) r c Pair by (auto simp: resolve_placement_context_def Let_def split: if_splits)
      show ?thesis
      proof (cases "find_row (\<lambda>u. us_id u = user) (pl_users st)")
        case None
        then show ?thesis by (simp add: ctx read_from_database_def c compute_fallback_context_def consistent_context_def)
      next
        case (Some row)
        with find_row_SomeD [OF Some] assms(1) show ?thesis
          by (auto simp: ctx read_from_database_def c placement_ok_def intro!: row_context_consistent)
      qed
    qed
  qed
qed

text \<open>
  The router and the cell guard agree. If no stored shard key of the user differs from the
  computed one, the cell a user is routed to is a cell the guard accepts for them, and it is the
  only one: the router derives it from the computed shard key, the guard from the stored one.
\<close>

lemma routed_cell_is_accepted:
  assumes "placement_ok ops user st" and "map_of (pl_in_process st) user = None"
    and "resolve_user_routing ops now user (st, cells) = (Inr d, st', cells')"
    and "t \<le> now + IN_PROCESS_TTL_MS"
  shows "ensure_cell_matches_user ops t user cell_id st' = (Inr (), st') \<longleftrightarrow> cell_id = rd_cell_id d"
proof -
  obtain ctx where r: "resolve_placement_context ops now user st = (Inr ctx, st')"
    and d: "rd_cell_id d = cl_id (fst (resolve_user_home_cell user (pc_region ctx) cells))"
    using assms(3) by (cases "resolve_placement_context ops now user st")
      (auto simp: resolve_user_routing_def Let_def split: prod.splits sum.splits)
  have "cl_id (fst (get_or_create_cell i region cells)) = i" for i region
    by (auto simp: get_or_create_cell_def Let_def split: option.split dest: find_row_SomeD)
  then have "rd_cell_id d = pc_cell_id ctx"
    using resolve_consistent [OF assms(1) r]
    by (simp add: d resolve_user_home_cell_def get_deterministic_cell_id_def consistent_context_def)
  moreover have "resolve_placement_context ops t user st' = (Inr ctx, st')"
    using resolved_stays [OF r] assms(1,2,4) by (simp add: placement_ok_def)
  ultimately show ?thesis by (auto simp: ensure_cell_matches_user_def)
qed

definition memory_ops :: "placement_context cache_store cache_ops" where
  "memory_ops = \<lparr>ca_get = cache_get, ca_set = cache_set, ca_del = cache_remove\<rparr>"

definition sample_user :: "uid \<Rightarrow> string \<Rightarrow> string \<Rightarrow> user_row" where
  "sample_user user region residency = \<lparr>us_id = user, us_cell_id = None, us_region = Some region,
     us_data_residency_region = Some residency, us_shard_key = None, us_tenant_id = None, us_deletion_status = ''active'',
     us_legal_hold_reason = None, us_deleted_at = None, us_deletion_requested_at = None, us_deletion_completed_at = None,
     us_consent_version = None, us_consent_granted_at = None\<rparr>"

definition sample_placement :: "string \<Rightarrow> string \<Rightarrow> placement_context cache_store placement_state" where
  "sample_placement region residency = \<lparr>pl_in_process = [], pl_cache = [], pl_users = [sample_user ''u'' region residency]\<rparr>"

lemma routed_cell_is_accepted_witness:
  "\<exists>d st' cells'. resolve_user_routing memory_ops 7 ''u'' (sample_placement ''us-west-2'' ''us-west-2'', []) = (Inr d, st', cells')
    \<and> ensure_cell_matches_user memory_ops 9 ''u'' (rd_cell_id d) st' = (Inr (), st')"
proof -
  let ?st = "sample_placement ''us-west-2'' ''us-west-2''"
  have ok: "placement_ok memory_ops ''u'' ?st"
    by (simp add: placement_ok_def sample_placement_def sample_user_def memory_ops_def cache_get_def)
  have none: "map_of (pl_in_process ?st) ''u'' = None" by (simp add: sample_placement_def)
  obtain d st' cells' where r: "resolve_user_routing memory_ops 7 ''u'' (?st, []) = (Inr d, st', cells')"
    by (simp add: resolve_user_routing_def resolve_placement_context_def read_in_process_def sample_placement_def
        memory_ops_def cache_get_def Let_def case_prod_beta)
  have "ensure_cell_matches_user memory_ops 9 ''u'' (rd_cell_id d) st' = (Inr (), st')"
    using routed_cell_is_accepted [OF ok none r, of 9] by (simp add: IN_PROCESS_TTL_MS_def)
  with r show ?thesis by blast
qed

subsection \<open>Changing a region\<close>

lemma normalize_supported: "is_supported_region r \<Longrightarrow> normalize_region (Some r) = r"
  by (auto simp: is_supported_region_def SUPPORTED_REGIONS_def normalize_region_def truthy_def Let_def
      to_lower_def trim_def lower_char_def is_space_def)

lemma resolve_after_invalidate:
  assumes "user \<noteq> []"
  shows "\<exists>st'. resolve_placement_context memory_ops now user (invalidate_cache memory_ops user st)
    = (Inr (option_or (read_from_database user st) (compute_fallback_context user True)), st')"
proof -
  have "map_of (AList.delete user (pl_in_process st)) user = None"
    by (simp add: delete_conv')
  moreover have "fst (cache_get now (cache_key user) (cache_remove (cache_key user) (pl_cache st))) = None"
    by (rule memory_cache.get_after_remove)
  ultimately show ?thesis using assms
    by (auto simp: resolve_placement_context_def read_in_process_def invalidate_cache_def memory_ops_def
        read_from_database_def Let_def split: prod.split)
qed

text \<open>
  Changing a region takes effect and respects a residency override. The next resolution in
  the process, at any time, gives the new region and the cell of that region; the residency
  follows it only if it was the old region, and stays where it was put otherwise; the rows of
  other users do not change.
\<close>

lemma region_change_visible:
  assumes "set_user_region memory_ops user next_region st = (Inr x, st')"
    and "read_from_database user st = Some old"
  shows "(\<exists>ctx st''. resolve_placement_context memory_ops now user st' = (Inr ctx, st'')
      \<and> pc_region ctx = next_region \<and> pc_cell_id ctx = cell_id_of next_region (pc_shard_key old)
      \<and> pc_data_residency_region ctx =
          (if pc_data_residency_region old = pc_region old then next_region else pc_data_residency_region old))
    \<and> (\<forall>other. other \<noteq> user \<longrightarrow> read_from_database other st' = read_from_database other st)"
proof -
  obtain row where row: "find_row (\<lambda>u. us_id u = user) (pl_users st) = Some row" and old: "old = row_context user row"
    using assms(2) by (auto simp: read_from_database_def)
  let ?upd = "\<lambda>u. u\<lparr>us_region := Some next_region, us_data_residency_region :=
     (if residency_migrates user st then Some next_region else us_data_residency_region u)\<rparr>"
  let ?st = "st\<lparr>pl_users := update_many (\<lambda>u. us_id u = user) ?upd (pl_users st)\<rparr>"
  have u: "user \<noteq> []" and sup: "is_supported_region next_region" and st': "st' = invalidate_cache memory_ops user ?st"
    using assms(1) row by (auto simp: set_user_region_def Let_def split: if_splits)
  have "us_id row = user" using find_row_SomeD [OF row] by simp
  then have db: "read_from_database user ?st = Some (row_context user (?upd row))"
    by (simp add: read_from_database_def find_row_update_many_same row)
  have norm_ne: "normalize_region r \<noteq> []" for r
    by (auto simp: normalize_region_def DEFAULT_REGION_def SUPPORTED_REGIONS_def Let_def split: option.split)
  have "residency_migrates user st \<longleftrightarrow> pc_data_residency_region old = pc_region old"
    using norm_ne by (auto simp: residency_migrates_def assms(2) old row_context_def Let_def split: option.splits)
  moreover have "next_region \<noteq> []" using sup by (auto simp: is_supported_region_def SUPPORTED_REGIONS_def)
  ultimately have ctx: "pc_region (row_context user (?upd row)) = next_region
      \<and> pc_cell_id (row_context user (?upd row)) = cell_id_of next_region (pc_shard_key old)
      \<and> pc_data_residency_region (row_context user (?upd row)) =
          (if pc_data_residency_region old = pc_region old then next_region else pc_data_residency_region old)"
    using normalize_supported [OF sup]
    by (auto simp: row_context_def old Let_def truthy_def split: option.splits list.splits)
  moreover obtain st'' where "resolve_placement_context memory_ops now user st' = (Inr (row_context user (?upd row)), st'')"
    using resolve_after_invalidate [OF u, of now ?st] by (auto simp: st' db)
  moreover have "read_from_database other st' = read_from_database other st" if "other \<noteq> user" for other
    using that by (cases "find_row (\<lambda>u. us_id u = other) (pl_users st)")
      (auto simp: st' invalidate_cache_def read_from_database_def find_row_update_many_same dest: find_row_SomeD)
  ultimately show ?thesis by blast
qed

lemma region_change_visible_witness:
  "\<exists>st' ctx st''. set_user_region memory_ops ''u'' ''eu-west-1'' (sample_placement ''us-west-2'' ''eu-central-1'') = (Inr (), st')
    \<and> resolve_placement_context memory_ops 3 ''u'' st' = (Inr ctx, st'')
    \<and> pc_region ctx = ''eu-west-1'' \<and> pc_data_residency_region ctx = ''eu-central-1''"
proof -
  let ?st = "sample_placement ''us-west-2'' ''eu-central-1''"
  have sup: "is_supported_region ''us-west-2''" "is_supported_region ''eu-central-1''" "is_supported_region ''eu-west-1''"
    by (simp_all add: is_supported_region_def SUPPORTED_REGIONS_def)
  obtain st' where s: "set_user_region memory_ops ''u'' ''eu-west-1'' ?st = (Inr (), st')"
    using sup(3) by (simp add: set_user_region_def sample_placement_def sample_user_def)
  have "read_from_database ''u'' ?st = Some (row_context ''u'' (sample_user ''u'' ''us-west-2'' ''eu-central-1''))"
    by (simp add: read_from_database_def sample_placement_def sample_user_def)
  moreover have "pc_region (row_context ''u'' (sample_user ''u'' ''us-west-2'' ''eu-central-1'')) = ''us-west-2''"
    and "pc_data_residency_region (row_context ''u'' (sample_user ''u'' ''us-west-2'' ''eu-central-1'')) = ''eu-central-1''"
    using normalize_supported sup by (simp_all add: row_context_def sample_user_def truthy_def Let_def)
  ultimately show ?thesis using region_change_visible [OF s, of _ 3] s by fastforce
qed

text \<open>Another process keeps answering from its own map until the entry expires.\<close>

lemma other_process_stale:
  "map_of (pl_in_process st) user = Some e \<Longrightarrow> now \<le> ce_expires_at e \<Longrightarrow> user \<noteq> []
    \<Longrightarrow> resolve_placement_context ops now user st = (Inr (ce_value e), st)"
  by (simp add: resolve_placement_context_def read_in_process_def)

end
