(* ===== verification/Users.thy ===== *)
theory Users
  imports Placement
begin

text \<open>
  The identity layer: \<open>services/user/user.service.ts\<close> over the tables \<open>users\<close>,
  \<open>user_id_mapping\<close>, \<open>candidate_profiles\<close> and \<open>cells\<close>. A fresh UUID is an argument
  of each call that may generate one; the calls of the service are not transactions, so what was
  written before an error stays.
\<close>

definition is_valid_uuid :: "string \<Rightarrow> bool" where
  "is_valid_uuid s = (length s = 36 \<and>
     list_all (\<lambda>(i, c). if i \<in> {8, 13, 18, 23} then c = CHR ''-'' else is_hex c) (zip [0..<36 :: nat] s))"

record candidate_profile =
  pf_user_id :: uid
  pf_full_name :: "string option"
  pf_phone :: "string option"
  pf_location :: "string option"
  pf_timezone :: "string option"
  pf_preferences :: json
  pf_career_goals :: "json option"

text \<open>
  A field of a profile update is absent (\<open>None\<close>), null (\<open>Some None\<close>) or a value.
\<close>

record profile_update =
  pu_full_name :: "string option"
  pu_phone :: "string option option"
  pu_location :: "string option option"
  pu_timezone :: "string option option"
  pu_preferences :: "json option"
  pu_career_goals :: "json option"

record account_db =
  ac_users :: "user_row list"
  ac_mappings :: "(string \<times> uid) list"
  ac_profiles :: "candidate_profile list"
  ac_cells :: "cell_row list"

definition find_user :: "uid \<Rightarrow> account_db \<Rightarrow> user_row option" where
  "find_user i db = find_row (\<lambda>u. us_id u = i) (ac_users db)"

definition resolve_user_id :: "uid \<Rightarrow> string \<Rightarrow> account_db \<Rightarrow> uid" where
  "resolve_user_id fresh external db =
     (if is_valid_uuid external then external
      else option_or (map_of (ac_mappings db) external) fresh)"

definition user_scope_for :: "uid \<Rightarrow> string \<Rightarrow> account_db \<Rightarrow> uid \<times> string \<times> uid" where
  "user_scope_for fresh external db = (let r = resolve_user_id fresh external db in (r, external, r))"

datatype region_or_hints = Region string | Hints region_hints

definition new_user :: "time \<Rightarrow> uid \<Rightarrow> string \<Rightarrow> string \<Rightarrow> string option \<Rightarrow> user_row" where
  "new_user now i cell region tenant = \<lparr>us_id = i, us_cell_id = Some cell, us_region = Some region,
     us_data_residency_region = Some region, us_shard_key = Some (compute_shard_key i), us_tenant_id = tenant,
     us_deletion_status = ''active'', us_legal_hold_reason = None, us_deleted_at = None,
     us_deletion_requested_at = None, us_deletion_completed_at = None, us_consent_version = Some ''v1'', us_consent_granted_at = Some now\<rparr>"

definition empty_profile :: "uid \<Rightarrow> candidate_profile" where
  "empty_profile i = \<lparr>pf_user_id = i, pf_full_name = None, pf_phone = None, pf_location = None,
     pf_timezone = None, pf_preferences = JObj [], pf_career_goals = None\<rparr>"

definition upsert_mapping :: "string \<Rightarrow> uid \<Rightarrow> (string \<times> uid) list \<Rightarrow> (string \<times> uid) list" where
  "upsert_mapping external i ms =
     (if map_of ms external = None then ms @ [(external, i)]
      else map (\<lambda>(e, u). if e = external then (e, i) else (e, u)) ms)"

text \<open>
  The statements in the \<open>try\<close> block, then its handler, which reads the user again after a
  unique constraint was violated. \<open>env\<close> is what other requests commit between the first read
  and the insertion.
\<close>

definition create_user_rows :: "time \<Rightarrow> uid \<Rightarrow> string \<Rightarrow> string \<Rightarrow> string option \<Rightarrow> account_db \<Rightarrow> (user_row, account_db) outcome" where
  "create_user_rows now i external region tenant db =
     (let (cell, cells) = resolve_user_home_cell i region (ac_cells db);
          db1 = db\<lparr>ac_cells := cells\<rparr>; user = new_user now i (cl_id cell) region tenant
      in if find_user i db1 \<noteq> None then (Inl (PrismaError ''P2002''), db1)
         else let db2 = db1\<lparr>ac_users := ac_users db1 @ [user]\<rparr>
           in if find_row (\<lambda>p. pf_user_id p = i) (ac_profiles db2) \<noteq> None then (Inl (PrismaError ''P2002''), db2)
              else let db3 = db2\<lparr>ac_profiles := ac_profiles db2 @ [empty_profile i]\<rparr>
                in (Inr user, if i \<noteq> external then db3\<lparr>ac_mappings := upsert_mapping external i (ac_mappings db3)\<rparr> else db3))"

definition get_or_create_user :: "(account_db \<Rightarrow> account_db) \<Rightarrow> time \<Rightarrow> uid \<Rightarrow> string \<Rightarrow> region_or_hints \<Rightarrow> string option
    \<Rightarrow> account_db \<Rightarrow> (user_row, account_db) outcome" where
  "get_or_create_user env now fresh external hints tenant db =
     (let i = resolve_user_id fresh external db
      in case find_user i db of
           Some u \<Rightarrow> (Inr u, db)
         | None \<Rightarrow>
             (let region = (case hints of Region r \<Rightarrow> r | Hints h \<Rightarrow> resolve_region_from_hints h)
              in case create_user_rows now i external region tenant (env db) of
                   (Inr u, db') \<Rightarrow> (Inr u, db')
                 | (Inl e, db') \<Rightarrow> if e = PrismaError ''P2002''
                     then (case find_user i db' of Some raced \<Rightarrow> (Inr raced, db') | None \<Rightarrow> (Inl e, db'))
                     else (Inl e, db')))"

definition get_profile_of :: "uid \<Rightarrow> string \<Rightarrow> account_db \<Rightarrow> error + candidate_profile" where
  "get_profile_of fresh external db =
     (let i = resolve_user_id fresh external db
      in case find_row (\<lambda>p. pf_user_id p = i) (ac_profiles db) of
           None \<Rightarrow> Inl (NotFoundError ''CandidateProfile'' i) | Some p \<Rightarrow> Inr p)"

definition created_profile :: "uid \<Rightarrow> profile_update \<Rightarrow> candidate_profile" where
  "created_profile i data = \<lparr>pf_user_id = i, pf_full_name = pu_full_name data,
     pf_phone = option_or (pu_phone data) None, pf_location = option_or (pu_location data) None,
     pf_timezone = option_or (pu_timezone data) None, pf_preferences = option_or (pu_preferences data) (JObj []),
     pf_career_goals = pu_career_goals data\<rparr>"

definition updated_profile :: "profile_update \<Rightarrow> candidate_profile \<Rightarrow> candidate_profile" where
  "updated_profile data p = p\<lparr>pf_full_name := or_else (pu_full_name data) (pf_full_name p),
     pf_phone := option_or (pu_phone data) (pf_phone p), pf_location := option_or (pu_location data) (pf_location p),
     pf_timezone := option_or (pu_timezone data) (pf_timezone p),
     pf_preferences := option_or (pu_preferences data) (pf_preferences p),
     pf_career_goals := or_else (pu_career_goals data) (pf_career_goals p)\<rparr>"

definition update_profile :: "(account_db \<Rightarrow> account_db) \<Rightarrow> time \<Rightarrow> uid \<Rightarrow> uid \<Rightarrow> string \<Rightarrow> profile_update \<Rightarrow> account_db
    \<Rightarrow> (candidate_profile, account_db) outcome" where
  "update_profile env now fresh1 fresh2 external data db =
     (let i = resolve_user_id fresh1 external db
      in case get_or_create_user env now fresh2 external (Region DEFAULT_REGION) None db of
           (Inl e, db') \<Rightarrow> (Inl e, db')
         | (Inr _, db') \<Rightarrow>
             (case find_row (\<lambda>p. pf_user_id p = i) (ac_profiles db') of
                Some p \<Rightarrow> (Inr (updated_profile data p),
                  db'\<lparr>ac_profiles := update_many (\<lambda>p. pf_user_id p = i) (updated_profile data) (ac_profiles db')\<rparr>)
              | None \<Rightarrow> if find_user i db' = None then (Inl (PrismaError ''P2003''), db')
                  else (Inr (created_profile i data), db'\<lparr>ac_profiles := ac_profiles db' @ [created_profile i data]\<rparr>)))"

definition update_user :: "uid \<Rightarrow> (user_row \<Rightarrow> user_row) \<Rightarrow> account_db \<Rightarrow> (unit, account_db) outcome" where
  "update_user i f db = (if find_user i db = None then (Inl (PrismaError ''P2025''), db)
     else (Inr (), db\<lparr>ac_users := update_many (\<lambda>u. us_id u = i) f (ac_users db)\<rparr>))"

definition update_consent :: "(account_db \<Rightarrow> account_db) \<Rightarrow> time \<Rightarrow> uid \<Rightarrow> uid \<Rightarrow> string \<Rightarrow> string \<Rightarrow> account_db \<Rightarrow> (unit, account_db) outcome" where
  "update_consent env now fresh1 fresh2 external version db =
     (let i = resolve_user_id fresh1 external db
      in case get_or_create_user env now fresh2 external (Region DEFAULT_REGION) None db of
           (Inl e, db') \<Rightarrow> (Inl e, db')
         | (Inr _, db') \<Rightarrow> update_user i (\<lambda>u. u\<lparr>us_consent_version := Some version, us_consent_granted_at := Some now\<rparr>) db')"

definition mark_for_deletion :: "time \<Rightarrow> uid \<Rightarrow> string \<Rightarrow> account_db \<Rightarrow> (unit, account_db) outcome" where
  "mark_for_deletion now fresh external db =
     (let i = resolve_user_id fresh external db
      in case find_user i db of
           None \<Rightarrow> (Inl (NotFoundError ''User'' i), db)
         | Some _ \<Rightarrow> update_user i (\<lambda>u. u\<lparr>us_deletion_status := ''pending_deletion'', us_deleted_at := Some now,
             us_deletion_requested_at := Some now\<rparr>) db)"

definition set_legal_hold :: "uid \<Rightarrow> string \<Rightarrow> string \<Rightarrow> account_db \<Rightarrow> (unit, account_db) outcome" where
  "set_legal_hold fresh external reason db = update_user (resolve_user_id fresh external db)
     (\<lambda>u. u\<lparr>us_deletion_status := ''legal_hold'', us_legal_hold_reason := Some reason\<rparr>) db"

definition clear_legal_hold :: "uid \<Rightarrow> string \<Rightarrow> account_db \<Rightarrow> (unit, account_db) outcome" where
  "clear_legal_hold fresh external db = update_user (resolve_user_id fresh external db)
     (\<lambda>u. u\<lparr>us_deletion_status := ''active'', us_legal_hold_reason := None\<rparr>) db"

subsection \<open>One user for each external id\<close>

lemmas account_simps = find_user_def find_row_append Let_def

text \<open>The identity tables: no id, profile or external id occurs twice, and mappings lead to users.\<close>

definition accounts_ok :: "account_db \<Rightarrow> bool" where
  "accounts_ok db = (distinct (map us_id (ac_users db)) \<and> distinct (map pf_user_id (ac_profiles db))
     \<and> (\<forall>p\<in>set (ac_profiles db). find_user (pf_user_id p) db \<noteq> None)
     \<and> (\<forall>e i. map_of (ac_mappings db) e = Some i \<longrightarrow> find_user i db \<noteq> None)
     \<and> (\<forall>u\<in>set (ac_users db). us_shard_key u = Some (compute_shard_key (us_id u))))"

lemma map_of_upsert_mapping: "map_of (upsert_mapping e i ms) = (map_of ms)(e \<mapsto> i)"
proof (cases "map_of ms e = None")
  case True
  then show ?thesis by (auto simp: upsert_mapping_def map_add_def fun_eq_iff split: option.split)
next
  case False
  have "map_of (map (\<lambda>(e', u). if e' = e then (e', i) else (e', u)) ms) k =
      (if k = e \<and> map_of ms e \<noteq> None then Some i else map_of ms k)" for k
    by (induction ms) auto
  with False show ?thesis by (auto simp: upsert_mapping_def fun_eq_iff)
qed

lemma find_user_id: "find_user i db = Some u \<Longrightarrow> us_id u = i"
  by (auto simp: find_user_def dest: find_row_SomeD)

text \<open>The insertions for an id without user and profile, and what they leave.\<close>

definition with_new_user :: "time \<Rightarrow> uid \<Rightarrow> string \<Rightarrow> string \<Rightarrow> string option \<Rightarrow> account_db \<Rightarrow> account_db" where
  "with_new_user now i external region tenant db =
     (let (cell, cells) = resolve_user_home_cell i region (ac_cells db)
      in db\<lparr>ac_cells := cells, ac_users := ac_users db @ [new_user now i (cl_id cell) region tenant],
            ac_profiles := ac_profiles db @ [empty_profile i],
            ac_mappings := (if i \<noteq> external then upsert_mapping external i (ac_mappings db) else ac_mappings db)\<rparr>)"

lemma with_new_user_sel [simp]:
  "ac_users (with_new_user now i external region tenant db)
     = ac_users db @ [new_user now i (cl_id (fst (resolve_user_home_cell i region (ac_cells db)))) region tenant]"
  "ac_profiles (with_new_user now i external region tenant db) = ac_profiles db @ [empty_profile i]"
  "map_of (ac_mappings (with_new_user now i external region tenant db))
     = (if i \<noteq> external then (map_of (ac_mappings db))(external \<mapsto> i) else map_of (ac_mappings db))"
  by (simp_all add: with_new_user_def case_prod_beta Let_def map_of_upsert_mapping)

lemma new_user_sel [simp]: "us_id (new_user now i cell region tenant) = i"
    "us_shard_key (new_user now i cell region tenant) = Some (compute_shard_key i)"
    "us_consent_version (new_user now i cell region tenant) = Some ''v1''" "pf_user_id (empty_profile i) = i"
  by (simp_all add: new_user_def empty_profile_def)

lemma create_user_rows_new:
  assumes "find_user i db = None" and "find_row (\<lambda>p. pf_user_id p = i) (ac_profiles db) = None"
  shows "\<exists>u. create_user_rows now i external region tenant db = (Inr u, with_new_user now i external region tenant db)
    \<and> find_user i (with_new_user now i external region tenant db) = Some u \<and> us_consent_version u = Some ''v1''"
  using assms
  by (simp add: create_user_rows_def with_new_user_def case_prod_beta Let_def find_user_def find_row_append)

lemma with_new_user_ok:
  assumes ok: "accounts_ok db" and i: "find_user i db = None" and p: "find_row (\<lambda>p. pf_user_id p = i) (ac_profiles db) = None"
  shows "accounts_ok (with_new_user now i external region tenant db)"
proof -
  let ?db = "with_new_user now i external region tenant db"
  have keeps: "find_user k ?db \<noteq> None" if "find_user k db \<noteq> None \<or> k = i" for k
    using that by (auto simp: find_user_def find_row_append split: option.split)
  have "\<forall>u\<in>set (ac_users db). us_id u \<noteq> i" using i by (simp add: find_user_def find_row_None_iff)
  then have "distinct (map us_id (ac_users ?db))"
    using ok by (auto simp: accounts_ok_def)
  moreover have "\<forall>q\<in>set (ac_profiles db). pf_user_id q \<noteq> i" using p by (simp add: find_row_None_iff)
  then have "distinct (map pf_user_id (ac_profiles ?db))"
    using ok by (auto simp: accounts_ok_def)
  moreover have "\<forall>q\<in>set (ac_profiles ?db). find_user (pf_user_id q) ?db \<noteq> None"
    using ok keeps unfolding accounts_ok_def by (simp del: not_None_eq)
  moreover have "find_user k ?db \<noteq> None" if "map_of (ac_mappings ?db) e = Some k" for e k
  proof -
    have "map_of (ac_mappings db) e = Some k \<or> k = i" using that by (auto split: if_splits)
    then show ?thesis using ok keeps [of k] unfolding accounts_ok_def by blast
  qed
  moreover have "\<forall>u\<in>set (ac_users ?db). us_shard_key u = Some (compute_shard_key (us_id u))"
    using ok by (auto simp: accounts_ok_def)
  ultimately show ?thesis by (simp add: accounts_ok_def)
qed


definition empty_accounts :: account_db where
  "empty_accounts = \<lparr>ac_users = [], ac_mappings = [], ac_profiles = [], ac_cells = []\<rparr>"

definition sample_uuid :: uid where
  "sample_uuid = ''018f0000-0000-7000-8000-000000000001''"

lemma empty_accounts_ok: "accounts_ok empty_accounts"
  by (simp add: accounts_ok_def empty_accounts_def)


text \<open>
  The first consent or profile update of a legacy user fails. Both resolve the id before the
  user exists and again while creating it, with a fresh UUID each time, so they write to the id
  of no user: the call throws, but a user and its mapping have been created, with the default
  consent and not the one that was given.
\<close>

lemma first_legacy_update_fails:
  assumes "accounts_ok db" and "\<not> is_valid_uuid external" and "map_of (ac_mappings db) external = None"
    and "is_valid_uuid fresh2" and "fresh1 \<noteq> fresh2" and "find_user fresh1 db = None" and "find_user fresh2 db = None"
  shows "\<exists>u db'. update_consent id now fresh1 fresh2 external version db = (Inl (PrismaError ''P2025''), db')
    \<and> update_profile id now fresh1 fresh2 external data db = (Inl (PrismaError ''P2003''), db')
    \<and> find_user fresh2 db' = Some u \<and> us_consent_version u = Some ''v1''
    \<and> map_of (ac_mappings db') external = Some fresh2"
proof -
  let ?db = "with_new_user now fresh2 external DEFAULT_REGION None db"
  have ids: "resolve_user_id fresh external db = fresh" for fresh using assms(2,3) by (simp add: resolve_user_id_def)
  have no_profile: "find_row (\<lambda>p. pf_user_id p = k) (ac_profiles db) = None" if "find_user k db = None" for k
    using assms(1) that by (auto simp: accounts_ok_def find_row_None_iff)
  from create_user_rows_new [OF assms(7) no_profile [OF assms(7)], of now external DEFAULT_REGION None] obtain u
    where c: "create_user_rows now fresh2 external DEFAULT_REGION None db = (Inr u, ?db)"
      and f: "find_user fresh2 ?db = Some u" and v: "us_consent_version u = Some ''v1''" by blast
  have g: "get_or_create_user id now fresh2 external (Region DEFAULT_REGION) None db = (Inr u, ?db)"
    using assms(7) c by (simp add: get_or_create_user_def ids Let_def)
  have n: "find_user fresh1 ?db = None" "find_row (\<lambda>p. pf_user_id p = fresh1) (ac_profiles ?db) = None"
    using assms(5,6) no_profile [OF assms(6)] by (simp_all add: find_user_def find_row_append)
  have "fresh2 \<noteq> external" using assms(2,4) by auto
  then have "map_of (ac_mappings ?db) external = Some fresh2" by simp
  then show ?thesis
    using f v n by (intro exI [of _ u] exI [of _ ?db]) (simp add: update_consent_def update_profile_def ids g update_user_def)
qed

lemma first_legacy_update_fails_witness:
  "fst (update_consent id 5 ''018f0000-0000-7000-8000-000000000002'' sample_uuid ''legacy-7'' ''v3'' empty_accounts)
     = Inl (PrismaError ''P2025'')"
proof -
  have "\<not> is_valid_uuid ''legacy-7''" "is_valid_uuid sample_uuid" by code_simp+
  then show ?thesis
    using first_legacy_update_fails [OF empty_accounts_ok, of "''legacy-7''" sample_uuid
        "''018f0000-0000-7000-8000-000000000002''" 5 "''v3''" undefined]
    by (auto simp: empty_accounts_def find_user_def sample_uuid_def)
qed

text \<open>A request for deletion replaces a legal hold.\<close>

lemma deletion_replaces_legal_hold:
  assumes "find_user i db = Some u" and "us_deletion_status u = ''legal_hold''" and "resolve_user_id fresh external db = i"
  shows "\<exists>db'. mark_for_deletion now fresh external db = (Inr (), db')
    \<and> map_option us_deletion_status (find_user i db') = Some ''pending_deletion''"
proof -
  have "us_id u = i" by (rule find_user_id [OF assms(1)])
  with assms show ?thesis
    by (simp add: mark_for_deletion_def update_user_def Let_def find_user_def find_row_update_many_same)
qed

text \<open>Two first requests at once: the second user takes the mapping and the first is orphaned.\<close>

lemma concurrent_creation_orphans:
  assumes "\<not> is_valid_uuid external" and "map_of (ac_mappings db) external = None"
    and "find_user fresh db = None" and "find_row (\<lambda>p. pf_user_id p = fresh) (ac_profiles db) = None"
    and "fresh \<noteq> other" and "fresh \<noteq> external"
    and "env = (\<lambda>d. with_new_user t other external region None d)"
  shows "map_of (ac_mappings (snd (get_or_create_user env now fresh external hints tenant db))) external = Some fresh"
proof -
  have i: "resolve_user_id fresh external db = fresh" using assms(1,2) by (simp add: resolve_user_id_def)
  let ?e = "with_new_user t other external region None db"
  let ?region = "case hints of Region r \<Rightarrow> r | Hints h \<Rightarrow> resolve_region_from_hints h"
  have "find_user fresh ?e = None" "find_row (\<lambda>p. pf_user_id p = fresh) (ac_profiles ?e) = None"
    using assms(3-5) by (simp_all add: find_user_def find_row_append)
  from create_user_rows_new [OF this, of now external ?region tenant] obtain u
    where "create_user_rows now fresh external ?region tenant ?e = (Inr u, with_new_user now fresh external ?region tenant ?e)" by blast
  then show ?thesis using assms(3,6) by (simp add: get_or_create_user_def i assms(7) Let_def)
qed

end
