(* ===== verification/Deletion.thy ===== *)
theory Deletion
  imports Users Applications
begin

text \<open>
  Erasure and retention: \<open>services/retention/data-retention.service.ts\<close>,
  \<open>services/deletion.service.ts\<close> and the account deletion route of
  \<open>routes/user.routes.ts\<close>. A row of a user's data is what deletion reads of it: its id and
  its owner, by user id and by legacy id. Every statement commits on its own. Deleting a user
  cascades to the rows whose foreign key is the user; emails have no such key.
\<close>

record data_row =
  ow_id :: uid
  ow_user_id :: "uid option"
  ow_legacy_user_id :: "string option"

record connection_row = data_row +
  cn_status :: string
  cn_updated_at :: time
  cn_access_token :: string
  cn_refresh_token :: string

record sync_job_row = data_row +
  sj_status :: string
  sj_completed_at :: "time option"

record resume_row = data_row +
  re_hash_id :: "uid option"

record child_row =
  ch_id :: uid
  ch_application_id :: uid

record erasure_db =
  er_accounts :: account_db
  er_emails :: "data_row list"
  er_sync_states :: "data_row list"
  er_connections :: "connection_row list"
  er_timeline :: "child_row list"
  er_history :: "child_row list"
  er_sources :: "child_row list"
  er_applications :: "data_row list"
  er_resumes :: "resume_row list"
  er_hashes :: "(uid \<times> string) list"
  er_sync_jobs :: "sync_job_row list"
  er_redis_keys :: "string list"

definition in_scope :: "uid \<Rightarrow> 'r data_row_scheme \<Rightarrow> bool" where
  "in_scope user r = (ow_user_id r = Some user \<or> ow_legacy_user_id r = Some user)"

definition of_scope :: "uid \<Rightarrow> erasure_db \<Rightarrow> child_row \<Rightarrow> bool" where
  "of_scope user db c = (\<exists>a\<in>set (er_applications db). ow_id a = ch_application_id c \<and> in_scope user a)"

subsection \<open>Deleting the data of a user\<close>

definition delete_children :: "uid \<Rightarrow> erasure_db \<Rightarrow> erasure_db" where
  "delete_children user db =
     (let db1 = db\<lparr>er_timeline := delete_many (of_scope user db) (er_timeline db)\<rparr>;
          db2 = db1\<lparr>er_history := delete_many (of_scope user db1) (er_history db1)\<rparr>
      in db2\<lparr>er_sources := delete_many (of_scope user db2) (er_sources db2)\<rparr>)"

text \<open>The cascade of the database when a user's row goes.\<close>

definition cascade_user :: "uid \<Rightarrow> erasure_db \<Rightarrow> erasure_db" where
  "cascade_user i db =
     (let gone = (\<lambda>c. \<exists>a\<in>set (er_applications db). ow_id a = ch_application_id c \<and> ow_user_id a = Some i)
      in db\<lparr>er_connections := delete_many (\<lambda>r. ow_user_id r = Some i) (er_connections db),
        er_sync_states := delete_many (\<lambda>r. ow_user_id r = Some i) (er_sync_states db),
        er_timeline := delete_many gone (er_timeline db), er_history := delete_many gone (er_history db),
        er_sources := delete_many gone (er_sources db),
        er_applications := delete_many (\<lambda>r. ow_user_id r = Some i) (er_applications db),
        er_resumes := delete_many (\<lambda>r. ow_user_id r = Some i) (er_resumes db),
        er_sync_jobs := delete_many (\<lambda>r. ow_user_id r = Some i) (er_sync_jobs db)\<rparr>)"

definition delete_identity :: "uid \<Rightarrow> erasure_db \<Rightarrow> erasure_db" where
  "delete_identity user db =
     (let i = option_or (map_of (ac_mappings (er_accounts db)) user) user; acc = er_accounts db;
          acc1 = acc\<lparr>ac_profiles := delete_many (\<lambda>p. pf_user_id p = i) (ac_profiles acc),
            ac_mappings := delete_many (\<lambda>(e, k). e = user \<or> k = i) (ac_mappings acc)\<rparr>
      in if find_user i acc1 = None then db\<lparr>er_accounts := acc1\<rparr>
         else cascade_user i (db\<lparr>er_accounts := acc1\<lparr>ac_users := delete_many (\<lambda>u. us_id u = i) (ac_users acc1)\<rparr>\<rparr>))"

definition delete_user_data :: "uid \<Rightarrow> erasure_db \<Rightarrow> (string \<times> nat) list \<times> erasure_db" where
  "delete_user_data user db =
     (let db1 = db\<lparr>er_emails := delete_many (in_scope user) (er_emails db),
            er_sync_states := delete_many (in_scope user) (er_sync_states db),
            er_connections := delete_many (in_scope user) (er_connections db)\<rparr>;
          db2 = delete_children user db1;
          db3 = db2\<lparr>er_applications := delete_many (in_scope user) (er_applications db2),
            er_resumes := delete_many (in_scope user) (er_resumes db2),
            er_sync_jobs := delete_many (in_scope user) (er_sync_jobs db2)\<rparr>;
          i = option_or (map_of (ac_mappings (er_accounts db)) user) user
      in ([(''emailMessages'', count_rows (in_scope user) (er_emails db)),
           (''gmailSyncStates'', count_rows (in_scope user) (er_sync_states db)),
           (''emailConnections'', count_rows (in_scope user) (er_connections db)),
           (''timelineEntries'', count_rows (of_scope user db) (er_timeline db)),
           (''statusHistoryEntries'', count_rows (of_scope user db) (er_history db)),
           (''applicationSources'', count_rows (of_scope user db) (er_sources db)),
           (''jobApplications'', count_rows (in_scope user) (er_applications db)),
           (''userResumes'', count_rows (in_scope user) (er_resumes db)),
           (''syncJobs'', count_rows (in_scope user) (er_sync_jobs db)),
           (''candidateProfiles'', count_rows (\<lambda>p. pf_user_id p = i) (ac_profiles (er_accounts db))),
           (''users'', count_rows (\<lambda>u. us_id u = i) (ac_users (er_accounts db)))],
          delete_identity user db3))"

definition identify_orphaned_resume_hashes :: "erasure_db \<Rightarrow> string list" where
  "identify_orphaned_resume_hashes db =
     map snd (find_many (\<lambda>h. \<not> (\<exists>r\<in>set (er_resumes db). re_hash_id r = Some (fst h))) (er_hashes db))"

definition del_by_prefix :: "string \<Rightarrow> erasure_db \<Rightarrow> erasure_db" where
  "del_by_prefix prefix db = db\<lparr>er_redis_keys := filter (\<lambda>k. \<not> starts_with k prefix) (er_redis_keys db)\<rparr>"

definition request_deletion :: "time \<Rightarrow> uid \<Rightarrow> string \<Rightarrow> erasure_db \<Rightarrow> (unit, erasure_db) outcome" where
  "request_deletion now fresh user db = (case mark_for_deletion now fresh user (er_accounts db) of
     (r, acc) \<Rightarrow> (r, db\<lparr>er_accounts := acc\<rparr>))"

definition execute_deletion :: "time \<Rightarrow> uid \<Rightarrow> string \<Rightarrow> erasure_db \<Rightarrow> erasure_db" where
  "execute_deletion now fresh user db =
     (let db1 = del_by_prefix (''user:'' @ user @ '':'') (del_by_prefix (''refresh:'' @ user @ '':'') (snd (delete_user_data user db)));
          i = resolve_user_id fresh user (er_accounts db1); acc = er_accounts db1
      in db1\<lparr>er_accounts := acc\<lparr>ac_users := update_many (\<lambda>u. us_id u = i)
           (\<lambda>u. u\<lparr>us_deletion_status := ''deleted'', us_deleted_at := Some now, us_deletion_completed_at := Some now\<rparr>) (ac_users acc)\<rparr>\<rparr>)"

text \<open>
  \<open>DELETE /user/account\<close>; revoking the refresh tokens deletes their keys.
\<close>

definition delete_account_route :: "uid \<Rightarrow> erasure_db \<Rightarrow> erasure_db" where
  "delete_account_route user db =
     del_by_prefix ''oauth:state:'' (snd (delete_user_data user (del_by_prefix (''refresh:'' @ user @ '':'') db)))"

subsection \<open>Retention\<close>

definition DELETION_BATCH_SIZE :: nat where "DELETION_BATCH_SIZE = 100"
definition EXPIRED_CONNECTION_RETENTION_DAYS :: int where "EXPIRED_CONNECTION_RETENTION_DAYS = 30"
definition SYNC_JOB_RETENTION_DAYS :: int where "SYNC_JOB_RETENTION_DAYS = 90"

definition days_ago :: "time \<Rightarrow> int \<Rightarrow> time" where
  "days_ago now days = now - days * 86400000"

lemma delete_many_shorter: "r \<in> set rows \<Longrightarrow> P r \<Longrightarrow> length (delete_many P rows) < length rows"
  by (simp add: delete_many_def length_filter_less)

text \<open>
  The loop of both purges: find a batch of ids, delete the rows with these ids, stop after a
  batch that is not full. It gives the number of rows deleted and the table.
\<close>

function purge_loop :: "nat \<Rightarrow> ('r \<Rightarrow> uid) \<Rightarrow> ('r \<Rightarrow> bool) \<Rightarrow> 'r list \<Rightarrow> nat \<times> 'r list" where
  "purge_loop size_limit key P rows =
     (let batch = take size_limit (find_many P rows); ids = map key batch; hit = (\<lambda>r. key r \<in> set ids)
      in if batch = [] then (0, rows)
         else let rows' = delete_many hit rows; n = count_rows hit rows
           in if length batch < size_limit then (n, rows')
              else let (m, rows'') = purge_loop size_limit key P rows' in (n + m, rows''))"
  by pat_completeness auto

termination
proof (relation "measure (\<lambda>(_, _, _, rows). length rows)")
  fix size_limit :: nat and key :: "'r \<Rightarrow> uid" and P rows batch ids hit rows' n
  assume b: "batch = take size_limit (find_many P rows)" "ids = map key batch" "hit = (\<lambda>r. key r \<in> set ids)"
    and ne: "batch \<noteq> []" and r: "rows' = delete_many hit rows"
  obtain x where "x \<in> set batch" using ne by (cases batch) auto
  then have "x \<in> set rows" "hit x" using b set_take_subset [of size_limit "find_many P rows"] by (auto simp: find_many_def)
  then show "((size_limit, key, P, rows'), size_limit, key, P, rows) \<in> measure (\<lambda>(_, _, _, rows). length rows)"
    using delete_many_shorter r by simp
qed simp

declare purge_loop.simps [simp del]

definition purge_expired_oauth_connections :: "time \<Rightarrow> erasure_db \<Rightarrow> nat \<times> erasure_db" where
  "purge_expired_oauth_connections now db =
     (case purge_loop DELETION_BATCH_SIZE ow_id (\<lambda>c. cn_status c \<in> {''EXPIRED'', ''REVOKED''}
         \<and> cn_updated_at c < days_ago now EXPIRED_CONNECTION_RETENTION_DAYS) (er_connections db) of
        (n, rows) \<Rightarrow> (n, db\<lparr>er_connections := rows\<rparr>))"

definition purge_old_sync_jobs :: "time \<Rightarrow> erasure_db \<Rightarrow> nat \<times> erasure_db" where
  "purge_old_sync_jobs now db =
     (case purge_loop DELETION_BATCH_SIZE ow_id (\<lambda>j. sj_status j \<in> {''SUCCESS'', ''FAILED''}
         \<and> (case sj_completed_at j of None \<Rightarrow> False | Some t \<Rightarrow> t < days_ago now SYNC_JOB_RETENTION_DAYS)) (er_sync_jobs db) of
        (n, rows) \<Rightarrow> (n, db\<lparr>er_sync_jobs := rows\<rparr>))"

definition run_retention_cleanup :: "time \<Rightarrow> erasure_db \<Rightarrow> (nat \<times> nat) \<times> erasure_db" where
  "run_retention_cleanup now db =
     (case purge_expired_oauth_connections now db of (n, db1) \<Rightarrow>
        (case purge_old_sync_jobs now db1 of (m, db2) \<Rightarrow> ((n, m), db2)))"

definition needs_re_encryption :: "nat \<Rightarrow> string \<Rightarrow> bool" where
  "needs_re_encryption target_version token =
     ((target_version \<noteq> 1 \<and> \<not> starts_with token ''v'')
      \<or> (starts_with token ''v'' \<and> \<not> starts_with token (''v'' @ show_nat target_version @ '':'')))"

definition find_connections_for_re_encryption :: "nat \<Rightarrow> nat \<Rightarrow> erasure_db \<Rightarrow> (uid \<times> string \<times> string) list" where
  "find_connections_for_re_encryption target_version batch_size db =
     map (\<lambda>c. (ow_id c, cn_access_token c, cn_refresh_token c))
       (take batch_size (find_many (\<lambda>c. needs_re_encryption target_version (cn_access_token c)) (er_connections db)))"

subsection \<open>What deletion removes\<close>

lemma delete_many_absorb:
  "(\<And>r. r \<in> set rows \<Longrightarrow> Q r \<Longrightarrow> P r) \<Longrightarrow> delete_many Q (delete_many P rows) = delete_many P rows"
  by (induction rows) (auto simp: delete_many_def)

lemma of_scope_eq: "er_applications db = er_applications db' \<Longrightarrow> of_scope user db = of_scope user db'"
  by (simp add: of_scope_def fun_eq_iff)

lemma of_scope_update [simp]:
  "of_scope user (db\<lparr>er_timeline := x\<rparr>) = of_scope user db" "of_scope user (db\<lparr>er_history := x\<rparr>) = of_scope user db"
  "of_scope user (db\<lparr>er_emails := y\<rparr>) = of_scope user db" "of_scope user (db\<lparr>er_sync_states := y\<rparr>) = of_scope user db"
  "of_scope user (db\<lparr>er_connections := z\<rparr>) = of_scope user db"
  by (auto intro!: of_scope_eq)

lemma delete_children_sel [simp]:
  "er_timeline (delete_children user db) = delete_many (of_scope user db) (er_timeline db)"
  "er_history (delete_children user db) = delete_many (of_scope user db) (er_history db)"
  "er_sources (delete_children user db) = delete_many (of_scope user db) (er_sources db)"
  "er_emails (delete_children user db) = er_emails db" "er_sync_states (delete_children user db) = er_sync_states db"
  "er_connections (delete_children user db) = er_connections db" "er_applications (delete_children user db) = er_applications db"
  "er_resumes (delete_children user db) = er_resumes db" "er_sync_jobs (delete_children user db) = er_sync_jobs db"
  "er_accounts (delete_children user db) = er_accounts db" "er_redis_keys (delete_children user db) = er_redis_keys db"
  by (simp_all add: delete_children_def Let_def)

text \<open>The last step removes the identity and then what the cascade finds.\<close>

lemma delete_identity_sel:
  fixes db :: erasure_db
  assumes "map_of (ac_mappings (er_accounts db)) user = None"
    and "\<And>c :: child_row. \<not> (\<exists>a\<in>set (er_applications db). ow_id a = ch_application_id c \<and> ow_user_id a = Some user)"
    and "\<forall>r\<in>set (er_connections db). ow_user_id r \<noteq> Some user" and "\<forall>r\<in>set (er_sync_states db). ow_user_id r \<noteq> Some user"
    and "\<forall>r\<in>set (er_applications db). ow_user_id r \<noteq> Some user" and "\<forall>r\<in>set (er_resumes db). ow_user_id r \<noteq> Some user"
    and "\<forall>r\<in>set (er_sync_jobs db). ow_user_id r \<noteq> Some user"
  shows "er_emails (delete_identity user db) = er_emails db" "er_sync_states (delete_identity user db) = er_sync_states db"
    "er_connections (delete_identity user db) = er_connections db" "er_timeline (delete_identity user db) = er_timeline db"
    "er_history (delete_identity user db) = er_history db" "er_sources (delete_identity user db) = er_sources db"
    "er_applications (delete_identity user db) = er_applications db" "er_resumes (delete_identity user db) = er_resumes db"
    "er_sync_jobs (delete_identity user db) = er_sync_jobs db"
    "ac_profiles (er_accounts (delete_identity user db)) = delete_many (\<lambda>p. pf_user_id p = user) (ac_profiles (er_accounts db))"
    "ac_users (er_accounts (delete_identity user db)) = delete_many (\<lambda>u. us_id u = user) (ac_users (er_accounts db))"
proof -
  have none: "delete_many Q rows = rows" if "\<forall>r\<in>set rows. \<not> Q r" for Q and rows :: "'r list"
    using that by (simp add: delete_many_def filter_id_conv)
  have gone: "\<not> (\<exists>a\<in>set (er_applications db). ow_id a = ch_application_id c \<and> ow_user_id a = Some user)" for c :: child_row by (rule assms(2))
  note simps = delete_identity_def cascade_user_def Let_def assms(1) find_user_def find_row_None_iff
  show "er_emails (delete_identity user db) = er_emails db" by (simp add: simps)
  show "er_sync_states (delete_identity user db) = er_sync_states db" using none [OF assms(4)] by (simp add: simps)
  show "er_connections (delete_identity user db) = er_connections db" using none [OF assms(3)] by (simp add: simps)
  show "er_applications (delete_identity user db) = er_applications db" using none [OF assms(5)] by (simp add: simps)
  show "er_resumes (delete_identity user db) = er_resumes db" using none [OF assms(6)] by (simp add: simps)
  show "er_sync_jobs (delete_identity user db) = er_sync_jobs db" using none [OF assms(7)] by (simp add: simps)
  have kids: "delete_many (\<lambda>c. \<exists>a\<in>set (er_applications db). ow_id a = ch_application_id c \<and> ow_user_id a = Some user) rows = rows"
    for rows :: "child_row list" using gone by (intro none) blast
  show "er_timeline (delete_identity user db) = er_timeline db" "er_history (delete_identity user db) = er_history db"
    "er_sources (delete_identity user db) = er_sources db" by (simp_all add: simps kids)
  show "ac_profiles (er_accounts (delete_identity user db)) = delete_many (\<lambda>p. pf_user_id p = user) (ac_profiles (er_accounts db))"
    by (simp add: simps)
  show "ac_users (er_accounts (delete_identity user db)) = delete_many (\<lambda>u. us_id u = user) (ac_users (er_accounts db))"
    using none [of "ac_users (er_accounts db)" "\<lambda>u. us_id u = user"] by (auto simp: simps)
qed

text \<open>
  C15: erasure is complete and touches nobody else. For a user who is known by their own id, every
  table keeps exactly the rows that are not theirs, in their order: emails, sync states,
  connections, applications, resumes and sync jobs by owner, timeline, history and sources by
  their application, and the profile and the user's row are gone. It does so whatever the
  deletion status of the user is, a legal hold included.
\<close>

theorem erasure_exact:
  assumes "map_of (ac_mappings (er_accounts db)) user = None"
  shows "let db' = snd (delete_user_data user db) in
      er_emails db' = delete_many (in_scope user) (er_emails db)
    \<and> er_sync_states db' = delete_many (in_scope user) (er_sync_states db)
    \<and> er_connections db' = delete_many (in_scope user) (er_connections db)
    \<and> er_timeline db' = delete_many (of_scope user db) (er_timeline db)
    \<and> er_history db' = delete_many (of_scope user db) (er_history db)
    \<and> er_sources db' = delete_many (of_scope user db) (er_sources db)
    \<and> er_applications db' = delete_many (in_scope user) (er_applications db)
    \<and> er_resumes db' = delete_many (in_scope user) (er_resumes db)
    \<and> er_sync_jobs db' = delete_many (in_scope user) (er_sync_jobs db)
    \<and> ac_profiles (er_accounts db') = delete_many (\<lambda>p. pf_user_id p = user) (ac_profiles (er_accounts db))
    \<and> ac_users (er_accounts db') = delete_many (\<lambda>u. us_id u = user) (ac_users (er_accounts db))"
proof -
  let ?d = "db\<lparr>er_emails := delete_many (in_scope user) (er_emails db),
      er_sync_states := delete_many (in_scope user) (er_sync_states db),
      er_connections := delete_many (in_scope user) (er_connections db)\<rparr>"
  let ?c = "delete_children user ?d"
  let ?e = "?c\<lparr>er_applications := delete_many (in_scope user) (er_applications ?c),
      er_resumes := delete_many (in_scope user) (er_resumes ?c), er_sync_jobs := delete_many (in_scope user) (er_sync_jobs ?c)\<rparr>"
  have result: "snd (delete_user_data user db) = delete_identity user ?e" by (simp add: delete_user_data_def Let_def)
  have "map_of (ac_mappings (er_accounts ?e)) user = None" using assms by simp
  moreover have "\<not> (\<exists>a\<in>set (er_applications ?e). ow_id a = ch_application_id c \<and> ow_user_id a = Some user)" for c :: child_row
    by (auto simp: in_scope_def)
  moreover have "\<forall>r\<in>set (er_connections ?e). ow_user_id r \<noteq> Some user" "\<forall>r\<in>set (er_sync_states ?e). ow_user_id r \<noteq> Some user"
    "\<forall>r\<in>set (er_applications ?e). ow_user_id r \<noteq> Some user" "\<forall>r\<in>set (er_resumes ?e). ow_user_id r \<noteq> Some user"
    "\<forall>r\<in>set (er_sync_jobs ?e). ow_user_id r \<noteq> Some user"
    by (auto simp: in_scope_def)
  ultimately show ?thesis by (simp add: result Let_def delete_identity_sel)
qed

definition sample_erasure_db :: erasure_db where
  "sample_erasure_db = \<lparr>er_accounts = empty_accounts,
     er_emails = [\<lparr>ow_id = ''e1'', ow_user_id = Some ''u'', ow_legacy_user_id = None\<rparr>,
       \<lparr>ow_id = ''e2'', ow_user_id = Some ''v'', ow_legacy_user_id = None\<rparr>],
     er_sync_states = [], er_connections = [], er_timeline = [], er_history = [], er_sources = [], er_applications = [],
     er_resumes = [], er_hashes = [], er_sync_jobs = [], er_redis_keys = []\<rparr>"

theorem erasure_exact_witness:
  "map ow_id (er_emails (snd (delete_user_data ''u'' sample_erasure_db))) = [''e2'']"
  using erasure_exact [of sample_erasure_db "''u''"]
  by (simp add: Let_def sample_erasure_db_def empty_accounts_def in_scope_def delete_many_def)

text \<open>The purge loops do in batches what one statement would.\<close>

lemma purge_loop_step:
  assumes "distinct (map key rows)" and "batch = take n (find_many P rows)"
  shows "r \<in> set rows \<Longrightarrow> key r \<in> set (map key batch) \<longleftrightarrow> r \<in> set batch"
    and "r \<in> set batch \<Longrightarrow> r \<in> set rows \<and> P r"
proof -
  show sub: "r \<in> set batch \<Longrightarrow> r \<in> set rows \<and> P r" for r
    using assms(2) set_take_subset [of n "find_many P rows"] by (auto simp: find_many_def)
  show "r \<in> set rows \<Longrightarrow> key r \<in> set (map key batch) \<longleftrightarrow> r \<in> set batch"
    using sub distinct_key_unique [OF assms(1)] by (metis image_eqI image_iff list.set_map)
qed

lemma count_rows_split:
  "(\<And>r. r \<in> set rows \<Longrightarrow> H r \<Longrightarrow> P r) \<Longrightarrow> count_rows H rows + count_rows P (delete_many H rows) = count_rows P rows"
  by (induction rows) (auto simp: delete_many_def)

lemma delete_many_split:
  "(\<And>r. r \<in> set rows \<Longrightarrow> H r \<Longrightarrow> P r) \<Longrightarrow> delete_many P (delete_many H rows) = delete_many P rows"
  by (induction rows) (auto simp: delete_many_def)

lemma delete_many_cong: "(\<And>r. r \<in> set rows \<Longrightarrow> P r = Q r) \<Longrightarrow> delete_many P rows = delete_many Q rows \<and> count_rows P rows = count_rows Q rows"
  by (induction rows) (auto simp: delete_many_def)

text \<open>
  C39: the batched purge equals one deletion. For any positive batch size and rows with distinct
  ids, the loop ends, deletes exactly the rows that satisfy the condition, keeps the others in
  order and counts each deleted row once.
\<close>

theorem purge_loop_is_delete:
  assumes "0 < size_limit" and "distinct (map key rows)"
  shows "purge_loop size_limit key P rows = (count_rows P rows, delete_many P rows)"
  using assms
proof (induction size_limit key P rows rule: purge_loop.induct)
  case (1 n key P rows)
  let ?batch = "take n (find_many P rows)" and ?hit = "\<lambda>r. key r \<in> set (map key (take n (find_many P rows)))"
  have hit: "?hit r \<longleftrightarrow> r \<in> set ?batch" if "r \<in> set rows" for r
    using purge_loop_step(1) [OF 1(3) refl, of r n P] that by simp
  have sub: "r \<in> set rows \<Longrightarrow> ?hit r \<Longrightarrow> P r" for r
    using hit [of r] purge_loop_step(2) [OF 1(3) refl, of r n P] by blast
  show ?case
  proof (cases "?batch = []")
    case True
    then have "\<forall>r\<in>set rows. \<not> P r" using 1(2) by (auto simp: find_many_def filter_empty_conv)
    with True show ?thesis
      by (subst purge_loop.simps) (auto simp: Let_def count_rows_def delete_many_def filter_empty_conv intro!: filter_True [symmetric])
  next
    case ne: False
    show ?thesis
    proof (cases "length ?batch < n")
      case True
      then have "?batch = find_many P rows" by simp
      then have eq: "?hit r = P r" if "r \<in> set rows" for r using hit [OF that] that by (simp add: find_many_def)
      show ?thesis using ne True delete_many_cong [where rows = rows, OF eq]
        by (subst purge_loop.simps) (simp add: Let_def del: length_take)
    next
      case False
      have "distinct (map key (delete_many ?hit rows))" by (rule distinct_delete_many [OF 1(3)])
      then have IH: "purge_loop n key P (delete_many ?hit rows) = (count_rows P (delete_many ?hit rows), delete_many P (delete_many ?hit rows))"
        using 1(1) [OF refl refl refl ne refl refl False 1(2)] by (simp only:)
      show ?thesis unfolding purge_loop.simps [of n key P rows]
        using ne False count_rows_split [of rows ?hit P, OF sub] delete_many_split [of rows ?hit P, OF sub]
        by (simp only: Let_def IH if_False prod.case)
    qed
  qed
qed

theorem purge_loop_is_delete_witness:
  "purge_loop 2 id (\<lambda>s. s \<noteq> ''keep'') [''a'', ''keep'', ''b'', ''c''] = (3, [''keep''])"
  using purge_loop_is_delete [of 2 id "[''a'', ''keep'', ''b'', ''c'']" "\<lambda>s. s \<noteq> ''keep''"] by (simp add: delete_many_def)

text \<open>
  With a legacy id, rows that only carry the internal user id are missed where no foreign key
  removes them: emails stay.
\<close>

lemma legacy_erasure_leaves_emails:
  "r \<in> set (er_emails db) \<Longrightarrow> \<not> in_scope user r \<Longrightarrow> r \<in> set (er_emails (snd (delete_user_data user db)))"
  by (auto simp: delete_user_data_def delete_identity_def cascade_user_def Let_def)

text \<open>Deleting one account drops the pending OAuth states of every user.\<close>

lemma account_deletion_drops_all_oauth_states:
  "starts_with k ''oauth:state:'' \<Longrightarrow> k \<notin> set (er_redis_keys (delete_account_route user db))"
  by (simp add: delete_account_route_def del_by_prefix_def)

end
