(* ===== verification/Oauth_State.thy ===== *)
theory Oauth_State
  imports Prelude "HOL-Library.AList"
begin

text \<open>
  \<open>OAuthStateService\<close> (\<open>services/gmail/auth/oauth-state.service.ts\<close>): the tokens that bind
  an OAuth callback to the request that started it, with both backends. Redis is a pair of
  operations on its own state, \<open>SET\<close> with an expiry and the script that reads and deletes; the
  JSON text of an entry is not modelled. The cleanup timer of the in-memory backend is an
  operation that may run between any two calls.
\<close>

definition STATE_TTL_MS :: int where "STATE_TTL_MS = 15 * 60 * 1000"
definition STATE_TTL_SEC :: int where "STATE_TTL_SEC = 15 * 60"
definition REDIS_KEY_PREFIX :: string where "REDIS_KEY_PREFIX = ''oauth:state:''"

record oauth_entry =
  oe_user_id :: uid
  oe_created_at :: time

subsection \<open>Backends\<close>

type_synonym memory_states = "(string \<times> oauth_entry) list"

definition memory_set :: "time \<Rightarrow> string \<Rightarrow> oauth_entry \<Rightarrow> memory_states \<Rightarrow> (unit, memory_states) outcome" where
  "memory_set now state entry b = (Inr (), AList.update state entry b)"

definition memory_get_and_delete :: "time \<Rightarrow> string \<Rightarrow> memory_states \<Rightarrow> (oauth_entry option, memory_states) outcome" where
  "memory_get_and_delete now state b = (Inr (map_of b state), AList.delete state b)"

definition purge_expired :: "time \<Rightarrow> memory_states \<Rightarrow> memory_states" where
  "purge_expired now b = filter (\<lambda>(_, e). \<not> now - oe_created_at e > STATE_TTL_MS) b"

definition memory_size :: "memory_states \<Rightarrow> nat" where
  "memory_size b = length b"

record 'r redis_ops =
  rd_set_ex :: "time \<Rightarrow> string \<Rightarrow> oauth_entry \<Rightarrow> int \<Rightarrow> 'r \<Rightarrow> (unit, 'r) outcome"
  rd_get_del :: "time \<Rightarrow> string \<Rightarrow> 'r \<Rightarrow> (oauth_entry option, 'r) outcome"

definition redis_set :: "'r redis_ops \<Rightarrow> time \<Rightarrow> string \<Rightarrow> oauth_entry \<Rightarrow> 'r \<Rightarrow> (unit, 'r) outcome" where
  "redis_set ops now state entry r = rd_set_ex ops now (REDIS_KEY_PREFIX @ state) entry STATE_TTL_SEC r"

definition redis_get_and_delete :: "'r redis_ops \<Rightarrow> time \<Rightarrow> string \<Rightarrow> 'r \<Rightarrow> (oauth_entry option, 'r) outcome" where
  "redis_get_and_delete ops now state r = rd_get_del ops now (REDIS_KEY_PREFIX @ state) r"

subsection \<open>The service\<close>

definition generate_state :: "(time \<Rightarrow> string \<Rightarrow> oauth_entry \<Rightarrow> 'b \<Rightarrow> (unit, 'b) outcome) \<Rightarrow> time \<Rightarrow> string \<Rightarrow> uid
    \<Rightarrow> 'b \<Rightarrow> (string, 'b) outcome" where
  "generate_state put now random user b =
     (case put now random \<lparr>oe_user_id = user, oe_created_at = now\<rparr> b of
        (Inl _, b') \<Rightarrow> (Inl (OAuthError ''OAuth state could not be stored. Please try again.'' ''OAUTH_STATE_STORAGE_FAILED''), b')
      | (Inr _, b') \<Rightarrow> (Inr random, b'))"

definition invalid_state :: error where
  "invalid_state = OAuthError ''Invalid or expired OAuth state. Please initiate the connection again.'' ''INVALID_OAUTH_STATE''"

definition expired_state :: error where
  "expired_state = OAuthError ''OAuth state has expired. Please initiate the connection again.'' ''EXPIRED_OAUTH_STATE''"

definition validate_and_consume :: "(time \<Rightarrow> string \<Rightarrow> 'b \<Rightarrow> (oauth_entry option, 'b) outcome) \<Rightarrow> time \<Rightarrow> string
    \<Rightarrow> 'b \<Rightarrow> (uid, 'b) outcome" where
  "validate_and_consume take_entry now state b =
     (if state = [] then (Inl invalid_state, b)
      else (case take_entry now state b of
          (Inl e, b') \<Rightarrow> (Inl e, b')
        | (Inr None, b') \<Rightarrow> (Inl invalid_state, b')
        | (Inr (Some e), b') \<Rightarrow> if now - oe_created_at e > STATE_TTL_MS then (Inl expired_state, b') else (Inr (oe_user_id e), b')))"

text \<open>What other flows do with the same backend, and the cleanup.\<close>

datatype state_op = Started time string uid | Returned time string | Cleaned time

fun op_state :: "state_op \<Rightarrow> string option" where
  "op_state (Started _ s _) = Some s"
| "op_state (Returned _ s) = Some s"
| "op_state (Cleaned _) = None"

fun op_time :: "state_op \<Rightarrow> time" where
  "op_time (Started t _ _) = t"
| "op_time (Returned t _) = t"
| "op_time (Cleaned t) = t"

fun run_op :: "(time \<Rightarrow> string \<Rightarrow> oauth_entry \<Rightarrow> 'b \<Rightarrow> (unit, 'b) outcome) \<Rightarrow> (time \<Rightarrow> string \<Rightarrow> 'b \<Rightarrow> (oauth_entry option, 'b) outcome)
    \<Rightarrow> (time \<Rightarrow> 'b \<Rightarrow> 'b) \<Rightarrow> state_op \<Rightarrow> 'b \<Rightarrow> 'b" where
  "run_op put take_entry tick (Started t s u) b = snd (generate_state put t s u b)"
| "run_op put take_entry tick (Returned t s) b = snd (validate_and_consume take_entry t s b)"
| "run_op put take_entry tick (Cleaned t) b = tick t b"

subsection \<open>The interface of a backend\<close>

text \<open>\<open>view b t s\<close> is the entry a callback with state \<open>s\<close> would find at time \<open>t\<close>.\<close>

locale state_backend =
  fixes put :: "time \<Rightarrow> string \<Rightarrow> oauth_entry \<Rightarrow> 'b \<Rightarrow> (unit, 'b) outcome"
    and take_entry :: "time \<Rightarrow> string \<Rightarrow> 'b \<Rightarrow> (oauth_entry option, 'b) outcome"
    and tick :: "time \<Rightarrow> 'b \<Rightarrow> 'b" and ok :: "'b \<Rightarrow> bool" and view :: "'b \<Rightarrow> time \<Rightarrow> string \<Rightarrow> oauth_entry option"
  assumes put_entry: "ok b \<Longrightarrow> \<exists>b'. put now s e b = (Inr (), b') \<and> ok b'
      \<and> (\<forall>t. now \<le> t \<longrightarrow> t < now + STATE_TTL_MS \<longrightarrow> view b' t s = Some e) \<and> (\<forall>t k. k \<noteq> s \<longrightarrow> view b' t k = view b t k)"
    and take_it: "ok b \<Longrightarrow> \<exists>b'. take_entry now s b = (Inr (view b now s), b') \<and> ok b'
      \<and> (\<forall>t. view b' t s = None) \<and> (\<forall>t k. k \<noteq> s \<longrightarrow> view b' t k = view b t k)"
    and tick_keeps: "ok b \<Longrightarrow> ok (tick now b) \<and> (\<forall>t k. view b t k = None \<longrightarrow> view (tick now b) t k = None)
      \<and> (\<forall>t k e. view b t k = Some e \<longrightarrow> now - oe_created_at e \<le> STATE_TTL_MS \<longrightarrow> view (tick now b) t k = Some e)"
begin

lemma run_op_ok:
  assumes "ok b"
  shows "ok (run_op put take_entry tick x b)"
    and "op_state x \<noteq> Some s \<Longrightarrow> view b t s = None \<Longrightarrow> view (run_op put take_entry tick x b) t s = None"
    and "op_state x \<noteq> Some s \<Longrightarrow> view b t s = Some e \<Longrightarrow> op_time x - oe_created_at e \<le> STATE_TTL_MS
      \<Longrightarrow> view (run_op put take_entry tick x b) t s = Some e"
proof -
  show "ok (run_op put take_entry tick x b)"
  proof (cases x)
    case (Started t' s' u)
    then show ?thesis using put_entry [OF assms, of t' s' "\<lparr>oe_user_id = u, oe_created_at = t'\<rparr>"] by (auto simp: generate_state_def)
  next
    case (Returned t' s')
    then show ?thesis using assms take_it [OF assms, of t' s'] by (auto simp: validate_and_consume_def split: option.splits)
  next
    case (Cleaned t')
    then show ?thesis using tick_keeps [OF assms] by simp
  qed
  have same: "view (run_op put take_entry tick x b) t s = view b t s" if "op_state x \<noteq> Some s" "\<forall>t'. x \<noteq> Cleaned t'"
  proof (cases x)
    case (Started t' s' u)
    then show ?thesis using that put_entry [OF assms, of t' s' "\<lparr>oe_user_id = u, oe_created_at = t'\<rparr>"] by (auto simp: generate_state_def)
  next
    case (Returned t' s')
    then show ?thesis using that take_it [OF assms, of t' s'] by (auto simp: validate_and_consume_def split: option.splits)
  next
    case (Cleaned t')
    then show ?thesis using that by simp
  qed
  show "op_state x \<noteq> Some s \<Longrightarrow> view b t s = None \<Longrightarrow> view (run_op put take_entry tick x b) t s = None"
    using same tick_keeps [OF assms] by (cases "\<exists>t'. x = Cleaned t'") auto
  show "op_state x \<noteq> Some s \<Longrightarrow> view b t s = Some e \<Longrightarrow> op_time x - oe_created_at e \<le> STATE_TTL_MS
      \<Longrightarrow> view (run_op put take_entry tick x b) t s = Some e"
    using same tick_keeps [OF assms] by (cases "\<exists>t'. x = Cleaned t'") auto
qed

lemma run_ops_ok:
  assumes "ok b" and "\<forall>x\<in>set xs. op_state x \<noteq> Some s"
  shows "ok (fold (run_op put take_entry tick) xs b)"
    and "view b t s = None \<Longrightarrow> view (fold (run_op put take_entry tick) xs b) t s = None"
    and "view b t s = Some e \<Longrightarrow> \<forall>x\<in>set xs. op_time x - oe_created_at e \<le> STATE_TTL_MS
      \<Longrightarrow> view (fold (run_op put take_entry tick) xs b) t s = Some e"
  using assms by (induction xs arbitrary: b) (simp_all add: run_op_ok)

text \<open>A state is accepted once, for its user, within its lifetime, whatever other flows do.\<close>

lemma accepted_once:
  assumes "ok b" and "s \<noteq> []" and "\<forall>x\<in>set xs. op_state x \<noteq> Some s \<and> op_time x \<le> t" and "now \<le> t" and "t < now + STATE_TTL_MS"
    and "\<forall>x\<in>set ys. op_state x \<noteq> Some s"
  shows "\<exists>b1 b2. generate_state put now s user b = (Inr s, b1)
    \<and> validate_and_consume take_entry t s (fold (run_op put take_entry tick) xs b1) = (Inr user, b2)
    \<and> fst (validate_and_consume take_entry t' s (fold (run_op put take_entry tick) ys b2)) = Inl invalid_state"
proof -
  let ?e = "\<lparr>oe_user_id = user, oe_created_at = now\<rparr>" and ?run = "fold (run_op put take_entry tick)"
  from put_entry [OF assms(1), of now s ?e] obtain b1 where g: "put now s ?e b = (Inr (), b1)" "ok b1" "view b1 t s = Some ?e"
    using assms(4,5) by blast
  have v: "ok (?run xs b1)" "view (?run xs b1) t s = Some ?e"
  proof (rule run_ops_ok(1) [OF g(2)])
    have "op_time x - now \<le> STATE_TTL_MS" if "x \<in> set xs" for x using assms(3) assms(5) that by force
    then show "view (?run xs b1) t s = Some ?e" using assms(3) by (intro run_ops_ok(3) [OF g(2) _ g(3)]) auto
  qed (use assms(3) in auto)
  from take_it [OF v(1), of t s] v(2) obtain b2 where c: "take_entry t s (?run xs b1) = (Inr (Some ?e), b2)" "ok b2" "\<forall>t. view b2 t s = None"
    by auto
  have "view (?run ys b2) t' s = None" using run_ops_ok(2) [OF c(2) assms(6)] c(3) by blast
  then have "fst (take_entry t' s (?run ys b2)) = Inr None" using take_it [OF run_ops_ok(1) [OF c(2) assms(6)], of t' s] by auto
  then have "fst (validate_and_consume take_entry t' s (?run ys b2)) = Inl invalid_state"
    using assms(2) by (cases "take_entry t' s (?run ys b2)") (simp add: validate_and_consume_def)
  moreover have "\<not> t - now > STATE_TTL_MS" using assms(5) by simp
  ultimately show ?thesis
    using g c assms(2) by (intro exI [of _ b1] exI [of _ b2]) (simp add: generate_state_def validate_and_consume_def)
qed

end

text \<open>Both backends of the service provide it. For Redis, what its commands document:\<close>

interpretation memory: state_backend memory_set memory_get_and_delete purge_expired "\<lambda>b. distinct (map fst b)" "\<lambda>b t s. map_of b s"
proof
  fix b :: memory_states and now s e
  assume d: "distinct (map fst b)"
  show "\<exists>b'. memory_set now s e b = (Inr (), b') \<and> distinct (map fst b')
      \<and> (\<forall>t. now \<le> t \<longrightarrow> t < now + STATE_TTL_MS \<longrightarrow> map_of b' s = Some e) \<and> (\<forall>t k. k \<noteq> s \<longrightarrow> map_of b' k = map_of b k)"
    using d by (simp add: memory_set_def distinct_update update_conv')
  show "\<exists>b'. memory_get_and_delete now s b = (Inr (map_of b s), b') \<and> distinct (map fst b')
      \<and> (\<forall>t. map_of b' s = None) \<and> (\<forall>t k. k \<noteq> s \<longrightarrow> map_of b' k = map_of b k)"
    using d by (simp add: memory_get_and_delete_def distinct_delete delete_conv')
  have "map_of (purge_expired now b) k = (case map_of b k of Some e \<Rightarrow> if now - oe_created_at e > STATE_TTL_MS then None else Some e | None \<Rightarrow> None)" for k
    using d
  proof (induction b)
    case (Cons p b)
    then have "map_of b (fst p) = None" by (simp add: map_of_eq_None_iff)
    with Cons show ?case by (cases p) (auto simp: purge_expired_def split: option.splits)
  qed (simp add: purge_expired_def)
  moreover have "distinct (map fst (purge_expired now b))"
    using d by (simp add: purge_expired_def distinct_map_filter)
  ultimately show "distinct (map fst (purge_expired now b)) \<and> (\<forall>t k. map_of b k = None \<longrightarrow> map_of (purge_expired now b) k = None)
      \<and> (\<forall>t k e. map_of b k = Some e \<longrightarrow> now - oe_created_at e \<le> STATE_TTL_MS \<longrightarrow> map_of (purge_expired now b) k = Some e)"
    by simp
qed

definition redis_documented :: "'r redis_ops \<Rightarrow> ('r \<Rightarrow> time \<Rightarrow> string \<Rightarrow> oauth_entry option) \<Rightarrow> 'r \<Rightarrow> bool" where
  "redis_documented ops view r =
     ((\<forall>now k e ttl r. \<exists>r'. rd_set_ex ops now k e ttl r = (Inr (), r') \<and> (\<forall>t. now \<le> t \<longrightarrow> t < now + 1000 * ttl \<longrightarrow> view r' t k = Some e)
        \<and> (\<forall>t j. j \<noteq> k \<longrightarrow> view r' t j = view r t j))
      \<and> (\<forall>now k r. \<exists>r'. rd_get_del ops now k r = (Inr (view r now k), r') \<and> (\<forall>t. view r' t k = None)
        \<and> (\<forall>t j. j \<noteq> k \<longrightarrow> view r' t j = view r t j)))"

interpretation redis: state_backend "redis_set ops" "redis_get_and_delete ops" "\<lambda>_ r. r" "redis_documented ops view"
  "\<lambda>r t s. view r t (REDIS_KEY_PREFIX @ s)"
proof
  fix b now s e
  assume d: "redis_documented ops view b"
  then have doc: "redis_documented ops view r" for r by (simp add: redis_documented_def)
  from d obtain r' where "rd_set_ex ops now (REDIS_KEY_PREFIX @ s) e STATE_TTL_SEC b = (Inr (), r')"
    "\<forall>t. now \<le> t \<longrightarrow> t < now + 1000 * STATE_TTL_SEC \<longrightarrow> view r' t (REDIS_KEY_PREFIX @ s) = Some e"
    "\<forall>t j. j \<noteq> REDIS_KEY_PREFIX @ s \<longrightarrow> view r' t j = view b t j"
    unfolding redis_documented_def by meson
  then show "\<exists>b'. redis_set ops now s e b = (Inr (), b') \<and> redis_documented ops view b'
      \<and> (\<forall>t. now \<le> t \<longrightarrow> t < now + STATE_TTL_MS \<longrightarrow> view b' t (REDIS_KEY_PREFIX @ s) = Some e)
      \<and> (\<forall>t k. k \<noteq> s \<longrightarrow> view b' t (REDIS_KEY_PREFIX @ k) = view b t (REDIS_KEY_PREFIX @ k))"
    using doc by (simp add: redis_set_def STATE_TTL_SEC_def STATE_TTL_MS_def)
  from d obtain r'' where "rd_get_del ops now (REDIS_KEY_PREFIX @ s) b = (Inr (view b now (REDIS_KEY_PREFIX @ s)), r'')"
    "\<forall>t. view r'' t (REDIS_KEY_PREFIX @ s) = None" "\<forall>t j. j \<noteq> REDIS_KEY_PREFIX @ s \<longrightarrow> view r'' t j = view b t j"
    unfolding redis_documented_def by meson
  then show "\<exists>b'. redis_get_and_delete ops now s b = (Inr (view b now (REDIS_KEY_PREFIX @ s)), b') \<and> redis_documented ops view b'
      \<and> (\<forall>t. view b' t (REDIS_KEY_PREFIX @ s) = None)
      \<and> (\<forall>t k. k \<noteq> s \<longrightarrow> view b' t (REDIS_KEY_PREFIX @ k) = view b t (REDIS_KEY_PREFIX @ k))"
    using doc by (simp add: redis_get_and_delete_def)
qed simp_all



end
