(* ===== verification/Encryption.thy ===== *)
theory Encryption
  imports Http_Errors
begin

text \<open>
  Token encryption with versioned keys: \<open>utils/encryption.ts\<close> and both services of
  \<open>infrastructure/crypto/crypto-service.ts\<close>. AES-256-GCM is a pair of functions, sealing and
  unsealing, and the key management service an operation on its own state; both are arguments.
  Base64, the envelope formats, the key cache and the choice of keys are modelled. Random bytes
  are arguments of the calls that draw them; numbers read by \<open>parseInt\<close> are exact.
\<close>

type_synonym bytes = "8 word list"

record aead =
  seal :: "bytes \<Rightarrow> bytes \<Rightarrow> string \<Rightarrow> bytes \<times> bytes"
  unseal :: "bytes \<Rightarrow> bytes \<Rightarrow> bytes \<Rightarrow> bytes \<Rightarrow> string option"

text \<open>
  \<open>seal a key iv plaintext\<close> gives ciphertext and tag, \<open>unseal a key iv tag ciphertext\<close>
  fails where the cipher rejects its arguments. What the cipher documents:
\<close>

definition aead_ok :: "aead \<Rightarrow> bool" where
  "aead_ok a = (\<forall>k iv p. length k = 32 \<longrightarrow> length iv = 12 \<longrightarrow>
     unseal a k iv (snd (seal a k iv p)) (fst (seal a k iv p)) = Some p)"

subsection \<open>Bytes as text\<close>

definition b64_char :: "nat \<Rightarrow> char" where
  "b64_char n = (if n < 26 then char_of (65 + n) else if n < 52 then char_of (71 + n)
     else if n < 62 then char_of (n - 4) else if n = 62 then CHR ''+'' else CHR ''/'')"

definition b64_value :: "char \<Rightarrow> nat option" where
  "b64_value c = (let n = (of_char c :: nat) in
     if 65 \<le> n \<and> n \<le> 90 then Some (n - 65) else if 97 \<le> n \<and> n \<le> 122 then Some (n - 71)
     else if 48 \<le> n \<and> n \<le> 57 then Some (n + 4) else if n = 43 \<or> n = 45 then Some 62
     else if n = 47 \<or> n = 95 then Some 63 else None)"

text \<open>\<open>toString('base64')\<close>, and \<open>Buffer.from(s, 'base64')\<close>, which skips other characters.\<close>

fun to_base64 :: "bytes \<Rightarrow> string" where
  "to_base64 [] = []"
| "to_base64 [x] = (let a = unat x in [b64_char (a div 4), b64_char (a mod 4 * 16), CHR ''='', CHR ''=''])"
| "to_base64 [x, y] = (let a = unat x; b = unat y in
     [b64_char (a div 4), b64_char (a mod 4 * 16 + b div 16), b64_char (b mod 16 * 4), CHR ''=''])"
| "to_base64 (x # y # z # r) = (let a = unat x; b = unat y; c = unat z in
     [b64_char (a div 4), b64_char (a mod 4 * 16 + b div 16), b64_char (b mod 16 * 4 + c div 64), b64_char (c mod 64)]
     @ to_base64 r)"

fun sextets_bytes :: "nat list \<Rightarrow> bytes" where
  "sextets_bytes (p # q # r # s # t) =
     [of_nat (p * 4 + q div 16), of_nat (q mod 16 * 16 + r div 4), of_nat (r mod 4 * 64 + s)] @ sextets_bytes t"
| "sextets_bytes [p, q, r] = [of_nat (p * 4 + q div 16), of_nat (q mod 16 * 16 + r div 4)]"
| "sextets_bytes [p, q] = [of_nat (p * 4 + q div 16)]"
| "sextets_bytes _ = []"

definition from_base64 :: "string \<Rightarrow> bytes" where
  "from_base64 s = sextets_bytes (List.map_filter b64_value s)"

fun hex_bytes :: "string \<Rightarrow> bytes" where
  "hex_bytes (h # l # r) = of_nat (16 * hex_value h + hex_value l) # hex_bytes r"
| "hex_bytes _ = []"

subsection \<open>Keys\<close>

definition KEY_LENGTH :: nat where "KEY_LENGTH = 32"
definition KEY_HEX_LENGTH :: nat where "KEY_HEX_LENGTH = KEY_LENGTH * 2"
definition LEGACY_VERSION :: nat where "LEGACY_VERSION = 1"

record key_config =
  kc_v1 :: "string option"
  kc_v2 :: "string option"
  kc_v3 :: "string option"
  kc_active :: nat
  kc_production :: bool

record key_cache =
  ck_keys :: "nat \<Rightarrow> bytes option"
  ck_active :: "nat option"

definition build_env_var_name :: "nat \<Rightarrow> string" where
  "build_env_var_name v = (if v = 1 then ''ENCRYPTION_KEY'' else ''ENCRYPTION_KEY_V'' @ show_nat v)"

definition get_config_key :: "key_config \<Rightarrow> nat \<Rightarrow> string option" where
  "get_config_key cfg v = (if v = 1 then kc_v1 cfg else if v = 2 then kc_v2 cfg else kc_v3 cfg)"

definition load_key_from_hex :: "string option \<Rightarrow> nat \<Rightarrow> error + bytes option" where
  "load_key_from_hex key_hex v =
     (let name = ''ENCRYPTION_KEY_V'' @ (if v = 1 then [] else show_nat v)
      in case truthy key_hex of
           None \<Rightarrow> Inr None
         | Some h \<Rightarrow>
             if length h \<noteq> KEY_HEX_LENGTH
             then Inl (EncryptionError (name @ '' must be exactly 64 hex characters (32 bytes). Got ''
               @ show_nat (length h) @ '' characters.''))
             else if \<not> list_all is_hex h then Inl (EncryptionError (name @ '' contains non-hex characters.''))
             else Inr (Some (hex_bytes h)))"

definition load_key_version :: "key_config \<Rightarrow> nat \<Rightarrow> error + bytes option" where
  "load_key_version cfg v = load_key_from_hex (get_config_key cfg v) v"

definition get_key_by_version :: "key_config \<Rightarrow> nat \<Rightarrow> key_cache \<Rightarrow> (bytes, key_cache) outcome" where
  "get_key_by_version cfg v st =
     (case ck_keys st v of
        Some k \<Rightarrow> (Inr k, st)
      | None \<Rightarrow>
          (case load_key_version cfg v of
             Inl e \<Rightarrow> (Inl e, st)
           | Inr None \<Rightarrow> (Inl (EncryptionError (''Encryption key version '' @ show_nat v @ '' is not configured. Set ''
               @ build_env_var_name v @ '' to a 64-character hex string.'')), st)
           | Inr (Some k) \<Rightarrow> (Inr k, st\<lparr>ck_keys := (ck_keys st)(v \<mapsto> k)\<rparr>)))"

definition get_active_key :: "key_config \<Rightarrow> key_cache \<Rightarrow> (nat \<times> bytes, key_cache) outcome" where
  "get_active_key cfg st =
     (let v = option_or (ck_active st) (kc_active cfg)
      in case get_key_by_version cfg v st of
           (Inl e, st') \<Rightarrow> (Inl e, st')
         | (Inr k, st') \<Rightarrow> (Inr (v, k), if ck_active st' = None then st'\<lparr>ck_active := Some v\<rparr> else st'))"

definition invalidate_key_cache :: "nat option \<Rightarrow> key_cache \<Rightarrow> key_cache" where
  "invalidate_key_cache which st =
     (case which of
        Some v \<Rightarrow> \<lparr>ck_keys = (ck_keys st)(v := None), ck_active = (if ck_active st = Some v then None else ck_active st)\<rparr>
      | None \<Rightarrow> \<lparr>ck_keys = Map.empty, ck_active = None\<rparr>)"

definition validate_encryption_config :: "key_config \<Rightarrow> error + unit" where
  "validate_encryption_config cfg =
     (case load_key_from_hex (kc_v1 cfg) 1 of
        Inl e \<Rightarrow> Inl e
      | Inr None \<Rightarrow> Inl (EncryptionError (''ENCRYPTION_KEY is not set. Generate with: node -e \"console.log(require(''
          @ [CHR 39] @ ''crypto'' @ [CHR 39] @ '').randomBytes(32).toString('' @ [CHR 39] @ ''hex'' @ [CHR 39] @ ''))\"''))
      | Inr (Some k1) \<Rightarrow>
          if list_all (\<lambda>b. b = 0) k1 \<and> kc_production cfg
          then Inl (EncryptionError (''ENCRYPTION_KEY is set to the all-zeros placeholder value in production. ''
            @ ''This is a critical security misconfiguration.''))
          else (case load_key_from_hex (kc_v2 cfg) 2 of
              Inl e \<Rightarrow> Inl e
            | Inr _ \<Rightarrow> (case load_key_from_hex (kc_v3 cfg) 3 of
                Inl e \<Rightarrow> Inl e
              | Inr _ \<Rightarrow> (case load_key_from_hex (get_config_key cfg (kc_active cfg)) (kc_active cfg) of
                  Inl e \<Rightarrow> Inl e
                | Inr None \<Rightarrow> Inl (EncryptionError (''Active encryption key version '' @ show_nat (kc_active cfg)
                    @ '' is not configured.''))
                | Inr (Some _) \<Rightarrow> Inr ()))))"

subsection \<open>The versioned envelope\<close>

record envelope =
  ev_version :: nat
  ev_iv :: bytes
  ev_auth_tag :: bytes
  ev_ciphertext :: bytes

definition envelope_of :: "nat \<Rightarrow> string \<Rightarrow> string \<Rightarrow> string \<Rightarrow> envelope" where
  "envelope_of v iv tag text = \<lparr>ev_version = v, ev_iv = from_base64 iv, ev_auth_tag = from_base64 tag,
     ev_ciphertext = from_base64 text\<rparr>"

definition version_prefix :: "string \<Rightarrow> (string \<times> string) option" where
  "version_prefix s =
     (case s of
        [] \<Rightarrow> None
      | c # r \<Rightarrow>
          let digits = takeWhile is_digit r
          in case dropWhile is_digit r of
               [] \<Rightarrow> None
             | d # rest \<Rightarrow> if c = CHR ''v'' \<and> digits \<noteq> [] \<and> d = CHR '':'' then Some (digits, rest) else None)"

definition parse_envelope :: "string \<Rightarrow> error + envelope" where
  "parse_envelope s =
     (case version_prefix s of
        Some (digits, rest) \<Rightarrow>
          if digits_value digits < 1 then Inl (EncryptionError (''Invalid key version in envelope: '' @ digits))
          else (case split_on (CHR '':'') rest of
              [iv, tag, text] \<Rightarrow> Inr (envelope_of (digits_value digits) iv tag text)
            | _ \<Rightarrow> Inl (EncryptionError ''Invalid versioned encrypted token format: expected v<N>:iv:authTag:ciphertext''))
      | None \<Rightarrow>
          (case split_on (CHR '':'') s of
             [iv, tag, text] \<Rightarrow> Inr (envelope_of LEGACY_VERSION iv tag text)
           | _ \<Rightarrow> Inl (EncryptionError (''Invalid encrypted token format: expected iv:authTag:ciphertext (legacy) ''
               @ ''or v<N>:iv:authTag:ciphertext (versioned)''))))"

definition encrypt_token :: "aead \<Rightarrow> key_config \<Rightarrow> bytes \<Rightarrow> string \<Rightarrow> key_cache \<Rightarrow> (string, key_cache) outcome" where
  "encrypt_token a cfg iv plaintext st =
     (case get_active_key cfg st of
        (Inl e, st') \<Rightarrow> (Inl e, st')
      | (Inr (v, k), st') \<Rightarrow>
          (case seal a k iv plaintext of
             (text, tag) \<Rightarrow> (Inr (join_on '':'' [CHR ''v'' # show_nat v, to_base64 iv, to_base64 tag, to_base64 text]), st')))"

definition decrypt_token :: "aead \<Rightarrow> key_config \<Rightarrow> string \<Rightarrow> key_cache \<Rightarrow> (string, key_cache) outcome" where
  "decrypt_token a cfg s st =
     (case parse_envelope s of
        Inl e \<Rightarrow> (Inl e, st)
      | Inr env \<Rightarrow>
          (case get_key_by_version cfg (ev_version env) st of
             (Inl e, st') \<Rightarrow> (Inl e, st')
           | (Inr k, st') \<Rightarrow>
               (case unseal a k (ev_iv env) (ev_auth_tag env) (ev_ciphertext env) of
                  None \<Rightarrow> (Inl (EncryptionError ''Unsupported state or unable to authenticate data''), st')
                | Some p \<Rightarrow> (Inr p, st'))))"

definition get_encrypted_key_version :: "string \<Rightarrow> nat" where
  "get_encrypted_key_version s = (case parse_envelope s of Inl _ \<Rightarrow> LEGACY_VERSION | Inr env \<Rightarrow> ev_version env)"

text \<open>
  Both services re-encrypt in the same way: nothing to do where the version is the active one,
  otherwise decrypt and encrypt again.
\<close>

definition re_encrypt_with :: "(string \<Rightarrow> error + nat) \<Rightarrow> nat \<Rightarrow> (string \<Rightarrow> 's \<Rightarrow> (string, 's) outcome)
    \<Rightarrow> (string \<Rightarrow> 's \<Rightarrow> (string, 's) outcome) \<Rightarrow> string \<Rightarrow> 's \<Rightarrow> (string option, 's) outcome" where
  "re_encrypt_with version active dec enc c s =
     (case version c of
        Inl e \<Rightarrow> (Inl e, s)
      | Inr v \<Rightarrow>
          if v = active then (Inr None, s)
          else (case dec c s of
              (Inl e, s') \<Rightarrow> (Inl e, s')
            | (Inr p, s') \<Rightarrow> (case enc p s' of (Inl e, s'') \<Rightarrow> (Inl e, s'') | (Inr c', s'') \<Rightarrow> (Inr (Some c'), s''))))"

definition re_encrypt_if_stale :: "aead \<Rightarrow> key_config \<Rightarrow> bytes \<Rightarrow> string \<Rightarrow> key_cache \<Rightarrow> (string option, key_cache) outcome" where
  "re_encrypt_if_stale a cfg iv = re_encrypt_with (\<lambda>c. Inr (get_encrypted_key_version c)) (kc_active cfg)
     (decrypt_token a cfg) (encrypt_token a cfg iv)"


subsection \<open>Encoding and decoding\<close>

lemma b64_value_char [simp]: "n < 64 \<Longrightarrow> b64_value (b64_char n) = Some n"
proof -
  assume n: "n < 64"
  have "b64_value CHR ''+'' = Some 62" "b64_value CHR ''/'' = Some 63" by code_simp+
  moreover have "(of_char (char_of k :: char) :: nat) = k" if "k < 128" for k :: nat
    using that by (simp add: of_char_of take_bit_eq_mod)
  moreover have "n = 62 \<or> n = 63" if "\<not> n < 62" using n that by linarith
  ultimately show ?thesis using n by (cases "n < 62") (auto simp: b64_char_def b64_value_def Let_def)
qed

lemma b64_char_colon [simp]: "n < 64 \<Longrightarrow> b64_char n \<noteq> CHR '':''"
proof
  assume "n < 64" "b64_char n = CHR '':''"
  moreover have "b64_value CHR '':'' = None" by code_simp
  ultimately show False using b64_value_char [of n] by simp
qed

lemma b64_pad [simp]: "b64_value CHR ''='' = None"
  by code_simp

lemma byte_bounds [simp]:
  fixes x :: "8 word"
  shows "unat x div 4 < 64" "unat x mod 4 * 16 < 64" "unat x mod 16 * 4 < 64" "unat x mod 64 < 64" "unat x div 64 < 4" "unat x div 16 < 16"
  using unsigned_less [of x, where 'a = nat] by (simp_all add: less_mult_imp_div_less)

lemma group_bounds:
  fixes x y :: "8 word"
  shows "unat x mod 4 * 16 + unat y div 16 < 64" "unat x mod 16 * 4 + unat y div 64 < 64"
proof -
  have "unat x mod 4 < 4" "unat x mod 16 < 16" by simp_all
  then show "unat x mod 4 * 16 + unat y div 16 < 64" "unat x mod 16 * 4 + unat y div 64 < 64"
    using byte_bounds(5,6) [of y] by linarith+
qed

lemma group_first: "k < 16 \<Longrightarrow> a div 4 * 4 + (a mod 4 * 16 + k) div 16 = a" for a :: nat
proof -
  assume "k < 16"
  then have "(a mod 4 * 16 + k) div 16 = a mod 4" by simp
  then show ?thesis using div_mult_mod_eq [of a 4] by simp
qed

lemma group_second: "h < 16 \<Longrightarrow> j < 4 \<Longrightarrow> (p * 16 + h) mod 16 * 16 + (l * 4 + j) div 4 = h * 16 + l" for p h l j :: nat
  by simp

lemma group_third: "t < 4 \<Longrightarrow> (l * 4 + t) mod 4 * 64 + m = t * 64 + m" for t :: nat
  by (metis add.commute mod_less mod_mult_self2 mult.commute)

lemma byte_parts:
  fixes x :: "8 word"
  shows "k < 16 \<Longrightarrow> of_nat (unat x div 4 * 4 + (unat x mod 4 * 16 + k) div 16) = x"
    and "j < 4 \<Longrightarrow> of_nat ((p * 16 + unat x div 16) mod 16 * 16 + (unat x mod 16 * 4 + j) div 4) = x"
    and "of_nat ((l * 4 + unat x div 64) mod 4 * 64 + unat x mod 64) = x"
  by (simp_all only: group_first group_second [OF byte_bounds(6)] group_third [OF byte_bounds(5)] div_mult_mod_eq) simp_all

lemma from_to_base64: "from_base64 (to_base64 bs) = bs"
proof (induction bs rule: to_base64.induct)
  case 1
  show ?case by (simp add: from_base64_def List.map_filter_def)
next
  case (2 x)
  show ?case using byte_parts(1) [of 0 x] by (simp add: from_base64_def Let_def map_filter_simps)
next
  case (3 x y)
  have "unat x mod 4 * 16 + unat y div 16 < 64" by (rule group_bounds)
  then show ?case using byte_parts(1) [of "unat y div 16" x] byte_parts(2) [of 0 "unat x mod 4" y]
    by (simp add: from_base64_def Let_def map_filter_simps)
next
  case (4 x y z r)
  have 1: "unat x mod 4 * 16 + unat y div 16 < 64" and 2: "unat y mod 16 * 4 + unat z div 64 < 64"
    by (rule group_bounds)+
  show ?case using 4 1 2 byte_parts(1) [of "unat y div 16" x] byte_parts(2) [of "unat z div 64" "unat x mod 4" y]
      byte_parts(3) [of "unat y mod 16" z]
    by (simp add: from_base64_def Let_def map_filter_simps)
qed

lemma to_base64_plain: "CHR '':'' \<notin> set (to_base64 bs)"
  by (induction bs rule: to_base64.induct)
    (auto simp: Let_def group_bounds dest: sym [where s = "CHR '':''"])


subsection \<open>Envelopes\<close>

definition make_envelope :: "nat \<Rightarrow> bytes \<Rightarrow> bytes \<Rightarrow> bytes \<Rightarrow> string" where
  "make_envelope v iv tag text = join_on '':'' [CHR ''v'' # show_nat v, to_base64 iv, to_base64 tag, to_base64 text]"

lemma colon_not_digit: "\<not> is_digit CHR '':''"
  by code_simp

lemma version_prefix_envelope:
  "version_prefix (make_envelope v iv tag text) = Some (show_nat v, join_on '':'' [to_base64 iv, to_base64 tag, to_base64 text])"
proof -
  have d: "list_all is_digit (show_nat v)" "show_nat v \<noteq> []" using show_nat_digits [of v] by simp_all
  have "takeWhile is_digit (show_nat v @ CHR '':'' # r) = show_nat v" "dropWhile is_digit (show_nat v @ CHR '':'' # r) = CHR '':'' # r" for r
    using d by (simp_all add: takeWhile_append2 dropWhile_append2 list_all_iff colon_not_digit)
  then show ?thesis using d by (simp add: version_prefix_def make_envelope_def Let_def)
qed

lemma parse_make_envelope:
  "0 < v \<Longrightarrow> parse_envelope (make_envelope v iv tag text) = Inr \<lparr>ev_version = v, ev_iv = iv, ev_auth_tag = tag, ev_ciphertext = text\<rparr>"
  using split_on_join [of "[to_base64 iv, to_base64 tag, to_base64 text]" "CHR '':''"]
  by (simp add: parse_envelope_def version_prefix_envelope envelope_of_def from_to_base64 to_base64_plain)

text \<open>An old envelope, without a version, is read as version 1 unless its text looks like one.\<close>

lemma parse_legacy_envelope:
  assumes "version_prefix (join_on '':'' [to_base64 iv, to_base64 tag, to_base64 text]) = None"
  shows "parse_envelope (join_on '':'' [to_base64 iv, to_base64 tag, to_base64 text])
    = Inr \<lparr>ev_version = 1, ev_iv = iv, ev_auth_tag = tag, ev_ciphertext = text\<rparr>"
  using assms split_on_join [of "[to_base64 iv, to_base64 tag, to_base64 text]" "CHR '':''"]
  by (simp add: parse_envelope_def envelope_of_def from_to_base64 to_base64_plain LEGACY_VERSION_def)

subsection \<open>The key cache\<close>

definition cache_ok :: "key_config \<Rightarrow> key_cache \<Rightarrow> bool" where
  "cache_ok cfg st = ((\<forall>v k. ck_keys st v = Some k \<longrightarrow> load_key_version cfg v = Inr (Some k))
     \<and> (\<forall>v. ck_active st = Some v \<longrightarrow> v = kc_active cfg))"

lemma hex_bytes_length: "even (length s) \<Longrightarrow> length (hex_bytes s) = length s div 2"
  by (induction s rule: hex_bytes.induct) auto

lemma load_key_length: "load_key_from_hex h v = Inr (Some k) \<Longrightarrow> length k = 32"
  by (auto simp: load_key_from_hex_def Let_def KEY_HEX_LENGTH_def KEY_LENGTH_def hex_bytes_length split: option.splits if_splits)

lemma get_key_cases:
  assumes "cache_ok cfg st"
  shows "case get_key_by_version cfg v st of
      (Inr k, st') \<Rightarrow> load_key_version cfg v = Inr (Some k) \<and> length k = 32 \<and> cache_ok cfg st'
    | (Inl _, st') \<Rightarrow> st' = st \<and> (\<forall>k. load_key_version cfg v \<noteq> Inr (Some k))"
  using assms
  by (auto simp: get_key_by_version_def cache_ok_def load_key_version_def intro: load_key_length split: option.splits sum.splits)

lemma get_key_Inr:
  "cache_ok cfg st \<Longrightarrow> load_key_version cfg v = Inr (Some k) \<Longrightarrow> \<exists>st'. get_key_by_version cfg v st = (Inr k, st') \<and> cache_ok cfg st'"
  using get_key_cases [of cfg st v] by (auto split: prod.splits sum.splits)

lemma get_key_active: "ck_active (snd (get_key_by_version cfg v st)) = ck_active st"
  by (auto simp: get_key_by_version_def split: option.splits sum.splits)

lemma get_active_key_Inr:
  assumes "cache_ok cfg st" and "load_key_version cfg (kc_active cfg) = Inr (Some k)"
  shows "\<exists>st'. get_active_key cfg st = (Inr (kc_active cfg, k), st') \<and> cache_ok cfg st'"
proof -
  have v: "option_or (ck_active st) (kc_active cfg) = kc_active cfg"
    using assms(1) by (cases "ck_active st") (auto simp: cache_ok_def)
  from get_key_Inr [OF assms] obtain st1 where g: "get_key_by_version cfg (kc_active cfg) st = (Inr k, st1)" and "cache_ok cfg st1" by blast
  moreover have "cache_ok cfg (st1\<lparr>ck_active := Some (kc_active cfg)\<rparr>)" using \<open>cache_ok cfg st1\<close> by (simp add: cache_ok_def)
  ultimately show ?thesis by (simp add: get_active_key_def Let_def v)
qed

lemma validated_active_key:
  "validate_encryption_config cfg = Inr () \<Longrightarrow> \<exists>k. load_key_version cfg (kc_active cfg) = Inr (Some k)"
  by (auto simp: validate_encryption_config_def load_key_version_def split: sum.splits option.splits if_splits)

lemma encrypt_token_make:
  assumes "cache_ok cfg st" and "load_key_version cfg (kc_active cfg) = Inr (Some k)"
  shows "\<exists>st'. encrypt_token a cfg iv p st = (Inr (make_envelope (kc_active cfg) iv (snd (seal a k iv p)) (fst (seal a k iv p))), st')
    \<and> cache_ok cfg st'"
proof -
  from get_active_key_Inr [OF assms] obtain st' where "get_active_key cfg st = (Inr (kc_active cfg, k), st')" "cache_ok cfg st'" by blast
  then show ?thesis by (cases "seal a k iv p") (simp add: encrypt_token_def make_envelope_def)
qed

lemma decrypt_token_make:
  assumes "aead_ok a" and "cache_ok cfg st" and "load_key_version cfg v = Inr (Some k)" and "0 < v" and "length iv = 12"
  shows "\<exists>st'. decrypt_token a cfg (make_envelope v iv (snd (seal a k iv p)) (fst (seal a k iv p))) st = (Inr p, st') \<and> cache_ok cfg st'"
proof -
  have "length k = 32" using assms(3) load_key_length by (simp add: load_key_version_def)
  then have "unseal a k iv (snd (seal a k iv p)) (fst (seal a k iv p)) = Some p" using assms(1,5) by (simp add: aead_ok_def)
  moreover from get_key_Inr [OF assms(2,3)] obtain st' where "get_key_by_version cfg v st = (Inr k, st')" "cache_ok cfg st'" by blast
  ultimately show ?thesis using assms(4) by (simp add: decrypt_token_def parse_make_envelope)
qed

subsection \<open>The interface of a crypto service\<close>

text \<open>
  What the callers of a crypto service rely on: in any later good state, a ciphertext made in a
  good state decrypts to its plaintext and carries the active version. \<open>ok\<close> are the states
  in which the service works.
\<close>

locale crypto_service =
  fixes ok :: "'s \<Rightarrow> bool" and enc :: "string \<Rightarrow> 's \<Rightarrow> (string, 's) outcome"
    and dec :: "string \<Rightarrow> 's \<Rightarrow> (string, 's) outcome" and version :: "string \<Rightarrow> error + nat" and active :: nat
  assumes encrypts: "ok s \<Longrightarrow> \<exists>c s'. enc p s = (Inr c, s') \<and> ok s' \<and> version c = Inr active"
    and decrypts: "ok s \<Longrightarrow> enc p s = (Inr c, s') \<Longrightarrow> ok t \<Longrightarrow> \<exists>t'. dec c t = (Inr p, t') \<and> ok t'"
begin

lemma roundtrip: "ok s \<Longrightarrow> \<exists>c s' s''. enc p s = (Inr c, s') \<and> dec c s' = (Inr p, s'')"
  using encrypts decrypts by blast

text \<open>Re-encryption of a readable ciphertext changes its version and not its plaintext.\<close>

lemma re_encryption:
  assumes "ok s" and "version c = Inr v" and "dec c s = (Inr p, s1)" and "ok s1"
  shows "\<exists>r s'. re_encrypt_with version active dec enc c s = (Inr r, s')
    \<and> (case r of None \<Rightarrow> v = active \<and> s' = s
       | Some c' \<Rightarrow> v \<noteq> active \<and> ok s' \<and> version c' = Inr active \<and> (\<forall>t. ok t \<longrightarrow> (\<exists>t'. dec c' t = (Inr p, t'))))"
proof (cases "v = active")
  case True
  then show ?thesis using assms(2) by (simp add: re_encrypt_with_def)
next
  case False
  from encrypts [OF assms(4)] obtain c' s' where e: "enc p s1 = (Inr c', s')" "ok s'" "version c' = Inr active" by blast
  have "\<exists>t'. dec c' t = (Inr p, t')" if "ok t" for t using decrypts [OF assms(4) e(1) that] by blast
  then show ?thesis using False assms(2,3) e by (simp add: re_encrypt_with_def)
qed

text \<open>A second run finds nothing to do.\<close>

lemma re_encryption_idempotent:
  assumes "re_encrypt_with version active dec enc c s = (Inr (Some c'), s')" and "version c' = Inr active"
  shows "re_encrypt_with version active dec enc c' t = (Inr None, t)"
  using assms(2) by (simp add: re_encrypt_with_def)

end

text \<open>The software service works in every state whose cache agrees with a valid configuration.\<close>

definition software_ok :: "aead \<Rightarrow> key_config \<Rightarrow> bytes \<Rightarrow> key_cache \<Rightarrow> bool" where
  "software_ok a cfg iv st = (aead_ok a \<and> length iv = 12 \<and> validate_encryption_config cfg = Inr () \<and> 0 < kc_active cfg \<and> cache_ok cfg st)"

interpretation software: crypto_service "software_ok a cfg iv" "encrypt_token a cfg iv" "decrypt_token a cfg"
  "\<lambda>c. Inr (get_encrypted_key_version c)" "kc_active cfg"
proof
  fix s p assume ok: "software_ok a cfg iv s"
  then obtain k where k: "load_key_version cfg (kc_active cfg) = Inr (Some k)" using validated_active_key by (auto simp: software_ok_def)
  from encrypt_token_make [OF _ k, of s a iv p] ok
  show "\<exists>c s'. encrypt_token a cfg iv p s = (Inr c, s') \<and> software_ok a cfg iv s'
      \<and> Inr (get_encrypted_key_version c) = Inr (kc_active cfg)"
    by (auto simp: software_ok_def get_encrypted_key_version_def parse_make_envelope)
  fix c s' t assume e: "encrypt_token a cfg iv p s = (Inr c, s')" and t: "software_ok a cfg iv t"
  have "c = make_envelope (kc_active cfg) iv (snd (seal a k iv p)) (fst (seal a k iv p))"
    using encrypt_token_make [OF _ k, of s a iv p] ok e by (auto simp: software_ok_def)
  then show "\<exists>t'. decrypt_token a cfg c t = (Inr p, t') \<and> software_ok a cfg iv t'"
    using decrypt_token_make [OF _ _ k, of a t iv p] t by (auto simp: software_ok_def)
qed


subsection \<open>Rotating keys\<close>

text \<open>
  C3: tokens survive key rotation. A token encrypted under a validated configuration carries
  the active version, and every later process, with any keys and active version in which the key
  of that version is unchanged and whatever its cache holds, decrypts it to the plaintext.
\<close>

theorem rotation_roundtrip:
  assumes "aead_ok a" and "length iv = 12" and "validate_encryption_config cfg = Inr ()" and "0 < kc_active cfg"
    and "cache_ok cfg st" and "cache_ok cfg' t"
    and "get_config_key cfg' (kc_active cfg) = get_config_key cfg (kc_active cfg)"
  shows "\<exists>c st' t'. encrypt_token a cfg iv p st = (Inr c, st') \<and> cache_ok cfg st'
    \<and> get_encrypted_key_version c = kc_active cfg \<and> decrypt_token a cfg' c t = (Inr p, t') \<and> cache_ok cfg' t'"
proof -
  from validated_active_key [OF assms(3)] obtain k where k: "load_key_version cfg (kc_active cfg) = Inr (Some k)" by blast
  then have k': "load_key_version cfg' (kc_active cfg) = Inr (Some k)" using assms(7) by (simp add: load_key_version_def)
  show ?thesis
    using encrypt_token_make [OF assms(5) k, of a iv p] decrypt_token_make [OF assms(1,6) k' assms(4,2), of p] assms(4)
    by (auto simp: get_encrypted_key_version_def parse_make_envelope)
qed

definition plain_aead :: aead where
  "plain_aead = \<lparr>seal = (\<lambda>k iv p. (map (\<lambda>c. of_nat (of_char c)) p, [])),
     unseal = (\<lambda>k iv tag text. Some (map (\<lambda>w. char_of (unat w)) text))\<rparr>"

lemma plain_aead_ok: "aead_ok plain_aead"
proof -
  have "char_of (unat (of_nat (of_char c) :: 8 word)) = c" for c :: char
  proof -
    have "(of_char c :: nat) < 256" by (cases c) (auto simp: of_char_def of_bool_def)
    then have "unat (of_nat (of_char c) :: 8 word) = (of_char c :: nat)" by (simp add: unat_of_nat)
    then show ?thesis by simp
  qed
  then show ?thesis by (simp add: aead_ok_def plain_aead_def map_idI)
qed

definition sample_keys :: "nat \<Rightarrow> key_config" where
  "sample_keys active = \<lparr>kc_v1 = Some (replicate 64 (CHR ''1'')), kc_v2 = Some (replicate 64 (CHR ''2'')),
     kc_v3 = Some (replicate 64 (CHR ''3'')), kc_active = active, kc_production = True\<rparr>"

definition empty_cache :: key_cache where
  "empty_cache = \<lparr>ck_keys = Map.empty, ck_active = None\<rparr>"

lemma empty_cache_ok: "cache_ok cfg empty_cache"
  by (simp add: cache_ok_def empty_cache_def)

lemma sample_keys_valid: "validate_encryption_config (sample_keys (Suc 0)) = Inr ()"
  by code_simp

theorem rotation_roundtrip_witness:
  "\<exists>c st' t'. encrypt_token plain_aead (sample_keys 1) (replicate 12 7) ''token'' empty_cache = (Inr c, st')
    \<and> decrypt_token plain_aead (sample_keys 2) c empty_cache = (Inr ''token'', t')"
proof -
  have "get_config_key (sample_keys 2) 1 = get_config_key (sample_keys 1) 1" "kc_active (sample_keys 1) = 1"
    by (simp_all add: get_config_key_def sample_keys_def)
  then show ?thesis
    using rotation_roundtrip [OF plain_aead_ok _ _ _ empty_cache_ok empty_cache_ok,
        of "replicate 12 7" "sample_keys 1" "sample_keys 2" "''token''"] sample_keys_valid
    by fastforce
qed

text \<open>
  Re-encryption changes the version and not the token. In a working state a token that
  decrypts is either under the active version, and left alone, or is replaced by one under the
  active version that decrypts to the same plaintext in every working state.
\<close>

lemma re_encryption_migrates:
  assumes "software_ok a cfg iv st" and "decrypt_token a cfg c st = (Inr p, st1)" and "software_ok a cfg iv st1"
  shows "\<exists>r st'. re_encrypt_if_stale a cfg iv c st = (Inr r, st')
    \<and> (case r of None \<Rightarrow> get_encrypted_key_version c = kc_active cfg \<and> st' = st
       | Some c' \<Rightarrow> get_encrypted_key_version c \<noteq> kc_active cfg \<and> get_encrypted_key_version c' = kc_active cfg
           \<and> (\<forall>t. software_ok a cfg iv t \<longrightarrow> (\<exists>t'. decrypt_token a cfg c' t = (Inr p, t')))
           \<and> (\<forall>iv' t. re_encrypt_if_stale a cfg iv' c' t = (Inr None, t)))"
  using software.re_encryption [OF assms(1) refl assms(2,3)]
  by (auto simp: re_encrypt_if_stale_def re_encrypt_with_def split: option.splits)

lemma re_encryption_migrates_witness:
  "\<exists>c st c' st'. encrypt_token plain_aead (sample_keys 1) (replicate 12 7) ''token'' empty_cache = (Inr c, st)
    \<and> re_encrypt_if_stale plain_aead (sample_keys 2) (replicate 12 9) c empty_cache = (Inr (Some c'), st')
    \<and> get_encrypted_key_version c' = 2"
proof -
  have valid: "validate_encryption_config (sample_keys (Suc (Suc 0))) = Inr ()" by code_simp
  have act: "kc_active (sample_keys n) = n" for n by (simp add: sample_keys_def)
  have ok: "software_ok plain_aead (sample_keys 2) (replicate 12 9) t" if "cache_ok (sample_keys 2) t" for t
    using valid that plain_aead_ok by (simp add: software_ok_def act numeral_2_eq_2)
  obtain k where k: "load_key_version (sample_keys 1) 1 = Inr (Some k)"
    using validated_active_key [OF sample_keys_valid] by (auto simp: act)
  have k2: "load_key_version (sample_keys 2) 1 = Inr (Some k)"
    using k by (simp add: load_key_version_def get_config_key_def sample_keys_def)
  have k1: "load_key_version (sample_keys 1) (kc_active (sample_keys 1)) = Inr (Some k)" using k by (simp add: act)
  from encrypt_token_make [OF empty_cache_ok k1, of plain_aead "replicate 12 7" "''token''"] obtain c st
    where e: "encrypt_token plain_aead (sample_keys 1) (replicate 12 7) ''token'' empty_cache = (Inr c, st)"
      and c: "c = make_envelope 1 (replicate 12 7) (snd (seal plain_aead k (replicate 12 7) ''token'')) (fst (seal plain_aead k (replicate 12 7) ''token''))"
    by (auto simp: act)
  from decrypt_token_make [OF plain_aead_ok empty_cache_ok k2, of "replicate 12 7" "''token''"] obtain t'
    where d: "decrypt_token plain_aead (sample_keys 2) c empty_cache = (Inr ''token'', t')" "cache_ok (sample_keys 2) t'" by (auto simp: c)
  have "get_encrypted_key_version c = 1" by (simp add: c get_encrypted_key_version_def parse_make_envelope)
  then show ?thesis
    using re_encryption_migrates [OF ok [OF empty_cache_ok] d(1) ok [OF d(2)]] e by (auto simp: act split: option.splits)
qed

text \<open>
  A version above 3 has no key of its own: it reads the key of version 3, although the error for
  a missing key names a variable of its own, so rotating from 3 to 4 keeps the old key in use.
\<close>

lemma version_four_uses_key_three:
  "3 \<le> v \<Longrightarrow> get_config_key cfg v = kc_v3 cfg \<and> load_key_version cfg v = Inr (Some k) \<longrightarrow> load_key_version cfg 3 = Inr (Some k)"
  by (auto simp: load_key_version_def load_key_from_hex_def get_config_key_def Let_def split: option.splits if_splits)

end
