(* ===== verification/Kms.thy ===== *)
theory Kms
  imports Encryption
begin

text \<open>
  \<open>KMSCryptoService\<close> of \<open>infrastructure/crypto/crypto-service.ts\<close>: envelope encryption
  with data keys wrapped by a key management service. That service is two operations on its own
  state: generating a data key with its wrapped form, and unwrapping. The service keeps the data
  key it encrypts with and a cache of unwrapped keys, both for a limited time. The dash in its
  messages is written as a full stop.
\<close>

record 'k kms_service =
  km_key_id :: "string option"
  km_key_version :: nat
  km_dek_cache_ttl_ms :: int
  km_generate :: "'k \<Rightarrow> (bytes option \<times> bytes option, 'k) outcome"
  km_unwrap :: "bytes \<Rightarrow> 'k \<Rightarrow> (bytes option, 'k) outcome"

record 'k kms_state =
  ks_active_dek :: "(bytes \<times> bytes \<times> time) option"
  ks_dek_cache :: "string \<Rightarrow> (bytes \<times> time) option"
  ks_remote :: 'k

definition kms_validate_config :: "'k kms_service \<Rightarrow> error + unit" where
  "kms_validate_config m = (if truthy (km_key_id m) = None
     then Inl (EncryptionError (''KMSCryptoService is not yet configured. Set KMS_KEY_ID to enable ''
       @ ''the KMS crypto backend (CRYPTO_BACKEND=kms).'')) else Inr ())"

definition kms_validate_connectivity :: "'k kms_service \<Rightarrow> 'k kms_state \<Rightarrow> (unit, 'k kms_state) outcome" where
  "kms_validate_connectivity m st =
     (if truthy (km_key_id m) = None
      then (Inl (EncryptionError ''KMSCryptoService is not yet configured. Set KMS_KEY_ID.''), st)
      else (case km_generate m (ks_remote st) of
          (Inr _, r) \<Rightarrow> (Inr (), st\<lparr>ks_remote := r\<rparr>)
        | (Inl e, r) \<Rightarrow> (Inl (EncryptionError (''KMS connectivity test failed. Verify KMS_KEY_ID, IAM permissions, ''
            @ ''network access, and encryption context: '' @ error_message e)), st\<lparr>ks_remote := r\<rparr>)))"

definition get_active_dek :: "'k kms_service \<Rightarrow> time \<Rightarrow> 'k kms_state \<Rightarrow> (bytes \<times> bytes, 'k kms_state) outcome" where
  "get_active_dek m now st =
     (case kms_validate_config m of
        Inl e \<Rightarrow> (Inl e, st)
      | Inr _ \<Rightarrow>
          (case (case ks_active_dek st of None \<Rightarrow> None | Some (b, k, t) \<Rightarrow> if t > now then Some (b, k) else None) of
             Some bk \<Rightarrow> (Inr bk, st)
           | None \<Rightarrow>
               (case km_generate m (ks_remote st) of
                  (Inl e, r) \<Rightarrow> (Inl e, st\<lparr>ks_remote := r\<rparr>)
                | (Inr (Some k, Some b), r) \<Rightarrow>
                    (Inr (b, k), st\<lparr>ks_remote := r, ks_active_dek := Some (b, k, now + km_dek_cache_ttl_ms m)\<rparr>)
                | (Inr _, r) \<Rightarrow> (Inl (EncryptionError ''KMS GenerateDataKey returned no key material.''), st\<lparr>ks_remote := r\<rparr>))))"

definition get_dek_plaintext :: "'k kms_service \<Rightarrow> time \<Rightarrow> string \<Rightarrow> 'k kms_state \<Rightarrow> (bytes, 'k kms_state) outcome" where
  "get_dek_plaintext m now wrapped st =
     (case kms_validate_config m of
        Inl e \<Rightarrow> (Inl e, st)
      | Inr _ \<Rightarrow>
          (case (case ks_dek_cache st wrapped of None \<Rightarrow> None | Some (k, t) \<Rightarrow> if t > now then Some k else None) of
             Some k \<Rightarrow> (Inr k, st)
           | None \<Rightarrow>
               (case km_unwrap m (from_base64 wrapped) (ks_remote st) of
                  (Inl e, r) \<Rightarrow> (Inl e, st\<lparr>ks_remote := r\<rparr>)
                | (Inr None, r) \<Rightarrow> (Inl (EncryptionError ''KMS Decrypt returned no key material.''), st\<lparr>ks_remote := r\<rparr>)
                | (Inr (Some k), r) \<Rightarrow>
                    (Inr k, st\<lparr>ks_remote := r, ks_dek_cache := (ks_dek_cache st)(wrapped \<mapsto> (k, now + km_dek_cache_ttl_ms m))\<rparr>))))"

definition kms_encrypt :: "aead \<Rightarrow> 'k kms_service \<Rightarrow> time \<Rightarrow> bytes \<Rightarrow> string \<Rightarrow> 'k kms_state \<Rightarrow> (string, 'k kms_state) outcome" where
  "kms_encrypt a m now iv plaintext st =
     (case get_active_dek m now st of
        (Inl e, st') \<Rightarrow> (Inl e, st')
      | (Inr (b, k), st') \<Rightarrow>
          (case seal a k iv plaintext of
             (text, tag) \<Rightarrow> (Inr (join_on '':'' [''kms'', show_nat (km_key_version m), to_base64 b, to_base64 iv,
                to_base64 tag, to_base64 text]), st')))"

definition kms_decrypt :: "aead \<Rightarrow> 'k kms_service \<Rightarrow> time \<Rightarrow> string \<Rightarrow> 'k kms_state \<Rightarrow> (string, 'k kms_state) outcome" where
  "kms_decrypt a m now s st =
     (case split_on (CHR '':'') s of
        [p0, _, wrapped, iv, tag, text] \<Rightarrow>
          if p0 \<noteq> ''kms'' then (Inl (EncryptionError ''Unsupported ciphertext format. Expected a KMS envelope.''), st)
          else (case get_dek_plaintext m now wrapped st of
              (Inl e, st') \<Rightarrow> (Inl e, st')
            | (Inr k, st') \<Rightarrow>
                (case unseal a k (from_base64 iv) (from_base64 tag) (from_base64 text) of
                   None \<Rightarrow> (Inl (EncryptionError ''Unsupported state or unable to authenticate data''), st')
                 | Some p \<Rightarrow> (Inr p, st')))
      | _ \<Rightarrow> (Inl (EncryptionError ''Unsupported ciphertext format. Expected a KMS envelope.''), st))"

definition kms_key_version_of :: "string \<Rightarrow> error + nat" where
  "kms_key_version_of s =
     (case split_on (CHR '':'') s of
        [p0, v, _, _, _, _] \<Rightarrow>
          if p0 \<noteq> ''kms'' then Inl (EncryptionError ''Unsupported ciphertext format. Expected a KMS envelope.'')
          else (case parse_int v of
              None \<Rightarrow> Inl (EncryptionError ''Invalid key version in KMS envelope.'')
            | Some n \<Rightarrow> if n < 1 then Inl (EncryptionError ''Invalid key version in KMS envelope.'') else Inr (nat n))
      | _ \<Rightarrow> Inl (EncryptionError ''Unsupported ciphertext format. Expected a KMS envelope.''))"

definition kms_re_encrypt_if_stale :: "aead \<Rightarrow> 'k kms_service \<Rightarrow> time \<Rightarrow> bytes \<Rightarrow> string \<Rightarrow> 'k kms_state
    \<Rightarrow> (string option, 'k kms_state) outcome" where
  "kms_re_encrypt_if_stale a m now iv s st =
     (if \<not> starts_with s ''kms:''
      then (Inl (EncryptionError (''Cannot re-encrypt a non-KMS envelope. ''
        @ ''Migrate software ciphertext before KMS cutover.'')), st)
      else re_encrypt_with kms_key_version_of (km_key_version m) (kms_decrypt a m now) (kms_encrypt a m now iv) s st)"

definition clear_caches :: "'k kms_state \<Rightarrow> 'k kms_state" where
  "clear_caches st = st\<lparr>ks_active_dek := None, ks_dek_cache := Map.empty\<rparr>"

subsection \<open>The service keeps the interface\<close>

text \<open>
  \<open>wraps b k\<close>: the blob \<open>b\<close> is the data key \<open>k\<close>, wrapped. What the key management
  service documents: it generates wrapped pairs of 32 bytes and unwraps a blob to its key.
\<close>

definition kms_reliable :: "'k kms_service \<Rightarrow> (bytes \<Rightarrow> bytes \<Rightarrow> bool) \<Rightarrow> bool" where
  "kms_reliable m wraps = (truthy (km_key_id m) \<noteq> None
     \<and> (\<forall>r. \<exists>k b r'. km_generate m r = (Inr (Some k, Some b), r') \<and> wraps b k)
     \<and> (\<forall>b k r. wraps b k \<longrightarrow> length k = 32 \<and> (\<exists>r'. km_unwrap m b r = (Inr (Some k), r'))))"

definition deks_ok :: "(bytes \<Rightarrow> bytes \<Rightarrow> bool) \<Rightarrow> 'k kms_state \<Rightarrow> bool" where
  "deks_ok wraps st = ((\<forall>b k t. ks_active_dek st = Some (b, k, t) \<longrightarrow> wraps b k)
     \<and> (\<forall>w k t. ks_dek_cache st w = Some (k, t) \<longrightarrow> wraps (from_base64 w) k))"

definition kms_ok :: "aead \<Rightarrow> 'k kms_service \<Rightarrow> (bytes \<Rightarrow> bytes \<Rightarrow> bool) \<Rightarrow> bytes \<Rightarrow> 'k kms_state \<Rightarrow> bool" where
  "kms_ok a m wraps iv st = (aead_ok a \<and> length iv = 12 \<and> kms_reliable m wraps
     \<and> (\<forall>b k k'. wraps b k \<longrightarrow> wraps b k' \<longrightarrow> k = k') \<and> 0 < km_key_version m \<and> deks_ok wraps st)"

lemma kms_config_ok: "kms_ok a m wraps iv st \<Longrightarrow> kms_validate_config m = Inr ()"
  by (simp add: kms_ok_def kms_reliable_def kms_validate_config_def)

lemma active_dek_Inr:
  assumes "kms_ok a m wraps iv st"
  shows "\<exists>b k st'. get_active_dek m now st = (Inr (b, k), st') \<and> wraps b k \<and> kms_ok a m wraps iv st'"
proof (cases "\<exists>b k t. ks_active_dek st = Some (b, k, t) \<and> t > now")
  case True
  then obtain b k t where "ks_active_dek st = Some (b, k, t)" "t > now" by blast
  then show ?thesis using assms kms_config_ok [OF assms] by (auto simp: get_active_dek_def kms_ok_def deks_ok_def)
next
  case False
  then have n: "(case ks_active_dek st of None \<Rightarrow> None | Some (b, k, t) \<Rightarrow> if t > now then Some (b, k) else None) = None"
    by (auto split: option.splits)
  from assms obtain k b r' where g: "km_generate m (ks_remote st) = (Inr (Some k, Some b), r')" "wraps b k"
    unfolding kms_ok_def kms_reliable_def by blast
  then show ?thesis using assms kms_config_ok [OF assms]
    by (simp add: get_active_dek_def n) (auto simp: kms_ok_def deks_ok_def)
qed

lemma dek_plaintext_Inr:
  assumes "kms_ok a m wraps iv st" and "wraps b k"
  shows "\<exists>st'. get_dek_plaintext m now (to_base64 b) st = (Inr k, st') \<and> kms_ok a m wraps iv st'"
proof (cases "\<exists>k' t. ks_dek_cache st (to_base64 b) = Some (k', t) \<and> t > now")
  case True
  then obtain k' t where c: "ks_dek_cache st (to_base64 b) = Some (k', t)" "t > now" by blast
  then have "wraps (from_base64 (to_base64 b)) k'" using assms(1) unfolding kms_ok_def deks_ok_def by blast
  then have "k' = k" using assms unfolding kms_ok_def by (metis from_to_base64)
  with c show ?thesis using assms(1) kms_config_ok [OF assms(1)] by (simp add: get_dek_plaintext_def)
next
  case False
  then have n: "(case ks_dek_cache st (to_base64 b) of None \<Rightarrow> None | Some (k, t) \<Rightarrow> if t > now then Some k else None) = None"
    by (auto split: option.splits)
  from assms obtain r' where u: "km_unwrap m b (ks_remote st) = (Inr (Some k), r')"
    unfolding kms_ok_def kms_reliable_def by blast
  then show ?thesis using assms kms_config_ok [OF assms(1)]
    by (simp add: get_dek_plaintext_def n from_to_base64) (auto simp: kms_ok_def deks_ok_def from_to_base64)
qed

definition kms_envelope :: "nat \<Rightarrow> bytes \<Rightarrow> bytes \<Rightarrow> bytes \<Rightarrow> bytes \<Rightarrow> string" where
  "kms_envelope v b iv tag text = join_on '':'' [''kms'', show_nat v, to_base64 b, to_base64 iv, to_base64 tag, to_base64 text]"

lemma split_kms_envelope:
  "split_on (CHR '':'') (kms_envelope v b iv tag text)
    = [''kms'', show_nat v, to_base64 b, to_base64 iv, to_base64 tag, to_base64 text]"
proof -
  have "CHR '':'' \<notin> set (show_nat v)" using show_nat_digits [of v] colon_not_digit by (auto simp: list_all_iff)
  then show ?thesis unfolding kms_envelope_def by (intro split_on_join) (simp_all add: to_base64_plain)
qed

lemma kms_version_envelope: "0 < v \<Longrightarrow> kms_key_version_of (kms_envelope v b iv tag text) = Inr v"
  by (simp add: kms_key_version_of_def split_kms_envelope parse_int_show)

interpretation kms: crypto_service "kms_ok a m wraps iv" "kms_encrypt a m now iv" "kms_decrypt a m now'"
  kms_key_version_of "km_key_version m"
proof
  fix s p assume ok: "kms_ok a m wraps iv s"
  from active_dek_Inr [OF ok, of now] obtain b k s' where g: "get_active_dek m now s = (Inr (b, k), s')" "wraps b k" "kms_ok a m wraps iv s'"
    by blast
  let ?c = "kms_envelope (km_key_version m) b iv (snd (seal a k iv p)) (fst (seal a k iv p))"
  have e: "kms_encrypt a m now iv p s = (Inr ?c, s')"
    by (cases "seal a k iv p") (simp add: kms_encrypt_def g(1) kms_envelope_def)
  then show "\<exists>c s'. kms_encrypt a m now iv p s = (Inr c, s') \<and> kms_ok a m wraps iv s' \<and> kms_key_version_of c = Inr (km_key_version m)"
    using g(3) kms_version_envelope by (auto simp: kms_ok_def)
  fix c s'' t assume "kms_encrypt a m now iv p s = (Inr c, s'')" and t: "kms_ok a m wraps iv t"
  then have c: "c = ?c" using e by simp
  from dek_plaintext_Inr [OF t g(2)] obtain t' where d: "get_dek_plaintext m now' (to_base64 b) t = (Inr k, t')" "kms_ok a m wraps iv t'" by blast
  have "length k = 32" "aead_ok a" "length iv = 12" using ok g(2) by (auto simp: kms_ok_def kms_reliable_def)
  then have "unseal a k iv (snd (seal a k iv p)) (fst (seal a k iv p)) = Some p" by (simp add: aead_ok_def)
  then show "\<exists>t'. kms_decrypt a m now' c t = (Inr p, t') \<and> kms_ok a m wraps iv t'"
    using d by (simp add: c kms_decrypt_def split_kms_envelope from_to_base64)
qed


text \<open>
  C22: the envelope of the key management service is read back by any process. A token encrypted
  at any time in a working state decrypts to its plaintext in every working state of every
  process, from a cached key, an expired one or none, and carries the service's version.
\<close>

theorem kms_roundtrip:
  assumes "kms_ok a m wraps iv s" and "kms_ok a m wraps iv t"
  shows "\<exists>c s'. kms_encrypt a m now iv p s = (Inr c, s') \<and> kms_ok a m wraps iv s'
    \<and> kms_key_version_of c = Inr (km_key_version m)
    \<and> (\<exists>t'. kms_decrypt a m later c t = (Inr p, t') \<and> kms_ok a m wraps iv t')
    \<and> (\<exists>t'. kms_decrypt a m later c (clear_caches t) = (Inr p, t'))"
proof -
  from kms.encrypts [OF assms(1)] obtain c s' where e: "kms_encrypt a m now iv p s = (Inr c, s')" "kms_ok a m wraps iv s'"
    "kms_key_version_of c = Inr (km_key_version m)" by blast
  have cl: "kms_ok a m wraps iv (clear_caches t)" using assms(2) by (simp add: kms_ok_def deks_ok_def clear_caches_def)
  show ?thesis
    using e kms.decrypts [OF assms(1) e(1) assms(2), where now' = later] kms.decrypts [OF assms(1) e(1) cl, where now' = later] by blast
qed

definition sample_kms :: "unit kms_service" where
  "sample_kms = \<lparr>km_key_id = Some ''arn'', km_key_version = 1, km_dek_cache_ttl_ms = 300000,
     km_generate = (\<lambda>r. (Inr (Some (replicate 32 5), Some [1, 2]), r)),
     km_unwrap = (\<lambda>b r. (Inr (if b = [1, 2] then Some (replicate 32 5) else None), r))\<rparr>"

theorem kms_roundtrip_witness:
  "\<exists>c s' t'. kms_encrypt plain_aead sample_kms 10 (replicate 12 7) ''token'' \<lparr>ks_active_dek = None, ks_dek_cache = Map.empty, ks_remote = ()\<rparr> = (Inr c, s')
    \<and> kms_decrypt plain_aead sample_kms 900000 c s' = (Inr ''token'', t')"
proof -
  let ?w = "\<lambda>b k. b = [1, 2] \<and> k = replicate 32 5" and ?s = "\<lparr>ks_active_dek = None, ks_dek_cache = Map.empty, ks_remote = ()\<rparr>"
  have ok: "kms_ok plain_aead sample_kms ?w (replicate 12 7) ?s"
    using plain_aead_ok by (simp add: kms_ok_def kms_reliable_def deks_ok_def sample_kms_def truthy_def)
  obtain c s' where e: "kms_encrypt plain_aead sample_kms 10 (replicate 12 7) ''token'' ?s = (Inr c, s')"
    "kms_ok plain_aead sample_kms ?w (replicate 12 7) s'"
    using kms_roundtrip [OF ok ok, of 10 "''token''" 900000] by blast
  then show ?thesis using kms_roundtrip [OF ok e(2), of 10 "''token''" 900000] by auto
qed

end
