(* ===== verification/Gmail_OAuth.thy ===== *)
theory Gmail_OAuth
  imports Oauth_State Kms Users
begin

text \<open>
  \<open>GmailOAuthService\<close> (\<open>services/gmail/auth/gmail-oauth.service.ts\<close>): from the callback to
  a stored connection, and access tokens refreshed on demand. Google's token and profile
  endpoints are operations on their own state, a crypto service is a pair of operations on its
  state; the credentials set on the client before a call are an argument of the call. Random
  bytes and fresh ids are arguments. Replica lag is not modelled.
\<close>

record mail_connection =
  mc_id :: uid
  mc_user_id :: uid
  mc_legacy_user_id :: string
  mc_provider :: string
  mc_email_address :: string
  mc_access_token :: string
  mc_refresh_token :: string
  mc_token_expiry :: time
  mc_scopes :: "string list"
  mc_status :: string
  mc_last_sync_at :: "time option"

record credentials =
  cd_access_token :: "string option"
  cd_refresh_token :: "string option"
  cd_expiry_date :: "time option"
  cd_scope :: "string option"

record google_tokens =
  gt_access_token :: string
  gt_refresh_token :: string
  gt_expiry_date :: time
  gt_scope :: string

record 'g google_ops =
  go_get_token :: "string \<Rightarrow> 'g \<Rightarrow> (credentials, 'g) outcome"
  go_refresh :: "string \<Rightarrow> 'g \<Rightarrow> (credentials, 'g) outcome"
  go_userinfo :: "string \<Rightarrow> 'g \<Rightarrow> (string option \<times> string option, 'g) outcome"

record 'c crypto_ops =
  co_encrypt :: "bytes \<Rightarrow> string \<Rightarrow> 'c \<Rightarrow> (string, 'c) outcome"
  co_decrypt :: "string \<Rightarrow> 'c \<Rightarrow> (string, 'c) outcome"

record ('g, 'c, 'b) oauth_world =
  od_connections :: "mail_connection list"
  od_accounts :: account_db
  od_google :: 'g
  od_crypto :: 'c
  od_states :: 'b

definition TOKEN_EXPIRY_BUFFER_MS :: int where "TOKEN_EXPIRY_BUFFER_MS = 5 * 60 * 1000"

definition GMAIL_SCOPES :: "string list" where
  "GMAIL_SCOPES = [''https://www.googleapis.com/auth/gmail.readonly'', ''https://www.googleapis.com/auth/userinfo.email'']"

text \<open>Running an operation on a part of the state.\<close>

definition with_google :: "('g \<Rightarrow> ('a, 'g) outcome) \<Rightarrow> ('g, 'c, 'b) oauth_world \<Rightarrow> ('a, ('g, 'c, 'b) oauth_world) outcome" where
  "with_google f w = (case f (od_google w) of (r, g) \<Rightarrow> (r, w\<lparr>od_google := g\<rparr>))"

definition with_crypto :: "('c \<Rightarrow> ('a, 'c) outcome) \<Rightarrow> ('g, 'c, 'b) oauth_world \<Rightarrow> ('a, ('g, 'c, 'b) oauth_world) outcome" where
  "with_crypto f w = (case f (od_crypto w) of (r, k) \<Rightarrow> (r, w\<lparr>od_crypto := k\<rparr>))"

definition find_connection :: "uid \<Rightarrow> ('g, 'c, 'b) oauth_world \<Rightarrow> mail_connection option" where
  "find_connection i w = find_row (\<lambda>c. mc_id c = i) (od_connections w)"

definition update_connection :: "uid \<Rightarrow> (mail_connection \<Rightarrow> mail_connection) \<Rightarrow> ('g, 'c, 'b) oauth_world \<Rightarrow> ('g, 'c, 'b) oauth_world" where
  "update_connection i f w = w\<lparr>od_connections := update_many (\<lambda>c. mc_id c = i) f (od_connections w)\<rparr>"

subsection \<open>Access tokens\<close>

definition request_refresh :: "'g google_ops \<Rightarrow> 'c crypto_ops \<Rightarrow> bytes \<Rightarrow> uid \<Rightarrow> string
    \<Rightarrow> ('g, 'c, 'b) oauth_world \<Rightarrow> (string \<times> time, ('g, 'c, 'b) oauth_world) outcome" where
  "request_refresh G C iv conn refresh_token w =
     (case with_google (go_refresh G refresh_token) w of
        (Inl e, w1) \<Rightarrow> (Inl e, w1)
      | (Inr cred, w1) \<Rightarrow>
          (case (truthy (cd_access_token cred), cd_expiry_date cred) of
             (Some token, Some expiry) \<Rightarrow>
               (case with_crypto (co_encrypt C iv token) w1 of
                  (Inl e, w2) \<Rightarrow> (Inl e, w2)
                | (Inr sealed, w2) \<Rightarrow> (Inr (token, expiry), update_connection conn
                    (\<lambda>c. c\<lparr>mc_access_token := sealed, mc_token_expiry := expiry, mc_status := ''ACTIVE''\<rparr>) w2))
           | _ \<Rightarrow> (Inl (TokenError ''Google returned empty credentials during refresh'' ''TOKEN_ERROR''), w1)))"

definition refresh_failure :: "error \<Rightarrow> error" where
  "refresh_failure e = (case e of TokenError m code \<Rightarrow> TokenError m code
     | _ \<Rightarrow> TokenError (''Failed to refresh access token: '' @ error_message e) ''TOKEN_ERROR'')"

definition refresh_access_token :: "'g google_ops \<Rightarrow> 'c crypto_ops \<Rightarrow> bytes \<Rightarrow> uid \<Rightarrow> uid
    \<Rightarrow> ('g, 'c, 'b) oauth_world \<Rightarrow> (string \<times> time, ('g, 'c, 'b) oauth_world) outcome" where
  "refresh_access_token G C iv user conn w =
     (case find_connection conn w of
        None \<Rightarrow> (Inl (NotFoundError ''UserEmailConnection'' conn), w)
      | Some c \<Rightarrow>
          if mc_user_id c \<noteq> user
          then (Inl (TokenError ''Unauthorized: connection does not belong to the requesting user'' ''TOKEN_ERROR''), w)
          else (case with_crypto (co_decrypt C (mc_refresh_token c)) w of
              (Inl e, w1) \<Rightarrow> (Inl e, w1)
            | (Inr refresh_token, w1) \<Rightarrow>
                (case request_refresh G C iv conn refresh_token w1 of
                   (Inr r, w2) \<Rightarrow> (Inr r, w2)
                 | (Inl e, w2) \<Rightarrow> (Inl (refresh_failure e), update_connection conn (\<lambda>c. c\<lparr>mc_status := ''ERROR''\<rparr>) w2))))"

definition get_valid_access_token :: "'g google_ops \<Rightarrow> 'c crypto_ops \<Rightarrow> time \<Rightarrow> bytes \<Rightarrow> uid \<Rightarrow> uid
    \<Rightarrow> ('g, 'c, 'b) oauth_world \<Rightarrow> (string, ('g, 'c, 'b) oauth_world) outcome" where
  "get_valid_access_token G C now iv user conn w =
     (case find_connection conn w of
        None \<Rightarrow> (Inl (NotFoundError ''UserEmailConnection'' conn), w)
      | Some c \<Rightarrow>
          if mc_user_id c \<noteq> user
          then (Inl (TokenError ''Unauthorized: connection does not belong to the requesting user'' ''TOKEN_ERROR''), w)
          else if mc_status c = ''REVOKED''
          then (Inl (TokenError ''This email connection has been revoked. Please reconnect.'' ''TOKEN_ERROR''), w)
          else if now \<ge> mc_token_expiry c - TOKEN_EXPIRY_BUFFER_MS
          then (case refresh_access_token G C iv user conn w of (Inl e, w1) \<Rightarrow> (Inl e, w1) | (Inr (token, _), w1) \<Rightarrow> (Inr token, w1))
          else with_crypto (co_decrypt C (mc_access_token c)) w)"

subsection \<open>The callback\<close>

definition oauth_failure :: "string \<Rightarrow> error \<Rightarrow> error" where
  "oauth_failure what e = (case e of OAuthError m code \<Rightarrow> OAuthError m code
     | _ \<Rightarrow> OAuthError (what @ error_message e) ''OAUTH_ERROR'')"

definition exchange_code_for_tokens :: "'g google_ops \<Rightarrow> time \<Rightarrow> string \<Rightarrow> ('g, 'c, 'b) oauth_world
    \<Rightarrow> (google_tokens, ('g, 'c, 'b) oauth_world) outcome" where
  "exchange_code_for_tokens G now code w =
     (case with_google (go_get_token G code) w of
        (Inl e, w1) \<Rightarrow> (Inl (oauth_failure ''Failed to exchange authorization code: '' e), w1)
      | (Inr cred, w1) \<Rightarrow>
          (case truthy (cd_access_token cred) of
             None \<Rightarrow> (Inl (OAuthError ''Google did not return an access token'' ''OAUTH_ERROR''), w1)
           | Some token \<Rightarrow>
               (case truthy (cd_refresh_token cred) of
                  None \<Rightarrow> (Inl (OAuthError (''Google did not return a refresh token. This may happen if the user has previously ''
                    @ ''authorized the app. Revoke access and try again.'') ''OAUTH_ERROR''), w1)
                | Some refresh \<Rightarrow> (Inr \<lparr>gt_access_token = token, gt_refresh_token = refresh,
                    gt_expiry_date = option_or (cd_expiry_date cred) (now + 3600 * 1000),
                    gt_scope = option_or (cd_scope cred) (join_on '' '' GMAIL_SCOPES)\<rparr>, w1))))"

definition fetch_user_profile :: "'g google_ops \<Rightarrow> string \<Rightarrow> ('g, 'c, 'b) oauth_world
    \<Rightarrow> (string \<times> string option, ('g, 'c, 'b) oauth_world) outcome" where
  "fetch_user_profile G access_token w =
     (case with_google (go_userinfo G access_token) w of
        (Inl e, w1) \<Rightarrow> (Inl (oauth_failure ''Failed to fetch Google profile: '' e), w1)
      | (Inr (email, name), w1) \<Rightarrow>
          (case truthy email of
             None \<Rightarrow> (Inl (OAuthError ''Could not retrieve email address from Google profile'' ''OAUTH_ERROR''), w1)
           | Some m \<Rightarrow> (Inr (m, name), w1)))"

record draws =
  dr_access_iv :: bytes
  dr_refresh_iv :: bytes
  dr_connection_id :: uid
  dr_user_ids :: "uid \<times> uid \<times> uid"

definition same_mailbox :: "string \<Rightarrow> string \<Rightarrow> mail_connection \<Rightarrow> bool" where
  "same_mailbox legacy email c = (mc_legacy_user_id c = legacy \<and> mc_provider c = ''GMAIL'' \<and> mc_email_address c = email)"

definition store_connection :: "'c crypto_ops \<Rightarrow> time \<Rightarrow> 'd draws_scheme \<Rightarrow> uid \<Rightarrow> google_tokens \<Rightarrow> string \<times> string option
    \<Rightarrow> ('g, 'c, 'b) oauth_world \<Rightarrow> (uid, ('g, 'c, 'b) oauth_world) outcome" where
  "store_connection C now d user tokens profile w =
     (case with_crypto (co_encrypt C (dr_access_iv d) (gt_access_token tokens)) w of
        (Inl e, w1) \<Rightarrow> (Inl e, w1)
      | (Inr access, w1) \<Rightarrow>
        (case with_crypto (co_encrypt C (dr_refresh_iv d) (gt_refresh_token tokens)) w1 of
           (Inl e, w2) \<Rightarrow> (Inl e, w2)
         | (Inr refresh, w2) \<Rightarrow>
           (let (fresh, fresh1, fresh2) = dr_user_ids d;
                scope = user_scope_for fresh user (od_accounts w2); owner = fst scope;
                scopes = split_on (CHR '' '') (gt_scope tokens);
                mine = same_mailbox user (fst profile);
                created = \<lparr>mc_id = dr_connection_id d, mc_user_id = owner, mc_legacy_user_id = user, mc_provider = ''GMAIL'',
                  mc_email_address = fst profile, mc_access_token = access, mc_refresh_token = refresh,
                  mc_token_expiry = gt_expiry_date tokens, mc_scopes = scopes, mc_status = ''ACTIVE'', mc_last_sync_at = None\<rparr>;
                updated = (\<lambda>c. c\<lparr>mc_user_id := owner, mc_access_token := access, mc_refresh_token := refresh,
                  mc_token_expiry := gt_expiry_date tokens, mc_scopes := scopes, mc_status := ''ACTIVE''\<rparr>)
            in if find_user owner (od_accounts w2) = None then (Inl (PrismaError ''P2003''), w2)
               else let (conn, rows) = (case find_row mine (od_connections w2) of
                        None \<Rightarrow> (dr_connection_id d, od_connections w2 @ [created])
                      | Some c \<Rightarrow> (mc_id c, update_many mine updated (od_connections w2)));
                    w3 = w2\<lparr>od_connections := rows\<rparr>
                  in (case update_profile id now fresh1 fresh2 user \<lparr>pu_full_name = snd profile, pu_phone = None, pu_location = None,
                        pu_timezone = None, pu_preferences = None, pu_career_goals = None\<rparr> (od_accounts w3) of
                      (Inl e, acc) \<Rightarrow> (Inl e, w3\<lparr>od_accounts := acc\<rparr>)
                    | (Inr _, acc) \<Rightarrow> (Inr conn, w3\<lparr>od_accounts := acc\<rparr>)))))"

definition handle_callback :: "(time \<Rightarrow> string \<Rightarrow> 'b \<Rightarrow> (oauth_entry option, 'b) outcome) \<Rightarrow> 'g google_ops \<Rightarrow> 'c crypto_ops
    \<Rightarrow> time \<Rightarrow> 'd draws_scheme \<Rightarrow> string \<Rightarrow> string \<Rightarrow> ('g, 'c, 'b) oauth_world \<Rightarrow> (uid \<times> string, ('g, 'c, 'b) oauth_world) outcome" where
  "handle_callback take_entry G C now d code state w =
     (case validate_and_consume take_entry now state (od_states w) of
        (Inl e, b) \<Rightarrow> (Inl e, w\<lparr>od_states := b\<rparr>)
      | (Inr user, b) \<Rightarrow>
        (case exchange_code_for_tokens G now code (w\<lparr>od_states := b\<rparr>) of
           (Inl e, w1) \<Rightarrow> (Inl e, w1)
         | (Inr tokens, w1) \<Rightarrow>
           (case fetch_user_profile G (gt_access_token tokens) w1 of
              (Inl e, w2) \<Rightarrow> (Inl e, w2)
            | (Inr profile, w2) \<Rightarrow>
              (case store_connection C now d user tokens profile w2 of
                 (Inl e, w3) \<Rightarrow> (Inl e, w3)
               | (Inr conn, w3) \<Rightarrow> (Inr (conn, fst profile), w3)))))"

definition get_authorization_url :: "(string \<Rightarrow> string) \<Rightarrow> (time \<Rightarrow> string \<Rightarrow> oauth_entry \<Rightarrow> 'b \<Rightarrow> (unit, 'b) outcome) \<Rightarrow> time \<Rightarrow> string
    \<Rightarrow> uid \<Rightarrow> 'b \<Rightarrow> (string, 'b) outcome" where
  "get_authorization_url url_for put now random user b =
     (case generate_state put now random user b of (Inl e, b') \<Rightarrow> (Inl e, b') | (Inr s, b') \<Rightarrow> (Inr (url_for s), b'))"

subsection \<open>Whose token it is\<close>

text \<open>What the token operations leave alone.\<close>

definition owner_view :: "mail_connection \<Rightarrow> uid \<times> uid \<times> string \<times> string \<times> string" where
  "owner_view c = (mc_id c, mc_user_id c, mc_legacy_user_id c, mc_email_address c, mc_refresh_token c)"

definition only_touches :: "uid \<Rightarrow> ('g, 'c, 'b) oauth_world \<Rightarrow> ('g, 'c, 'b) oauth_world \<Rightarrow> bool" where
  "only_touches conn w w' = ((\<forall>i. i \<noteq> conn \<longrightarrow> find_connection i w' = find_connection i w)
     \<and> map owner_view (od_connections w') = map owner_view (od_connections w)
     \<and> od_accounts w' = od_accounts w \<and> od_states w' = od_states w)"

lemma only_touches_refl [simp]: "only_touches conn w w"
  by (simp add: only_touches_def)

lemma only_touches_trans: "only_touches conn w w1 \<Longrightarrow> only_touches conn w1 w2 \<Longrightarrow> only_touches conn w w2"
  by (simp add: only_touches_def)

lemma only_touches_with:
  "only_touches conn w (snd (with_google f w))" "only_touches conn w (snd (with_crypto h w))"
  by (simp_all add: only_touches_def with_google_def with_crypto_def find_connection_def split: prod.split)

lemma only_touches_update:
  assumes "\<And>c. owner_view (f c) = owner_view c"
  shows "only_touches conn w (update_connection conn f w)"
proof -
  have idk: "mc_id (f c) = mc_id c" for c using assms [of c] by (simp add: owner_view_def)
  have "find_row (\<lambda>c. mc_id c = i) (update_many (\<lambda>c. mc_id c = conn) f rows) = find_row (\<lambda>c. mc_id c = i) rows" if "i \<noteq> conn" for i rows
    using that idk by (induction rows) auto
  then show ?thesis using assms
    by (simp add: only_touches_def update_connection_def find_connection_def map_update_many_key)
qed

lemma request_refresh_touches: "only_touches conn w (snd (request_refresh G C iv conn rt w))"
proof -
  obtain q w1 where q: "with_google (go_refresh G rt) w = (q, w1)" by fastforce
  then have 1: "only_touches conn w w1" using only_touches_with(1) [of conn w "go_refresh G rt"] by simp
  have 2: "only_touches conn w1 (snd (with_crypto h w1))" for h by (rule only_touches_with)
  show ?thesis
  proof (cases q)
    case (Inl e)
    then show ?thesis using q 1 by (simp add: request_refresh_def)
  next
    case (Inr cred)
    show ?thesis
    proof (cases "truthy (cd_access_token cred) = None \<or> cd_expiry_date cred = None")
      case True
      then show ?thesis using q 1 Inr by (auto simp: request_refresh_def split: option.split)
    next
      case False
      then obtain token expiry where t: "truthy (cd_access_token cred) = Some token" "cd_expiry_date cred = Some expiry" by auto
      obtain e w2 where e: "with_crypto (co_encrypt C iv token) w1 = (e, w2)" by fastforce
      then have "only_touches conn w w2" using 1 2 [of "co_encrypt C iv token"] only_touches_trans by simp
      then show ?thesis using q Inr t e
        by (cases e) (auto simp: request_refresh_def owner_view_def intro!: only_touches_trans [OF _ only_touches_update])
    qed
  qed
qed

lemma refresh_touches: "only_touches conn w (snd (refresh_access_token G C iv user conn w))"
proof (cases "find_connection conn w")
  case None
  then show ?thesis by (simp add: refresh_access_token_def)
next
  case (Some c)
  obtain d w1 where d: "with_crypto (co_decrypt C (mc_refresh_token c)) w = (d, w1)" by fastforce
  then have 1: "only_touches conn w w1" using only_touches_with(2) [of conn w "co_decrypt C (mc_refresh_token c)"] by simp
  have "only_touches conn w (snd (case request_refresh G C iv conn rt w1 of (Inr r, w2) \<Rightarrow> (Inr r, w2)
      | (Inl e, w2) \<Rightarrow> (Inl (refresh_failure e), update_connection conn (\<lambda>c. c\<lparr>mc_status := ''ERROR''\<rparr>) w2)))" for rt
    using only_touches_trans [OF 1 request_refresh_touches [of conn w1 G C iv rt]]
    by (auto simp: owner_view_def split: prod.split sum.split intro!: only_touches_trans [OF _ only_touches_update])
  then show ?thesis using Some d 1 by (auto simp: refresh_access_token_def split: sum.split)
qed

lemma access_token_frame: "only_touches conn w (snd (get_valid_access_token G C now iv user conn w))"
proof (cases "find_connection conn w")
  case None
  then show ?thesis by (simp add: get_valid_access_token_def)
next
  case (Some c)
  have "only_touches conn w (snd (case refresh_access_token G C iv user conn w of (Inl e, w1) \<Rightarrow> (Inl e, w1) | (Inr (t, _), w1) \<Rightarrow> (Inr t, w1)))"
    using refresh_touches [of conn w G C iv user] by (auto split: prod.split sum.split)
  then show ?thesis using Some only_touches_with(2) [of conn w]
    by (auto simp: get_valid_access_token_def)
qed

text \<open>
  C19: a token is only given out for the caller's own connection. Asking for a valid token
  succeeds only for an existing, not revoked connection of the asking user; whatever happens, no
  other connection changes, no connection changes owner, mailbox or refresh token, and accounts
  and pending states stay as they are.
\<close>

theorem access_token_isolation:
  "only_touches conn w (snd (get_valid_access_token G C now iv user conn w))
    \<and> (fst (get_valid_access_token G C now iv user conn w) = Inr token
        \<longrightarrow> (\<exists>c. find_connection conn w = Some c \<and> mc_user_id c = user \<and> mc_status c \<noteq> ''REVOKED''))"
  using access_token_frame [of conn w G C now iv user]
  by (auto simp: get_valid_access_token_def split: option.splits if_splits)

theorem access_token_isolation_witness:
  "let C = \<lparr>co_encrypt = (\<lambda>_ p k. (Inr p, k)), co_decrypt = (\<lambda>c k. (Inr c, k))\<rparr> :: unit crypto_ops;
       G = \<lparr>go_get_token = (\<lambda>_ g. (Inl (GenericError ''no''), g)), go_refresh = (\<lambda>_ g. (Inl (GenericError ''no''), g)),
         go_userinfo = (\<lambda>_ g. (Inl (GenericError ''no''), g))\<rparr> :: unit google_ops;
       c = \<lparr>mc_id = ''c'', mc_user_id = ''u'', mc_legacy_user_id = ''u'', mc_provider = ''GMAIL'', mc_email_address = ''m'',
         mc_access_token = ''at'', mc_refresh_token = ''rt'', mc_token_expiry = 900000, mc_scopes = [], mc_status = ''ACTIVE'', mc_last_sync_at = None\<rparr>;
       w = \<lparr>od_connections = [c], od_accounts = empty_accounts, od_google = (), od_crypto = (), od_states = ()\<rparr>
   in fst (get_valid_access_token G C 5 [] ''u'' ''c'' w) = Inr ''at'' \<and> (\<exists>c. find_connection ''c'' w = Some c \<and> mc_user_id c = ''u'')
     \<and> fst (get_valid_access_token G C 5 [] ''v'' ''c'' w) \<noteq> Inr ''at''"
proof -
  let ?C = "\<lparr>co_encrypt = (\<lambda>_ p k. (Inr p, k)), co_decrypt = (\<lambda>c k. (Inr c, k))\<rparr> :: unit crypto_ops"
  let ?G = "\<lparr>go_get_token = (\<lambda>_ g. (Inl (GenericError ''no''), g)), go_refresh = (\<lambda>_ g. (Inl (GenericError ''no''), g)),
         go_userinfo = (\<lambda>_ g. (Inl (GenericError ''no''), g))\<rparr> :: unit google_ops"
  let ?w = "\<lparr>od_connections = [\<lparr>mc_id = ''c'', mc_user_id = ''u'', mc_legacy_user_id = ''u'', mc_provider = ''GMAIL'', mc_email_address = ''m'',
         mc_access_token = ''at'', mc_refresh_token = ''rt'', mc_token_expiry = 900000, mc_scopes = [], mc_status = ''ACTIVE'', mc_last_sync_at = None\<rparr>],
         od_accounts = empty_accounts, od_google = (), od_crypto = (), od_states = ()\<rparr>"
  have a: "fst (get_valid_access_token ?G ?C 5 [] ''u'' ''c'' ?w) = Inr ''at''"
    by (simp add: get_valid_access_token_def find_connection_def TOKEN_EXPIRY_BUFFER_MS_def with_crypto_def)
  have f: "find_connection ''c'' ?w = Some (hd (od_connections ?w))" by (simp add: find_connection_def)
  show ?thesis
    using access_token_isolation [of "''c''" ?w ?G ?C 5 "[]" "''u''" "''at''"] access_token_isolation [of "''c''" ?w ?G ?C 5 "[]" "''v''" "''at''"] a f
    by (simp add: Let_def)
qed

end
