(* ===== verification/Reencryption.thy ===== *)
theory Reencryption
  imports Gmail_OAuth Deletion
begin

text \<open>
  The re-encryption worker (\<open>services/queue/workers/reencryption.worker.ts\<close>): it moves the
  tokens of stored connections to another key version, and how it works together with the
  refresh of access tokens. The rows it reads are the rows it then updates; random bytes are a
  function of the row and of the token that is sealed.
\<close>

definition re_seal :: "aead \<Rightarrow> key_config \<Rightarrow> bytes \<Rightarrow> bool \<Rightarrow> string \<Rightarrow> key_cache \<Rightarrow> (string, key_cache) outcome" where
  "re_seal a cfg iv needed token st =
     (if \<not> needed then (Inr token, st)
      else (case decrypt_token a cfg token st of
          (Inl e, st1) \<Rightarrow> (Inl e, st1)
        | (Inr p, st1) \<Rightarrow> encrypt_token a cfg iv p st1))"

text \<open>
  One record of the batch; a failure is logged and leaves the row.
\<close>

definition migrate_record :: "aead \<Rightarrow> key_config \<Rightarrow> (uid \<Rightarrow> bytes \<times> bytes) \<Rightarrow> nat \<Rightarrow> mail_connection
    \<Rightarrow> mail_connection list \<times> key_cache \<Rightarrow> mail_connection list \<times> key_cache" where
  "migrate_record a cfg ivs target rec state =
     (let (rows, st) = state;
          needs_access = get_encrypted_key_version (mc_access_token rec) \<noteq> target;
          needs_refresh = get_encrypted_key_version (mc_refresh_token rec) \<noteq> target
      in if \<not> needs_access \<and> \<not> needs_refresh then (rows, st)
         else (case re_seal a cfg (fst (ivs (mc_id rec))) needs_access (mc_access_token rec) st of
             (Inl _, st1) \<Rightarrow> (rows, st1)
           | (Inr access, st1) \<Rightarrow>
               (case re_seal a cfg (snd (ivs (mc_id rec))) needs_refresh (mc_refresh_token rec) st1 of
                  (Inl _, st2) \<Rightarrow> (rows, st2)
                | (Inr refresh, st2) \<Rightarrow>
                    (update_many (\<lambda>c. mc_id c = mc_id rec)
                       (\<lambda>c. c\<lparr>mc_access_token := (if needs_access then access else mc_access_token c),
                          mc_refresh_token := (if needs_refresh then refresh else mc_refresh_token c)\<rparr>) rows, st2))))"

definition process_re_encryption_job :: "aead \<Rightarrow> key_config \<Rightarrow> (uid \<Rightarrow> bytes \<times> bytes) \<Rightarrow> nat \<Rightarrow> nat \<Rightarrow> uid list
    \<Rightarrow> mail_connection list \<times> key_cache \<Rightarrow> mail_connection list \<times> key_cache" where
  "process_re_encryption_job a cfg ivs target batch_size ids state =
     (let records = take batch_size (find_many
            (\<lambda>c. if ids \<noteq> [] then mc_id c \<in> set ids else needs_re_encryption target (mc_access_token c)) (fst state))
      in fold (migrate_record a cfg ivs target) records state)"

subsection \<open>Decryption does not depend on the cache\<close>

definition plaintext_of :: "aead \<Rightarrow> key_config \<Rightarrow> string \<Rightarrow> error + string" where
  "plaintext_of a cfg token = fst (decrypt_token a cfg token empty_cache)"

lemma get_key_result:
  assumes "cache_ok cfg st"
  shows "fst (get_key_by_version cfg v st) = fst (get_key_by_version cfg v empty_cache)"
    and "cache_ok cfg (snd (get_key_by_version cfg v st))"
proof -
  show "cache_ok cfg (snd (get_key_by_version cfg v st))"
    using get_key_cases [OF assms, of v] assms by (auto split: prod.splits sum.splits)
  show "fst (get_key_by_version cfg v st) = fst (get_key_by_version cfg v empty_cache)"
    using assms by (auto simp: get_key_by_version_def cache_ok_def empty_cache_def split: option.splits sum.splits)
qed

lemma decrypt_result:
  assumes "cache_ok cfg st"
  shows "fst (decrypt_token a cfg token st) = plaintext_of a cfg token" and "cache_ok cfg (snd (decrypt_token a cfg token st))"
proof -
  have "fst (decrypt_token a cfg token st) = plaintext_of a cfg token \<and> cache_ok cfg (snd (decrypt_token a cfg token st))"
  proof (cases "parse_envelope token")
    case (Inl e)
    then show ?thesis using assms by (simp add: plaintext_of_def decrypt_token_def)
  next
    case (Inr env)
    obtain r s1 where g: "get_key_by_version cfg (ev_version env) st = (r, s1)" by fastforce
    obtain r0 s0 where g0: "get_key_by_version cfg (ev_version env) empty_cache = (r0, s0)" by fastforce
    have "r = r0" "cache_ok cfg s1" using get_key_result [OF assms, of "ev_version env"] g g0 by simp_all
    then show ?thesis using Inr g g0 by (simp add: plaintext_of_def decrypt_token_def split: sum.split option.split)
  qed
  then show "fst (decrypt_token a cfg token st) = plaintext_of a cfg token" "cache_ok cfg (snd (decrypt_token a cfg token st))" by simp_all
qed

text \<open>Sealing again keeps the plaintext and gives the active version.\<close>

definition seals_ok :: "aead \<Rightarrow> key_config \<Rightarrow> (uid \<Rightarrow> bytes \<times> bytes) \<Rightarrow> bool" where
  "seals_ok a cfg ivs = (aead_ok a \<and> validate_encryption_config cfg = Inr () \<and> 0 < kc_active cfg
     \<and> (\<forall>i. length (fst (ivs i)) = 12 \<and> length (snd (ivs i)) = 12))"

lemma re_seal_result:
  assumes "aead_ok a" and "validate_encryption_config cfg = Inr ()" and "0 < kc_active cfg" and "length iv = 12" and "cache_ok cfg st"
    and "re_seal a cfg iv needed token st = (r, st1)"
  shows "cache_ok cfg st1"
    and "case r of Inl e \<Rightarrow> needed \<and> (\<exists>e. plaintext_of a cfg token = Inl e)
      | Inr token' \<Rightarrow> plaintext_of a cfg token' = plaintext_of a cfg token
          \<and> (if needed then get_encrypted_key_version token' = kc_active cfg else token' = token)"
proof -
  have ok: "software_ok a cfg iv t" if "cache_ok cfg t" for t using that assms(1-4) by (simp add: software_ok_def)
  have "cache_ok cfg st1 \<and> (case r of Inl e \<Rightarrow> needed \<and> (\<exists>e. plaintext_of a cfg token = Inl e)
      | Inr token' \<Rightarrow> plaintext_of a cfg token' = plaintext_of a cfg token
          \<and> (if needed then get_encrypted_key_version token' = kc_active cfg else token' = token))"
  proof (cases needed)
    case False
    then show ?thesis using assms(5,6) by (auto simp: re_seal_def)
  next
    case needed: True
    obtain r1 s1 where d: "decrypt_token a cfg token st = (r1, s1)" by fastforce
    then have r1: "r1 = plaintext_of a cfg token" "cache_ok cfg s1" using decrypt_result [OF assms(5), of a token] by simp_all
    show ?thesis
    proof (cases r1)
      case (Inl e)
      then have "plaintext_of a cfg token = Inl e" using r1 by simp
      moreover have "r = Inl e" "st1 = s1" using needed d Inl assms(6) by (simp_all add: re_seal_def)
      ultimately show ?thesis using needed r1(2) by simp
    next
      case (Inr p)
      then have p: "plaintext_of a cfg token = Inr p" using r1 by simp
      from software.encrypts [OF ok [OF r1(2)], of p] obtain c s2 where e: "encrypt_token a cfg iv p s1 = (Inr c, s2)"
        "software_ok a cfg iv s2" "get_encrypted_key_version c = kc_active cfg" by auto
      have "plaintext_of a cfg c = Inr p"
        using software.decrypts [OF ok [OF r1(2)] e(1) ok [OF empty_cache_ok]] by (auto simp: plaintext_of_def)
      moreover have "r = Inr c" "st1 = s2" using needed d Inr e(1) assms(6) by (simp_all add: re_seal_def)
      ultimately show ?thesis using needed p e by (simp add: software_ok_def)
    qed
  qed
  then show "cache_ok cfg st1" and "case r of Inl e \<Rightarrow> needed \<and> (\<exists>e. plaintext_of a cfg token = Inl e)
      | Inr token' \<Rightarrow> plaintext_of a cfg token' = plaintext_of a cfg token
          \<and> (if needed then get_encrypted_key_version token' = kc_active cfg else token' = token)" by simp_all
qed

definition readable :: "aead \<Rightarrow> key_config \<Rightarrow> mail_connection \<Rightarrow> bool" where
  "readable a cfg c = ((\<exists>p. plaintext_of a cfg (mc_access_token c) = Inr p) \<and> (\<exists>p. plaintext_of a cfg (mc_refresh_token c) = Inr p))"

definition secrets :: "aead \<Rightarrow> key_config \<Rightarrow> mail_connection \<Rightarrow> uid \<times> (error + string) \<times> (error + string)" where
  "secrets a cfg c = (mc_id c, plaintext_of a cfg (mc_access_token c), plaintext_of a cfg (mc_refresh_token c))"

definition migrated :: "nat \<Rightarrow> mail_connection \<Rightarrow> bool" where
  "migrated v c = (get_encrypted_key_version (mc_access_token c) = v \<and> get_encrypted_key_version (mc_refresh_token c) = v)"

lemma migrate_record_result:
  assumes "seals_ok a cfg ivs" and "cache_ok cfg st" and "distinct (map mc_id rows)" and "rec \<in> set rows"
    and "migrate_record a cfg ivs (kc_active cfg) rec (rows, st) = (rows', st')"
  shows "cache_ok cfg st'" and "map (secrets a cfg) rows' = map (secrets a cfg) rows"
    and "c \<in> set rows \<Longrightarrow> mc_id c \<noteq> mc_id rec \<Longrightarrow> c \<in> set rows'"
    and "readable a cfg rec \<Longrightarrow> \<exists>c\<in>set rows'. mc_id c = mc_id rec \<and> migrated (kc_active cfg) c"
proof -
  let ?na = "get_encrypted_key_version (mc_access_token rec) \<noteq> kc_active cfg"
    and ?nr = "get_encrypted_key_version (mc_refresh_token rec) \<noteq> kc_active cfg"
  obtain ra s1 where a: "re_seal a cfg (fst (ivs (mc_id rec))) ?na (mc_access_token rec) st = (ra, s1)" by fastforce
  have iv: "aead_ok a" "validate_encryption_config cfg = Inr ()" "0 < kc_active cfg"
    "length (fst (ivs (mc_id rec))) = 12" "length (snd (ivs (mc_id rec))) = 12" using assms(1) by (simp_all add: seals_ok_def)
  note A = re_seal_result [OF iv(1-4) assms(2) a]
  obtain rr s2 where r: "re_seal a cfg (snd (ivs (mc_id rec))) ?nr (mc_refresh_token rec) s1 = (rr, s2)" by fastforce
  note R = re_seal_result [OF iv(1-3,5) A(1) r]
  define upd where "upd = (\<lambda>acc ref (c :: mail_connection). c\<lparr>mc_access_token := (if ?na then acc else mc_access_token c),
      mc_refresh_token := (if ?nr then ref else mc_refresh_token c)\<rparr>)"
  have same: "c = rec" if "c \<in> set rows" "mc_id c = mc_id rec" for c
    using distinct_key_unique [OF assms(3) that(1) assms(4) that(2)] .
  have cases: "(rows' = rows \<and> (?na \<or> ?nr) \<and> \<not> readable a cfg rec \<and> cache_ok cfg st') \<or> (rows' = rows \<and> \<not> ?na \<and> \<not> ?nr \<and> st' = st)
    \<or> (\<exists>acc ref. ra = Inr acc \<and> rr = Inr ref \<and> st' = s2 \<and> rows' = update_many (\<lambda>c. mc_id c = mc_id rec) (upd acc ref) rows)"
  proof (cases "?na \<or> ?nr")
    case False
    then show ?thesis using assms(5) by (simp add: migrate_record_def Let_def)
  next
    case True
    then show ?thesis using assms(5) a r A R
      by (cases ra; cases rr) (auto simp: migrate_record_def Let_def upd_def readable_def)
  qed
  then show "cache_ok cfg st'" using assms(2) R(1) by blast
  show "map (secrets a cfg) rows' = map (secrets a cfg) rows"
  proof -
    have "secrets a cfg (upd acc ref c) = secrets a cfg c" if "ra = Inr acc" "rr = Inr ref" "c \<in> set rows" "mc_id c = mc_id rec" for acc ref c
      using A(2) R(2) that same [OF that(3,4)] by (auto simp: secrets_def upd_def)
    then show ?thesis using cases by (auto simp: update_many_def)
  qed
  show "c \<in> set rows \<Longrightarrow> mc_id c \<noteq> mc_id rec \<Longrightarrow> c \<in> set rows'" using cases by (auto simp: set_update_many)
  assume readable: "readable a cfg rec"
  show "\<exists>c\<in>set rows'. mc_id c = mc_id rec \<and> migrated (kc_active cfg) c"
    using cases readable
  proof (elim disjE exE conjE)
    fix acc ref assume "ra = Inr acc" "rr = Inr ref" and rows': "rows' = update_many (\<lambda>c. mc_id c = mc_id rec) (upd acc ref) rows"
    then have "migrated (kc_active cfg) (upd acc ref rec)" using A(2) R(2) by (auto simp: migrated_def upd_def split: if_splits)
    moreover have "upd acc ref rec \<in> set rows'" "mc_id (upd acc ref rec) = mc_id rec"
      using assms(4) by (auto simp: rows' set_update_many upd_def image_iff)
    ultimately show ?thesis by blast
  next
    assume "rows' = rows" "\<not> ?na" "\<not> ?nr"
    then show ?thesis using assms(4) by (auto simp: migrated_def)
  qed simp_all
qed

lemma secrets_ids: "map (secrets a cfg) rows' = map (secrets a cfg) rows \<Longrightarrow> map mc_id rows' = map mc_id rows"
  by (drule arg_cong [where f = "map fst"]) (simp add: comp_def secrets_def)

lemma migrate_batch:
  assumes "seals_ok a cfg ivs" and "cache_ok cfg st" and "distinct (map mc_id rows)" and "distinct (map mc_id recs)" and "set recs \<subseteq> set rows"
    and "fold (migrate_record a cfg ivs (kc_active cfg)) recs (rows, st) = (rows', st')"
  shows "cache_ok cfg st' \<and> map (secrets a cfg) rows' = map (secrets a cfg) rows
    \<and> (\<forall>c\<in>set rows. mc_id c \<notin> mc_id ` set recs \<longrightarrow> c \<in> set rows')
    \<and> (\<forall>r\<in>set recs. readable a cfg r \<longrightarrow> (\<exists>c\<in>set rows'. mc_id c = mc_id r \<and> migrated (kc_active cfg) c))"
  using assms
proof (induction recs arbitrary: rows st)
  case Nil
  then show ?case by simp
next
  case (Cons r recs)
  obtain rows1 st1 where step: "migrate_record a cfg ivs (kc_active cfg) r (rows, st) = (rows1, st1)" by fastforce
  have "r \<in> set rows" using Cons.prems(5) by simp
  note M = migrate_record_result [OF Cons.prems(1-3) this step]
  have d1: "distinct (map mc_id rows1)" using secrets_ids [OF M(2)] Cons.prems(3) by simp
  have ne: "mc_id x \<noteq> mc_id r" if "x \<in> set recs" for x
    using Cons.prems(4) imageI [OF that, of mc_id] by auto
  have sub: "set recs \<subseteq> set rows1"
  proof
    fix x assume "x \<in> set recs"
    then show "x \<in> set rows1" using Cons.prems(5) ne M(3) [of x] by auto
  qed
  have IH: "cache_ok cfg st' \<and> map (secrets a cfg) rows' = map (secrets a cfg) rows1
    \<and> (\<forall>c\<in>set rows1. mc_id c \<notin> mc_id ` set recs \<longrightarrow> c \<in> set rows')
    \<and> (\<forall>r\<in>set recs. readable a cfg r \<longrightarrow> (\<exists>c\<in>set rows'. mc_id c = mc_id r \<and> migrated (kc_active cfg) c))"
    using Cons.prems(4,6) step by (intro Cons.IH [OF Cons.prems(1) M(1) d1 _ sub]) simp_all
  have first: "\<exists>c\<in>set rows'. mc_id c = mc_id r \<and> migrated (kc_active cfg) c" if "readable a cfg r"
  proof -
    from M(4) [OF that] obtain c where c: "c \<in> set rows1" "mc_id c = mc_id r" "migrated (kc_active cfg) c" by blast
    have "mc_id c \<notin> mc_id ` set recs" using c(2) ne by (metis imageE)
    then show ?thesis using IH c by blast
  qed
  have others: "c \<in> set rows'" if "c \<in> set rows" "mc_id c \<notin> mc_id ` set (r # recs)" for c
    using IH M(3) [OF that(1)] that(2) by auto
  show ?case using IH M(2) first others by (simp only: list.set) (metis insert_iff)
qed

lemma re_encryption_batch:
  assumes "seals_ok a cfg ivs" and "cache_ok cfg st" and "distinct (map mc_id rows)"
    and "process_re_encryption_job a cfg ivs (kc_active cfg) batch_size ids (rows, st) = (rows', st')"
  defines "selected \<equiv> take batch_size (find_many (\<lambda>c. if ids \<noteq> [] then mc_id c \<in> set ids
      else needs_re_encryption (kc_active cfg) (mc_access_token c)) rows)"
  shows "map (secrets a cfg) rows' = map (secrets a cfg) rows"
    and "\<forall>c\<in>set rows. c \<notin> set selected \<longrightarrow> c \<in> set rows'"
    and "\<forall>r\<in>set selected. readable a cfg r \<longrightarrow> (\<exists>c\<in>set rows'. mc_id c = mc_id r \<and> migrated (kc_active cfg) c)"
proof -
  let ?sel = "take batch_size (find_many (\<lambda>c. if ids \<noteq> [] then mc_id c \<in> set ids
      else needs_re_encryption (kc_active cfg) (mc_access_token c)) rows)"
  have sub: "set ?sel \<subseteq> set rows" using set_take_subset [of batch_size] by (fastforce simp: find_many_def)
  have dist: "distinct (map mc_id ?sel)"
    using assms(3) by (simp add: find_many_def distinct_map_filter take_map [symmetric])
  have "fold (migrate_record a cfg ivs (kc_active cfg)) ?sel (rows, st) = (rows', st')"
    using assms(4) by (simp add: process_re_encryption_job_def Let_def)
  note B = migrate_batch [OF assms(1-3) dist sub this]
  have "c \<in> set rows'" if "c \<in> set rows" "c \<notin> set ?sel" for c
  proof -
    have "mc_id c \<notin> mc_id ` set ?sel"
    proof
      assume "mc_id c \<in> mc_id ` set ?sel"
      then obtain r where "r \<in> set ?sel" "mc_id c = mc_id r" by (auto simp del: set_take_subset)
      moreover from this sub have "c = r" by (intro distinct_key_unique [OF assms(3) that(1)]) auto
      ultimately show False using that(2) by simp
    qed
    then show ?thesis using B that(1) by blast
  qed
  then show "map (secrets a cfg) rows' = map (secrets a cfg) rows" "\<forall>c\<in>set rows. c \<notin> set selected \<longrightarrow> c \<in> set rows'"
    "\<forall>r\<in>set selected. readable a cfg r \<longrightarrow> (\<exists>c\<in>set rows'. mc_id c = mc_id r \<and> migrated (kc_active cfg) c)"
    using B unfolding selected_def by blast+
qed

text \<open>
  C16: the worker moves keys and loses nothing. With the active version as its target, valid keys
  and distinct ids, a job keeps every row and what each of its tokens decrypts to, and each row
  it selects that is readable ends with both tokens under the active version; rows it does not
  select stay as they are.
\<close>

theorem re_encryption_job_keeps_secrets:
  assumes "seals_ok a cfg ivs" and "cache_ok cfg st" and "distinct (map mc_id rows)"
    and "process_re_encryption_job a cfg ivs (kc_active cfg) batch_size ids (rows, st) = (rows', st')"
  shows "map (secrets a cfg) rows' = map (secrets a cfg) rows \<and> (let selected = take batch_size (find_many (\<lambda>c. if ids \<noteq> [] then mc_id c \<in> set ids
          else needs_re_encryption (kc_active cfg) (mc_access_token c)) rows)
      in (\<forall>c\<in>set rows. c \<notin> set selected \<longrightarrow> c \<in> set rows')
        \<and> (\<forall>r\<in>set selected. readable a cfg r \<longrightarrow> (\<exists>c\<in>set rows'. mc_id c = mc_id r \<and> migrated (kc_active cfg) c)))"
  using re_encryption_batch [OF assms] by (simp add: Let_def)

subsection \<open>Refreshing and re-encrypting\<close>

text \<open>The crypto service of the token calls, made of the software functions.\<close>

definition software_crypto :: "aead \<Rightarrow> key_config \<Rightarrow> key_cache crypto_ops" where
  "software_crypto a cfg = \<lparr>co_encrypt = encrypt_token a cfg, co_decrypt = decrypt_token a cfg\<rparr>"

lemma encrypted_not_stale:
  assumes "software_ok a cfg iv st" and "encrypt_token a cfg iv p st = (Inr c, st')"
  shows "\<not> needs_re_encryption (kc_active cfg) c"
proof -
  from assms(1) obtain k where k: "load_key_version cfg (kc_active cfg) = Inr (Some k)" using validated_active_key by (auto simp: software_ok_def)
  have "c = make_envelope (kc_active cfg) iv (snd (seal a k iv p)) (fst (seal a k iv p))"
    using encrypt_token_make [OF _ k, of st a iv p] assms by (auto simp: software_ok_def)
  then have c: "c = (''v'' @ show_nat (kc_active cfg) @ '':'') @ join_on '':'' [to_base64 iv, to_base64 (snd (seal a k iv p)), to_base64 (fst (seal a k iv p))]"
    by (simp add: make_envelope_def)
  have "starts_with c (''v'' @ show_nat (kc_active cfg) @ '':'')" unfolding c by (rule starts_with_append)
  moreover have "starts_with c ''v''" unfolding c by simp
  ultimately show ?thesis by (simp add: needs_re_encryption_def)
qed

lemma refresh_Inr:
  assumes "refresh_access_token G (software_crypto a cfg) iv user conn w = (Inr r, w')" and "find_connection conn w = Some c"
    and "software_ok a cfg iv (od_crypto w)"
  shows "\<exists>token. od_connections w' = update_many (\<lambda>x. mc_id x = conn)
      (\<lambda>x. x\<lparr>mc_access_token := token, mc_token_expiry := snd r, mc_status := ''ACTIVE''\<rparr>) (od_connections w)
    \<and> \<not> needs_re_encryption (kc_active cfg) token"
proof -
  have ok: "software_ok a cfg iv t" if "cache_ok cfg t" for t using that assms(3) by (simp add: software_ok_def)
  obtain d k where d: "decrypt_token a cfg (mc_refresh_token c) (od_crypto w) = (d, k)" by fastforce
  have k: "software_ok a cfg iv k" using decrypt_result(2) [of cfg "od_crypto w" a "mc_refresh_token c"] assms(3) d ok by (simp add: software_ok_def)
  let ?w1 = "w\<lparr>od_crypto := k\<rparr>"
  obtain rt where rt: "d = Inr rt" and req: "request_refresh G (software_crypto a cfg) iv conn rt ?w1 = (Inr r, w')"
    using assms(1,2) d by (cases d) (auto simp: refresh_access_token_def with_crypto_def software_crypto_def split: sum.splits prod.splits if_splits)
  obtain q g where q: "go_refresh G rt (od_google w) = (q, g)" by fastforce
  with req obtain cred where "q = Inr cred" by (cases q) (auto simp: request_refresh_def with_google_def)
  with req q obtain token expiry where t: "truthy (cd_access_token cred) = Some token" "cd_expiry_date cred = Some expiry"
    by (auto simp: request_refresh_def with_google_def split: option.splits)
  obtain e k2 where e: "encrypt_token a cfg iv token k = (e, k2)" by fastforce
  with req q \<open>q = Inr cred\<close> t obtain sealed where s: "e = Inr sealed"
    by (cases e) (auto simp: request_refresh_def with_google_def with_crypto_def software_crypto_def)
  with req q \<open>q = Inr cred\<close> t e have "r = (token, expiry)" "od_connections w' = update_many (\<lambda>x. mc_id x = conn)
      (\<lambda>x. x\<lparr>mc_access_token := sealed, mc_token_expiry := expiry, mc_status := ''ACTIVE''\<rparr>) (od_connections w)"
    by (auto simp: request_refresh_def with_google_def with_crypto_def software_crypto_def update_connection_def)
  then show ?thesis using encrypted_not_stale [OF k] e s by auto
qed

text \<open>
  A refreshed connection is never migrated. Both the worker and the check that rotation is
  complete look at the access token only, and refreshing seals the access token under the active
  key but leaves the refresh token as it was: after a refresh the connection is not selected by
  any job over all connections, so its refresh token stays under its old version, and once the
  key of that version is gone no later refresh can read it.
\<close>

lemma refreshed_connection_not_migrated:
  assumes "software_ok a cfg iv (od_crypto w)" and "distinct (map mc_id (od_connections w))"
    and "find_connection conn w = Some c" and "refresh_access_token G (software_crypto a cfg) iv user conn w = (Inr r, w')"
    and "seals_ok a cfg ivs" and "cache_ok cfg st"
    and "process_re_encryption_job a cfg ivs (kc_active cfg) batch_size [] (od_connections w', st) = (rows', st')"
    and "get_config_key cfg' (get_encrypted_key_version (mc_refresh_token c)) = None" and "parse_envelope (mc_refresh_token c) = Inr env"
  shows "\<exists>c'\<in>set rows'. mc_id c' = conn \<and> mc_refresh_token c' = mc_refresh_token c
    \<and> \<not> needs_re_encryption (kc_active cfg) (mc_access_token c')
    \<and> throws (decrypt_token a cfg' (mc_refresh_token c') empty_cache)"
proof -
  have c: "c \<in> set (od_connections w)" "mc_id c = conn" using find_row_SomeD assms(3) by (fastforce simp: find_connection_def)+
  from refresh_Inr [OF assms(4,3,1)] obtain token where rows: "od_connections w' = update_many (\<lambda>x. mc_id x = conn)
      (\<lambda>x. x\<lparr>mc_access_token := token, mc_token_expiry := snd r, mc_status := ''ACTIVE''\<rparr>) (od_connections w)"
    and fresh: "\<not> needs_re_encryption (kc_active cfg) token" by blast
  let ?c = "c\<lparr>mc_access_token := token, mc_token_expiry := snd r, mc_status := ''ACTIVE''\<rparr>"
  have in_w': "?c \<in> set (od_connections w')" using c by (auto simp: rows set_update_many image_iff)
  have "map mc_id (od_connections w') = map mc_id (od_connections w)" by (simp add: rows map_update_many_key)
  then have dist: "distinct (map mc_id (od_connections w'))" using assms(2) by simp
  have "?c \<notin> set (take batch_size (find_many (\<lambda>c. needs_re_encryption (kc_active cfg) (mc_access_token c)) (od_connections w')))"
    using fresh by (auto simp: find_many_def dest!: in_set_takeD)
  then have "?c \<in> set rows'" using re_encryption_batch(2) [OF assms(5,6) dist assms(7)] in_w' by simp
  moreover have "throws (decrypt_token a cfg' (mc_refresh_token c) empty_cache)"
    using assms(8,9) by (simp add: decrypt_token_def get_key_by_version_def empty_cache_def load_key_version_def load_key_from_hex_def
        get_encrypted_key_version_def truthy_def throws_def)
  ultimately show ?thesis using c fresh by (intro bexI [of _ ?c]) auto
qed


text \<open>A connection with both tokens under version 1, the day version 2 becomes active.\<close>

definition rotated_token :: string where
  "rotated_token = make_envelope 1 (replicate 12 7) [] (map (\<lambda>c. of_nat (of_char c)) ''rt'')"

definition sample_connection :: mail_connection where
  "sample_connection = \<lparr>mc_id = ''c'', mc_user_id = ''u'', mc_legacy_user_id = ''u'', mc_provider = ''GMAIL'', mc_email_address = ''m'',
     mc_access_token = rotated_token, mc_refresh_token = rotated_token, mc_token_expiry = 0, mc_scopes = [], mc_status = ''ACTIVE'',
     mc_last_sync_at = None\<rparr>"

definition sample_google :: "unit google_ops" where
  "sample_google = \<lparr>go_get_token = (\<lambda>_ g. (Inl (GenericError ''no''), g)),
     go_refresh = (\<lambda>_ g. (Inr \<lparr>cd_access_token = Some ''at2'', cd_refresh_token = None, cd_expiry_date = Some 9, cd_scope = None\<rparr>, g)),
     go_userinfo = (\<lambda>_ g. (Inl (GenericError ''no''), g))\<rparr>"

definition sample_world :: "(unit, key_cache, unit) oauth_world" where
  "sample_world = \<lparr>od_connections = [sample_connection], od_accounts = empty_accounts, od_google = (), od_crypto = empty_cache, od_states = ()\<rparr>"

lemma sample_keys_valid_2: "validate_encryption_config (sample_keys 2) = Inr ()"
  unfolding numeral_2_eq_2 by code_simp

lemma rotated_token_reads:
  "parse_envelope rotated_token = Inr \<lparr>ev_version = 1, ev_iv = replicate 12 7, ev_auth_tag = [], ev_ciphertext = map (\<lambda>c. of_nat (of_char c)) ''rt''\<rparr>"
  "plaintext_of plain_aead (sample_keys 2) rotated_token = Inr ''rt''"
proof -
  show "parse_envelope rotated_token = Inr \<lparr>ev_version = 1, ev_iv = replicate 12 7, ev_auth_tag = [], ev_ciphertext = map (\<lambda>c. of_nat (of_char c)) ''rt''\<rparr>"
    unfolding rotated_token_def by (rule parse_make_envelope) simp
  have "get_config_key (sample_keys 2) 1 = get_config_key (sample_keys 1) 1" by (simp add: get_config_key_def sample_keys_def)
  then obtain k where k: "load_key_version (sample_keys 2) 1 = Inr (Some k)"
    using validated_active_key [OF sample_keys_valid] by (auto simp: load_key_version_def sample_keys_def)
  have "rotated_token = make_envelope 1 (replicate 12 7) (snd (seal plain_aead k (replicate 12 7) ''rt'')) (fst (seal plain_aead k (replicate 12 7) ''rt''))"
    by (simp add: rotated_token_def plain_aead_def)
  then show "plaintext_of plain_aead (sample_keys 2) rotated_token = Inr ''rt''"
    using decrypt_token_make [OF plain_aead_ok empty_cache_ok k, of "replicate 12 7" "''rt''"] by (auto simp: plaintext_of_def)
qed

lemma sample_seals_ok: "seals_ok plain_aead (sample_keys 2) (\<lambda>_. (replicate 12 1, replicate 12 2))"
  using plain_aead_ok sample_keys_valid_2 by (simp add: seals_ok_def sample_keys_def)

theorem re_encryption_job_keeps_secrets_witness:
  "\<exists>c st'. process_re_encryption_job plain_aead (sample_keys 2) (\<lambda>_. (replicate 12 1, replicate 12 2)) 2 50 [''c'']
      ([sample_connection], empty_cache) = ([c], st')
    \<and> migrated 2 c \<and> secrets plain_aead (sample_keys 2) c = (''c'', Inr ''rt'', Inr ''rt'')"
proof -
  obtain rows' st' where job: "process_re_encryption_job plain_aead (sample_keys 2) (\<lambda>_. (replicate 12 1, replicate 12 2)) 2 50 [''c'']
      ([sample_connection], empty_cache) = (rows', st')" by fastforce
  have act: "kc_active (sample_keys 2) = 2" by (simp add: sample_keys_def)
  have r: "readable plain_aead (sample_keys 2) sample_connection"
    using rotated_token_reads(2) by (simp add: readable_def sample_connection_def)
  show ?thesis
    using re_encryption_job_keeps_secrets [OF sample_seals_ok empty_cache_ok, of "[sample_connection]" 50 "[''c'']" rows' st'] job r
      rotated_token_reads(2)
    by (auto simp: act Let_def find_many_def sample_connection_def secrets_def)
qed

lemma refreshed_connection_not_migrated_witness:
  "\<exists>w' rows' st' c'. refresh_access_token sample_google (software_crypto plain_aead (sample_keys 2)) (replicate 12 3) ''u'' ''c'' sample_world = (Inr (''at2'', 9), w')
    \<and> process_re_encryption_job plain_aead (sample_keys 2) (\<lambda>_. (replicate 12 1, replicate 12 2)) 2 50 [] (od_connections w', empty_cache) = (rows', st')
    \<and> c' \<in> set rows' \<and> throws (decrypt_token plain_aead ((sample_keys 2)\<lparr>kc_v1 := None\<rparr>) (mc_refresh_token c') empty_cache)"
proof -
  have act: "kc_active (sample_keys 2) = 2" by (simp add: sample_keys_def)
  have ok: "software_ok plain_aead (sample_keys 2) (replicate 12 3) t" if "cache_ok (sample_keys 2) t" for t
    using plain_aead_ok sample_keys_valid_2 that by (simp add: software_ok_def act)
  have f: "find_connection ''c'' sample_world = Some sample_connection"
    by (simp add: find_connection_def sample_world_def sample_connection_def)
  obtain k where d: "decrypt_token plain_aead (sample_keys 2) rotated_token empty_cache = (Inr ''rt'', k)" "cache_ok (sample_keys 2) k"
    using decrypt_result [OF empty_cache_ok [of "sample_keys 2"], of plain_aead rotated_token] rotated_token_reads(2)
    by (cases "decrypt_token plain_aead (sample_keys 2) rotated_token empty_cache") simp
  from software.encrypts [OF ok [OF d(2)], of "''at2''"] obtain sealed k2
    where e: "encrypt_token plain_aead (sample_keys 2) (replicate 12 3) ''at2'' k = (Inr sealed, k2)" by blast
  obtain w' where w: "refresh_access_token sample_google (software_crypto plain_aead (sample_keys 2)) (replicate 12 3) ''u'' ''c'' sample_world = (Inr (''at2'', 9), w')"
    using f d e by (simp add: refresh_access_token_def request_refresh_def with_crypto_def with_google_def software_crypto_def
        sample_google_def sample_world_def sample_connection_def truthy_def)
  obtain rows' st' where job: "process_re_encryption_job plain_aead (sample_keys 2) (\<lambda>_. (replicate 12 1, replicate 12 2)) 2 50 []
      (od_connections w', empty_cache) = (rows', st')" by fastforce
  have v: "get_encrypted_key_version (mc_refresh_token sample_connection) = 1" "parse_envelope (mc_refresh_token sample_connection) = parse_envelope rotated_token"
    by (simp_all add: sample_connection_def get_encrypted_key_version_def rotated_token_reads(1))
  from refreshed_connection_not_migrated [OF _ _ f w sample_seals_ok empty_cache_ok, of 50 rows' st' "(sample_keys 2)\<lparr>kc_v1 := None\<rparr>"] job
  have "\<exists>c'\<in>set rows'. throws (decrypt_token plain_aead ((sample_keys 2)\<lparr>kc_v1 := None\<rparr>) (mc_refresh_token c') empty_cache)"
    using ok [OF empty_cache_ok] v by (auto simp: act rotated_token_reads(1) get_config_key_def sample_world_def)
  then show ?thesis using w job by blast
qed

end
