(* ===== verification/Gmail_Ingestion.thy ===== *)
theory Gmail_Ingestion
  imports Checkpoints Gmail_Client Gmail_OAuth Job_Queue
begin

text \<open>
  \<open>GmailIngestionService\<close> with its fetcher and normalizer (\<open>services/gmail/ingestion\<close>): the
  initial and the incremental synchronization of a mailbox, over the durable checkpoints, the
  token service, the Gmail client and the email table. What it calls beyond these is an
  operation on the outside state: committing the transaction that stores an email, the user's
  placement, the depths of the queues, and the classifier and application tracking of the
  synchronous mode. Fresh ids come from a counter; \<open>now\<close> is the time of the call. The steps of
  other workers are in theory \<open>Checkpoints\<close>; here one worker runs.
\<close>

record normalized_email =
  ne_provider_message_id :: string
  ne_thread_id :: string
  ne_from :: string
  ne_to :: "string list"
  ne_subject :: string
  ne_body_text :: "string option"
  ne_body_html :: "string option"
  ne_labels :: "string list"
  ne_received_at :: time

definition normalize :: "gmail_message \<Rightarrow> normalized_email" where
  "normalize m = \<lparr>ne_provider_message_id = gm_id m, ne_thread_id = gm_thread_id m,
     ne_from = (if gm_sender m = [] then ''Unknown Sender'' else gm_sender m), ne_to = rc_to (gm_recipients m),
     ne_subject = take 500 (gm_subject m), ne_body_text = map_option trim (truthy (gm_body_text m)),
     ne_body_html = map_option trim (truthy (gm_body_html m)), ne_labels = gm_label_ids m, ne_received_at = gm_received_at m\<rparr>"

definition normalize_batch :: "gmail_message list \<Rightarrow> normalized_email list" where
  "normalize_batch ms = map normalize ms"

record stored_email =
  se_id :: uid
  se_user_id :: uid
  se_legacy_user_id :: string
  se_connection_id :: uid
  se_email :: normalized_email

record sync_state_row =
  ss_user_id :: uid
  ss_legacy_user_id :: string
  ss_connection_id :: uid
  ss_history_id :: string
  ss_last_synced_at :: time

record 's mail_client =
  ml_profile :: "'s \<Rightarrow> (gmail_profile, 's) outcome"
  ml_list :: "list_messages_options \<Rightarrow> 's \<Rightarrow> (list_messages_result, 's) outcome"
  ml_get :: "string \<Rightarrow> 's \<Rightarrow> (gmail_message, 's) outcome"
  ml_history :: "string \<Rightarrow> string option \<Rightarrow> 's \<Rightarrow> (gmail_history_result, 's) outcome"

text \<open>The client of theory \<open>Gmail_Client\<close>, with its circuit breaker.\<close>

definition gmail_mail_client :: "(breaker \<Rightarrow> breaker) \<Rightarrow> time \<Rightarrow> (nat \<Rightarrow> int) \<Rightarrow> 's gmail_api \<Rightarrow> date_codec \<Rightarrow> (breaker \<times> 's) mail_client" where
  "gmail_mail_client env started durations api codec = \<lparr>ml_profile = get_profile env started durations api,
     ml_list = list_messages env started durations api, ml_get = get_message env started durations api codec,
     ml_history = (\<lambda>start page. get_history env started durations api start None page)\<rparr>"

record ('g, 'c, 's) services =
  sv_google :: "'g google_ops"
  sv_crypto :: "'c crypto_ops"
  sv_iv :: bytes
  sv_client :: "string \<Rightarrow> 's mail_client"
  sv_resolve :: "uid \<Rightarrow> uid"
  sv_worker :: string
  sv_sha256 :: "string \<Rightarrow> string"
  sv_uuid :: "nat \<Rightarrow> uid"
  sv_commit :: "string \<Rightarrow> 's \<Rightarrow> (unit, 's) outcome"
  sv_async :: bool
  sv_cell_of :: "uid \<Rightarrow> 's \<Rightarrow> (string, 's) outcome"
  sv_depths :: "'s \<Rightarrow> (nat list, 's) outcome"
  sv_depth_limit :: nat
  sv_classify :: "normalized_email \<Rightarrow> 's \<Rightarrow> (string, 's) outcome"
  sv_track_application :: "normalized_email \<Rightarrow> string \<Rightarrow> uid \<Rightarrow> 's \<Rightarrow> (unit, 's) outcome"

record ('g, 'c, 'b, 's) ingest =
  ig_oauth :: "('g, 'c, 'b) oauth_world"
  ig_sync :: sync_db
  ig_emails :: "stored_email list"
  ig_states :: "sync_state_row list"
  ig_queue :: "tracking_payload queued_job list"
  ig_fresh :: nat
  ig_world :: 's

definition on_world :: "('s \<Rightarrow> ('a, 's) outcome) \<Rightarrow> ('g, 'c, 'b, 's) ingest \<Rightarrow> ('a, ('g, 'c, 'b, 's) ingest) outcome" where
  "on_world f st = (case f (ig_world st) of (r, s) \<Rightarrow> (r, st\<lparr>ig_world := s\<rparr>))"

definition on_sync :: "(sync_db \<Rightarrow> ('a, sync_db) outcome) \<Rightarrow> ('g, 'c, 'b, 's) ingest \<Rightarrow> ('a, ('g, 'c, 'b, 's) ingest) outcome" where
  "on_sync f st = (case f (ig_sync st) of (r, d) \<Rightarrow> (r, st\<lparr>ig_sync := d\<rparr>))"

definition on_oauth :: "(('g, 'c, 'b) oauth_world \<Rightarrow> ('a, ('g, 'c, 'b) oauth_world) outcome) \<Rightarrow> ('g, 'c, 'b, 's) ingest
    \<Rightarrow> ('a, ('g, 'c, 'b, 's) ingest) outcome" where
  "on_oauth f st = (case f (ig_oauth st) of (r, w) \<Rightarrow> (r, st\<lparr>ig_oauth := w\<rparr>))"

subsection \<open>Fetching\<close>

definition FETCH_BATCH_SIZE :: nat where "FETCH_BATCH_SIZE = 10"

text \<open>The messages of one chunk; a failed one is logged and left out.\<close>

fun fetch_chunk :: "'s mail_client \<Rightarrow> gmail_message_ref list \<Rightarrow> 's \<Rightarrow> gmail_message list \<times> 's" where
  "fetch_chunk c [] s = ([], s)"
| "fetch_chunk c (r # rs) s =
     (case ml_get c (mr_id r) s of
        (Inl _, s1) \<Rightarrow> fetch_chunk c rs s1
      | (Inr m, s1) \<Rightarrow> (case fetch_chunk c rs s1 of (ms, s2) \<Rightarrow> (m # ms, s2)))"

function fetch_messages_in_batches :: "'s mail_client \<Rightarrow> gmail_message_ref list \<Rightarrow> 's \<Rightarrow> gmail_message list \<times> 's" where
  "fetch_messages_in_batches c refs s =
     (if refs = [] then ([], s)
      else (case fetch_chunk c (take FETCH_BATCH_SIZE refs) s of
          (ms, s1) \<Rightarrow> (case fetch_messages_in_batches c (drop FETCH_BATCH_SIZE refs) s1 of (ms', s2) \<Rightarrow> (ms @ ms', s2))))"
  by pat_completeness auto
termination by (relation "measure (\<lambda>(_, refs, _). length refs)") (auto simp: FETCH_BATCH_SIZE_def)

declare fetch_messages_in_batches.simps [simp del]

subsection \<open>Storing and processing\<close>

definition same_message :: "string \<Rightarrow> string \<Rightarrow> stored_email \<Rightarrow> bool" where
  "same_message legacy provider_id e = (se_legacy_user_id e = legacy \<and> ne_provider_message_id (se_email e) = provider_id)"

definition refresh_email :: "normalized_email \<Rightarrow> stored_email \<Rightarrow> stored_email" where
  "refresh_email d e = e\<lparr>se_email := (se_email e)\<lparr>ne_labels := ne_labels d, ne_thread_id := ne_thread_id d\<rparr>\<rparr>"

text \<open>The transaction that stores an email: its id and whether it is new.\<close>

definition save_email :: "('g, 'c, 's) services \<Rightarrow> uid \<Rightarrow> uid \<Rightarrow> normalized_email \<Rightarrow> ('g, 'c, 'b, 's) ingest
    \<Rightarrow> (uid \<times> bool, ('g, 'c, 'b, 's) ingest) outcome" where
  "save_email sv user conn d st =
     (case on_world (sv_commit sv (ne_provider_message_id d)) st of
        (Inl e, st1) \<Rightarrow> (Inl e, st1)
      | (Inr _, st1) \<Rightarrow>
          (case find_row (same_message user (ne_provider_message_id d)) (ig_emails st1) of
             Some e \<Rightarrow> (Inr (se_id e, False),
               st1\<lparr>ig_emails := update_many (same_message user (ne_provider_message_id d)) (refresh_email d) (ig_emails st1)\<rparr>)
           | None \<Rightarrow> (let i = sv_uuid sv (ig_fresh st1)
               in (Inr (i, True), st1\<lparr>ig_emails := ig_emails st1 @ [\<lparr>se_id = i, se_user_id = sv_resolve sv user,
                    se_legacy_user_id = user, se_connection_id = conn, se_email = d\<rparr>], ig_fresh := Suc (ig_fresh st1)\<rparr>))))"

definition ingestion_backpressured :: "('g, 'c, 's) services \<Rightarrow> ('g, 'c, 'b, 's) ingest \<Rightarrow> (bool, ('g, 'c, 'b, 's) ingest) outcome" where
  "ingestion_backpressured sv st = andthen (on_world (sv_depths sv) st) (\<lambda>depths st1. (Inr (list_ex (\<lambda>d. sv_depth_limit sv \<le> d) depths), st1))"

definition process_new :: "('g, 'c, 's) services \<Rightarrow> uid \<Rightarrow> uid option \<Rightarrow> normalized_email \<Rightarrow> uid \<Rightarrow> ('g, 'c, 'b, 's) ingest
    \<Rightarrow> (unit, ('g, 'c, 'b, 's) ingest) outcome" where
  "process_new sv user batch d i st =
     (if sv_async sv then
        andthen (on_world (sv_cell_of sv (sv_resolve sv user)) st) (\<lambda>cell st1.
        andthen (ingestion_backpressured sv st1) (\<lambda>full st2.
          (Inr (), if full then st2
           else st2\<lparr>ig_queue := snd (add_application_tracking_job (sv_sha256 sv) (sv_uuid sv (ig_fresh st2))
             \<lparr>tp_type = PROCESS_EMAIL, tp_user_id = user, tp_cell_id = Some cell, tp_application_id = None,
               tp_email_message_id = Some i, tp_batch_id = truthy batch\<rparr> None (ig_queue st2)), ig_fresh := Suc (ig_fresh st2)\<rparr>)))
      else
        andthen (on_world (sv_classify sv d) st) (\<lambda>category st1.
          if category = ''NOT_JOB_RELATED'' then (Inr (), st1) else on_world (sv_track_application sv d category user) st1))"

definition process_email :: "('g, 'c, 's) services \<Rightarrow> time \<Rightarrow> uid \<Rightarrow> uid \<Rightarrow> uid option \<Rightarrow> normalized_email
    \<Rightarrow> ('g, 'c, 'b, 's) ingest \<Rightarrow> (unit, ('g, 'c, 'b, 's) ingest) outcome" where
  "process_email sv now user conn batch d st =
     (case save_email sv user conn d st of
        (Inl _, st1) \<Rightarrow> (Inr (), st1)
      | (Inr (i, is_new), st1) \<Rightarrow>
          (case (if is_new then process_new sv user batch d i st1 else (Inr (), st1)) of
             (r, st2) \<Rightarrow>
               (case truthy batch of
                  None \<Rightarrow> (Inr (), st2)
                | Some b \<Rightarrow> on_sync (track_email_job now (sv_uuid sv (ig_fresh st2)) b i (ne_provider_message_id d)
                    (case r of Inl _ \<Rightarrow> Failed | Inr _ \<Rightarrow> Processed) None) (st2\<lparr>ig_fresh := Suc (ig_fresh st2)\<rparr>))))"

fun process_emails :: "('g, 'c, 's) services \<Rightarrow> time \<Rightarrow> uid \<Rightarrow> uid \<Rightarrow> uid option \<Rightarrow> normalized_email list
    \<Rightarrow> ('g, 'c, 'b, 's) ingest \<Rightarrow> (unit, ('g, 'c, 'b, 's) ingest) outcome" where
  "process_emails sv now user conn batch [] st = (Inr (), st)"
| "process_emails sv now user conn batch (d # ds) st =
     (case process_email sv now user conn batch d st of
        (Inl e, st1) \<Rightarrow> (Inl e, st1)
      | (Inr _, st1) \<Rightarrow> process_emails sv now user conn batch ds st1)"

definition process_and_save_batch :: "('g, 'c, 's) services \<Rightarrow> 's mail_client \<Rightarrow> time \<Rightarrow> uid \<Rightarrow> uid \<Rightarrow> gmail_message_ref list
    \<Rightarrow> uid option \<Rightarrow> ('g, 'c, 'b, 's) ingest \<Rightarrow> (unit, ('g, 'c, 'b, 's) ingest) outcome" where
  "process_and_save_batch sv client now user conn refs batch st =
     (case fetch_messages_in_batches client refs (ig_world st) of
        (raw, s) \<Rightarrow> process_emails sv now user conn batch (normalize_batch raw) (st\<lparr>ig_world := s\<rparr>))"

subsection \<open>The connection and the sync state\<close>

definition usable_connection :: "uid \<Rightarrow> mail_connection \<Rightarrow> bool" where
  "usable_connection user c = ((mc_user_id c = user \<or> mc_legacy_user_id c = user) \<and> mc_provider c = ''GMAIL'' \<and> mc_status c = ''ACTIVE'')"

definition setup_client :: "('g, 'c, 's) services \<Rightarrow> time \<Rightarrow> uid \<Rightarrow> ('g, 'c, 'b, 's) ingest
    \<Rightarrow> ('s mail_client \<times> uid, ('g, 'c, 'b, 's) ingest) outcome" where
  "setup_client sv now user st =
     (case find_row (usable_connection user) (od_connections (ig_oauth st)) of
        None \<Rightarrow> (Inl (NotFoundError ''Active UserEmailConnection'' user), st)
      | Some c \<Rightarrow> andthen (on_oauth (get_valid_access_token (sv_google sv) (sv_crypto sv) now (sv_iv sv) user (mc_id c)) st)
          (\<lambda>token st1. (Inr (sv_client sv token, mc_id c), st1)))"

definition ensure_user_is_active :: "('g, 'c, 's) services \<Rightarrow> uid \<Rightarrow> ('g, 'c, 'b, 's) ingest \<Rightarrow> (unit, ('g, 'c, 'b, 's) ingest) outcome" where
  "ensure_user_is_active sv user st =
     (case find_user (sv_resolve sv user) (od_accounts (ig_oauth st)) of
        Some u \<Rightarrow> if us_deletion_status u = ''active'' then (Inr (), st)
          else (Inl (GenericError (''User '' @ user @ '' is not active'')), st)
      | None \<Rightarrow> (Inl (GenericError (''User '' @ user @ '' is not active'')), st))"

text \<open>One transaction: the upsert of the sync state by legacy id, then the connection.\<close>

definition update_backward_compat_state :: "('g, 'c, 's) services \<Rightarrow> time \<Rightarrow> uid \<Rightarrow> uid \<Rightarrow> string \<Rightarrow> ('g, 'c, 'b, 's) ingest
    \<Rightarrow> (unit, ('g, 'c, 'b, 's) ingest) outcome" where
  "update_backward_compat_state sv now user conn history st =
     (let owner = sv_resolve sv user; mine = (\<lambda>r. ss_legacy_user_id r = user);
          taken = (\<exists>r\<in>set (ig_states st). ss_user_id r = owner \<and> \<not> mine r);
          rows = (if find_row mine (ig_states st) = None
            then ig_states st @ [\<lparr>ss_user_id = owner, ss_legacy_user_id = user, ss_connection_id = conn, ss_history_id = history,
              ss_last_synced_at = now\<rparr>]
            else update_many mine (\<lambda>r. r\<lparr>ss_user_id := owner, ss_history_id := history, ss_last_synced_at := now\<rparr>) (ig_states st))
      in if taken then (Inl (PrismaError ''P2002''), st)
         else if find_connection conn (ig_oauth st) = None then (Inl (PrismaError ''P2025''), st)
         else (Inr (), st\<lparr>ig_states := rows,
           ig_oauth := update_connection conn (\<lambda>c. c\<lparr>mc_last_sync_at := Some now\<rparr>) (ig_oauth st)\<rparr>))"

subsection \<open>The initial synchronization\<close>

definition MAX_INITIAL_SYNC :: nat where "MAX_INITIAL_SYNC = 1000"

text \<open>
  Two numbers are drawn for a new operation and its batch. The loop returns the number of
  messages it listed; a page is never empty, so it ends.
\<close>

definition start_sync :: "('g, 'c, 's) services \<Rightarrow> time \<Rightarrow> uid \<Rightarrow> uid \<Rightarrow> string \<Rightarrow> string \<Rightarrow> string \<Rightarrow> string option
    \<Rightarrow> ('g, 'c, 'b, 's) ingest \<Rightarrow> (sync_op_result, ('g, 'c, 'b, 's) ingest) outcome" where
  "start_sync sv now user conn mode corr history page st =
     on_sync (initialize_sync_op (sv_resolve sv) now (sv_uuid sv (ig_fresh st)) (sv_uuid sv (Suc (ig_fresh st))) user conn mode corr
       history (sv_worker sv) page) (st\<lparr>ig_fresh := Suc (Suc (ig_fresh st))\<rparr>)"

function initial_loop :: "('g, 'c, 's) services \<Rightarrow> 's mail_client \<Rightarrow> time \<Rightarrow> uid \<Rightarrow> uid \<Rightarrow> uid \<Rightarrow> string \<Rightarrow> nat \<Rightarrow> string option
    \<Rightarrow> ('g, 'c, 'b, 's) ingest \<Rightarrow> (nat, ('g, 'c, 'b, 's) ingest) outcome" where
  "initial_loop sv client now user conn batch start synced page st =
     (if \<not> synced < MAX_INITIAL_SYNC then (Inr synced, st)
      else (case on_world (ml_list client \<lparr>lm_query = None, lm_max_results = Some 100, lm_page_token = page, lm_label_ids = None\<rparr>) st of
          (Inl e, st1) \<Rightarrow> (Inl e, st1)
        | (Inr listed, st1) \<Rightarrow>
            if lr_messages listed = [] then (Inr synced, st1)
            else (case process_and_save_batch sv client now user conn (lr_messages listed) (Some batch) st1 of
                (Inl e, st2) \<Rightarrow> (Inl e, st2)
              | (Inr _, st2) \<Rightarrow>
                  (case on_sync (advance_checkpoint id now user batch start (lr_next_page_token listed)) st2 of
                     (Inl e, st3) \<Rightarrow> (Inl e, st3)
                   | (Inr _, st3) \<Rightarrow>
                       if truthy (lr_next_page_token listed) = None then (Inr (synced + length (lr_messages listed)), st3)
                       else initial_loop sv client now user conn batch start (synced + length (lr_messages listed))
                         (lr_next_page_token listed) st3))))"
  by pat_completeness auto
termination
  by (relation "measure (\<lambda>(_, _, _, _, _, _, _, synced, _). MAX_INITIAL_SYNC - synced)")
    (auto intro!: diff_less_mono2)

declare initial_loop.simps [simp del]

text \<open>The handler: the operation is marked as failed and the error rethrown.\<close>

definition fail_with :: "time \<Rightarrow> uid \<Rightarrow> error \<Rightarrow> ('g, 'c, 'b, 's) ingest \<Rightarrow> ('a, ('g, 'c, 'b, 's) ingest) outcome" where
  "fail_with now op e st = (case on_sync (fail_sync_op now op (error_message e)) st of
     (Inl e', st1) \<Rightarrow> (Inl e', st1) | (Inr _, st1) \<Rightarrow> (Inl e, st1))"

text \<open>Where an initial synchronization resumes: page token, operation and batch, if there are any.\<close>

definition initial_resume_point :: "('g, 'c, 's) services \<Rightarrow> uid \<Rightarrow> sync_db \<Rightarrow> string option \<times> uid option \<times> uid option" where
  "initial_resume_point sv user db =
     (case determine_resume_strategy (sv_resolve sv) user db of
        (can_resume, state, _) \<Rightarrow>
          (case ds_checkpoint state of
             None \<Rightarrow> (None, None, None)
           | Some c \<Rightarrow> if can_resume \<and> cp_sync_mode c = ''INITIAL_SYNC''
               then (cp_page_token c, truthy (ds_sync_op_id state), truthy (map_option sb_id (ds_pending_batch state)))
               else (None, None, None)))"

definition start_initial :: "('g, 'c, 's) services \<Rightarrow> time \<Rightarrow> string \<Rightarrow> uid \<Rightarrow> uid \<Rightarrow> string
    \<Rightarrow> string option \<times> uid option \<times> uid option \<Rightarrow> ('g, 'c, 'b, 's) ingest \<Rightarrow> (sync_op_result, ('g, 'c, 'b, 's) ingest) outcome" where
  "start_initial sv now corr user conn start point st =
     (case point of
        (_, Some o', Some b) \<Rightarrow> (Inr \<lparr>sx_op_id = o', sx_batch_id = b\<rparr>, st)
      | (page, _, _) \<Rightarrow> start_sync sv now user conn ''INITIAL_SYNC'' corr start page st)"

text \<open>The \<open>try\<close> block and its handler.\<close>

definition run_initial :: "('g, 'c, 's) services \<Rightarrow> 's mail_client \<Rightarrow> time \<Rightarrow> uid \<Rightarrow> uid \<Rightarrow> sync_op_result \<Rightarrow> string \<Rightarrow> string option
    \<Rightarrow> ('g, 'c, 'b, 's) ingest \<Rightarrow> (unit, ('g, 'c, 'b, 's) ingest) outcome" where
  "run_initial sv client now user conn ids start page st =
     (case andthen (initial_loop sv client now user conn (sx_batch_id ids) start 0 page st) (\<lambda>_ st1.
           andthen (on_sync (complete_sync_op now (sx_op_id ids)) st1) (\<lambda>_ st2.
             update_backward_compat_state sv now user conn start st2)) of
        (Inl e, st3) \<Rightarrow> fail_with now (sx_op_id ids) e st3
      | (Inr _, st3) \<Rightarrow> (Inr (), st3))"

definition sync_initial_mailbox :: "('g, 'c, 's) services \<Rightarrow> time \<Rightarrow> string \<Rightarrow> uid \<Rightarrow> ('g, 'c, 'b, 's) ingest
    \<Rightarrow> (unit, ('g, 'c, 'b, 's) ingest) outcome" where
  "sync_initial_mailbox sv now corr user st =
     andthen (ensure_user_is_active sv user st) (\<lambda>_ st1.
     andthen (setup_client sv now user st1) (\<lambda>(client, conn) st2.
     andthen (on_world (ml_profile client) st2) (\<lambda>profile st3.
     andthen (start_initial sv now corr user conn (gp_history_id profile) (initial_resume_point sv user (ig_sync st3)) st3) (\<lambda>ids st4.
       run_initial sv client now user conn ids (gp_history_id profile)
         (fst (initial_resume_point sv user (ig_sync st3))) st4))))"

subsection \<open>The incremental synchronization\<close>

text \<open>The pages of the history. Gmail decides how many there are, so the loop may not end.\<close>

partial_function (option) history_loop :: "('g, 'c, 's) services \<Rightarrow> 's mail_client \<Rightarrow> time \<Rightarrow> uid \<Rightarrow> uid \<Rightarrow> uid \<Rightarrow> string \<Rightarrow> string option
    \<Rightarrow> ('g, 'c, 'b, 's) ingest \<Rightarrow> (string, ('g, 'c, 'b, 's) ingest) outcome option" where
  "history_loop sv client now user conn batch current page st =
     (case on_world (ml_history client current page) st of
        (Inl e, st1) \<Rightarrow> Some (Inl e, st1)
      | (Inr h, st1) \<Rightarrow>
          (case (if hr_messages_added h = [] then (Inr (), st1)
                 else process_and_save_batch sv client now user conn (hr_messages_added h) (Some batch) st1) of
             (Inl e, st2) \<Rightarrow> Some (Inl e, st2)
           | (Inr _, st2) \<Rightarrow>
               if truthy (hr_next_page_token h) = None then Some (Inr (hr_history_id h), st2)
               else history_loop sv client now user conn batch (hr_history_id h) (hr_next_page_token h) st2))"

definition resume_interrupted_batch :: "('g, 'c, 's) services \<Rightarrow> time \<Rightarrow> uid \<Rightarrow> sync_batch \<Rightarrow> ('g, 'c, 'b, 's) ingest
    \<Rightarrow> (unit, ('g, 'c, 'b, 's) ingest) outcome" where
  "resume_interrupted_batch sv now user batch st =
     andthen (setup_client sv now user st) (\<lambda>(client, conn) st1.
     andthen (on_world (ml_history client (sb_history_id batch) None) st1) (\<lambda>h st2.
       if hr_messages_added h = [] then (Inr (), st2)
       else andthen (process_and_save_batch sv client now user conn (hr_messages_added h) (Some (sb_id batch)) st2) (\<lambda>_ st3.
            andthen (on_sync (advance_checkpoint id now user (sb_id batch) (hr_history_id h) None) st3) (\<lambda>_ st4.
              update_backward_compat_state sv now user conn (hr_history_id h) st4))))"

definition find_sync_state :: "uid \<Rightarrow> ('g, 'c, 'b, 's) ingest \<Rightarrow> sync_state_row option" where
  "find_sync_state user st = find_row (\<lambda>r. ss_user_id r = user) (ig_states st)"

definition history_expired :: "error \<Rightarrow> bool" where
  "history_expired e = (case e of GmailApiError _ (Some code) \<Rightarrow> code = 404 | _ \<Rightarrow> False)"

text \<open>The \<open>try\<close> block of the incremental synchronization and its handler.\<close>

definition run_history :: "('g, 'c, 's) services \<Rightarrow> 's mail_client \<Rightarrow> time \<Rightarrow> string \<Rightarrow> uid \<Rightarrow> uid \<Rightarrow> sync_op_result \<Rightarrow> string
    \<Rightarrow> ('g, 'c, 'b, 's) ingest \<Rightarrow> (unit, ('g, 'c, 'b, 's) ingest) outcome option" where
  "run_history sv client now corr user conn ids current st =
     (case history_loop sv client now user conn (sx_batch_id ids) current None st of
        None \<Rightarrow> None
      | Some r \<Rightarrow>
          (case andthen r (\<lambda>cursor st1.
               andthen (on_sync (advance_checkpoint id now user (sx_batch_id ids) cursor None) st1) (\<lambda>_ st2.
               andthen (update_backward_compat_state sv now user conn cursor st2) (\<lambda>_ st3.
                 on_sync (complete_sync_op now (sx_op_id ids)) st3))) of
             (Inr _, st4) \<Rightarrow> Some (Inr (), st4)
           | (Inl e, st4) \<Rightarrow>
               (case on_sync (fail_sync_op now (sx_op_id ids) (error_message e)) st4 of
                  (Inl e', st5) \<Rightarrow> Some (Inl e', st5)
                | (Inr _, st5) \<Rightarrow> if history_expired e then Some (sync_initial_mailbox sv now corr user st5)
                    else Some (Inl e, st5))))"

definition sync_history :: "('g, 'c, 's) services \<Rightarrow> time \<Rightarrow> string \<Rightarrow> uid \<Rightarrow> sync_state_row \<Rightarrow> ('g, 'c, 'b, 's) ingest
    \<Rightarrow> (unit, ('g, 'c, 'b, 's) ingest) outcome option" where
  "sync_history sv now corr user state st =
     (case setup_client sv now user st of
        (Inl e, st1) \<Rightarrow> Some (Inl e, st1)
      | (Inr (client, conn), st1) \<Rightarrow>
        (case on_world (ml_profile client) st1 of
           (Inl e, st2) \<Rightarrow> Some (Inl e, st2)
         | (Inr profile, st2) \<Rightarrow>
           if gp_history_id profile = ss_history_id state then Some (Inr (), st2)
           else
             (case start_sync sv now user conn ''INCREMENTAL_SYNC'' corr (gp_history_id profile) (Some (ss_history_id state)) st2 of
                (Inl e, st3) \<Rightarrow> Some (Inl e, st3)
              | (Inr ids, st3) \<Rightarrow> run_history sv client now corr user conn ids (ss_history_id state) st3)))"

definition sync_new_emails :: "('g, 'c, 's) services \<Rightarrow> time \<Rightarrow> string \<Rightarrow> uid \<Rightarrow> ('g, 'c, 'b, 's) ingest
    \<Rightarrow> (unit, ('g, 'c, 'b, 's) ingest) outcome option" where
  "sync_new_emails sv now corr user st =
     (case ensure_user_is_active sv user st of
        (Inl e, st1) \<Rightarrow> Some (Inl e, st1)
      | (Inr _, st1) \<Rightarrow>
          (let (can_resume, state, action) = determine_resume_strategy (sv_resolve sv) user (ig_sync st1)
           in if can_resume \<and> action = Restart_batch \<and> ds_pending_batch state \<noteq> None
              then (case ds_pending_batch state of None \<Rightarrow> Some (Inr (), st1) | Some b \<Rightarrow> Some (resume_interrupted_batch sv now user b st1))
              else if action = Fallback_to_initial then Some (sync_initial_mailbox sv now corr user st1)
              else (case find_sync_state user st1 of
                  None \<Rightarrow> Some (sync_initial_mailbox sv now corr user st1)
                | Some row \<Rightarrow> sync_history sv now corr user row st1)))"

subsection \<open>What no step does to stored emails\<close>

definition message_key :: "stored_email \<Rightarrow> string \<times> string" where
  "message_key e = (se_legacy_user_id e, ne_provider_message_id (se_email e))"

text \<open>An email without what a later fetch may refresh, its labels and its thread.\<close>

definition email_core :: "stored_email \<Rightarrow> stored_email" where
  "email_core e = e\<lparr>se_email := (se_email e)\<lparr>ne_labels := [], ne_thread_id := []\<rparr>\<rparr>"

definition kept :: "('g, 'c, 'b, 's) ingest \<Rightarrow> ('g, 'c, 'b, 's) ingest \<Rightarrow> bool" where
  "kept st st' = ((distinct (map message_key (ig_emails st)) \<longrightarrow> distinct (map message_key (ig_emails st')))
     \<and> email_core ` set (ig_emails st) \<subseteq> email_core ` set (ig_emails st'))"

lemma kept_refl [simp]: "kept st st"
  by (simp add: kept_def)

lemma kept_trans: "kept st st1 \<Longrightarrow> kept st1 st2 \<Longrightarrow> kept st st2"
  unfolding kept_def by blast

lemma kept_same: "ig_emails st' = ig_emails st \<Longrightarrow> kept st st'"
  by (simp add: kept_def)

lemma kept_andthen:
  "kept st (snd r) \<Longrightarrow> (\<And>a. kept (snd r) (snd (f a (snd r)))) \<Longrightarrow> kept st (snd (andthen r f))"
  by (auto simp: andthen_def split: prod.splits sum.splits intro: kept_trans)

lemma kept_case:
  "kept st (snd r) \<Longrightarrow> (\<And>e. kept (snd r) (snd (g e (snd r)))) \<Longrightarrow> (\<And>a. kept (snd r) (snd (h a (snd r))))
    \<Longrightarrow> kept st (snd (case r of (Inl e, s) \<Rightarrow> g e s | (Inr a, s) \<Rightarrow> h a s))"
  by (cases r) (auto split: sum.splits intro: kept_trans)

lemma on_emails [simp]:
  "ig_emails (snd (on_world f st)) = ig_emails st" "ig_emails (snd (on_sync g st)) = ig_emails st" "ig_emails (snd (on_oauth h st)) = ig_emails st"
  by (simp_all add: on_world_def on_sync_def on_oauth_def split: prod.split)

lemma kept_on [simp]: "kept st (snd (on_world f st))" "kept st (snd (on_sync g st))" "kept st (snd (on_oauth h st))"
  by (simp_all add: kept_same)

lemma kept_update [simp]: "kept (st\<lparr>ig_fresh := n\<rparr>) st' = kept st st'" "kept (st\<lparr>ig_world := s\<rparr>) st' = kept st st'"
  by (simp_all add: kept_def)

lemma refresh_email_core: "email_core (refresh_email d e) = email_core e" "message_key (refresh_email d e) = message_key e"
  by (simp_all add: email_core_def refresh_email_def message_key_def)

lemma save_email_kept: "kept st (snd (save_email sv user conn d st))"
proof -
  let ?P = "same_message user (ne_provider_message_id d)"
  have core: "map email_core (update_many ?P (refresh_email d) es) = map email_core es"
    "map message_key (update_many ?P (refresh_email d) es) = map message_key es" for es
    by (simp_all add: map_update_many_key refresh_email_core)
  then have sets: "email_core ` set (update_many ?P (refresh_email d) es) = email_core ` set es" for es
    by (metis list.set_map)
  have "message_key e \<noteq> (user, ne_provider_message_id d)" if "find_row ?P es = None" "e \<in> set es" for es e
    using that by (auto simp: find_row_None_iff same_message_def message_key_def)
  then have new: "(user, ne_provider_message_id d) \<notin> message_key ` set es" if "find_row ?P es = None" for es
    using that by (metis imageE)
  show ?thesis unfolding save_email_def
    by (rule kept_case) (auto simp: kept_def core sets Let_def message_key_def dest!: new split: option.split)
qed

lemma process_new_frame:
  "ig_emails (snd (process_new sv user batch d i st)) = ig_emails st" "ig_sync (snd (process_new sv user batch d i st)) = ig_sync st"
  "ig_states (snd (process_new sv user batch d i st)) = ig_states st" "ig_oauth (snd (process_new sv user batch d i st)) = ig_oauth st"
  by (auto simp: process_new_def ingestion_backpressured_def andthen_def on_world_def split: prod.splits sum.splits)

lemma process_email_kept: "kept st (snd (process_email sv now user conn batch d st))"
  unfolding process_email_def
proof (rule kept_case [OF save_email_kept], goal_cases)
  case (2 a)
  show ?case
  proof (cases a)
    case (Pair i is_new)
    obtain r st2 where n: "(if is_new then process_new sv user batch d i (snd (save_email sv user conn d st))
        else (Inr (), snd (save_email sv user conn d st))) = (r, st2)" by fastforce
    then have "ig_emails st2 = ig_emails (snd (save_email sv user conn d st))"
      using process_new_frame(1) [of sv user batch d i "snd (save_email sv user conn d st)"] by (auto split: if_splits)
    then show ?thesis using n Pair by (cases "truthy batch") (simp_all add: kept_same)
  qed
qed simp

lemma process_emails_kept: "kept st (snd (process_emails sv now user conn batch ds st))"
  by (induction ds arbitrary: st) (auto intro!: kept_case process_email_kept)

lemma process_and_save_kept: "kept st (snd (process_and_save_batch sv client now user conn refs batch st))"
  using process_emails_kept [of "st\<lparr>ig_world := s\<rparr>" for s] by (simp add: process_and_save_batch_def split: prod.split)

lemma initial_loop_kept: "kept st (snd (initial_loop sv client now user conn batch start synced page st))"
proof (induction sv client now user conn batch start synced page st rule: initial_loop.induct)
  case (1 sv client now user conn batch start synced page st)
  show ?case
  proof (subst initial_loop.simps, cases "synced < MAX_INITIAL_SYNC", goal_cases)
    case in_bound: 1
    let ?list = "on_world (ml_list client \<lparr>lm_query = None, lm_max_results = Some 100, lm_page_token = page, lm_label_ids = None\<rparr>) st"
    obtain r1 st1 where l: "?list = (r1, st1)" by fastforce
    have k1: "kept st st1" using kept_on(1) [of st "ml_list client \<lparr>lm_query = None, lm_max_results = Some 100, lm_page_token = page, lm_label_ids = None\<rparr>"] l by simp
    show ?case
    proof (cases r1)
      case (Inr listed)
      obtain r2 st2 where p: "process_and_save_batch sv client now user conn (lr_messages listed) (Some batch) st1 = (r2, st2)" by fastforce
      have k2: "kept st st2" using kept_trans [OF k1] process_and_save_kept [of st1 sv client now user conn "lr_messages listed" "Some batch"] p by simp
      obtain r3 st3 where a: "on_sync (advance_checkpoint id now user batch start (lr_next_page_token listed)) st2 = (r3, st3)" by fastforce
      have k3: "kept st st3" using kept_trans [OF k2] kept_on(2) [of st2 "advance_checkpoint id now user batch start (lr_next_page_token listed)"] a by simp
      have "kept st3 (snd (initial_loop sv client now user conn batch start (synced + length (lr_messages listed)) (lr_next_page_token listed) st3))"
        if "lr_messages listed \<noteq> []" "r2 = Inr ()" "r3 = Inr ()" "truthy (lr_next_page_token listed) \<noteq> None"
        using that in_bound l Inr p a by (intro 1) auto
      then show ?thesis using in_bound l Inr p a k1 k2 k3 by (auto split: sum.split intro: kept_trans)
    qed (use in_bound l k1 in simp)
  qed simp
qed

lemma ensure_user_kept [simp]: "kept st (snd (ensure_user_is_active sv user st))"
  by (simp add: ensure_user_is_active_def split: option.split)

lemma setup_client_kept [simp]: "kept st (snd (setup_client sv now user st))"
  by (auto simp: setup_client_def intro!: kept_andthen split: option.split)

lemma update_state_kept [simp]: "kept st (snd (update_backward_compat_state sv now user conn h st))"
  by (simp add: update_backward_compat_state_def Let_def kept_same)

lemma start_sync_kept [simp]: "kept st (snd (start_sync sv now user conn mode corr h page st))"
  by (simp add: start_sync_def kept_same)

lemma fail_with_kept [simp]: "kept st (snd (fail_with now op e st))"
  unfolding fail_with_def by (rule kept_case) simp_all

lemma run_initial_kept: "kept st (snd (run_initial sv client now user conn ids start page st))"
  unfolding run_initial_def by (intro kept_case kept_andthen initial_loop_kept) simp_all

lemma start_initial_kept [simp]: "kept st (snd (start_initial sv now corr user conn start point st))"
  by (auto simp: start_initial_def split: prod.split option.split)

lemma sync_initial_kept: "kept st (snd (sync_initial_mailbox sv now corr user st))"
  unfolding sync_initial_mailbox_def
  by (intro kept_andthen) (auto intro!: kept_andthen run_initial_kept)

lemma history_loop_kept:
  assumes "history_loop sv client now user conn batch current page st = Some r"
  shows "kept st (snd r)"
proof (rule history_loop.raw_induct [where P = "\<lambda>_ _ _ _ _ _ _ _ st r. kept st (snd r)", OF _ assms], goal_cases)
  case (1 loop sv client now user conn batch current page st r)
  obtain r1 st1 where h: "on_world (ml_history client current page) st = (r1, st1)" by fastforce
  have k1: "kept st st1" using kept_on(1) [of st "ml_history client current page"] h by simp
  show ?case
  proof (cases r1)
    case (Inl e)
    then show ?thesis using 1(2) h k1 by auto
  next
    case (Inr hr)
    obtain r2 st2 where p: "(if hr_messages_added hr = [] then (Inr (), st1)
        else process_and_save_batch sv client now user conn (hr_messages_added hr) (Some batch) st1) = (r2, st2)" by fastforce
    then have k2: "kept st st2" using kept_trans [OF k1 process_and_save_kept [of st1 sv client now user conn "hr_messages_added hr" "Some batch"]] k1
      by (auto split: if_splits)
    show ?thesis using 1(2) 1(1) [of sv client now user conn batch "hr_history_id hr" "hr_next_page_token hr" st2 r] h Inr p k2
      by (cases r2) (auto split: if_splits intro: kept_trans)
  qed
qed

lemma kept_Some_case:
  assumes "kept st (snd r)" and "(case r of (Inl e, s) \<Rightarrow> g e s | (Inr a, s) \<Rightarrow> h a s) = Some q"
    and "\<And>e. g e (snd r) = Some q \<Longrightarrow> kept (snd r) (snd q)" and "\<And>a. h a (snd r) = Some q \<Longrightarrow> kept (snd r) (snd q)"
  shows "kept st (snd q)"
  using assms by (cases r) (auto split: sum.splits intro: kept_trans)

lemma run_history_kept:
  assumes "run_history sv client now corr user conn ids current st = Some q"
  shows "kept st (snd q)"
proof -
  from assms obtain r where r: "history_loop sv client now user conn (sx_batch_id ids) current None st = Some r"
    by (auto simp: run_history_def split: option.splits)
  note k = history_loop_kept [OF r]
  from assms show ?thesis unfolding run_history_def r option.case
  proof (rule kept_Some_case [rotated], goal_cases)
    case (1 e)
    then show ?case
    proof (rule kept_Some_case [rotated], goal_cases)
      case (2 a)
      then show ?case using sync_initial_kept by (auto split: if_splits)
    qed auto
  next
    case 2
    then show ?case by auto
  next
    case 3
    show ?case by (intro kept_andthen k) simp_all
  qed
qed

lemma sync_history_kept:
  assumes "sync_history sv now corr user state st = Some q"
  shows "kept st (snd q)"
  using assms unfolding sync_history_def
proof (rule kept_Some_case [OF setup_client_kept], goal_cases)
  case (2 a)
  obtain client conn where a: "a = (client, conn)" by fastforce
  from 2 show ?case unfolding a prod.case
  proof (rule kept_Some_case [rotated], goal_cases)
    case (2 profile)
    then show ?case
    proof (cases "gp_history_id profile = ss_history_id state")
      case False
      from 2 have "(case start_sync sv now user conn ''INCREMENTAL_SYNC'' corr (gp_history_id profile) (Some (ss_history_id state))
          (snd (on_world (ml_profile client) (snd (setup_client sv now user st)))) of
          (Inl e, st3) \<Rightarrow> Some (Inl e, st3) | (Inr ids, st3) \<Rightarrow> run_history sv client now corr user conn ids (ss_history_id state) st3) = Some q"
        using False by simp
      then show ?thesis by (rule kept_Some_case [rotated]) (auto intro: run_history_kept)
    qed auto
  qed auto
qed auto

lemma resume_batch_kept: "kept st (snd (resume_interrupted_batch sv now user b st))"
  unfolding resume_interrupted_batch_def
  by (intro kept_andthen) (auto intro!: kept_andthen process_and_save_kept)

lemma sync_new_kept:
  assumes "sync_new_emails sv now corr user st = Some q"
  shows "kept st (snd q)"
  using assms unfolding sync_new_emails_def
proof (rule kept_Some_case [OF ensure_user_kept], goal_cases)
  case (2 a)
  then show ?case
    by (auto simp: Let_def resume_batch_kept sync_initial_kept split: prod.splits if_splits option.splits dest: sync_history_kept)
qed auto

end
