(* ===== verification/Ingestion_Exact.thy ===== *)
theory Ingestion_Exact
  imports Gmail_Ingestion
begin

text \<open>
  What a synchronization stores, for a Gmail that answers each question in the same way: which
  messages it can deliver, how its history is paged, and that the database accepts the writes.
\<close>

definition stored_ids :: "uid \<Rightarrow> ('g, 'c, 'b, 's) ingest \<Rightarrow> string set" where
  "stored_ids user st = (\<lambda>e. ne_provider_message_id (se_email e)) ` {e \<in> set (ig_emails st). se_legacy_user_id e = user}"

definition answers :: "'s mail_client \<Rightarrow> (string \<Rightarrow> gmail_message option) \<Rightarrow> bool" where
  "answers c get = (\<forall>i s. case get i of Some m \<Rightarrow> fst (ml_get c i s) = Inr m | None \<Rightarrow> (\<exists>e. fst (ml_get c i s) = Inl e))"

definition accepts :: "('g, 'c, 's) services \<Rightarrow> bool" where
  "accepts sv = (\<forall>p s. fst (sv_commit sv p s) = Inr ())"

text \<open>The provider ids of the messages that can be fetched among those listed.\<close>

definition fetched :: "(string \<Rightarrow> gmail_message option) \<Rightarrow> gmail_message_ref list \<Rightarrow> string set" where
  "fetched get refs = {gm_id m | m r. r \<in> set refs \<and> get (mr_id r) = Some m}"

inductive history_pages :: "(string \<Rightarrow> string option \<Rightarrow> gmail_history_result) \<Rightarrow> string \<Rightarrow> string option
    \<Rightarrow> gmail_message_ref list \<Rightarrow> string \<Rightarrow> bool" for hist where
  last_page: "truthy (hr_next_page_token (hist start page)) = None
    \<Longrightarrow> history_pages hist start page (hr_messages_added (hist start page)) (hr_history_id (hist start page))"
| next_page: "truthy (hr_next_page_token (hist start page)) \<noteq> None
    \<Longrightarrow> history_pages hist (hr_history_id (hist start page)) (hr_next_page_token (hist start page)) refs cursor
    \<Longrightarrow> history_pages hist start page (hr_messages_added (hist start page) @ refs) cursor"

subsection \<open>Fetching\<close>

lemma fetch_chunk_append:
  "fetch_chunk c (xs @ ys) s = (case fetch_chunk c xs s of (ms, s1) \<Rightarrow> (case fetch_chunk c ys s1 of (ms', s2) \<Rightarrow> (ms @ ms', s2)))"
  by (induction xs arbitrary: s) (auto split: prod.split sum.split)

lemma fetch_in_batches: "fetch_messages_in_batches c refs s = fetch_chunk c refs s"
proof (induction c refs s rule: fetch_messages_in_batches.induct)
  case (1 c refs s)
  show ?case
  proof (cases "refs = []")
    case True
    then show ?thesis by (subst fetch_messages_in_batches.simps) simp
  next
    case False
    obtain ms s1 where f: "fetch_chunk c (take FETCH_BATCH_SIZE refs) s = (ms, s1)" by fastforce
    have "fetch_messages_in_batches c (drop FETCH_BATCH_SIZE refs) s1 = fetch_chunk c (drop FETCH_BATCH_SIZE refs) s1"
      by (rule 1 [OF False f [symmetric]])
    then show ?thesis
      using False f fetch_chunk_append [of c "take FETCH_BATCH_SIZE refs" "drop FETCH_BATCH_SIZE refs" s]
      by (simp add: fetch_messages_in_batches.simps [of c refs s])
  qed
qed

lemma fetch_chunk_answers:
  "answers c get \<Longrightarrow> fst (fetch_chunk c refs s) = List.map_filter (\<lambda>r. get (mr_id r)) refs"
proof (induction refs arbitrary: s)
  case (Cons r refs)
  obtain q s1 where q: "ml_get c (mr_id r) s = (q, s1)" by fastforce
  have "case get (mr_id r) of Some m \<Rightarrow> q = Inr m | None \<Rightarrow> (\<exists>e. q = Inl e)"
    using Cons.prems q unfolding answers_def by (metis fst_conv)
  then show ?case using Cons.IH [OF Cons.prems, of s1] q
    by (auto simp: List.map_filter_simps split: option.splits prod.split)
qed (simp add: List.map_filter_simps)

lemma fetched_ids: "gm_id ` set (List.map_filter (\<lambda>r. get (mr_id r)) refs) = fetched get refs"
  by (force simp: fetched_def List.map_filter_def)

subsection \<open>Storing\<close>

text \<open>What processing an email does not touch: checkpoints, operations, and whose batches they are.\<close>

definition batch_owner :: "uid \<Rightarrow> sync_db \<Rightarrow> uid option" where
  "batch_owner b db = map_option sb_user_id (find_row (\<lambda>x. sb_id x = b) (sy_batches db))"

definition same_sync :: "sync_db \<Rightarrow> sync_db \<Rightarrow> bool" where
  "same_sync db db' = (sy_checkpoints db' = sy_checkpoints db \<and> sy_operations db' = sy_operations db \<and> (\<forall>b. batch_owner b db' = batch_owner b db))"

definition same_frame :: "('g, 'c, 'b, 's) ingest \<Rightarrow> ('g, 'c, 'b, 's) ingest \<Rightarrow> bool" where
  "same_frame st st' = (same_sync (ig_sync st) (ig_sync st') \<and> ig_oauth st' = ig_oauth st \<and> ig_states st' = ig_states st)"

lemma same_frame_refl [simp]: "same_frame st st"
  by (simp add: same_frame_def same_sync_def)

lemma same_frame_trans: "same_frame st st1 \<Longrightarrow> same_frame st1 st2 \<Longrightarrow> same_frame st st2"
  by (simp add: same_frame_def same_sync_def)

lemma same_frame_batch: "same_frame st st' \<Longrightarrow> batch_owner b (ig_sync st') = batch_owner b (ig_sync st)"
  by (simp add: same_frame_def same_sync_def)

lemma batch_owner_update:
  assumes "\<And>x. sb_id (f x) = sb_id x" and "\<And>x. sb_user_id (f x) = sb_user_id x"
  shows "batch_owner b (db\<lparr>sy_batches := update_many P f (sy_batches db)\<rparr>) = batch_owner b db"
  by (simp add: batch_owner_def find_row_update_many_same assms option.map_comp comp_def)
    (auto intro!: option.map_cong0 simp: assms)

lemma track_succeeds:
  assumes "batch_owner b db \<noteq> None"
  shows "\<exists>db'. track_email_job now job_id b email_id message_id status err db = (Inr (), db') \<and> same_sync db db'"
proof -
  have there: "find_row (\<lambda>x. sb_id x = b) (sy_batches db) \<noteq> None" using assms by (auto simp: batch_owner_def)
  have own: "batch_owner c (db\<lparr>sy_jobs := js, sy_batches := update_many (\<lambda>x. sb_id x = b) (count_tracked status) (sy_batches db)\<rparr>) = batch_owner c db" for c js
    using batch_owner_update [where f = "count_tracked status" and b = c and db = "db\<lparr>sy_jobs := js\<rparr>" and P = "\<lambda>x. sb_id x = b"] by (simp add: count_tracked_def batch_owner_def)
  show ?thesis using there own
    by (cases "0 < increment_processed status \<or> 0 < increment_failed status")
      (auto simp: track_email_job_def transaction_def track_body_def Let_def same_sync_def batch_owner_def)
qed

lemma stored_ids_alt: "stored_ids user st = snd ` {k \<in> set (map (\<lambda>e. (se_legacy_user_id e, ne_provider_message_id (se_email e))) (ig_emails st)). fst k = user}"
  by (force simp: stored_ids_def)

lemma stored_ids_snoc: "ig_emails st' = ig_emails st @ [e] \<Longrightarrow> stored_ids user st' = (if se_legacy_user_id e = user
    then insert (ne_provider_message_id (se_email e)) (stored_ids user st) else stored_ids user st)"
  by (auto simp: stored_ids_def)

lemma save_email_exact:
  assumes "accepts sv"
  shows "\<exists>i is_new st'. save_email sv user conn d st = (Inr (i, is_new), st') \<and> same_frame st st'
    \<and> stored_ids user st' = insert (ne_provider_message_id d) (stored_ids user st)
    \<and> (is_new \<longleftrightarrow> ne_provider_message_id d \<notin> stored_ids user st)"
proof -
  let ?pid = "ne_provider_message_id d" and ?P = "same_message user (ne_provider_message_id d)"
  obtain s1 where c: "sv_commit sv ?pid (ig_world st) = (Inr (), s1)" using assms unfolding accepts_def by (metis prod.collapse)
  show ?thesis
  proof (cases "find_row ?P (ig_emails st)")
    case None
    then have fresh: "?pid \<notin> stored_ids user st" by (auto simp: find_row_None_iff same_message_def stored_ids_def)
    let ?st = "st\<lparr>ig_world := s1, ig_emails := ig_emails st @ [\<lparr>se_id = sv_uuid sv (ig_fresh st), se_user_id = sv_resolve sv user,
      se_legacy_user_id = user, se_connection_id = conn, se_email = d\<rparr>], ig_fresh := Suc (ig_fresh st)\<rparr>"
    have "save_email sv user conn d st = (Inr (sv_uuid sv (ig_fresh st), True), ?st)"
      using c None by (simp add: save_email_def on_world_def Let_def)
    moreover have "stored_ids user ?st = insert ?pid (stored_ids user st)" by (simp add: stored_ids_snoc)
    moreover have "same_frame st ?st" by (simp add: same_frame_def same_sync_def)
    ultimately show ?thesis using fresh by blast
  next
    case (Some e)
    then have e: "e \<in> set (ig_emails st)" "?P e" by (auto dest: find_row_SomeD)
    then have there: "?pid \<in> stored_ids user st" by (auto simp: stored_ids_def same_message_def image_iff)
    have key: "(se_legacy_user_id (refresh_email d x), ne_provider_message_id (se_email (refresh_email d x)))
      = (se_legacy_user_id x, ne_provider_message_id (se_email x))" for x
      by (simp add: refresh_email_def)
    let ?st = "st\<lparr>ig_world := s1, ig_emails := update_many ?P (refresh_email d) (ig_emails st)\<rparr>"
    have "save_email sv user conn d st = (Inr (se_id e, False), ?st)"
      using c Some by (simp add: save_email_def on_world_def)
    moreover have "stored_ids user ?st = stored_ids user st"
      using key by (simp add: stored_ids_alt map_update_many_key)
    moreover have "same_frame st ?st" by (simp add: same_frame_def same_sync_def)
    ultimately show ?thesis using there insert_absorb by metis
  qed
qed

lemma process_email_exact:
  assumes "accepts sv" and "batch \<noteq> []" and "batch_owner batch (ig_sync st) \<noteq> None"
  shows "\<exists>st'. process_email sv now user conn (Some batch) d st = (Inr (), st') \<and> same_frame st st'
    \<and> stored_ids user st' = insert (ne_provider_message_id d) (stored_ids user st)"
proof -
  from save_email_exact [OF assms(1), of user conn d st] obtain i is_new st1
    where s: "save_email sv user conn d st = (Inr (i, is_new), st1)" "same_frame st st1"
      "stored_ids user st1 = insert (ne_provider_message_id d) (stored_ids user st)" by blast
  obtain r st2 where n: "(if is_new then process_new sv user (Some batch) d i st1 else (Inr (), st1)) = (r, st2)" by fastforce
  then have f: "ig_emails st2 = ig_emails st1" "ig_sync st2 = ig_sync st1" "ig_states st2 = ig_states st1" "ig_oauth st2 = ig_oauth st1"
    using process_new_frame [of sv user "Some batch" d i st1] by (auto split: if_splits)
  have t: "truthy (Some batch) = Some batch" using assms(2) by (cases batch) (simp_all add: truthy_def)
  have "batch_owner batch (ig_sync st2) \<noteq> None" using assms(3) same_frame_batch [OF s(2)] f(2) by simp
  from track_succeeds [OF this, of now "sv_uuid sv (ig_fresh st2)" i "ne_provider_message_id d" "case r of Inl _ \<Rightarrow> Failed | Inr _ \<Rightarrow> Processed" None]
  obtain db' where tr: "track_email_job now (sv_uuid sv (ig_fresh st2)) batch i (ne_provider_message_id d)
      (case r of Inl _ \<Rightarrow> Failed | Inr _ \<Rightarrow> Processed) None (ig_sync st2) = (Inr (), db')" "same_sync (ig_sync st2) db'" by blast
  let ?st = "st2\<lparr>ig_fresh := Suc (ig_fresh st2), ig_sync := db'\<rparr>"
  have "process_email sv now user conn (Some batch) d st = (Inr (), ?st)"
    using s(1) n t tr(1) by (simp add: process_email_def on_sync_def)
  moreover have "same_frame st ?st" using s(2) f tr(2) by (simp add: same_frame_def same_sync_def)
  moreover have "stored_ids user ?st = insert (ne_provider_message_id d) (stored_ids user st)"
    using s(3) f(1) by (simp add: stored_ids_def)
  ultimately show ?thesis by blast
qed

lemma process_emails_exact:
  assumes "accepts sv" and "batch \<noteq> []" and "batch_owner batch (ig_sync st) \<noteq> None"
  shows "\<exists>st'. process_emails sv now user conn (Some batch) ds st = (Inr (), st') \<and> same_frame st st'
    \<and> stored_ids user st' = stored_ids user st \<union> ne_provider_message_id ` set ds"
  using assms(3)
proof (induction ds arbitrary: st)
  case (Cons d ds)
  from process_email_exact [OF assms(1,2) Cons.prems, of now user conn d] obtain st1
    where p: "process_email sv now user conn (Some batch) d st = (Inr (), st1)" "same_frame st st1"
      "stored_ids user st1 = insert (ne_provider_message_id d) (stored_ids user st)" by blast
  have "batch_owner batch (ig_sync st1) \<noteq> None" using Cons.prems same_frame_batch [OF p(2)] by simp
  from Cons.IH [OF this] obtain st' where "process_emails sv now user conn (Some batch) ds st1 = (Inr (), st')" "same_frame st1 st'"
    "stored_ids user st' = stored_ids user st1 \<union> ne_provider_message_id ` set ds" by blast
  then show ?case using p same_frame_trans [OF p(2)] by auto
qed simp

lemma process_and_save_exact:
  assumes "accepts sv" and "answers client get" and "batch \<noteq> []" and "batch_owner batch (ig_sync st) \<noteq> None"
  shows "\<exists>st'. process_and_save_batch sv client now user conn refs (Some batch) st = (Inr (), st') \<and> same_frame st st'
    \<and> stored_ids user st' = stored_ids user st \<union> fetched get refs"
proof -
  obtain ms s where f: "fetch_chunk client refs (ig_world st) = (ms, s)" by fastforce
  then have ms: "ms = List.map_filter (\<lambda>r. get (mr_id r)) refs" using fetch_chunk_answers [OF assms(2)] by (metis fst_conv)
  have ids: "ne_provider_message_id ` set (normalize_batch ms) = fetched get refs"
    unfolding fetched_ids [symmetric] ms by (simp add: normalize_batch_def image_image normalize_def)
  let ?st = "st\<lparr>ig_world := s\<rparr>"
  have fr: "same_frame st st' = same_frame ?st st'" "stored_ids user ?st = stored_ids user st" for st'
    by (simp_all add: same_frame_def stored_ids_def)
  have "batch_owner batch (ig_sync ?st) \<noteq> None" using assms(4) by simp
  from process_emails_exact [OF assms(1,3) this, of now user conn "normalize_batch ms"]
  show ?thesis using f ids fr by (auto simp: process_and_save_batch_def fetch_in_batches)
qed

subsection \<open>The pages of the history\<close>

lemma history_loop_exact:
  assumes "history_pages hist start page refs cursor"
    and "accepts sv" and "answers client get" and "\<forall>a p s. fst (ml_history client a p s) = Inr (hist a p)"
    and "batch \<noteq> []" and "batch_owner batch (ig_sync st) \<noteq> None"
  shows "\<exists>st'. history_loop sv client now user conn batch start page st = Some (Inr cursor, st') \<and> same_frame st st'
    \<and> stored_ids user st' = stored_ids user st \<union> fetched get refs"
  using assms
proof (induction arbitrary: st)
  case (last_page start page)
  let ?h = "hist start page"
  obtain s1 where h: "ml_history client start page (ig_world st) = (Inr ?h, s1)" using last_page.prems(3) by (metis prod.collapse)
  let ?st = "st\<lparr>ig_world := s1\<rparr>"
  have there: "batch_owner batch (ig_sync ?st) \<noteq> None" using last_page.prems(5) by simp
  from process_and_save_exact [OF last_page.prems(1,2,4) there, of now user conn "hr_messages_added ?h"] obtain st'
    where p: "process_and_save_batch sv client now user conn (hr_messages_added ?h) (Some batch) ?st = (Inr (), st')" "same_frame ?st st'"
      "stored_ids user st' = stored_ids user ?st \<union> fetched get (hr_messages_added ?h)" by blast
  have fr: "same_frame st x = same_frame ?st x" "stored_ids user ?st = stored_ids user st" for x by (simp_all add: same_frame_def stored_ids_def)
  show ?case
  proof (cases "hr_messages_added ?h = []")
    case True
    then show ?thesis using h last_page.hyps fr
      by (subst history_loop.simps) (simp add: on_world_def fetched_def same_frame_def same_sync_def)
  next
    case False
    then show ?thesis using h last_page.hyps fr p by (subst history_loop.simps) (simp add: on_world_def)
  qed
next
  case (next_page start page refs cursor)
  let ?h = "hist start page"
  obtain s1 where h: "ml_history client start page (ig_world st) = (Inr ?h, s1)" using next_page.prems(3) by (metis prod.collapse)
  let ?st = "st\<lparr>ig_world := s1\<rparr>"
  have there: "batch_owner batch (ig_sync ?st) \<noteq> None" using next_page.prems(5) by simp
  have fr: "same_frame st x = same_frame ?st x" "stored_ids user ?st = stored_ids user st" for x by (simp_all add: same_frame_def stored_ids_def)
  have "\<exists>st1. (if hr_messages_added ?h = [] then (Inr (), ?st) else process_and_save_batch sv client now user conn (hr_messages_added ?h) (Some batch) ?st)
      = (Inr (), st1) \<and> same_frame st st1 \<and> stored_ids user st1 = stored_ids user st \<union> fetched get (hr_messages_added ?h)"
    using process_and_save_exact [OF next_page.prems(1,2,4) there, of now user conn "hr_messages_added ?h"] fr
    by (cases "hr_messages_added ?h = []") (simp_all add: fetched_def same_frame_def same_sync_def)
  then obtain st1 where p: "(if hr_messages_added ?h = [] then (Inr (), ?st)
      else process_and_save_batch sv client now user conn (hr_messages_added ?h) (Some batch) ?st) = (Inr (), st1)"
    "same_frame st st1" "stored_ids user st1 = stored_ids user st \<union> fetched get (hr_messages_added ?h)" by blast
  have "batch_owner batch (ig_sync st1) \<noteq> None" using next_page.prems(5) same_frame_batch [OF p(2)] by simp
  from next_page.IH [OF next_page.prems(1-4) this] obtain st' where l: "history_loop sv client now user conn batch (hr_history_id ?h) (hr_next_page_token ?h) st1 = Some (Inr cursor, st')"
    "same_frame st1 st'" "stored_ids user st' = stored_ids user st1 \<union> fetched get refs" by blast
  have "fetched get (hr_messages_added ?h @ refs) = fetched get (hr_messages_added ?h) \<union> fetched get refs" by (auto simp: fetched_def)
  then show ?case using h p l next_page.hyps(1) same_frame_trans [OF p(2) l(2)]
    by (subst history_loop.simps) (auto simp: on_world_def)
qed

subsection \<open>The whole incremental synchronization\<close>

lemma advance_succeeds:
  assumes "batch_owner b db = Some u" and "checkpoint_of u db = Some c"
  shows "\<exists>db'. advance_checkpoint id now user b h page db = (Inr (), db') \<and> sy_operations db' = sy_operations db
    \<and> checkpoint_of u db' = Some (advance_row now (cp_lease_owner c) h (truthy page) c)"
proof -
  obtain x where x: "find_row (\<lambda>x. sb_id x = b) (sy_batches db) = Some x" "sb_user_id x = u" using assms(1) by (auto simp: batch_owner_def)
  have c: "c \<in> set (sy_checkpoints db)" "cp_user_id c = u" using assms(2) by (auto simp: checkpoint_of_def dest: find_row_SomeD)
  then have hit: "count_rows (\<lambda>d. cp_user_id d = u \<and> cp_version d = cp_version c) (sy_checkpoints db) \<noteq> 0"
    by (auto simp: count_rows_0_iff)
  then obtain db' where a: "advance_checkpoint id now user b h page db = (Inr (), db')" "sy_operations db' = sy_operations db"
    using x assms(2) by (simp add: advance_checkpoint_def Let_def)
  have "checkpoint_of u db' = Some (advance_row now (cp_lease_owner c) h (truthy page) c)"
    using advance_Inr(2) [OF a(1) x(1), of c u] x(2) assms(2) c(2) by simp
  then show ?thesis using a by blast
qed

lemma initialize_succeeds:
  assumes "cr_claimed (claim_checkpoint resolve now (resolve user) worker db)" and "\<forall>x\<in>set (sy_batches db). sb_id x \<noteq> b"
  shows "\<exists>db'. initialize_sync_op resolve now op b user conn mode corr history worker page db = (Inr \<lparr>sx_op_id = op, sx_batch_id = b\<rparr>, db')
    \<and> batch_owner b db' = Some (resolve user) \<and> (\<exists>c. checkpoint_of (resolve user) db' = Some c)
    \<and> (\<exists>x\<in>set (sy_operations db'). so_id x = op)"
proof -
  from initialize_granted [OF assms(1)] obtain db' where i: "initialize_sync_op resolve now op b user conn mode corr history worker page db
      = (Inr \<lparr>sx_op_id = op, sx_batch_id = b\<rparr>, db')" by blast
  have "find_row (\<lambda>x. sb_id x = b) (sy_batches db) = None" using assms(2) by (simp add: find_row_None_iff)
  then have "batch_owner b db' = Some (resolve user)" "\<exists>x\<in>set (sy_operations db'). so_id x = op"
    using i assms(1) by (auto simp: initialize_sync_op_def transaction_def initialize_body_def Let_def batch_owner_def find_row_append)
  then show ?thesis using i initialize_cases [OF i] by auto
qed

text \<open>When an incremental synchronization runs to its end.\<close>

definition ready_to_sync :: "('g, 'c, 's) services \<Rightarrow> time \<Rightarrow> uid \<Rightarrow> string \<Rightarrow> ('g, 'c, 'b, 's) ingest \<Rightarrow> bool" where
  "ready_to_sync sv now user token st =
     ((\<forall>n. sv_uuid sv n \<noteq> [] \<and> (\<forall>x\<in>set (sy_batches (ig_sync st)). sb_id x \<noteq> sv_uuid sv n)) \<and> sv_resolve sv user = user
      \<and> (\<exists>u. find_user user (od_accounts (ig_oauth st)) = Some u \<and> us_deletion_status u = ''active'')
      \<and> (\<exists>c w. find_row (usable_connection user) (od_connections (ig_oauth st)) = Some c
           \<and> get_valid_access_token (sv_google sv) (sv_crypto sv) now (sv_iv sv) user (mc_id c) (ig_oauth st) = (Inr token, w))
      \<and> snd (snd (determine_resume_strategy (sv_resolve sv) user (ig_sync st))) = Start_fresh
      \<and> cr_claimed (claim_checkpoint (sv_resolve sv) now user (sv_worker sv) (ig_sync st))
      \<and> (\<forall>r\<in>set (ig_states st). ss_user_id r = user \<longleftrightarrow> ss_legacy_user_id r = user))"

lemma setup_client_ready:
  assumes "find_row (usable_connection user) (od_connections (ig_oauth st)) = Some c"
    and "get_valid_access_token (sv_google sv) (sv_crypto sv) now (sv_iv sv) user (mc_id c) (ig_oauth st) = (Inr token, w)"
  shows "setup_client sv now user st = (Inr (sv_client sv token, mc_id c), st\<lparr>ig_oauth := w\<rparr>)" and "find_connection (mc_id c) w \<noteq> None"
proof -
  show "setup_client sv now user st = (Inr (sv_client sv token, mc_id c), st\<lparr>ig_oauth := w\<rparr>)"
    using assms by (simp add: setup_client_def andthen_def on_oauth_def)
  have "only_touches (mc_id c) (ig_oauth st) w"
    using access_token_frame [of "mc_id c" "ig_oauth st" "sv_google sv" "sv_crypto sv" now "sv_iv sv" user] assms(2) by simp
  then have m: "map mc_id (od_connections w) = map mc_id (od_connections (ig_oauth st))"
    unfolding only_touches_def by (metis (no_types, lifting) list.map_comp map_eq_conv comp_apply owner_view_def fst_conv)
  have "mc_id c \<in> set (map mc_id (od_connections (ig_oauth st)))" using assms(1) find_row_SomeD by fastforce
  then have "mc_id c \<in> set (map mc_id (od_connections w))" using m by simp
  then show "find_connection (mc_id c) w \<noteq> None" by (auto simp: find_connection_def find_row_None_iff)
qed

lemma run_history_exact:
  assumes "history_pages hist start None refs cursor" and "accepts sv" and "answers client get"
    and "\<forall>a p s. fst (ml_history client a p s) = Inr (hist a p)" and "sx_batch_id ids \<noteq> []"
    and "batch_owner (sx_batch_id ids) (ig_sync st) = Some user" and "checkpoint_of user (ig_sync st) = Some c"
    and "\<exists>x\<in>set (sy_operations (ig_sync st)). so_id x = sx_op_id ids" and "sv_resolve sv user = user"
    and "\<forall>r\<in>set (ig_states st). ss_user_id r = user \<longleftrightarrow> ss_legacy_user_id r = user" and "find_connection conn (ig_oauth st) \<noteq> None"
  shows "\<exists>st'. run_history sv client now corr user conn ids start st = Some (Inr (), st')
    \<and> stored_ids user st' = stored_ids user st \<union> fetched get refs
    \<and> map_option ss_history_id (find_sync_state user st') = Some cursor
    \<and> (\<exists>c'. checkpoint_of user (ig_sync st') = Some c' \<and> cp_current_history_id c' = Some cursor \<and> cp_status c' = ''idle'')"
proof -
  have "batch_owner (sx_batch_id ids) (ig_sync st) \<noteq> None" using assms(6) by simp
  from history_loop_exact [OF assms(1-5) this, of now user conn] obtain st1 where l: "history_loop sv client now user conn (sx_batch_id ids) start None st = Some (Inr cursor, st1)"
    and f: "same_frame st st1" and ids: "stored_ids user st1 = stored_ids user st \<union> fetched get refs" by blast
  have "batch_owner (sx_batch_id ids) (ig_sync st1) = Some user" "checkpoint_of user (ig_sync st1) = Some c"
    using f assms(6,7) by (simp_all add: same_frame_def same_sync_def checkpoint_of_def)
  from advance_succeeds [OF this, of now user cursor None] obtain db where
    a: "advance_checkpoint id now user (sx_batch_id ids) cursor None (ig_sync st1) = (Inr (), db)" "sy_operations db = sy_operations (ig_sync st1)"
      "checkpoint_of user db = Some (advance_row now (cp_lease_owner c) cursor (truthy None) c)" by blast
  let ?st2 = "st1\<lparr>ig_sync := db\<rparr>"
  have states: "ig_states ?st2 = ig_states st" "ig_oauth ?st2 = ig_oauth st" using f by (simp_all add: same_frame_def)
  let ?mine = "\<lambda>r. ss_legacy_user_id r = user"
  let ?rows = "if find_row ?mine (ig_states st) = None
      then ig_states st @ [\<lparr>ss_user_id = user, ss_legacy_user_id = user, ss_connection_id = conn, ss_history_id = cursor, ss_last_synced_at = now\<rparr>]
      else update_many ?mine (\<lambda>r. r\<lparr>ss_user_id := user, ss_history_id := cursor, ss_last_synced_at := now\<rparr>) (ig_states st)"
  let ?st3 = "?st2\<lparr>ig_states := ?rows, ig_oauth := update_connection conn (\<lambda>c. c\<lparr>mc_last_sync_at := Some now\<rparr>) (ig_oauth ?st2)\<rparr>"
  have u: "update_backward_compat_state sv now user conn cursor ?st2 = (Inr (), ?st3)"
    using states assms(9-11) by (auto simp: update_backward_compat_state_def Let_def)
  have rows: "map_option ss_history_id (find_row (\<lambda>r. ss_user_id r = user) ?rows) = Some cursor"
  proof (cases "find_row ?mine (ig_states st)")
    case None
    then have "find_row (\<lambda>r. ss_user_id r = user) (ig_states st) = None" using assms(10) by (auto simp: find_row_None_iff)
    then show ?thesis using None by (simp add: find_row_append)
  next
    case (Some r)
    have "find_row (\<lambda>r. ss_user_id r = user) (update_many ?mine (\<lambda>r. r\<lparr>ss_user_id := user, ss_history_id := cursor, ss_last_synced_at := now\<rparr>) rs)
        = map_option (\<lambda>r. r\<lparr>ss_user_id := user, ss_history_id := cursor, ss_last_synced_at := now\<rparr>) (find_row ?mine rs)"
      if "\<forall>r\<in>set rs. ss_user_id r = user \<longleftrightarrow> ?mine r" for rs :: "sync_state_row list"
      using that by (induction rs) auto
    from this [OF assms(10)] show ?thesis using Some by simp
  qed
  let ?finished = "update_many (\<lambda>o'. so_id o' = sx_op_id ids) (\<lambda>o'. o'\<lparr>so_status := ''completed'', so_completed_at := Some now\<rparr>) (sy_operations db)"
  have "\<exists>x\<in>set (sy_operations db). so_id x = sx_op_id ids" using assms(8) a(2) f by (simp add: same_frame_def same_sync_def)
  then have c: "on_sync (complete_sync_op now (sx_op_id ids)) ?st3 = (Inr (), ?st3\<lparr>ig_sync := db\<lparr>sy_operations := ?finished\<rparr>\<rparr>)"
    by (auto simp: on_sync_def complete_sync_op_def finish_operation_def find_row_None_iff)
  have "run_history sv client now corr user conn ids start st = Some (Inr (), ?st3\<lparr>ig_sync := db\<lparr>sy_operations := ?finished\<rparr>\<rparr>)"
    using l a(1) u c by (simp add: run_history_def andthen_def on_sync_def)
  moreover have "stored_ids user (?st3\<lparr>ig_sync := db\<lparr>sy_operations := ?finished\<rparr>\<rparr>) = stored_ids user st \<union> fetched get refs"
    using ids by (simp add: stored_ids_def)
  moreover have "checkpoint_of user (db\<lparr>sy_operations := ?finished\<rparr>) = checkpoint_of user db" by simp
  ultimately show ?thesis using rows a(3)
    by (intro exI [of _ "?st3\<lparr>ig_sync := db\<lparr>sy_operations := ?finished\<rparr>\<rparr>"]) (simp add: find_sync_state_def advance_row_def truthy_def)
qed


definition sample_message :: "string \<Rightarrow> gmail_message" where
  "sample_message i = \<lparr>gm_id = i, gm_thread_id = ''t'', gm_label_ids = [], gm_sender = ''a@b'', gm_recipients = \<lparr>rc_to = [], rc_cc = [], rc_bcc = []\<rparr>,
     gm_subject = ''s'', gm_body_text = None, gm_body_html = None, gm_has_attachments = False, gm_received_at = 3, gm_headers = []\<rparr>"

definition sample_history :: "string \<Rightarrow> string option \<Rightarrow> gmail_history_result" where
  "sample_history start page = (if start = ''5''
     then \<lparr>hr_history_id = ''7'', hr_next_page_token = Some ''p2'', hr_messages_added = [\<lparr>mr_id = ''m1'', mr_thread_id = ''t''\<rparr>, \<lparr>mr_id = ''gone'', mr_thread_id = ''t''\<rparr>]\<rparr>
     else \<lparr>hr_history_id = ''9'', hr_next_page_token = None, hr_messages_added = []\<rparr>)"

definition sample_services :: "(unit, unit, unit) services" where
  "sample_services = \<lparr>sv_google = \<lparr>go_get_token = (\<lambda>_ g. (Inl (GenericError ''no''), g)), go_refresh = (\<lambda>_ g. (Inl (GenericError ''no''), g)),
       go_userinfo = (\<lambda>_ g. (Inl (GenericError ''no''), g))\<rparr>,
     sv_crypto = \<lparr>co_encrypt = (\<lambda>_ p k. (Inr p, k)), co_decrypt = (\<lambda>c k. (Inr c, k))\<rparr>, sv_iv = [],
     sv_client = (\<lambda>_. \<lparr>ml_profile = (\<lambda>s. (Inr \<lparr>gp_email_address = ''m'', gp_messages_total = 0, gp_threads_total = 0, gp_history_id = ''9''\<rparr>, s)),
       ml_list = (\<lambda>_ s. (Inl (GenericError ''no''), s)),
       ml_get = (\<lambda>i s. (if i = ''m1'' then Inr (sample_message i) else Inl (GmailApiError ''gone'' (Some 404)), s)),
       ml_history = (\<lambda>start page s. (Inr (sample_history start page), s))\<rparr>),
     sv_resolve = id, sv_worker = ''w'', sv_sha256 = id, sv_uuid = (\<lambda>n. CHR ''x'' # show_nat n), sv_commit = (\<lambda>_ s. (Inr (), s)), sv_async = False,
     sv_cell_of = (\<lambda>_ s. (Inr ''cell'', s)), sv_depths = (\<lambda>s. (Inr [], s)), sv_depth_limit = 5,
     sv_classify = (\<lambda>_ s. (Inr ''NOT_JOB_RELATED'', s)), sv_track_application = (\<lambda>_ _ _ s. (Inr (), s))\<rparr>"

definition sample_ingest :: "(unit, unit, unit, unit) ingest" where
  "sample_ingest = \<lparr>ig_oauth = \<lparr>od_connections = [\<lparr>mc_id = ''c'', mc_user_id = ''u'', mc_legacy_user_id = ''u'', mc_provider = ''GMAIL'', mc_email_address = ''m'',
       mc_access_token = ''at'', mc_refresh_token = ''rt'', mc_token_expiry = 900000, mc_scopes = [], mc_status = ''ACTIVE'', mc_last_sync_at = None\<rparr>],
       od_accounts = empty_accounts\<lparr>ac_users := [new_user 0 ''u'' ''cell'' ''r'' None]\<rparr>, od_google = (), od_crypto = (), od_states = ()\<rparr>,
     ig_sync = empty_sync_db, ig_emails = [],
     ig_states = [\<lparr>ss_user_id = ''u'', ss_legacy_user_id = ''u'', ss_connection_id = ''c'', ss_history_id = ''5'', ss_last_synced_at = 0\<rparr>],
     ig_queue = [], ig_fresh = 0, ig_world = ()\<rparr>"

lemma sample_ready: "ready_to_sync sample_services 10 ''u'' ''at'' sample_ingest"
proof -
  have 1: "find_row (usable_connection ''u'') (od_connections (ig_oauth sample_ingest)) = Some (hd (od_connections (ig_oauth sample_ingest)))"
    by (simp add: sample_ingest_def usable_connection_def)
  have 2: "get_valid_access_token (sv_google sample_services) (sv_crypto sample_services) 10 (sv_iv sample_services) ''u''
      (mc_id (hd (od_connections (ig_oauth sample_ingest)))) (ig_oauth sample_ingest) = (Inr ''at'', ig_oauth sample_ingest)"
    by (simp add: sample_ingest_def sample_services_def get_valid_access_token_def find_connection_def TOKEN_EXPIRY_BUFFER_MS_def with_crypto_def)
  have 3: "find_user ''u'' (od_accounts (ig_oauth sample_ingest)) = Some (new_user 0 ''u'' ''cell'' ''r'' None)"
    "us_deletion_status (new_user 0 ''u'' ''cell'' ''r'' None) = ''active''"
    by (simp add: sample_ingest_def find_user_def) (simp add: new_user_def)
  have 4: "snd (snd (determine_resume_strategy (sv_resolve sample_services) ''u'' (ig_sync sample_ingest))) = Start_fresh"
    "cr_claimed (claim_checkpoint (sv_resolve sample_services) 10 ''u'' (sv_worker sample_services) (ig_sync sample_ingest))"
    by (simp_all add: determine_resume_strategy_def load_durable_state_def Let_def sample_ingest_def empty_sync_db_def checkpoint_of_def claim_checkpoint_def)
  have 5: "(\<forall>n. sv_uuid sample_services n \<noteq> [] \<and> (\<forall>x\<in>set (sy_batches (ig_sync sample_ingest)). sb_id x \<noteq> sv_uuid sample_services n))
      \<and> sv_resolve sample_services ''u'' = ''u'' \<and> (\<forall>r\<in>set (ig_states sample_ingest). ss_user_id r = ''u'' \<longleftrightarrow> ss_legacy_user_id r = ''u'')"
    by (simp add: sample_services_def sample_ingest_def empty_sync_db_def)
  show ?thesis unfolding ready_to_sync_def using 1 2 3 4 5 by blast
qed

lemma sample_pages: "history_pages sample_history ''5'' None [\<lparr>mr_id = ''m1'', mr_thread_id = ''t''\<rparr>, \<lparr>mr_id = ''gone'', mr_thread_id = ''t''\<rparr>] ''9''"
  using next_page [of sample_history "''5''" None "[]" "''9''"] last_page [of sample_history "''7''" "Some ''p2''"]
  by (simp add: sample_history_def truthy_def)


subsection \<open>Interrupted batches\<close>

lemma andthen_frames:
  assumes "\<And>a s. fst r = Inr a \<Longrightarrow> s = snd r \<Longrightarrow> ig_emails (snd (f a s)) = ig_emails s"
  shows "ig_emails (snd (andthen r f)) = ig_emails (snd r)"
  using assms by (auto simp: andthen_def split: prod.splits sum.splits)

lemma update_state_emails [simp]: "ig_emails (snd (update_backward_compat_state sv now user conn h st)) = ig_emails st"
  by (simp add: update_backward_compat_state_def Let_def)

text \<open>
  An interrupted batch is resumed from its end. While the checkpoint is syncing and the
  batch pending, each incremental synchronization asks Gmail only for the first page of the
  history after the batch's target: it stores what can be fetched from there, and nothing that
  lies between the old cursor and the target. If that page is empty, the checkpoint, the batch
  and the sync state stay as they are, so the next call does the same again.
\<close>

lemma resume_starts_at_target:
  assumes "ready_to_sync sv now user token (st\<lparr>ig_sync := db0\<rparr>)" and "accepts sv" and "answers (sv_client sv token) get"
    and "\<forall>a p s. fst (ml_history (sv_client sv token) a p s) = Inr (hist a p)"
    and "determine_resume_strategy (sv_resolve sv) user (ig_sync st) = (True, state, Restart_batch)"
    and "ds_pending_batch state = Some batch" and "sb_id batch \<noteq> []"
  shows "\<exists>r st'. sync_new_emails sv now corr user st = Some (r, st')
    \<and> stored_ids user st' = stored_ids user st \<union> fetched get (hr_messages_added (hist (sb_history_id batch) None))
    \<and> (hr_messages_added (hist (sb_history_id batch) None) = []
        \<longrightarrow> r = Inr () \<and> ig_sync st' = ig_sync st \<and> ig_states st' = ig_states st)"
proof -
  let ?h = "hist (sb_history_id batch) None"
  from assms(1) obtain c w u where c: "find_row (usable_connection user) (od_connections (ig_oauth st)) = Some c"
    "get_valid_access_token (sv_google sv) (sv_crypto sv) now (sv_iv sv) user (mc_id c) (ig_oauth st) = (Inr token, w)"
    and u: "find_user user (od_accounts (ig_oauth st)) = Some u" "us_deletion_status u = ''active''" and res: "sv_resolve sv user = user"
    by (auto simp: ready_to_sync_def)
  obtain s1 where h: "ml_history (sv_client sv token) (sb_history_id batch) None (ig_world st) = (Inr ?h, s1)"
    using assms(4) by (metis prod.collapse)
  let ?st = "st\<lparr>ig_oauth := w, ig_world := s1\<rparr>"
  have sync: "sync_new_emails sv now corr user st = Some (resume_interrupted_batch sv now user batch st)"
    using u res assms(5,6) by (simp add: sync_new_emails_def ensure_user_is_active_def)
  have "batch \<in> set (sy_batches (ig_sync st))"
    using assms(5,6) by (auto simp: determine_resume_strategy_def load_durable_state_def Let_def dest!: first_by_SomeD split: option.splits if_splits)
  then have own: "batch_owner (sb_id batch) (ig_sync ?st) \<noteq> None" by (auto simp: batch_owner_def find_row_None_iff)
  have ids: "stored_ids user ?st = stored_ids user st" by (simp add: stored_ids_def)
  have run: "resume_interrupted_batch sv now user batch st = (if hr_messages_added ?h = [] then (Inr (), ?st)
      else andthen (process_and_save_batch sv (sv_client sv token) now user (mc_id c) (hr_messages_added ?h) (Some (sb_id batch)) ?st) (\<lambda>_ st3.
            andthen (on_sync (advance_checkpoint id now user (sb_id batch) (hr_history_id ?h) None) st3) (\<lambda>_ st4.
              update_backward_compat_state sv now user (mc_id c) (hr_history_id ?h) st4)))"
    using setup_client_ready(1) [OF c] h by (simp add: resume_interrupted_batch_def andthen_def on_world_def)
  show ?thesis
  proof (cases "hr_messages_added ?h = []")
    case True
    then show ?thesis using sync run ids by (simp add: fetched_def)
  next
    case False
    from process_and_save_exact [OF assms(2,3,7) own, of now user "mc_id c" "hr_messages_added ?h"] obtain st1
      where p: "process_and_save_batch sv (sv_client sv token) now user (mc_id c) (hr_messages_added ?h) (Some (sb_id batch)) ?st = (Inr (), st1)"
        "stored_ids user st1 = stored_ids user ?st \<union> fetched get (hr_messages_added ?h)" by blast
    let ?rest = "andthen (on_sync (advance_checkpoint id now user (sb_id batch) (hr_history_id ?h) None) st1) (\<lambda>_ st4.
              update_backward_compat_state sv now user (mc_id c) (hr_history_id ?h) st4)"
    have "ig_emails (snd ?rest) = ig_emails st1" by (subst andthen_frames) simp_all
    then have "stored_ids user (snd ?rest) = stored_ids user st1" by (simp add: stored_ids_def)
    moreover have "sync_new_emails sv now corr user st = Some ?rest" using sync run False p(1) by (simp add: andthen_def)
    ultimately show ?thesis using p(2) ids False by (intro exI [of _ "fst ?rest"] exI [of _ "snd ?rest"]) simp
  qed
qed

definition interrupted_ingest :: "(unit, unit, unit, unit) ingest" where
  "interrupted_ingest = sample_ingest\<lparr>ig_sync := empty_sync_db\<lparr>
     sy_checkpoints := [(sample_checkpoint 1)\<lparr>cp_status := ''syncing''\<rparr>],
     sy_batches := [(sample_batch 0 0 None)\<lparr>sb_history_id := ''9'', sb_status := ''pending''\<rparr>]\<rparr>\<rparr>"

lemma resume_starts_at_target_witness:
  "\<exists>st'. sync_new_emails sample_services 10 ''corr'' ''u'' interrupted_ingest = Some (Inr (), st')
    \<and> stored_ids ''u'' st' = {} \<and> ig_sync st' = ig_sync interrupted_ingest"
proof -
  let ?get = "\<lambda>i. if i = ''m1'' then Some (sample_message i) else None" and ?b = "(sample_batch 0 0 None)\<lparr>sb_history_id := ''9'', sb_status := ''pending''\<rparr>"
  have a: "accepts sample_services" "answers (sv_client sample_services ''at'') ?get"
    "\<forall>a p s. fst (ml_history (sv_client sample_services ''at'') a p s) = Inr (sample_history a p)"
    by (simp_all add: accepts_def answers_def sample_services_def)
  have ready: "ready_to_sync sample_services 10 ''u'' ''at'' (interrupted_ingest\<lparr>ig_sync := empty_sync_db\<rparr>)"
  proof -
    have "interrupted_ingest\<lparr>ig_sync := empty_sync_db\<rparr> = sample_ingest" by (simp add: interrupted_ingest_def sample_ingest_def)
    then show ?thesis using sample_ready by simp
  qed
  have d: "\<exists>state. determine_resume_strategy (sv_resolve sample_services) ''u'' (ig_sync interrupted_ingest) = (True, state, Restart_batch)
      \<and> ds_pending_batch state = Some ?b"
    by (simp add: determine_resume_strategy_def load_durable_state_def Let_def interrupted_ingest_def empty_sync_db_def checkpoint_of_def
        sample_services_def sample_checkpoint_def sample_batch_def first_by_def)
  then obtain state where s: "determine_resume_strategy (sv_resolve sample_services) ''u'' (ig_sync interrupted_ingest) = (True, state, Restart_batch)"
    "ds_pending_batch state = Some ?b" by blast
  have "hr_messages_added (sample_history (sb_history_id ?b) None) = []" "sb_id ?b \<noteq> []"
    by (simp_all add: sample_history_def sample_batch_def)
  moreover have "stored_ids ''u'' interrupted_ingest = {}" by (simp add: stored_ids_def interrupted_ingest_def sample_ingest_def)
  ultimately show ?thesis using resume_starts_at_target [OF ready a s, of "''corr''"] by (auto simp: fetched_def)
qed

subsection \<open>Bounds and connections\<close>

text \<open>
  The initial synchronization is bounded. It always ends, and if Gmail keeps to the page
  size it was asked for, it lists fewer than 1100 messages.
\<close>

lemma initial_sync_bounded:
  assumes "\<forall>opts s r. fst (ml_list client opts s) = Inr r \<longrightarrow> length (lr_messages r) \<le> 100"
    and "fst (initial_loop sv client now user conn batch start synced page st) = Inr n" and "synced < MAX_INITIAL_SYNC + 100"
  shows "synced \<le> n \<and> n < MAX_INITIAL_SYNC + 100"
  using assms
proof (induction sv client now user conn batch start synced page st rule: initial_loop.induct)
  case (1 sv client now user conn batch start synced page st)
  show ?case
  proof (cases "synced < MAX_INITIAL_SYNC")
    case False
    then show ?thesis using 1 by (subst (asm) initial_loop.simps) simp
  next
    case in_bound: True
    obtain r1 st1 where l: "on_world (ml_list client \<lparr>lm_query = None, lm_max_results = Some 100, lm_page_token = page, lm_label_ids = None\<rparr>) st = (r1, st1)"
      by fastforce
    obtain listed where r1: "r1 = Inr listed" using 1(3) in_bound l by (cases r1) (auto simp: initial_loop.simps [of sv client])
    have len: "length (lr_messages listed) \<le> 100" using 1(2) l r1 by (auto simp: on_world_def split: prod.splits) (metis fst_conv)
    show ?thesis
    proof (cases "lr_messages listed = []")
      case True
      then show ?thesis using 1(3,4) in_bound l r1 by (subst (asm) initial_loop.simps) simp
    next
      case ne: False
      obtain r2 st2 where p: "process_and_save_batch sv client now user conn (lr_messages listed) (Some batch) st1 = (r2, st2)" by fastforce
      obtain r3 st3 where a: "on_sync (advance_checkpoint id now user batch start (lr_next_page_token listed)) st2 = (r3, st3)" by fastforce
      have r23: "r2 = Inr ()" "r3 = Inr ()" using 1(3) in_bound l r1 ne p a
        by (cases r2; cases r3; auto simp: initial_loop.simps [of sv client])+
      show ?thesis
      proof (cases "truthy (lr_next_page_token listed) = None")
        case True
        then show ?thesis using 1(3) in_bound l r1 ne p a r23 len by (subst (asm) initial_loop.simps) auto
      next
        case False
        have "fst (initial_loop sv client now user conn batch start (synced + length (lr_messages listed)) (lr_next_page_token listed) st3) = Inr n"
          using 1(3) in_bound l r1 ne p a r23 False by (subst (asm) initial_loop.simps) simp
        then have "synced + length (lr_messages listed) \<le> n \<and> n < MAX_INITIAL_SYNC + 100"
          using in_bound l r1 ne p a r23 False len by (intro 1(1) [OF _ l [symmetric] r1 ne p [symmetric] r23(1) a [symmetric] r23(2) False 1(2)]) simp_all
        then show ?thesis by simp
      qed
    qed
  qed
qed

lemma initial_sync_bounded_witness:
  "let client = (sv_client sample_services ''at'')\<lparr>ml_list := (\<lambda>_ s. (Inr \<lparr>lr_messages = [], lr_next_page_token = None, lr_result_size_estimate = 0\<rparr>, s))\<rparr>
   in (case fst (initial_loop sample_services client 1 ''u'' ''c'' ''b'' ''5'' 0 None sample_ingest) of Inr n \<Rightarrow> n < MAX_INITIAL_SYNC + 100 | Inl _ \<Rightarrow> False)"
proof -
  let ?c = "(sv_client sample_services ''at'')\<lparr>ml_list := (\<lambda>_ s. (Inr \<lparr>lr_messages = [], lr_next_page_token = None, lr_result_size_estimate = 0\<rparr>, s))\<rparr>"
  have "fst (initial_loop sample_services ?c 1 ''u'' ''c'' ''b'' ''5'' 0 None sample_ingest) = Inr 0"
    by (subst initial_loop.simps) (simp add: on_world_def MAX_INITIAL_SYNC_def)
  then show ?thesis
    using initial_sync_bounded [of ?c sample_services 1 "''u''" "''c''" "''b''" "''5''" 0 None sample_ingest 0]
    by (simp add: Let_def)
qed

end
