(* ===== verification/Auth_Tokens.thy ===== *)
theory Auth_Tokens
  imports Users
begin

text \<open>
  Sessions: the Redis cache service (\<open>services/cache/cache.service.ts\<close>), the token service over
  it (\<open>services/auth/token.service.ts\<close>) and the middleware and route handlers that use it
  (\<open>middleware/auth.ts\<close>, \<open>middleware/internal-api.ts\<close>, \<open>routes/auth.routes.ts\<close>). The Redis
  commands and the signing and verification of a JWT are parameters; a cached value is kept as
  the value itself, since the records stored here survive \<open>JSON.stringify\<close>. Random bytes are
  arguments. A command that throws may still have been carried out by the server.
\<close>

subsection \<open>The cache service\<close>

record ('v, 'r) redis_commands =
  rk_get :: "time \<Rightarrow> string \<Rightarrow> 'r \<Rightarrow> ('v option, 'r) outcome"
  rk_getdel :: "time \<Rightarrow> string \<Rightarrow> 'r \<Rightarrow> ('v option, 'r) outcome"
  rk_set_px :: "time \<Rightarrow> string \<Rightarrow> 'v \<Rightarrow> int \<Rightarrow> 'r \<Rightarrow> (unit, 'r) outcome"
  rk_del :: "string list \<Rightarrow> 'r \<Rightarrow> (nat, 'r) outcome"
  rk_scan :: "string \<Rightarrow> string \<Rightarrow> nat \<Rightarrow> 'r \<Rightarrow> (string \<times> string list, 'r) outcome"
  rk_exists :: "time \<Rightarrow> string \<Rightarrow> 'r \<Rightarrow> (nat, 'r) outcome"

definition redis_cache_get :: "('v, 'r) redis_commands \<Rightarrow> time \<Rightarrow> string \<Rightarrow> 'r \<Rightarrow> 'v option \<times> 'r" where
  "redis_cache_get R now key r = (case rk_get R now key r of (Inl _, r') \<Rightarrow> (None, r') | (Inr v, r') \<Rightarrow> (v, r'))"

definition redis_cache_get_del :: "('v, 'r) redis_commands \<Rightarrow> time \<Rightarrow> string \<Rightarrow> 'r \<Rightarrow> 'v option \<times> 'r" where
  "redis_cache_get_del R now key r = (case rk_getdel R now key r of (Inl _, r') \<Rightarrow> (None, r') | (Inr v, r') \<Rightarrow> (v, r'))"

definition redis_cache_set :: "('v, 'r) redis_commands \<Rightarrow> time \<Rightarrow> string \<Rightarrow> 'v \<Rightarrow> int \<Rightarrow> 'r \<Rightarrow> 'r" where
  "redis_cache_set R now key v ttl_ms r = snd (rk_set_px R now key v ttl_ms r)"

definition redis_cache_del :: "('v, 'r) redis_commands \<Rightarrow> string \<Rightarrow> 'r \<Rightarrow> 'r" where
  "redis_cache_del R key r = snd (rk_del R [key] r)"

text \<open>The loop over \<open>SCAN\<close>. The server decides how often it is called.\<close>

partial_function (option) scan_loop :: "('v, 'r) redis_commands \<Rightarrow> string \<Rightarrow> string \<Rightarrow> 'r \<Rightarrow> 'r option" where
  "scan_loop R pattern cursor r =
     (case rk_scan R cursor pattern 100 r of
        (Inl _, r1) \<Rightarrow> Some r1
      | (Inr (next, keys), r1) \<Rightarrow>
          (case (if keys = [] then (Inr 0, r1) else rk_del R keys r1) of
             (Inl _, r2) \<Rightarrow> Some r2
           | (Inr _, r2) \<Rightarrow> if next = ''0'' then Some r2 else scan_loop R pattern next r2))"

definition redis_cache_del_by_prefix :: "('v, 'r) redis_commands \<Rightarrow> string \<Rightarrow> 'r \<Rightarrow> 'r option" where
  "redis_cache_del_by_prefix R prefix r = scan_loop R (prefix @ ''*'') ''0'' r"

definition redis_cache_exists :: "('v, 'r) redis_commands \<Rightarrow> time \<Rightarrow> string \<Rightarrow> 'r \<Rightarrow> bool \<times> 'r" where
  "redis_cache_exists R now key r = (case rk_exists R now key r of (Inl _, r') \<Rightarrow> (False, r') | (Inr n, r') \<Rightarrow> (n = 1, r'))"

text \<open>\<open>ICacheService\<close> and its two implementations.\<close>

record ('v, 'c) cache_service =
  cs_get :: "time \<Rightarrow> string \<Rightarrow> 'c \<Rightarrow> 'v option \<times> 'c"
  cs_get_del :: "time \<Rightarrow> string \<Rightarrow> 'c \<Rightarrow> 'v option \<times> 'c"
  cs_set :: "time \<Rightarrow> string \<Rightarrow> 'v \<Rightarrow> int \<Rightarrow> 'c \<Rightarrow> 'c"
  cs_del :: "string \<Rightarrow> 'c \<Rightarrow> 'c"
  cs_del_by_prefix :: "string \<Rightarrow> 'c \<Rightarrow> 'c option"
  cs_exists :: "time \<Rightarrow> string \<Rightarrow> 'c \<Rightarrow> bool \<times> 'c"

definition redis_cache_service :: "('v, 'r) redis_commands \<Rightarrow> ('v, 'r) cache_service" where
  "redis_cache_service R = \<lparr>cs_get = redis_cache_get R, cs_get_del = redis_cache_get_del R, cs_set = redis_cache_set R,
     cs_del = redis_cache_del R, cs_del_by_prefix = redis_cache_del_by_prefix R, cs_exists = redis_cache_exists R\<rparr>"

definition null_cache_service :: "('v, 'c) cache_service" where
  "null_cache_service = \<lparr>cs_get = (\<lambda>_ _ c. (None, c)), cs_get_del = (\<lambda>_ _ c. (None, c)), cs_set = (\<lambda>_ _ _ _ c. c),
     cs_del = (\<lambda>_ c. c), cs_del_by_prefix = (\<lambda>_ c. Some c), cs_exists = (\<lambda>_ _ c. (False, c))\<rparr>"

subsection \<open>The token service\<close>

definition ACCESS_TOKEN_TTL_SEC :: int where "ACCESS_TOKEN_TTL_SEC = 15 * 60"
definition REFRESH_TOKEN_TTL_MS :: int where "REFRESH_TOKEN_TTL_MS = 7 * 24 * 60 * 60 * 1000"
definition REFRESH_KEY_PREFIX :: string where "REFRESH_KEY_PREFIX = ''refresh:''"

record token_pair =
  tk_access_token :: string
  tk_refresh_token :: string
  tk_access_token_expires_at :: int

record access_payload =
  ap_sub :: uid
  ap_jti :: string
  ap_iat :: int
  ap_exp :: int

record refresh_record =
  rr_user_id :: uid
  rr_token_id :: string
  rr_issued_at :: int

text \<open>
  The \<open>jsonwebtoken\<close> library: signing a subject and an id with a secret for a number of seconds
  at a time in seconds, and verifying; \<open>TokenExpiredError\<close> is one way to fail.
\<close>

datatype jwt_failure = Expired_jwt | Invalid_jwt

record jwt_library =
  jw_sign :: "uid \<Rightarrow> string \<Rightarrow> string \<Rightarrow> int \<Rightarrow> int \<Rightarrow> string"
  jw_verify :: "string \<Rightarrow> string \<Rightarrow> int \<Rightarrow> jwt_failure + access_payload"

definition refresh_key :: "uid \<Rightarrow> string \<Rightarrow> string" where
  "refresh_key user token_id = REFRESH_KEY_PREFIX @ user @ '':'' @ token_id"

definition issue_token_pair :: "jwt_library \<Rightarrow> string \<Rightarrow> (refresh_record, 'c) cache_service \<Rightarrow> time \<Rightarrow> string \<Rightarrow> string \<Rightarrow> uid \<Rightarrow> 'c
    \<Rightarrow> token_pair \<times> 'c" where
  "issue_token_pair J secret C now_ms jti token_id user c =
     (let now = now_ms div 1000
      in (\<lparr>tk_access_token = jw_sign J user jti secret ACCESS_TOKEN_TTL_SEC now, tk_refresh_token = token_id,
           tk_access_token_expires_at = now + ACCESS_TOKEN_TTL_SEC\<rparr>,
          cs_set C now_ms (refresh_key user token_id) \<lparr>rr_user_id = user, rr_token_id = token_id, rr_issued_at = now\<rparr>
            REFRESH_TOKEN_TTL_MS c))"

definition verify_access_token :: "jwt_library \<Rightarrow> string \<Rightarrow> time \<Rightarrow> string \<Rightarrow> error + access_payload" where
  "verify_access_token J secret now_ms token =
     (case jw_verify J token secret (now_ms div 1000) of
        Inr p \<Rightarrow> Inr p
      | Inl Expired_jwt \<Rightarrow> Inl (TokenError ''Access token has expired'' ''TOKEN_EXPIRED'')
      | Inl Invalid_jwt \<Rightarrow> Inl (TokenError ''Invalid access token'' ''TOKEN_INVALID''))"

definition invalid_refresh :: error where
  "invalid_refresh = TokenError ''Refresh token is invalid or expired'' ''REFRESH_TOKEN_INVALID''"

definition rotate_token_pair :: "jwt_library \<Rightarrow> string \<Rightarrow> (refresh_record, 'c) cache_service \<Rightarrow> time \<Rightarrow> string \<Rightarrow> string \<Rightarrow> uid \<Rightarrow> string \<Rightarrow> 'c
    \<Rightarrow> (token_pair, 'c) outcome" where
  "rotate_token_pair J secret C now_ms jti token_id user refresh_token c =
     (case cs_get_del C now_ms (refresh_key user refresh_token) c of
        (None, c1) \<Rightarrow> (Inl invalid_refresh, c1)
      | (Some rec, c1) \<Rightarrow>
          if rr_user_id rec \<noteq> user then (Inl invalid_refresh, c1)
          else (case issue_token_pair J secret C now_ms jti token_id user c1 of (pair, c2) \<Rightarrow> (Inr pair, c2)))"

definition revoke_refresh_token :: "(refresh_record, 'c) cache_service \<Rightarrow> uid \<Rightarrow> string \<Rightarrow> 'c \<Rightarrow> 'c" where
  "revoke_refresh_token C user refresh_token c = cs_del C (refresh_key user refresh_token) c"

definition revoke_all_refresh_tokens :: "(refresh_record, 'c) cache_service \<Rightarrow> uid \<Rightarrow> 'c \<Rightarrow> 'c option" where
  "revoke_all_refresh_tokens C user c = cs_del_by_prefix C (REFRESH_KEY_PREFIX @ user @ '':'') c"

subsection \<open>Middleware and routes\<close>

text \<open>What the middleware reads of a request: its headers, and the environment.\<close>

record auth_request =
  aq_authorization :: "string option"
  aq_x_user_id :: "string option"
  aq_internal_key :: "string option"

record auth_user =
  au_id :: uid
  au_jti :: "string option"

definition bearer_token :: "auth_request \<Rightarrow> string option" where
  "bearer_token req = (case aq_authorization req of
     Some h \<Rightarrow> if starts_with h ''Bearer '' then Some (drop 7 h) else None
   | None \<Rightarrow> None)"

definition require_auth :: "jwt_library \<Rightarrow> string \<Rightarrow> string \<Rightarrow> time \<Rightarrow> auth_request \<Rightarrow> error + auth_user" where
  "require_auth J secret node_env now req =
     (case (if node_env = ''test'' then truthy (aq_x_user_id req) else None) of
        Some user \<Rightarrow> Inr \<lparr>au_id = user, au_jti = None\<rparr>
      | None \<Rightarrow>
          (case bearer_token req of
             None \<Rightarrow> Inl (UnauthorizedError ''Authorization header missing or malformed. Expected: Bearer <token>'')
           | Some token \<Rightarrow>
               (case verify_access_token J secret now token of
                  Inl _ \<Rightarrow> Inl (UnauthorizedError ''Authentication failed'')
                | Inr p \<Rightarrow> Inr \<lparr>au_id = ap_sub p, au_jti = Some (ap_jti p)\<rparr>)))"

definition optional_auth :: "jwt_library \<Rightarrow> string \<Rightarrow> time \<Rightarrow> auth_request \<Rightarrow> auth_user option" where
  "optional_auth J secret now req =
     (case bearer_token req of
        None \<Rightarrow> None
      | Some token \<Rightarrow>
          (case verify_access_token J secret now token of
             Inl _ \<Rightarrow> None
           | Inr p \<Rightarrow> Some \<lparr>au_id = ap_sub p, au_jti = Some (ap_jti p)\<rparr>))"

text \<open>\<open>Buffer.from\<close> of a string of bytes is the string.\<close>

definition timing_safe_string_equal :: "string \<Rightarrow> string \<Rightarrow> bool" where
  "timing_safe_string_equal a b = (if length a \<noteq> length b then False else a = b)"

definition verify_hmac_sha256 :: "(string \<Rightarrow> string \<Rightarrow> string) \<Rightarrow> string \<Rightarrow> string \<Rightarrow> string \<Rightarrow> bool" where
  "verify_hmac_sha256 hmac_hex payload secret provided = timing_safe_string_equal (hmac_hex secret payload) provided"

definition require_internal_api_key :: "string option \<Rightarrow> auth_request \<Rightarrow> error + unit" where
  "require_internal_api_key configured req =
     (case truthy configured of
        None \<Rightarrow> Inr ()
      | Some key \<Rightarrow>
          (case truthy (aq_internal_key req) of
             None \<Rightarrow> Inl ForbiddenInternalError
           | Some provided \<Rightarrow> if timing_safe_string_equal key provided then Inr () else Inl ForbiddenInternalError))"

text \<open>The handlers of \<open>/auth\<close>, on the accounts and the cache.\<close>

definition token_route :: "jwt_library \<Rightarrow> string \<Rightarrow> (refresh_record, 'c) cache_service \<Rightarrow> string option \<Rightarrow> auth_request \<Rightarrow> (account_db \<Rightarrow> account_db)
    \<Rightarrow> time \<Rightarrow> uid \<Rightarrow> string \<Rightarrow> string \<Rightarrow> uid \<Rightarrow> account_db \<times> 'c \<Rightarrow> (token_pair, account_db \<times> 'c) outcome" where
  "token_route J secret C key req env now fresh jti token_id user st =
     (case require_internal_api_key key req of
        Inl e \<Rightarrow> (Inl e, st)
      | Inr _ \<Rightarrow>
          (case get_or_create_user env now fresh user (Region ''us-east-1'') None (fst st) of
             (Inl e, db) \<Rightarrow> (Inl e, (db, snd st))
           | (Inr _, db) \<Rightarrow> (case issue_token_pair J secret C now jti token_id user (snd st) of (pair, c) \<Rightarrow> (Inr pair, (db, c)))))"

definition logout_route :: "jwt_library \<Rightarrow> string \<Rightarrow> string \<Rightarrow> (refresh_record, 'c) cache_service \<Rightarrow> time \<Rightarrow> auth_request \<Rightarrow> string \<Rightarrow> 'c
    \<Rightarrow> (unit, 'c) outcome" where
  "logout_route J secret node_env C now req refresh_token c =
     (case require_auth J secret node_env now req of
        Inl e \<Rightarrow> (Inl e, c)
      | Inr u \<Rightarrow> (Inr (), revoke_refresh_token C (au_id u) refresh_token c))"

definition logout_all_route :: "jwt_library \<Rightarrow> string \<Rightarrow> string \<Rightarrow> (refresh_record, 'c) cache_service \<Rightarrow> time \<Rightarrow> auth_request \<Rightarrow> 'c
    \<Rightarrow> (unit, 'c) outcome option" where
  "logout_all_route J secret node_env C now req c =
     (case require_auth J secret node_env now req of
        Inl e \<Rightarrow> Some (Inl e, c)
      | Inr u \<Rightarrow> map_option (\<lambda>c'. (Inr (), c')) (revoke_all_refresh_tokens C (au_id u) c))"

subsection \<open>Sessions over an unreliable cache\<close>

text \<open>
  A client's operations, in the order they reach the service. A token is minted by a login or a
  rotation; the random part of a minted token is an argument.
\<close>

datatype session_op =
    Logged_in time string string uid
  | Rotated time string string uid string
  | Logged_out uid string
  | Logged_out_everywhere uid

fun session_step :: "jwt_library \<Rightarrow> string \<Rightarrow> (refresh_record, 'c) cache_service \<Rightarrow> session_op \<Rightarrow> 'c \<Rightarrow> 'c option" where
  "session_step J secret C (Logged_in now jti token_id user) c = Some (snd (issue_token_pair J secret C now jti token_id user c))"
| "session_step J secret C (Rotated now jti token_id user presented) c = Some (snd (rotate_token_pair J secret C now jti token_id user presented c))"
| "session_step J secret C (Logged_out user token) c = Some (revoke_refresh_token C user token c)"
| "session_step J secret C (Logged_out_everywhere user) c = revoke_all_refresh_tokens C user c"

fun run_sessions :: "jwt_library \<Rightarrow> string \<Rightarrow> (refresh_record, 'c) cache_service \<Rightarrow> session_op list \<Rightarrow> 'c \<Rightarrow> 'c option" where
  "run_sessions J secret C [] c = Some c"
| "run_sessions J secret C (x # xs) c = Option.bind (session_step J secret C x c) (run_sessions J secret C xs)"

fun minted :: "session_op \<Rightarrow> (uid \<times> string) option" where
  "minted (Logged_in _ _ token_id user) = Some (user, token_id)"
| "minted (Rotated _ _ token_id user _) = Some (user, token_id)"
| "minted _ = None"

definition mints :: "uid \<Rightarrow> string \<Rightarrow> session_op \<Rightarrow> bool" where
  "mints user token x = (case minted x of Some (u, k) \<Rightarrow> refresh_key u k = refresh_key user token | None \<Rightarrow> False)"

lemma refresh_key_inject:
  assumes "CHR '':'' \<notin> set u" "CHR '':'' \<notin> set v"
  shows "refresh_key u a = refresh_key v b \<longleftrightarrow> u = v \<and> a = b"
proof
  assume "refresh_key u a = refresh_key v b"
  then have e: "u @ CHR '':'' # a = v @ CHR '':'' # b" by (simp add: refresh_key_def REFRESH_KEY_PREFIX_def)
  then have "split_on CHR '':'' (u @ CHR '':'' # a) = split_on CHR '':'' (v @ CHR '':'' # b)" by simp
  then have "u = v" using assms by (simp add: split_on_append)
  with e show "u = v \<and> a = b" by simp
qed simp

text \<open>
  What a session needs of its cache, whether or not a command fails: nothing appears under a key
  that was not set, and what \<open>getDel\<close> hands out is gone.
\<close>

locale session_cache =
  fixes C :: "(refresh_record, 'c) cache_service" and view :: "'c \<Rightarrow> time \<Rightarrow> string \<Rightarrow> refresh_record option" and documented :: bool
  assumes get_del_law: "documented \<Longrightarrow> cs_get_del C now k c = (r, c') \<Longrightarrow> (\<forall>t j. view c' t j = view c t j \<or> view c' t j = None)
      \<and> (\<forall>v. r = Some v \<longrightarrow> view c now k = Some v \<and> (\<forall>t. view c' t k = None))"
    and set_law: "documented \<Longrightarrow> j \<noteq> k \<Longrightarrow> view (cs_set C now k v ttl c) t j = view c t j"
    and del_law: "documented \<Longrightarrow> view (cs_del C k c) t j = view c t j \<or> view (cs_del C k c) t j = None"
    and del_by_prefix_law: "documented \<Longrightarrow> cs_del_by_prefix C p c = Some c' \<Longrightarrow> view c' t j = view c t j \<or> view c' t j = None"
begin

lemma step_keeps_absent:
  assumes documented and "session_step J secret C x c = Some c'" and "\<forall>t. view c t (refresh_key user token) = None" and "\<not> mints user token x"
  shows "\<forall>t. view c' t (refresh_key user token) = None"
proof (cases x)
  case (Logged_in now jti token_id u)
  then show ?thesis using assms by (auto simp: issue_token_pair_def Let_def set_law mints_def)
next
  case (Rotated now jti token_id u presented)
  obtain r c1 where g: "cs_get_del C now (refresh_key u presented) c = (r, c1)" by fastforce
  have "\<forall>t. view c1 t (refresh_key user token) = None" using get_del_law [OF assms(1) g] assms(3) by metis
  then show ?thesis using assms g Rotated
    by (auto simp: rotate_token_pair_def issue_token_pair_def Let_def set_law mints_def split: option.splits if_splits)
next
  case (Logged_out u k)
  then show ?thesis using assms del_law by (simp add: revoke_refresh_token_def) metis
next
  case (Logged_out_everywhere u)
  then show ?thesis using assms del_by_prefix_law by (simp add: revoke_all_refresh_tokens_def) metis
qed

lemma run_keeps_absent:
  "documented \<Longrightarrow> run_sessions J secret C xs c = Some c' \<Longrightarrow> \<forall>t. view c t (refresh_key user token) = None \<Longrightarrow> \<forall>x\<in>set xs. \<not> mints user token x
    \<Longrightarrow> \<forall>t. view c' t (refresh_key user token) = None"
proof (induction xs arbitrary: c)
  case (Cons x xs)
  then obtain c1 where "session_step J secret C x c = Some c1" "run_sessions J secret C xs c1 = Some c'"
    by (auto simp: bind_eq_Some_conv)
  then show ?case using Cons.IH [of c1] Cons.prems step_keeps_absent [of J secret x c c1] by simp
qed simp

lemma absent_rejected:
  assumes documented and "\<forall>t. view c t (refresh_key user token) = None"
  shows "fst (rotate_token_pair J secret C now jti token_id user token c) = Inl invalid_refresh"
proof -
  obtain r c1 where g: "cs_get_del C now (refresh_key user token) c = (r, c1)" by fastforce
  with get_del_law [OF assms(1) g] assms(2) have "r = None" by (cases r) auto
  with g show ?thesis by (simp add: rotate_token_pair_def)
qed

lemma single_use:
  assumes documented and "rotate_token_pair J secret C now jti token_id user token c = (Inr pair, c1)"
    and "refresh_key user token_id \<noteq> refresh_key user token"
    and "run_sessions J secret C xs c1 = Some c2" and "\<forall>x\<in>set xs. \<not> mints user token x"
  shows "(\<exists>rec. view c now (refresh_key user token) = Some rec \<and> rr_user_id rec = user)
    \<and> fst (rotate_token_pair J secret C now' jti' token_id' user token c2) = Inl invalid_refresh"
proof -
  obtain r c' where g: "cs_get_del C now (refresh_key user token) c = (r, c')" by fastforce
  then obtain rec where r: "r = Some rec" "rr_user_id rec = user"
      and c1: "c1 = snd (issue_token_pair J secret C now jti token_id user c')"
    using assms(2) by (auto simp: rotate_token_pair_def split: option.splits if_splits prod.splits)
  have v: "view c now (refresh_key user token) = Some rec" "\<forall>t. view c' t (refresh_key user token) = None"
    using get_del_law [OF assms(1) g] r by auto
  then have "\<forall>t. view c1 t (refresh_key user token) = None"
    using assms(1,3) c1 by (simp add: issue_token_pair_def Let_def set_law)
  from run_keeps_absent [OF assms(1,4) this assms(5)] absent_rejected [OF assms(1)] v r show ?thesis by blast
qed

end

text \<open>
  What Redis documents of the commands, with \<open>view r t k\<close> the value of a key at a time.
\<close>

definition getdel_documented :: "('v, 'r) redis_commands \<Rightarrow> ('r \<Rightarrow> time \<Rightarrow> string \<Rightarrow> 'v option) \<Rightarrow> bool" where
  "getdel_documented R view = (\<forall>now k r. (case rk_getdel R now k r of
       (Inr x, r') \<Rightarrow> x = view r now k \<and> (\<forall>t j. view r' t j = (if j = k then None else view r t j))
     | (Inl _, r') \<Rightarrow> (\<forall>t j. view r' t j = view r t j \<or> j = k \<and> view r' t j = None)))"

definition set_documented :: "('v, 'r) redis_commands \<Rightarrow> ('r \<Rightarrow> time \<Rightarrow> string \<Rightarrow> 'v option) \<Rightarrow> bool" where
  "set_documented R view = (\<forall>now k v ttl r t j. j \<noteq> k \<longrightarrow> view (snd (rk_set_px R now k v ttl r)) t j = view r t j)"

definition del_documented :: "('v, 'r) redis_commands \<Rightarrow> ('r \<Rightarrow> time \<Rightarrow> string \<Rightarrow> 'v option) \<Rightarrow> bool" where
  "del_documented R view = (\<forall>ks r t j. case rk_del R ks r of
       (Inr _, r') \<Rightarrow> view r' t j = (if j \<in> set ks then None else view r t j)
     | (Inl _, r') \<Rightarrow> view r' t j = view r t j \<or> j \<in> set ks \<and> view r' t j = None)"

definition scan_reads :: "('v, 'r) redis_commands \<Rightarrow> ('r \<Rightarrow> time \<Rightarrow> string \<Rightarrow> 'v option) \<Rightarrow> bool" where
  "scan_reads R view = (\<forall>cur pat n r t j. view (snd (rk_scan R cur pat n r)) t j = view r t j)"

definition redis_commands_documented :: "('v, 'r) redis_commands \<Rightarrow> ('r \<Rightarrow> time \<Rightarrow> string \<Rightarrow> 'v option) \<Rightarrow> bool" where
  "redis_commands_documented R view = (getdel_documented R view \<and> set_documented R view \<and> del_documented R view \<and> scan_reads R view)"

lemma getdelD:
  assumes "getdel_documented R view"
  shows "rk_getdel R now k r = (Inr x, r') \<Longrightarrow> x = view r now k \<and> view r' t j = (if j = k then None else view r t j)"
    and "rk_getdel R now k r = (Inl e, r') \<Longrightarrow> view r' t j = view r t j \<or> view r' t j = None"
proof -
  note d = assms [unfolded getdel_documented_def, THEN spec [of _ now], THEN spec [of _ k], THEN spec [of _ r]]
  assume "rk_getdel R now k r = (Inr x, r')"
  with d have "x = view r now k \<and> (\<forall>t j. view r' t j = (if j = k then None else view r t j))" by (simp only: prod.case sum.case simp_thms)
  then show "x = view r now k \<and> view r' t j = (if j = k then None else view r t j)" by blast
next
  note d = assms [unfolded getdel_documented_def, THEN spec [of _ now], THEN spec [of _ k], THEN spec [of _ r]]
  assume "rk_getdel R now k r = (Inl e, r')"
  with d have "\<forall>t j. view r' t j = view r t j \<or> j = k \<and> view r' t j = None" by (simp only: prod.case sum.case simp_thms)
  from this [THEN spec [of _ t], THEN spec [of _ j]] show "view r' t j = view r t j \<or> view r' t j = None" by metis
qed

lemma delD:
  assumes "del_documented R view"
  shows "rk_del R ks r = (Inr n, r') \<Longrightarrow> view r' t j = (if j \<in> set ks then None else view r t j)"
    and "rk_del R ks r = (Inl e, r') \<Longrightarrow> view r' t j = view r t j \<or> view r' t j = None"
  using assms [unfolded del_documented_def, THEN spec [of _ ks], THEN spec [of _ r], THEN spec [of _ t], THEN spec [of _ j]]
  by (simp_all only: prod.case sum.case) metis

text \<open>A state with fewer visible values.\<close>

definition shrinks :: "('r \<Rightarrow> time \<Rightarrow> string \<Rightarrow> 'v option) \<Rightarrow> 'r \<Rightarrow> 'r \<Rightarrow> bool" where
  "shrinks view r r' = (\<forall>t j. view r' t j = view r t j \<or> view r' t j = None)"

lemma shrinks_refl [simp]: "shrinks view r r"
  by (simp add: shrinks_def)

lemma shrinks_trans: "shrinks view r r1 \<Longrightarrow> shrinks view r1 r2 \<Longrightarrow> shrinks view r r2"
  unfolding shrinks_def by metis

lemma documented_shrinks:
  assumes "redis_commands_documented R view"
  shows "shrinks view r (snd (rk_getdel R now k r))" "shrinks view r (snd (rk_del R ks r))" "shrinks view r (snd (rk_scan R cur pat n r))"
proof -
  have d: "getdel_documented R view" "del_documented R view" "scan_reads R view"
    using assms by (simp_all add: redis_commands_documented_def)
  show "shrinks view r (snd (rk_getdel R now k r))"
  proof (cases "rk_getdel R now k r")
    case (Pair x r')
    show ?thesis using getdelD [OF d(1), of now k r _ r'] Pair by (cases x) (auto simp: shrinks_def)
  qed
  show "shrinks view r (snd (rk_del R ks r))"
  proof (cases "rk_del R ks r")
    case (Pair x r')
    show ?thesis using delD [OF d(2), of ks r _ r'] Pair by (cases x) (auto simp: shrinks_def)
  qed
  show "shrinks view r (snd (rk_scan R cur pat n r))"
    using d(3) by (simp add: scan_reads_def shrinks_def)
qed

lemma scan_loop_shrinks:
  assumes "scan_loop R pat cur r = Some r'" and "redis_commands_documented R view"
  shows "shrinks view r r'"
proof -
  have "redis_commands_documented R view \<longrightarrow> shrinks view r r'"
  proof (rule scan_loop.raw_induct [where P = "\<lambda>R _ _ r r'. redis_commands_documented R view \<longrightarrow> shrinks view r r'", OF _ assms(1)], goal_cases)
    case (1 loop R pat cur r r')
    show ?case
    proof
      assume doc: "redis_commands_documented R view"
      obtain x r1 where sc: "rk_scan R cur pat 100 r = (x, r1)" by fastforce
      have k1: "shrinks view r r1" using documented_shrinks(3) [OF doc, of r cur pat 100] sc by simp
      show "shrinks view r r'"
      proof (cases x)
        case (Inl e)
        then show ?thesis using 1(2) sc k1 by simp
      next
        case (Inr p)
        obtain nxt keys where p: "p = (nxt, keys)" by fastforce
        obtain y r2 where d: "(if keys = [] then (Inr 0, r1) else rk_del R keys r1) = (y, r2)" by fastforce
        have k2: "shrinks view r r2"
          using d k1 documented_shrinks(2) [OF doc, of r1 keys] by (auto split: if_splits intro: shrinks_trans)
        show ?thesis using 1(2) 1(1) [of R pat nxt r2 r'] sc Inr p d k2 doc
          by (cases y) (auto split: if_splits intro: shrinks_trans)
      qed
    qed
  qed
  then show ?thesis using assms(2) by blast
qed

interpretation redis_sessions: session_cache "redis_cache_service R" view "redis_commands_documented R view"
proof
  assume doc: "redis_commands_documented R view"
  then have d: "getdel_documented R view" "set_documented R view" "del_documented R view"
    by (simp_all add: redis_commands_documented_def)
  fix c c' :: 'a and now t :: time and k j p :: string and r :: "refresh_record option" and v :: refresh_record and ttl :: int
  show "(\<forall>t j. view c' t j = view c t j \<or> view c' t j = None) \<and> (\<forall>v. r = Some v \<longrightarrow> view c now k = Some v \<and> (\<forall>t. view c' t k = None))"
    if "cs_get_del (redis_cache_service R) now k c = (r, c')"
  proof (cases "rk_getdel R now k c")
    case (Pair x r')
    then show ?thesis using that getdelD [OF d(1), of now k c _ r']
      by (cases x) (auto simp: redis_cache_service_def redis_cache_get_del_def)
  qed
  show "view (cs_set (redis_cache_service R) now k v ttl c) t j = view c t j" if "j \<noteq> k"
    using that d(2) by (simp add: redis_cache_service_def redis_cache_set_def set_documented_def)
  show "view (cs_del (redis_cache_service R) k c) t j = view c t j \<or> view (cs_del (redis_cache_service R) k c) t j = None"
    using documented_shrinks(2) [OF doc, of c "[k]"] by (simp add: redis_cache_service_def redis_cache_del_def shrinks_def)
  show "view c' t j = view c t j \<or> view c' t j = None" if "cs_del_by_prefix (redis_cache_service R) p c = Some c'"
    using that scan_loop_shrinks [OF _ doc, of "p @ ''*''" "''0''" c c'] by (simp add: redis_cache_service_def redis_cache_del_by_prefix_def shrinks_def)
qed

subsection \<open>Revoking every session\<close>

text \<open>
  What Redis documents of a full iteration with \<open>SCAN\<close>, while it answers. \<open>pending r cur pat\<close>
  are the matching keys the iteration still owes at a cursor, \<open>steps\<close> the calls it takes at most:
  an iteration returns every key that is there all the time, and it ends. A pattern is matched
  literally up to its final star if it has no other special character.
\<close>

definition literal_text :: "string \<Rightarrow> bool" where
  "literal_text p = (set p \<inter> {CHR ''*'', CHR ''?'', CHR ''['', CHR 0x5C} = {})"

definition scan_documented :: "('v, 'r) redis_commands \<Rightarrow> ('r \<Rightarrow> time \<Rightarrow> string \<Rightarrow> 'v option) \<Rightarrow> ('r \<Rightarrow> string \<Rightarrow> string \<Rightarrow> string set)
    \<Rightarrow> ('r \<Rightarrow> string \<Rightarrow> string \<Rightarrow> nat) \<Rightarrow> bool" where
  "scan_documented R view pending steps =
     ((\<forall>r p j t. literal_text p \<longrightarrow> starts_with j p \<longrightarrow> view r t j \<noteq> None \<longrightarrow> j \<in> pending r ''0'' (p @ ''*''))
      \<and> (\<forall>cur p r. literal_text p \<longrightarrow> (\<exists>nxt keys r'. rk_scan R cur (p @ ''*'') 100 r = (Inr (nxt, keys), r')
          \<and> (\<forall>j\<in>set keys. starts_with j p)
          \<and> pending r cur (p @ ''*'') \<subseteq> set keys \<union> (if nxt = ''0'' then {} else pending r' nxt (p @ ''*''))
          \<and> (nxt \<noteq> ''0'' \<longrightarrow> steps r' nxt (p @ ''*'') < steps r cur (p @ ''*''))))
      \<and> (\<forall>ks r. \<exists>n r'. rk_del R ks r = (Inr n, r')
          \<and> (\<forall>cur pat. pending r cur pat - set ks \<subseteq> pending r' cur pat \<and> steps r' cur pat = steps r cur pat)))"

lemma scan_loop_complete:
  assumes "redis_commands_documented R view" and "scan_documented R view pending steps" and "literal_text p"
  shows "\<exists>r'. scan_loop R (p @ ''*'') cur r = Some r' \<and> (\<forall>j\<in>pending r cur (p @ ''*''). \<forall>t. view r' t j = None)
    \<and> (\<forall>j t. \<not> starts_with j p \<longrightarrow> view r' t j = view r t j)"
proof (induction "steps r cur (p @ ''*'')" arbitrary: r cur rule: less_induct)
  case less
  let ?pat = "p @ ''*''"
  from assms(2,3) obtain nxt keys r1 where sc: "rk_scan R cur ?pat 100 r = (Inr (nxt, keys), r1)" "\<forall>j\<in>set keys. starts_with j p"
    "pending r cur ?pat \<subseteq> set keys \<union> (if nxt = ''0'' then {} else pending r1 nxt ?pat)"
    "nxt \<noteq> ''0'' \<longrightarrow> steps r1 nxt ?pat < steps r cur ?pat"
    unfolding scan_documented_def by blast
  have v1: "view r1 t j = view r t j" for t j
    using assms(1) sc(1) by (auto simp: redis_commands_documented_def scan_reads_def dest: spec [of _ r] spec [of _ cur]) (metis snd_conv)
  from assms(2) obtain n r2' where dl: "rk_del R keys r1 = (Inr n, r2')"
    "\<And>cur pat. pending r1 cur pat - set keys \<subseteq> pending r2' cur pat" "\<And>cur pat. steps r2' cur pat = steps r1 cur pat"
    unfolding scan_documented_def by meson
  define r2 where "r2 = (if keys = [] then r1 else r2')"
  have step: "(if keys = [] then (Inr 0, r1) else rk_del R keys r1) = (Inr (if keys = [] then 0 else n), r2)" using dl(1) by (simp add: r2_def)
  have v2: "view r2 t j = (if j \<in> set keys then None else view r t j)" for t j
    using delD(1) [OF _ dl(1), of view t j] assms(1) v1 by (auto simp: r2_def redis_commands_documented_def)
  have p2: "pending r1 c pat - set keys \<subseteq> pending r2 c pat" "steps r2 c pat = steps r1 c pat" for c pat
    using dl(2,3) by (simp_all add: r2_def)
  show ?case
  proof (cases "nxt = ''0''")
    case True
    then have "scan_loop R ?pat cur r = Some r2" using sc(1) step by (subst scan_loop.simps) simp
    moreover have "\<forall>j\<in>pending r cur ?pat. j \<in> set keys" using sc(3) True by auto
    ultimately show ?thesis using v2 sc(2) by auto
  next
    case False
    then have "steps r2 nxt ?pat < steps r cur ?pat" using sc(4) p2 by simp
    from less [OF this] obtain r' where r': "scan_loop R ?pat nxt r2 = Some r'"
      "\<forall>j\<in>pending r2 nxt ?pat. \<forall>t. view r' t j = None" "\<forall>j t. \<not> starts_with j p \<longrightarrow> view r' t j = view r2 t j" by blast
    then have "scan_loop R ?pat cur r = Some r'" using sc(1) step False by (subst scan_loop.simps) simp
    moreover have "view r' t j = None" if "j \<in> pending r cur ?pat" for t j
    proof (cases "j \<in> set keys")
      case True
      then show ?thesis using scan_loop_shrinks [OF r'(1) assms(1)] v2 by (auto simp: shrinks_def) (metis)
    next
      case n: False
      then have "j \<in> pending r2 nxt ?pat" using sc(3) that False p2(1) [of nxt ?pat] by auto
      then show ?thesis using r'(2) by blast
    qed
    moreover have "view r' t j = view r t j" if "\<not> starts_with j p" for t j
      using r'(3) that v2 sc(2) by auto
    ultimately show ?thesis by blast
  qed
qed

lemma uuid_chars:
  assumes "is_valid_uuid u" and "c \<in> set u"
  shows "c = CHR ''-'' \<or> is_hex c"
proof -
  from assms(2) obtain i where i: "i < length u" "u ! i = c" by (auto simp: in_set_conv_nth)
  then have "(i, c) \<in> set (zip [0..<36] u)" using assms(1) by (auto simp: set_zip is_valid_uuid_def intro!: exI [of _ i])
  with assms(1) show ?thesis unfolding is_valid_uuid_def list_all_iff by (fastforce split: if_splits)
qed

lemma uuid_plain: "is_valid_uuid u \<Longrightarrow> CHR '':'' \<notin> set u" "is_valid_uuid u \<Longrightarrow> literal_text u"
  using uuid_chars [of u] by (fastforce simp: is_hex_def literal_text_def)+

lemma literal_prefix: "is_valid_uuid u \<Longrightarrow> literal_text (REFRESH_KEY_PREFIX @ u @ '':'')"
  using uuid_plain(2) [of u] by (auto simp: literal_text_def REFRESH_KEY_PREFIX_def)

lemma refresh_key_prefix:
  assumes "is_valid_uuid u" "is_valid_uuid v"
  shows "starts_with (refresh_key v k) (REFRESH_KEY_PREFIX @ u @ '':'') \<longleftrightarrow> u = v"
proof
  assume "starts_with (refresh_key v k) (REFRESH_KEY_PREFIX @ u @ '':'')"
  then obtain a where "refresh_key v k = refresh_key u a" by (auto simp: starts_with_iff refresh_key_def)
  then show "u = v" using refresh_key_inject [of v u k a] uuid_plain assms by simp
next
  assume "u = v"
  then show "starts_with (refresh_key v k) (REFRESH_KEY_PREFIX @ u @ '':'')"
    by (auto simp: starts_with_iff refresh_key_def)
qed

text \<open>
  C11: a refresh token is used once. If a token is accepted for a user, it had been stored for
  that user; and whatever logins, rotations and logouts of whatever users follow, with the Redis
  commands answering or failing, it is never accepted again unless the same random token is
  minted for that user again.
\<close>

theorem refresh_token_single_use:
  assumes "redis_commands_documented R view" and "is_valid_uuid user"
    and "rotate_token_pair J secret (redis_cache_service R) now jti token_id user token c = (Inr pair, c1)" and "token_id \<noteq> token"
    and "run_sessions J secret (redis_cache_service R) xs c1 = Some c2"
    and "\<forall>x\<in>set xs. \<forall>u k. minted x = Some (u, k) \<longrightarrow> is_valid_uuid u \<and> (u, k) \<noteq> (user, token)"
  shows "(\<exists>rec. view c now (refresh_key user token) = Some rec \<and> rr_user_id rec = user)
    \<and> fst (rotate_token_pair J secret (redis_cache_service R) now' jti' token_id' user token c2) = Inl invalid_refresh"
proof (rule redis_sessions.single_use [OF assms(1,3) _ assms(5)])
  show "refresh_key user token_id \<noteq> refresh_key user token" using assms(2,4) uuid_plain by (simp add: refresh_key_inject)
  show "\<forall>x\<in>set xs. \<not> mints user token x"
    using assms(2,6) uuid_plain by (fastforce simp: mints_def refresh_key_inject split: option.splits)
qed

text \<open>An instance: a server as a list of keys with values and expiry times.\<close>

definition list_view :: "(string \<times> 'v \<times> time) list \<Rightarrow> time \<Rightarrow> string \<Rightarrow> 'v option" where
  "list_view r t k = (case map_of r k of Some (v, e) \<Rightarrow> if t < e then Some v else None | None \<Rightarrow> None)"

definition list_redis :: "('v, (string \<times> 'v \<times> time) list) redis_commands" where
  "list_redis = \<lparr>rk_get = (\<lambda>now k r. (Inr (list_view r now k), r)), rk_getdel = (\<lambda>now k r. (Inr (list_view r now k), AList.delete k r)),
     rk_set_px = (\<lambda>now k v ttl r. (Inr (), AList.update k (v, now + ttl) r)),
     rk_del = (\<lambda>ks r. (Inr (length ks), filter (\<lambda>(k, _). k \<notin> set ks) r)),
     rk_scan = (\<lambda>cur pat n r. (Inr (''0'', filter (\<lambda>k. starts_with k (butlast pat)) (map fst r)), r)),
     rk_exists = (\<lambda>now k r. (Inr (if list_view r now k = None then 0 else 1), r))\<rparr>"

lemma list_view_delete: "list_view (AList.delete k r) t j = (if j = k then None else list_view r t j)"
  by (simp add: list_view_def delete_conv')

lemma map_of_keep: "map_of (filter (\<lambda>(k, _). k \<notin> A) r) j = (if j \<in> A then None else map_of r j)"
  by (induction r) auto

lemma list_redis_documented: "redis_commands_documented list_redis list_view"
proof -
  have "getdel_documented list_redis list_view" by (simp add: getdel_documented_def list_redis_def list_view_delete)
  moreover have "set_documented list_redis list_view" by (simp add: set_documented_def list_redis_def list_view_def update_conv')
  moreover have "del_documented list_redis list_view" by (simp add: del_documented_def list_redis_def list_view_def map_of_keep)
  moreover have "scan_reads list_redis list_view" by (simp add: scan_reads_def list_redis_def)
  ultimately show ?thesis by (simp add: redis_commands_documented_def)
qed

lemma list_scan_documented:
  "scan_documented list_redis list_view (\<lambda>r cur pat. {k \<in> fst ` set r. starts_with k (butlast pat)}) (\<lambda>_ _ _. 0)"
  unfolding scan_documented_def list_redis_def
  by (force simp: list_view_def split: option.splits dest!: map_of_SomeD)

definition plain_jwt :: jwt_library where
  "plain_jwt = \<lparr>jw_sign = (\<lambda>user jti secret ttl now. user @ ''.'' @ jti),
     jw_verify = (\<lambda>token secret now. Inl Invalid_jwt)\<rparr>"

definition sample_user :: uid where "sample_user = ''018f0000-0000-7000-8000-00000000000a''"
definition other_user :: uid where "other_user = ''018f0000-0000-7000-8000-00000000000b''"

lemma sample_user_valid: "is_valid_uuid sample_user" "is_valid_uuid other_user"
  by code_simp+

definition signed_in :: "(string \<times> refresh_record \<times> time) list" where
  "signed_in = [(refresh_key sample_user ''aa'', \<lparr>rr_user_id = sample_user, rr_token_id = ''aa'', rr_issued_at = 0\<rparr>, 600000),
     (refresh_key other_user ''bb'', \<lparr>rr_user_id = other_user, rr_token_id = ''bb'', rr_issued_at = 0\<rparr>, 600000)]"

theorem refresh_token_single_use_witness:
  "\<exists>pair c1 c2. rotate_token_pair plain_jwt ''s'' (redis_cache_service list_redis) 1000 ''j'' ''cc'' sample_user ''aa'' signed_in = (Inr pair, c1)
    \<and> run_sessions plain_jwt ''s'' (redis_cache_service list_redis) [Logged_in 2000 ''j'' ''dd'' other_user, Logged_out other_user ''bb''] c1 = Some c2
    \<and> fst (rotate_token_pair plain_jwt ''s'' (redis_cache_service list_redis) 3000 ''j'' ''ee'' sample_user ''aa'' c2) = Inl invalid_refresh"
proof -
  have k: "refresh_key other_user ''bb'' \<noteq> refresh_key sample_user ''aa''" by (simp add: refresh_key_def sample_user_def other_user_def)
  have r: "\<exists>pair c1. rotate_token_pair plain_jwt ''s'' (redis_cache_service list_redis) 1000 ''j'' ''cc'' sample_user ''aa'' signed_in = (Inr pair, c1)"
    by (simp add: rotate_token_pair_def redis_cache_service_def redis_cache_get_del_def list_redis_def list_view_def signed_in_def
      issue_token_pair_def Let_def)
  then obtain pair c1 where r: "rotate_token_pair plain_jwt ''s'' (redis_cache_service list_redis) 1000 ''j'' ''cc'' sample_user ''aa'' signed_in = (Inr pair, c1)"
    by blast
  obtain c2 where s: "run_sessions plain_jwt ''s'' (redis_cache_service list_redis) [Logged_in 2000 ''j'' ''dd'' other_user, Logged_out other_user ''bb''] c1 = Some c2"
    by simp
  have ne: "sample_user \<noteq> other_user" by (simp add: sample_user_def other_user_def)
  have "fst (rotate_token_pair plain_jwt ''s'' (redis_cache_service list_redis) 3000 ''j'' ''ee'' sample_user ''aa'' c2) = Inl invalid_refresh"
    using refresh_token_single_use [OF list_redis_documented sample_user_valid(1) r _ s, of 3000 "''j''" "''ee''"] ne sample_user_valid by simp
  then show ?thesis using r s by blast
qed

text \<open>
  C28: logging out everywhere. While Redis answers, revoking all tokens of a user returns; after
  it no token of the user is accepted, and the tokens of every other user are as they were.
\<close>

theorem logout_everywhere_revokes:
  assumes "redis_commands_documented R view" and "scan_documented R view pending steps" and "is_valid_uuid user"
  shows "\<exists>c'. revoke_all_refresh_tokens (redis_cache_service R) user c = Some c'
    \<and> (\<forall>now jti token_id token. fst (rotate_token_pair J secret (redis_cache_service R) now jti token_id user token c') = Inl invalid_refresh)
    \<and> (\<forall>other token t. is_valid_uuid other \<longrightarrow> other \<noteq> user \<longrightarrow> view c' t (refresh_key other token) = view c t (refresh_key other token))"
proof -
  let ?p = "REFRESH_KEY_PREFIX @ user @ '':''"
  from scan_loop_complete [OF assms(1,2) literal_prefix [OF assms(3)], of "''0''" c] obtain c' where
    c': "scan_loop R (?p @ ''*'') ''0'' c = Some c'" "\<forall>j\<in>pending c ''0'' (?p @ ''*''). \<forall>t. view c' t j = None"
      "\<forall>j t. \<not> starts_with j ?p \<longrightarrow> view c' t j = view c t j" by blast
  have gone: "\<forall>t. view c' t (refresh_key user token) = None" for token
  proof
    fix t
    show "view c' t (refresh_key user token) = None"
    proof (cases "\<exists>t'. view c t' (refresh_key user token) \<noteq> None")
      case True
      then have "refresh_key user token \<in> pending c ''0'' (?p @ ''*'')"
        using assms(2) literal_prefix [OF assms(3)] refresh_key_prefix [OF assms(3,3)] unfolding scan_documented_def by blast
      then show ?thesis using c'(2) by blast
    next
      case False
      then show ?thesis using scan_loop_shrinks [OF c'(1) assms(1)] by (simp add: shrinks_def) metis
    qed
  qed
  have "revoke_all_refresh_tokens (redis_cache_service R) user c = Some c'"
    using c'(1) by (simp add: revoke_all_refresh_tokens_def redis_cache_service_def redis_cache_del_by_prefix_def)
  then show ?thesis using redis_sessions.absent_rejected [OF assms(1) gone] c'(3) refresh_key_prefix [OF assms(3)] by metis
qed

theorem logout_everywhere_revokes_witness:
  "\<exists>c'. revoke_all_refresh_tokens (redis_cache_service list_redis) sample_user signed_in = Some c'
    \<and> fst (rotate_token_pair plain_jwt ''s'' (redis_cache_service list_redis) 1000 ''j'' ''cc'' sample_user ''aa'' c') = Inl invalid_refresh
    \<and> list_view c' 1000 (refresh_key other_user ''bb'') = list_view signed_in 1000 (refresh_key other_user ''bb'')"
proof -
  have ne: "other_user \<noteq> sample_user" by (simp add: sample_user_def other_user_def)
  show ?thesis
    using logout_everywhere_revokes [OF list_redis_documented list_scan_documented sample_user_valid(1), of signed_in plain_jwt "''s''"]
      sample_user_valid(2) ne by blast
qed

subsection \<open>What an access token proves\<close>

text \<open>What the JWT library documents for one secret: its own tokens verify until they expire.\<close>

definition jwt_documented :: "jwt_library \<Rightarrow> string \<Rightarrow> bool" where
  "jwt_documented J secret = (\<forall>user jti ttl now t. jw_verify J (jw_sign J user jti secret ttl now) secret t =
     (if t < now + ttl then Inr \<lparr>ap_sub = user, ap_jti = jti, ap_iat = now, ap_exp = now + ttl\<rparr> else Inl Expired_jwt))"

text \<open>
  A login authenticates its requests as its user for 15 minutes, and none later. The deletion of
  every refresh token does not shorten that.
\<close>

lemma access_token_authenticates:
  assumes "jwt_documented J secret" and "node_env \<noteq> ''test''"
    and "tk_access_token (fst (issue_token_pair J secret C now jti token_id user c)) = token"
  shows "require_auth J secret node_env t \<lparr>aq_authorization = Some (''Bearer '' @ token), aq_x_user_id = x, aq_internal_key = k\<rparr> =
    (if t div 1000 < now div 1000 + 900 then Inr \<lparr>au_id = user, au_jti = Some jti\<rparr> else Inl (UnauthorizedError ''Authentication failed''))"
  using assms by (auto simp: require_auth_def issue_token_pair_def Let_def bearer_token_def verify_access_token_def jwt_documented_def
    ACCESS_TOKEN_TTL_SEC_def)

text \<open>
  A logout whose Redis command fails answers with success, and its token is still accepted.
\<close>

definition failing_del :: "(refresh_record, (string \<times> refresh_record \<times> time) list) redis_commands" where
  "failing_del = list_redis\<lparr>rk_del := (\<lambda>ks r. (Inl (GenericError ''Connection is closed.''), r))\<rparr>"

definition trusting_jwt :: jwt_library where
  "trusting_jwt = \<lparr>jw_sign = (\<lambda>user jti secret ttl now. user),
     jw_verify = (\<lambda>token secret now. Inr \<lparr>ap_sub = token, ap_jti = [], ap_iat = now, ap_exp = now + 900\<rparr>)\<rparr>"

lemma failed_logout_keeps_token:
  "\<exists>c' pair c''. redis_commands_documented failing_del list_view
    \<and> logout_route trusting_jwt ''s'' ''production'' (redis_cache_service failing_del) 1000
        \<lparr>aq_authorization = Some (''Bearer '' @ sample_user), aq_x_user_id = None, aq_internal_key = None\<rparr> ''aa'' signed_in = (Inr (), c')
    \<and> rotate_token_pair trusting_jwt ''s'' (redis_cache_service failing_del) 2000 ''j'' ''cc'' sample_user ''aa'' c' = (Inr pair, c'')"
proof -
  have "getdel_documented failing_del list_view" "set_documented failing_del list_view"
      "del_documented failing_del list_view" "scan_reads failing_del list_view"
    by (simp_all add: getdel_documented_def set_documented_def del_documented_def scan_reads_def failing_del_def list_redis_def
      list_view_delete) (simp add: list_view_def update_conv')
  then have "redis_commands_documented failing_del list_view" by (simp add: redis_commands_documented_def)
  then show ?thesis
    by (simp add: logout_route_def require_auth_def bearer_token_def verify_access_token_def trusting_jwt_def revoke_refresh_token_def
      redis_cache_service_def redis_cache_del_def failing_del_def list_redis_def rotate_token_pair_def redis_cache_get_del_def
      list_view_def signed_in_def issue_token_pair_def Let_def)
qed

end
