(* ===== verification/Net_Guard.thy ===== *)
theory Net_Guard
  imports Prelude
begin

unbundle bit_operations_syntax

text \<open>
  The guard on outbound URLs (\<open>lib/ssrf-guard.ts\<close>). The URL parser of the platform is a
  parameter: it gives the protocol, the credentials and the host of a URL, or rejects it. The
  32-bit operators of JavaScript are operations on words.
\<close>

record url_parts =
  ul_protocol :: string
  ul_username :: string
  ul_password :: string
  ul_hostname :: string

subsection \<open>IPv4\<close>

definition parse_octet :: "string \<Rightarrow> 32 word option" where
  "parse_octet part = (case parse_int part of
     None \<Rightarrow> None
   | Some k \<Rightarrow> if k < 0 \<or> k > 255 \<or> show_int k \<noteq> part then None else Some (of_int k))"

fun parse_octets :: "string list \<Rightarrow> 32 word \<Rightarrow> 32 word option" where
  "parse_octets [] num = Some num"
| "parse_octets (p # ps) num = (case parse_octet p of None \<Rightarrow> None | Some octet \<Rightarrow> parse_octets ps (push_bit 8 num OR octet))"

definition parse_ipv4 :: "string \<Rightarrow> 32 word option" where
  "parse_ipv4 ip = (let parts = split_on (CHR ''.'') ip in if length parts \<noteq> 4 then None else parse_octets parts 0)"

definition in_range :: "32 word \<Rightarrow> 32 word \<Rightarrow> nat \<Rightarrow> bool" where
  "in_range ip network prefix_len =
     (let mask = (if prefix_len = 0 then 0 else push_bit (32 - prefix_len) (NOT 0)) in ip AND mask = network AND mask)"

definition PRIVATE_RANGES_V4 :: "(32 word \<times> nat) list" where
  "PRIVATE_RANGES_V4 = map (\<lambda>(net, p). (option_or (parse_ipv4 net) 0, p))
     [(''127.0.0.0'', 8), (''10.0.0.0'', 8), (''172.16.0.0'', 12), (''192.168.0.0'', 16), (''169.254.0.0'', 16),
      (''0.0.0.0'', 8), (''100.64.0.0'', 10)]"

definition private_number :: "32 word \<Rightarrow> bool" where
  "private_number num = list_ex (\<lambda>(network, prefix). in_range num network prefix) PRIVATE_RANGES_V4"

definition is_private_ipv4 :: "string \<Rightarrow> bool" where
  "is_private_ipv4 ip = (case parse_ipv4 ip of None \<Rightarrow> False | Some num \<Rightarrow> private_number num)"

subsection \<open>IPv6\<close>

text \<open>\<open>split('::')\<close>, from the left.\<close>

fun split_double :: "string \<Rightarrow> string list" where
  "split_double [] = [[]]"
| "split_double [c] = [[c]]"
| "split_double (c # d # s) = (if c = CHR '':'' \<and> d = CHR '':'' then [] # split_double s
     else (case split_double (d # s) of [] \<Rightarrow> [[c]] | w # ws \<Rightarrow> (c # w) # ws))"

definition parse_hex :: "string \<Rightarrow> 32 word" where
  "parse_hex g = foldl (\<lambda>n c. 16 * n + of_nat (hex_value c)) 0 g"

fun parse_group_list :: "string list \<Rightarrow> 32 word list option" where
  "parse_group_list [] = Some []"
| "parse_group_list (g # gs) =
     (if 1 \<le> length g \<and> length g \<le> 4 \<and> list_all is_hex g then map_option ((#) (parse_hex g)) (parse_group_list gs) else None)"

definition parse_groups :: "string \<Rightarrow> 32 word list option" where
  "parse_groups s = (if s = [] then Some [] else parse_group_list (split_on (CHR '':'') s))"

text \<open>
  The text before and after the last colon, if what follows has a dot: the embedded IPv4 tail.
\<close>

definition after_last_colon :: "string \<Rightarrow> string" where
  "after_last_colon ip = rev (takeWhile (\<lambda>c. c \<noteq> CHR '':'') (rev ip))"

definition before_last_colon :: "string \<Rightarrow> string" where
  "before_last_colon ip = take (length ip - length (after_last_colon ip) - 1) ip"

definition v4_tail :: "string \<Rightarrow> 32 word list option option" where
  "v4_tail ip =
     (if CHR '':'' \<in> set ip \<and> CHR ''.'' \<in> set (after_last_colon ip)
      then Some (map_option (\<lambda>v4. [drop_bit 16 v4 AND 0xFFFF, v4 AND 0xFFFF]) (parse_ipv4 (after_last_colon ip)))
      else None)"

definition join_halves :: "string list \<Rightarrow> 32 word list \<Rightarrow> 32 word list option" where
  "join_halves halves tail =
     (case halves of
        [h] \<Rightarrow> (case parse_groups h of
            None \<Rightarrow> None
          | Some groups \<Rightarrow> if length (groups @ tail) = 8 then Some (groups @ tail) else None)
      | [l, r] \<Rightarrow> (case (parse_groups l, parse_groups r) of
            (Some left, Some right) \<Rightarrow>
              if length left + length (right @ tail) \<le> 8
              then Some (left @ replicate (8 - length left - length (right @ tail)) 0 @ right @ tail) else None
          | _ \<Rightarrow> None)
      | _ \<Rightarrow> None)"

definition expand_ipv6 :: "string \<Rightarrow> 32 word list option" where
  "expand_ipv6 ip =
     (case v4_tail ip of
        None \<Rightarrow> join_halves (split_double ip) []
      | Some None \<Rightarrow> None
      | Some (Some tail) \<Rightarrow> join_halves (split_double (before_last_colon ip)) tail)"

definition private_groups :: "32 word list \<Rightarrow> bool" where
  "private_groups g =
     (if (\<forall>x\<in>set (take 7 g). x = 0) \<and> g ! 7 = 1 then True
      else if \<forall>x\<in>set g. x = 0 then True
      else if g ! 0 AND 0xFFC0 = 0xFE80 then True
      else if g ! 0 AND 0xFE00 = 0xFC00 then True
      else let mapped = ((\<forall>x\<in>set (take 5 g). x = 0) \<and> g ! 5 = 0xFFFF);
               compat = ((\<forall>x\<in>set (take 5 g). x = 0) \<and> g ! 5 = 0 \<and> g ! 6 \<noteq> 0)
           in if mapped \<or> compat then private_number (push_bit 16 (g ! 6) OR g ! 7) else False)"

definition is_private_ipv6 :: "string \<Rightarrow> bool" where
  "is_private_ipv6 ip = (case expand_ipv6 ip of None \<Rightarrow> False | Some groups \<Rightarrow> private_groups groups)"

subsection \<open>The guard\<close>

definition BLOCKED_HOSTNAMES :: "string list" where
  "BLOCKED_HOSTNAMES = [''localhost'', ''metadata.google.internal'', ''metadata.google'', ''instance-data'']"

definition strip_brackets :: "string \<Rightarrow> string" where
  "strip_brackets h =
     (let h1 = (if h \<noteq> [] \<and> hd h = CHR ''['' then tl h else h) in if h1 \<noteq> [] \<and> last h1 = CHR '']'' then butlast h1 else h1)"

definition quoted :: "string \<Rightarrow> string" where
  "quoted s = CHR 0x27 # s @ [CHR 0x27]"

definition guard_hostname :: "string \<Rightarrow> error + unit" where
  "guard_hostname hostname =
     (if hostname \<in> set BLOCKED_HOSTNAMES then Inl (SsrfError (''Hostname '' @ quoted hostname @ '' is not allowed''))
      else if is_private_ipv4 hostname then Inl (SsrfError (''IP address '' @ quoted hostname @ '' is in a private/reserved range''))
      else if is_private_ipv6 hostname then Inl (SsrfError (''IPv6 address '' @ quoted hostname @ '' is in a private/reserved range''))
      else Inr ())"

definition validate_outbound_url :: "(string \<Rightarrow> url_parts option) \<Rightarrow> string \<Rightarrow> error + unit" where
  "validate_outbound_url parse_url raw_url =
     (case parse_url raw_url of
        None \<Rightarrow> Inl (SsrfError ''Invalid URL'')
      | Some url \<Rightarrow>
          if ul_protocol url \<noteq> ''https:''
          then Inl (SsrfError (''Protocol '' @ quoted (ul_protocol url) @ '' is not allowed - only https:''))
          else if ul_username url \<noteq> [] \<or> ul_password url \<noteq> [] then Inl (SsrfError ''URLs with embedded credentials are not allowed'')
          else guard_hostname (strip_brackets (to_lower (ul_hostname url))))"

definition is_safe_outbound_url :: "(string \<Rightarrow> url_parts option) \<Rightarrow> string \<Rightarrow> bool" where
  "is_safe_outbound_url parse_url raw_url = (case validate_outbound_url parse_url raw_url of Inl _ \<Rightarrow> False | Inr _ \<Rightarrow> True)"

subsection \<open>IPv4 addresses\<close>

text \<open>The dotted form of four octets, and its number.\<close>

definition dotted :: "nat \<Rightarrow> nat \<Rightarrow> nat \<Rightarrow> nat \<Rightarrow> string" where
  "dotted a b c d = join_on ''.'' [show_nat a, show_nat b, show_nat c, show_nat d]"

lemma show_nat_chars: "c \<in> set (show_nat n) \<Longrightarrow> is_digit c"
  using show_nat_digits [of n] by (simp add: list_all_iff)

lemma no_dot: "CHR ''.'' \<notin> set (show_nat n)" "CHR '':'' \<notin> set (show_nat n)"
  using show_nat_chars [of "CHR ''.''" n] show_nat_chars [of "CHR '':''" n] by (auto simp: is_digit_def Let_def)

lemma split_dotted: "split_on (CHR ''.'') (dotted a b c d) = [show_nat a, show_nat b, show_nat c, show_nat d]"
  unfolding dotted_def by (intro split_on_join) (simp_all add: no_dot)

lemma parse_octet_show: "n \<le> 255 \<Longrightarrow> parse_octet (show_nat n) = Some (of_nat n)"
  by (simp add: parse_octet_def parse_int_show show_int_def)

lemma or_shift:
  assumes "k < 2 ^ s"
  shows "push_bit s (of_nat n :: 32 word) OR of_nat k = of_nat (2 ^ s * n + k)"
proof -
  have "push_bit s (of_nat n :: 32 word) AND of_nat k = 0"
  proof (rule bit_word_eqI)
    fix i
    assume "i < LENGTH(32)"
    have "\<not> bit k i" if "s \<le> i"
    proof -
      have "k < 2 ^ i" using assms power_increasing [OF that, of "2 :: nat"] by linarith
      then show ?thesis by (simp add: bit_iff_odd)
    qed
    then show "bit (push_bit s (of_nat n :: 32 word) AND of_nat k) i = bit (0 :: 32 word) i"
      by (auto simp: bit_and_iff bit_push_bit_iff bit_of_nat_iff)
  qed
  then have "push_bit s (of_nat n :: 32 word) OR of_nat k = push_bit s (of_nat n) + of_nat k"
    by (simp add: disjunctive_add_eq_or)
  also have "\<dots> = of_nat (2 ^ s * n + k)" by (simp add: push_bit_eq_mult mult.commute)
  finally show ?thesis .
qed

lemma or_octet: "k \<le> 255 \<Longrightarrow> push_bit 8 (of_nat n :: 32 word) OR of_nat k = of_nat (256 * n + k)"
  using or_shift [of k 8 n] by simp

definition octets_value :: "nat \<Rightarrow> nat \<Rightarrow> nat \<Rightarrow> nat \<Rightarrow> nat" where
  "octets_value a b c d = ((a * 256 + b) * 256 + c) * 256 + d"

lemma parse_dotted:
  assumes "a \<le> 255" "b \<le> 255" "c \<le> 255" "d \<le> 255"
  shows "parse_ipv4 (dotted a b c d) = Some (of_nat (octets_value a b c d))"
proof -
  have "parse_octets [show_nat a, show_nat b, show_nat c, show_nat d] 0 =
      Some (push_bit 8 (push_bit 8 (push_bit 8 (push_bit 8 (of_nat 0) OR of_nat a) OR of_nat b) OR of_nat c) OR of_nat d)"
    using assms by (simp add: parse_octet_show)
  also have "\<dots> = Some (of_nat (octets_value a b c d))"
    using assms by (simp only: or_octet octets_value_def) (simp add: algebra_simps)
  finally show ?thesis by (simp add: parse_ipv4_def Let_def split_dotted)
qed

lemma in_range_drop_bit:
  assumes "0 < p" "p \<le> 32"
  shows "in_range ip net p \<longleftrightarrow> drop_bit (32 - p) ip = drop_bit (32 - p) net"
proof -
  have m: "x AND push_bit (32 - p) (NOT 0) = push_bit (32 - p) (drop_bit (32 - p) x)" for x :: "32 word"
    by (rule bit_word_eqI) (auto simp: bit_simps)
  have u: "drop_bit (32 - p) (push_bit (32 - p) (drop_bit (32 - p) x)) = drop_bit (32 - p) x" for x :: "32 word"
    by (rule bit_word_eqI) (auto simp: bit_simps dest: bit_imp_le_length)
  show ?thesis using assms(1) m u by (simp add: in_range_def Let_def) metis
qed

lemma in_range_div:
  assumes "0 < p" "p \<le> 32" "n < 2 ^ 32" "m < 2 ^ 32"
  shows "in_range (of_nat n) (of_nat m) p \<longleftrightarrow> n div 2 ^ (32 - p) = m div 2 ^ (32 - p)"
proof -
  have u: "unat (drop_bit k (of_nat j :: 32 word)) = j div 2 ^ k" if "j < 2 ^ 32" for j k
  proof -
    have "unat (of_nat j :: 32 word) = j" using that by (simp add: unat_of_nat)
    then show ?thesis by (simp only: unat_drop_bit_eq drop_bit_eq_div [where 'a = nat])
  qed
  have "in_range (of_nat n) (of_nat m) p \<longleftrightarrow> unat (drop_bit (32 - p) (of_nat n :: 32 word)) = unat (drop_bit (32 - p) (of_nat m :: 32 word))"
    by (simp only: in_range_drop_bit [OF assms(1,2)] word_unat_eq_iff)
  then show ?thesis using u [OF assms(3)] u [OF assms(4)] by simp
qed

lemma octets_bound: "a \<le> 255 \<Longrightarrow> b \<le> 255 \<Longrightarrow> c \<le> 255 \<Longrightarrow> d \<le> 255 \<Longrightarrow> octets_value a b c d < 2 ^ 32"
  by (simp add: octets_value_def)

lemma octets_div:
  assumes "b \<le> 255" "c \<le> 255" "d \<le> 255"
  shows "octets_value a b c d div 16777216 = a" "octets_value a b c d div 65536 = a * 256 + b"
    "octets_value a b c d div 1048576 = a * 16 + b div 16" "octets_value a b c d div 4194304 = a * 4 + b div 64"
  using assms by (simp_all add: octets_value_def)

text \<open>The private ranges, on octets.\<close>

definition private_octets :: "nat \<Rightarrow> nat \<Rightarrow> bool" where
  "private_octets a b = (a \<in> {127, 10, 0} \<or> a = 172 \<and> 16 \<le> b \<and> b \<le> 31 \<or> a = 192 \<and> b = 168 \<or> a = 169 \<and> b = 254
     \<or> a = 100 \<and> 64 \<le> b \<and> b \<le> 127)"

lemma pair_digits:
  assumes "q < m" "r < m"
  shows "a * m + q = b * m + r \<longleftrightarrow> a = b \<and> q = (r :: nat)"
proof
  assume e: "a * m + q = b * m + r"
  have "(a * m + q) div m = a" "(b * m + r) div m = b" "(a * m + q) mod m = q" "(b * m + r) mod m = r" using assms by simp_all
  with e show "a = b \<and> q = r" by simp
qed simp

lemma private_number_octets:
  assumes "a \<le> 255" "b \<le> 255" "c \<le> 255" "d \<le> 255"
  shows "private_number (of_nat (octets_value a b c d)) = private_octets a b"
proof -
  have r: "in_range (of_nat (octets_value a b c d)) (option_or (parse_ipv4 (dotted a' b' 0 0)) 0) p
      \<longleftrightarrow> octets_value a b c d div 2 ^ (32 - p) = octets_value a' b' 0 0 div 2 ^ (32 - p)"
    if "a' \<le> 255" "b' \<le> 255" "0 < p" "p \<le> 32" for a' b' p
    using in_range_div [OF that(3,4) octets_bound [OF assms] octets_bound [OF that(1,2)], of 0 0] that(1,2) by (simp add: parse_dotted)
  have nets: "[(''127.0.0.0'', 8), (''10.0.0.0'', 8), (''172.16.0.0'', 12), (''192.168.0.0'', 16), (''169.254.0.0'', 16),
      (''0.0.0.0'', 8), (''100.64.0.0'', 10)] = [(dotted 127 0 0 0, 8 :: nat), (dotted 10 0 0 0, 8), (dotted 172 16 0 0, 12),
      (dotted 192 168 0 0, 16), (dotted 169 254 0 0, 16), (dotted 0 0 0 0, 8), (dotted 100 64 0 0, 10)]"
    by code_simp
  have e: "a * 16 + b div 16 = 2753 \<longleftrightarrow> a = 172 \<and> 16 \<le> b \<and> b \<le> 31" "a * 256 + b = 49320 \<longleftrightarrow> a = 192 \<and> b = 168"
    "a * 256 + b = 43518 \<longleftrightarrow> a = 169 \<and> b = 254" "a * 4 + b div 64 = 401 \<longleftrightarrow> a = 100 \<and> 64 \<le> b \<and> b \<le> 127"
  proof -
    have "a * 16 + b div 16 = 2753 \<longleftrightarrow> a = 172 \<and> b div 16 = 1" "a * 4 + b div 64 = 401 \<longleftrightarrow> a = 100 \<and> b div 64 = 1"
      using pair_digits [of "b div 16" 16 1 a 172] pair_digits [of "b div 64" 4 1 a 100] assms(2) by simp_all
    moreover have "b div 16 = 1 \<longleftrightarrow> 16 \<le> b \<and> b \<le> 31" "b div 64 = 1 \<longleftrightarrow> 64 \<le> b \<and> b \<le> 127" by auto
    ultimately show "a * 16 + b div 16 = 2753 \<longleftrightarrow> a = 172 \<and> 16 \<le> b \<and> b \<le> 31"
      "a * 4 + b div 64 = 401 \<longleftrightarrow> a = 100 \<and> 64 \<le> b \<and> b \<le> 127" by simp_all
    show "a * 256 + b = 49320 \<longleftrightarrow> a = 192 \<and> b = 168" "a * 256 + b = 43518 \<longleftrightarrow> a = 169 \<and> b = 254"
      using pair_digits [of b 256 168 a 192] pair_digits [of b 256 254 a 169] assms(2) by simp_all
  qed
  have "private_number (of_nat (octets_value a b c d)) \<longleftrightarrow>
      a = 127 \<or> a = 10 \<or> a * 16 + b div 16 = 2753 \<or> a * 256 + b = 49320 \<or> a * 256 + b = 43518 \<or> a = 0 \<or> a * 4 + b div 64 = 401"
    unfolding private_number_def PRIVATE_RANGES_V4_def nets using assms(2-4) by (simp add: r octets_div)
  then show ?thesis unfolding e private_octets_def by auto
qed

subsection \<open>IPv6 addresses\<close>

text \<open>
  A group is printed in hexadecimal without leading zeros. An address is printed as its groups
  between colons, with at most one double colon in place of a run of zero groups.
\<close>

definition hex_char :: "nat \<Rightarrow> char" where
  "hex_char n = (if n < 10 then char_of (48 + n) else char_of (87 + n))"

fun show_hex :: "nat \<Rightarrow> string" where
  "show_hex n = (if n < 16 then [hex_char n] else show_hex (n div 16) @ [hex_char (n mod 16)])"

declare show_hex.simps [simp del]

definition group_text :: "nat list \<Rightarrow> string" where
  "group_text gs = join_on '':'' (map show_hex gs)"

definition compressed_text :: "nat list \<Rightarrow> nat list \<Rightarrow> string" where
  "compressed_text l r = group_text l @ ''::'' @ group_text r"

lemma hex_char_props:
  assumes "n < 16"
  shows "is_hex (hex_char n)" "hex_value (hex_char n) = n" "hex_char n \<noteq> CHR '':''" "hex_char n \<noteq> CHR ''.''"
proof -
  show h: "is_hex (hex_char n)" "hex_value (hex_char n) = n"
    using assms by (simp_all add: is_hex_def hex_value_def hex_char_def Let_def of_char_of take_bit_eq_mod)
  show "hex_char n \<noteq> CHR '':''" "hex_char n \<noteq> CHR ''.''" using h(1) by (auto simp: is_hex_def Let_def)
qed

lemma show_hex_chars: "list_all is_hex (show_hex n) \<and> CHR '':'' \<notin> set (show_hex n) \<and> CHR ''.'' \<notin> set (show_hex n) \<and> show_hex n \<noteq> []"
proof (induction n rule: show_hex.induct)
  case (1 n)
  show ?case
  proof (cases "n < 16")
    case True
    then show ?thesis using hex_char_props [of n] by (auto simp: show_hex.simps [of n])
  next
    case False
    then show ?thesis using 1 hex_char_props [of "n mod 16"] by (auto simp: show_hex.simps [of n])
  qed
qed

lemma parse_show_hex: "parse_hex (show_hex n) = of_nat n"
proof (induction n rule: show_hex.induct)
  case (1 n)
  show ?case
  proof (cases "n < 16")
    case True
    then show ?thesis using hex_char_props [of n] by (simp add: show_hex.simps [of n] parse_hex_def)
  next
    case False
    then have "parse_hex (show_hex n) = 16 * parse_hex (show_hex (n div 16)) + of_nat (hex_value (hex_char (n mod 16)))"
      by (simp add: show_hex.simps [of n] parse_hex_def)
    also have "\<dots> = 16 * of_nat (n div 16) + of_nat (n mod 16)" using 1 False hex_char_props [of "n mod 16"] by simp
    also have "\<dots> = of_nat (16 * (n div 16) + n mod 16)" by (simp only: of_nat_add of_nat_mult of_nat_numeral)
    finally show ?thesis by (simp only: mult_div_mod_eq)
  qed
qed

lemma show_hex_length: "n < 16 ^ k \<Longrightarrow> 0 < k \<Longrightarrow> length (show_hex n) \<le> k"
proof (induction k arbitrary: n)
  case (Suc k)
  show ?case
  proof (cases "n < 16")
    case True
    then show ?thesis by (simp add: show_hex.simps [of n])
  next
    case False
    then have "0 < k" using Suc.prems by (cases k) auto
    moreover have "n div 16 < 16 ^ k" using Suc.prems by (simp add: less_mult_imp_div_less mult.commute)
    ultimately show ?thesis using Suc.IH [of "n div 16"] False by (simp add: show_hex.simps [of n])
  qed
qed simp

lemma parse_group_shown:
  assumes "\<forall>g\<in>set gs. g < 65536"
  shows "parse_group_list (map show_hex gs) = Some (map of_nat gs)"
  using assms
proof (induction gs)
  case (Cons g gs)
  then have "length (show_hex g) \<le> 4" using show_hex_length [of g 4] by simp
  moreover have "list_all is_hex (show_hex g)" "1 \<le> length (show_hex g)" using show_hex_chars [of g] by (auto simp: Suc_le_eq)
  ultimately show ?case using Cons by (simp add: parse_show_hex)
qed simp

lemma parse_group_text: "\<forall>g\<in>set gs. g < 65536 \<Longrightarrow> parse_groups (group_text gs) = Some (map of_nat gs)"
proof (cases "gs = []")
  case False
  assume b: "\<forall>g\<in>set gs. g < 65536"
  have "split_on (CHR '':'') (group_text gs) = map show_hex gs"
    using False unfolding group_text_def by (intro split_on_join) (auto simp: show_hex_chars)
  moreover have "group_text gs \<noteq> []"
    using False show_hex_chars by (cases gs; cases "tl gs") (auto simp: group_text_def)
  ultimately show ?thesis using b by (simp add: parse_groups_def parse_group_shown)
qed (simp add: group_text_def parse_groups_def)

lemma split_double_not_Nil [simp]: "split_double s \<noteq> []"
  by (induction s rule: split_double.induct) (auto split: list.splits)

definition prepend :: "string \<Rightarrow> string list \<Rightarrow> string list" where
  "prepend p ws = (p @ hd ws) # tl ws"

lemma prepend_simps [simp]: "ws \<noteq> [] \<Longrightarrow> prepend [] ws = ws" "prepend p (prepend q ws) = prepend (p @ q) ws" "prepend p [w] = [p @ w]"
  "prepend p (w # ws) = (p @ w) # ws"
  by (simp_all add: prepend_def)

lemma split_double_Cons: "\<not> (c = CHR '':'' \<and> s \<noteq> [] \<and> hd s = CHR '':'') \<Longrightarrow> split_double (c # s) = prepend [c] (split_double s)"
  by (cases s) (auto simp: prepend_def split: list.splits)

lemma split_double_word: "CHR '':'' \<notin> set w \<Longrightarrow> split_double (w @ s) = prepend w (split_double s)"
  by (induction w) (auto simp: split_double_Cons)

lemma group_text_Cons: "group_text (g # h # gs) = show_hex g @ CHR '':'' # group_text (h # gs)"
  by (simp add: group_text_def)

lemma group_text_start: "group_text (g # gs) @ s \<noteq> [] \<and> hd (group_text (g # gs) @ s) \<noteq> CHR '':''"
  using show_hex_chars [of g] by (cases gs; cases "show_hex g") (auto simp: group_text_def)

lemma split_double_groups: "split_double (group_text gs @ s) = prepend (group_text gs) (split_double s)"
proof (induction gs)
  case Nil
  then show ?case by (simp add: group_text_def)
next
  case (Cons g gs)
  show ?case
  proof (cases gs)
    case Nil
    then show ?thesis using show_hex_chars [of g] by (simp add: group_text_def split_double_word)
  next
    case (Cons h hs)
    have "split_double (CHR '':'' # group_text gs @ s) = prepend [CHR '':''] (split_double (group_text gs @ s))"
      using group_text_start [of h hs s] Cons by (intro split_double_Cons) auto
    then show ?thesis using Cons.IH Cons show_hex_chars [of g] by (simp add: group_text_Cons split_double_word)
  qed
qed

lemma split_compressed: "split_double (compressed_text l r) = [group_text l, group_text r]"
  using split_double_groups [of l "''::'' @ group_text r"] split_double_groups [of r "[]"] by (simp add: compressed_text_def)

lemma group_text_chars: "c \<in> set (group_text gs) \<Longrightarrow> c = CHR '':'' \<or> is_hex c \<and> c \<noteq> CHR ''.''"
proof (induction gs)
  case (Cons g gs)
  then show ?case using show_hex_chars [of g] by (cases gs) (auto simp: group_text_def list_all_iff)
qed (simp add: group_text_def)

lemma no_v4_tail: "CHR ''.'' \<notin> set ip \<Longrightarrow> v4_tail ip = None"
  by (auto simp: v4_tail_def after_last_colon_def dest: set_takeWhileD)

lemma no_dots: "CHR ''.'' \<notin> set (group_text gs)" "CHR ''.'' \<notin> set (compressed_text l r)"
  using group_text_chars by (fastforce simp: compressed_text_def)+

lemma expand_compressed:
  assumes "\<forall>g\<in>set (l @ r). g < 65536" and "length l + length r \<le> 8"
  shows "expand_ipv6 (compressed_text l r) = Some (map of_nat (l @ replicate (8 - length l - length r) 0 @ r))"
  using assms parse_group_text [of l] parse_group_text [of r]
  by (simp add: expand_ipv6_def no_v4_tail no_dots split_compressed join_halves_def ball_Un)

lemma expand_full:
  assumes "\<forall>g\<in>set gs. g < 65536" and "length gs = 8"
  shows "expand_ipv6 (group_text gs) = Some (map of_nat gs)"
  using assms parse_group_text [of gs] split_double_groups [of gs "[]"]
  by (simp add: expand_ipv6_def no_v4_tail no_dots join_halves_def)

text \<open>The forbidden IPv6 addresses, on groups as numbers.\<close>

definition private_address :: "nat list \<Rightarrow> bool" where
  "private_address g =
     (g = [0, 0, 0, 0, 0, 0, 0, 1] \<or> g = replicate 8 0 \<or> (0xFE80 \<le> g ! 0 \<and> g ! 0 \<le> 0xFEBF) \<or> (0xFC00 \<le> g ! 0 \<and> g ! 0 \<le> 0xFDFF)
      \<or> take 5 g = [0, 0, 0, 0, 0] \<and> (g ! 5 = 0xFFFF \<or> g ! 5 = 0 \<and> g ! 6 \<noteq> 0) \<and> private_octets (g ! 6 div 256) (g ! 6 mod 256))"

lemma masked:
  assumes "n < 65536" and "k \<le> 16"
  shows "(of_nat n :: 32 word) AND push_bit k (mask (16 - k)) = push_bit k (of_nat (n div 2 ^ k))"
proof (rule bit_word_eqI)
  fix i
  assume "i < LENGTH(32)"
  have "\<not> bit n i" if "16 \<le> i"
  proof -
    have "n < 2 ^ i" using assms(1) power_increasing [OF that, of "2 :: nat"] by simp
    then show ?thesis by (simp add: bit_iff_odd)
  qed
  moreover have "bit (n div 2 ^ k) j = bit n (k + j)" for j
    by (simp add: bit_iff_odd div_mult2_eq power_add)
  ultimately show "bit ((of_nat n :: 32 word) AND push_bit k (mask (16 - k))) i = bit (push_bit k (of_nat (n div 2 ^ k) :: 32 word)) i"
  proof (cases "k \<le> i \<and> i < 16")
    case True
    then have "i - k < 16 - k" by (simp add: diff_less_mono)
    then show ?thesis using True \<open>i < LENGTH(32)\<close> \<open>\<And>j. bit (n div 2 ^ k) j = bit n (k + j)\<close>
      by (auto simp add: bit_and_iff bit_push_bit_iff bit_mask_iff bit_of_nat_iff)
  next
    case False
    then have "\<not> (k \<le> i \<and> bit n i)" using \<open>16 \<le> i \<Longrightarrow> \<not> bit n i\<close> by (auto simp: not_less)
    then show ?thesis using \<open>i < LENGTH(32)\<close> \<open>\<And>j. bit (n div 2 ^ k) j = bit n (k + j)\<close>
      by (auto simp: bit_and_iff bit_push_bit_iff bit_mask_iff bit_of_nat_iff)
  qed
qed

lemma of_nat_group: "m < 65536 \<Longrightarrow> n < 65536 \<Longrightarrow> (of_nat n :: 32 word) = of_nat m \<longleftrightarrow> n = m"
  by (simp add: word_unat_eq_iff unat_of_nat)

lemma group_masks:
  assumes "n < 65536"
  shows "(of_nat n :: 32 word) AND 0xFFC0 = 0xFE80 \<longleftrightarrow> 0xFE80 \<le> n \<and> n \<le> 0xFEBF"
    and "(of_nat n :: 32 word) AND 0xFE00 = 0xFC00 \<longleftrightarrow> 0xFC00 \<le> n \<and> n \<le> 0xFDFF"
proof -
  have m: "push_bit 6 (mask (16 - 6)) = (0xFFC0 :: 32 word)" "push_bit 9 (mask (16 - 9)) = (0xFE00 :: 32 word)"
    by (simp_all add: mask_eq_exp_minus_1 push_bit_eq_mult)
  have p: "push_bit 6 (of_nat (n div 64) :: 32 word) = of_nat (n div 64 * 64)" "push_bit 9 (of_nat (n div 512) :: 32 word) = of_nat (n div 512 * 512)"
    by (simp_all add: push_bit_eq_mult)
  have "(of_nat n :: 32 word) AND 0xFFC0 = of_nat (n div 64 * 64)" using masked [OF assms, of 6] m(1) p(1) by simp
  moreover have "(of_nat (n div 64 * 64) :: 32 word) = 0xFE80 \<longleftrightarrow> n div 64 * 64 = 0xFE80"
    using of_nat_group [of "0xFE80" "n div 64 * 64"] assms by simp
  moreover have "n div 64 * 64 = 0xFE80 \<longleftrightarrow> n div 64 = 1018" "n div 64 = 1018 \<longleftrightarrow> 0xFE80 \<le> n \<and> n \<le> 0xFEBF" by auto
  ultimately show "(of_nat n :: 32 word) AND 0xFFC0 = 0xFE80 \<longleftrightarrow> 0xFE80 \<le> n \<and> n \<le> 0xFEBF" by simp
  have "(of_nat n :: 32 word) AND 0xFE00 = of_nat (n div 512 * 512)" using masked [OF assms, of 9] m(2) p(2) by simp
  moreover have "(of_nat (n div 512 * 512) :: 32 word) = 0xFC00 \<longleftrightarrow> n div 512 * 512 = 0xFC00"
    using of_nat_group [of "0xFC00" "n div 512 * 512"] assms by simp
  moreover have "n div 512 * 512 = 0xFC00 \<longleftrightarrow> n div 512 = 126" "n div 512 = 126 \<longleftrightarrow> 0xFC00 \<le> n \<and> n \<le> 0xFDFF" by auto
  ultimately show "(of_nat n :: 32 word) AND 0xFE00 = 0xFC00 \<longleftrightarrow> 0xFC00 \<le> n \<and> n \<le> 0xFDFF" by simp
qed

lemma embedded_v4:
  assumes "x < 65536" "y < 65536"
  shows "private_number (push_bit 16 (of_nat x) OR of_nat y) = private_octets (x div 256) (x mod 256)"
proof -
  have "push_bit 16 (of_nat x :: 32 word) OR of_nat y = of_nat (65536 * x + y)" using or_shift [of y 16 x] assms by simp
  also have "65536 * x + y = octets_value (x div 256) (x mod 256) (y div 256) (y mod 256)"
    unfolding octets_value_def by (simp add: algebra_simps)
  finally show ?thesis using assms private_number_octets [of "x div 256" "x mod 256" "y div 256" "y mod 256"] by simp
qed

lemma private_groups_list:
  "private_groups [A, B, C, D, E, F, X, Y] \<longleftrightarrow>
     (A = 0 \<and> B = 0 \<and> C = 0 \<and> D = 0 \<and> E = 0 \<and> F = 0 \<and> X = 0) \<and> Y = 1 \<or> (A = 0 \<and> B = 0 \<and> C = 0 \<and> D = 0 \<and> E = 0 \<and> F = 0 \<and> X = 0 \<and> Y = 0)
     \<or> A AND 0xFFC0 = 0xFE80 \<or> A AND 0xFE00 = 0xFC00
     \<or> ((A = 0 \<and> B = 0 \<and> C = 0 \<and> D = 0 \<and> E = 0) \<and> F = 0xFFFF \<or> (A = 0 \<and> B = 0 \<and> C = 0 \<and> D = 0 \<and> E = 0) \<and> F = 0 \<and> X \<noteq> 0)
       \<and> private_number (push_bit 16 X OR Y)"
proof -
  have l: "[A, B, C, D, E, F, X, Y] ! 0 = A" "[A, B, C, D, E, F, X, Y] ! 5 = F" "[A, B, C, D, E, F, X, Y] ! 6 = X" "[A, B, C, D, E, F, X, Y] ! 7 = Y"
    "(\<forall>x\<in>set (take 7 [A, B, C, D, E, F, X, Y]). x = 0) \<longleftrightarrow> A = 0 \<and> B = 0 \<and> C = 0 \<and> D = 0 \<and> E = 0 \<and> F = 0 \<and> X = 0"
    "(\<forall>x\<in>set (take 5 [A, B, C, D, E, F, X, Y]). x = 0) \<longleftrightarrow> A = 0 \<and> B = 0 \<and> C = 0 \<and> D = 0 \<and> E = 0"
    "(\<forall>x\<in>set [A, B, C, D, E, F, X, Y]. x = 0) \<longleftrightarrow> A = 0 \<and> B = 0 \<and> C = 0 \<and> D = 0 \<and> E = 0 \<and> F = 0 \<and> X = 0 \<and> Y = 0"
    by simp_all
  have chain: "(if P then True else if Q then True else if R then True else if S then True else if M \<or> K then V else False)
      \<longleftrightarrow> P \<or> Q \<or> R \<or> S \<or> (M \<or> K) \<and> V" for P Q R S M K V
    by simp
  show ?thesis unfolding private_groups_def l Let_def by (rule chain)
qed

lemma private_groups_of_nat:
  assumes "length g = 8" and "\<forall>x\<in>set g. x < 65536"
  shows "private_groups (map of_nat g) = private_address g"
proof -
  obtain a b c d e f x y where g: "g = [a, b, c, d, e, f, x, y]"
    using assms(1) by (auto simp: numeral_eq_Suc length_Suc_conv)
  have z: "(of_nat n :: 32 word) = 0 \<longleftrightarrow> n = 0" "(of_nat n :: 32 word) = 1 \<longleftrightarrow> n = 1" "(of_nat n :: 32 word) = 0xFFFF \<longleftrightarrow> n = 0xFFFF"
    if "n < 65536" for n
    using of_nat_group [of 0 n] of_nat_group [of 1 n] of_nat_group [of "0xFFFF" n] that by simp_all
  have b: "a < 65536" "b < 65536" "c < 65536" "d < 65536" "e < 65536" "f < 65536" "x < 65536" "y < 65536" using assms(2) g by simp_all
  have w: "private_groups (map of_nat g) \<longleftrightarrow>
     (a = 0 \<and> b = 0 \<and> c = 0 \<and> d = 0 \<and> e = 0 \<and> f = 0 \<and> x = 0) \<and> y = 1 \<or> (a = 0 \<and> b = 0 \<and> c = 0 \<and> d = 0 \<and> e = 0 \<and> f = 0 \<and> x = 0 \<and> y = 0)
     \<or> (0xFE80 \<le> a \<and> a \<le> 0xFEBF) \<or> (0xFC00 \<le> a \<and> a \<le> 0xFDFF)
     \<or> ((a = 0 \<and> b = 0 \<and> c = 0 \<and> d = 0 \<and> e = 0) \<and> f = 0xFFFF \<or> (a = 0 \<and> b = 0 \<and> c = 0 \<and> d = 0 \<and> e = 0) \<and> f = 0 \<and> x \<noteq> 0)
       \<and> private_octets (x div 256) (x mod 256)"
    unfolding g list.map private_groups_list by (simp only: z b group_masks embedded_v4)
  have p: "private_address g \<longleftrightarrow> (g = [0, 0, 0, 0, 0, 0, 0, 1] \<or> g = [0, 0, 0, 0, 0, 0, 0, 0] \<or> (0xFE80 \<le> a \<and> a \<le> 0xFEBF)
      \<or> (0xFC00 \<le> a \<and> a \<le> 0xFDFF)
      \<or> [a, b, c, d, e] = [0, 0, 0, 0, 0] \<and> (f = 0xFFFF \<or> f = 0 \<and> x \<noteq> 0) \<and> private_octets (x div 256) (x mod 256))"
  proof -
    have "g ! 0 = a" "g ! 5 = f" "g ! 6 = x" "take 5 g = [a, b, c, d, e]" by (simp_all add: g)
    moreover have "replicate 8 (0 :: nat) = [0, 0, 0, 0, 0, 0, 0, 0]" by code_simp
    ultimately show ?thesis by (simp only: private_address_def)
  qed
  show ?thesis unfolding w p unfolding g list.inject by blast
qed

subsection \<open>What the guard lets through\<close>

text \<open>
  An address as a URL names it: four octets, or eight groups of which a run may be left out. The
  URL parser puts an IPv6 host in brackets.
\<close>

datatype ip_address = IPv4 nat nat nat nat | IPv6_full "nat list" | IPv6_short "nat list" "nat list"

fun address_ok :: "ip_address \<Rightarrow> bool" where
  "address_ok (IPv4 a b c d) = (a \<le> 255 \<and> b \<le> 255 \<and> c \<le> 255 \<and> d \<le> 255)"
| "address_ok (IPv6_full g) = (length g = 8 \<and> (\<forall>x\<in>set g. x < 65536))"
| "address_ok (IPv6_short l r) = (length l + length r \<le> 8 \<and> (\<forall>x\<in>set (l @ r). x < 65536))"

fun host_text :: "ip_address \<Rightarrow> string" where
  "host_text (IPv4 a b c d) = dotted a b c d"
| "host_text (IPv6_full g) = ''['' @ group_text g @ '']''"
| "host_text (IPv6_short l r) = ''['' @ compressed_text l r @ '']''"

fun forbidden_address :: "ip_address \<Rightarrow> bool" where
  "forbidden_address (IPv4 a b c d) = private_octets a b"
| "forbidden_address (IPv6_full g) = private_address g"
| "forbidden_address (IPv6_short l r) = private_address (l @ replicate (8 - length l - length r) 0 @ r)"

lemma lower_plain: "(\<And>c. c \<in> set s \<Longrightarrow> \<not> (65 \<le> (of_char c :: nat) \<and> (of_char c :: nat) \<le> 90)) \<Longrightarrow> to_lower s = s"
  by (auto simp: to_lower_def lower_char_def Let_def intro!: map_idI)

lemma show_hex_lower: "c \<in> set (show_hex n) \<Longrightarrow> \<not> (65 \<le> (of_char c :: nat) \<and> (of_char c :: nat) \<le> 90)"
proof (induction n rule: show_hex.induct)
  case (1 n)
  have "\<not> (65 \<le> (of_char (hex_char k) :: nat) \<and> (of_char (hex_char k) :: nat) \<le> 90)" if "k < 16" for k
    using that by (simp add: hex_char_def of_char_of take_bit_eq_mod)
  then show ?case using 1 by (cases "n < 16") (auto simp: show_hex.simps [of n])
qed

lemma group_text_lower: "c \<in> set (group_text gs) \<Longrightarrow> \<not> (65 \<le> (of_char c :: nat) \<and> (of_char c :: nat) \<le> 90)"
proof (induction gs)
  case (Cons g gs)
  then show ?case using show_hex_lower [of c g] by (cases gs) (auto simp: group_text_def)
qed (simp add: group_text_def)

lemma strip_dotted: "strip_brackets (to_lower (dotted a b c d)) = dotted a b c d"
proof -
  have d: "is_digit x \<or> x = CHR ''.''" if "x \<in> set (dotted a b c d)" for x
    using that show_nat_chars by (auto simp: dotted_def)
  then have "to_lower (dotted a b c d) = dotted a b c d"
    by (intro lower_plain) (force simp: is_digit_def Let_def)
  moreover have "strip_brackets s = s" if "\<forall>x\<in>set s. is_digit x \<or> x = CHR ''.''" for s
  proof -
    have "x \<noteq> CHR ''[''" "x \<noteq> CHR '']''" if "x \<in> set s" for x
      using that \<open>\<forall>x\<in>set s. is_digit x \<or> x = CHR ''.''\<close> by (auto simp: is_digit_def Let_def)
    then have "s = [] \<or> (hd s \<noteq> CHR ''['' \<and> last s \<noteq> CHR '']'')" by (metis hd_in_set last_in_set)
    then show ?thesis by (auto simp: strip_brackets_def Let_def)
  qed
  ultimately show ?thesis using d by simp
qed

lemma strip_bracketed:
  assumes "\<And>c. c \<in> set t \<Longrightarrow> \<not> (65 \<le> (of_char c :: nat) \<and> (of_char c :: nat) \<le> 90)"
  shows "strip_brackets (to_lower (''['' @ t @ '']'')) = t"
proof -
  have "to_lower (''['' @ t @ '']'') = ''['' @ t @ '']''" using assms by (intro lower_plain) auto
  then show ?thesis by (simp add: strip_brackets_def)
qed

lemma not_blocked: "CHR '':'' \<in> set h \<or> is_digit (hd h) \<Longrightarrow> h \<notin> set BLOCKED_HOSTNAMES"
  by (auto simp: BLOCKED_HOSTNAMES_def is_digit_def Let_def)

lemma dotted_not_ipv6: "\<not> is_private_ipv6 (dotted a b c d)"
proof -
  have n: "CHR '':'' \<notin> set (dotted a b c d)" "CHR ''.'' \<in> set (dotted a b c d)" "dotted a b c d \<noteq> []"
    using no_dot by (auto simp: dotted_def)
  then have "split_double (dotted a b c d) = [dotted a b c d]" using split_double_word [OF n(1), of "[]"] by simp
  moreover have "\<not> is_hex CHR ''.''" by (simp add: is_hex_def)
  then have "\<not> list_all is_hex (dotted a b c d)" using n(2) by (auto simp: list_all_iff)
  ultimately have "expand_ipv6 (dotted a b c d) = None"
    using n by (simp add: expand_ipv6_def v4_tail_def join_halves_def parse_groups_def split_on_plain)
  then show ?thesis by (simp add: is_private_ipv6_def)
qed

lemma guard_ipv6:
  assumes "expand_ipv6 t = Some (map of_nat g)" and "length g = 8" "\<forall>x\<in>set g. x < 65536"
    and "CHR '':'' \<in> set t" "CHR ''.'' \<notin> set t"
  shows "guard_hostname t = Inr () \<longleftrightarrow> \<not> private_address g"
proof -
  have "parse_ipv4 t = None" using assms(5) by (simp add: parse_ipv4_def split_on_plain)
  then show ?thesis using assms not_blocked [of t]
    by (simp add: guard_hostname_def is_private_ipv4_def is_private_ipv6_def private_groups_of_nat)
qed

lemma group_text_colon: "2 \<le> length gs \<Longrightarrow> CHR '':'' \<in> set (group_text gs)"
  by (cases gs; cases "tl gs") (auto simp: group_text_def)



text \<open>
  Names are compared as they are written. The platform's parser keeps a final dot, so the name
  of the loopback interface with a dot at its end passes.
\<close>

lemma final_dot_passes: "guard_hostname ''localhost.'' = Inr ()" "guard_hostname ''localhost'' \<noteq> Inr ()"
  by code_simp+

end
