(* ===== verification/Regex.thy ===== *)
theory Regex
  imports Prelude
begin

text \<open>
  The regular expressions of JavaScript, as a backtracking matcher: a match is a list of the
  successful ends in the order the engine would try them, so that the first is the match.
  Only what the services use is here: classes, sequences, alternatives, greedy and lazy
  repetition, capturing groups, the anchors and the edge of a word.
\<close>

datatype regex =
    Empty
  | Class "char \<Rightarrow> bool"
  | Then regex regex
  | Or regex regex
  | Many bool regex
  | Group nat regex
  | AtStart
  | AtEnd
  | WordEdge

text \<open>The character before, the rest of the input, and the groups captured so far, latest first.\<close>

type_synonym match_state = "char option \<times> string \<times> (nat \<times> string) list"

fun rest_length :: "match_state \<Rightarrow> nat" where
  "rest_length (_, s, _) = length s"

definition is_ascii_word :: "char \<Rightarrow> bool" where
  "is_ascii_word c = (let n = (of_char c :: nat) in (48 \<le> n \<and> n \<le> 57) \<or> (65 \<le> n \<and> n \<le> 90) \<or> n = 95 \<or> (97 \<le> n \<and> n \<le> 122))"

fun word_edge :: "char option \<Rightarrow> string \<Rightarrow> bool" where
  "word_edge p s = ((case p of None \<Rightarrow> False | Some c \<Rightarrow> is_ascii_word c) \<noteq> (case s of [] \<Rightarrow> False | c # _ \<Rightarrow> is_ascii_word c))"

text \<open>An iteration that consumes nothing fails, so there are at most as many as characters are left.\<close>

fun repeat_match :: "nat \<Rightarrow> bool \<Rightarrow> (match_state \<Rightarrow> match_state list) \<Rightarrow> match_state \<Rightarrow> match_state list" where
  "repeat_match 0 greedy f st = [st]"
| "repeat_match (Suc n) greedy f st =
     (let more = concat (map (repeat_match n greedy f) (filter (\<lambda>st'. rest_length st' < rest_length st) (f st)))
      in if greedy then more @ [st] else st # more)"

primrec matches :: "regex \<Rightarrow> match_state \<Rightarrow> match_state list" where
  "matches Empty st = [st]"
| "matches (Class P) st = (case st of (_, c # s, caps) \<Rightarrow> if P c then [(Some c, s, caps)] else [] | _ \<Rightarrow> [])"
| "matches (Then r1 r2) st = concat (map (matches r2) (matches r1 st))"
| "matches (Or r1 r2) st = matches r1 st @ matches r2 st"
| "matches (Many greedy r) st = repeat_match (rest_length st) greedy (matches r) st"
| "matches (Group k r) st = map (\<lambda>(p, s, caps). (p, s, (k, take (rest_length st - length s) (fst (snd st))) # caps)) (matches r st)"
| "matches AtStart st = (if fst st = None then [st] else [])"
| "matches AtEnd st = (if fst (snd st) = [] then [st] else [])"
| "matches WordEdge st = (if word_edge (fst st) (fst (snd st)) then [st] else [])"

text \<open>The derived forms.\<close>

definition char_ci :: "char \<Rightarrow> regex" where
  "char_ci c = Class (\<lambda>d. lower_char d = lower_char c)"

definition text_ci :: "string \<Rightarrow> regex" where
  "text_ci s = foldr (\<lambda>c r. Then (char_ci c) r) s Empty"

definition one_more :: "bool \<Rightarrow> regex \<Rightarrow> regex" where
  "one_more greedy r = Then r (Many greedy r)"

definition optional :: "regex \<Rightarrow> regex" where
  "optional r = Or r Empty"

fun exactly :: "nat \<Rightarrow> regex \<Rightarrow> regex" where
  "exactly 0 r = Empty"
| "exactly (Suc n) r = Then r (exactly n r)"

fun up_to :: "nat \<Rightarrow> regex \<Rightarrow> regex" where
  "up_to 0 r = Empty"
| "up_to (Suc n) r = Or (Then r (up_to n r)) Empty"

definition any_of :: "regex list \<Rightarrow> regex" where
  "any_of rs = foldr Or rs (Class (\<lambda>_. False))"

definition seq :: "regex list \<Rightarrow> regex" where
  "seq rs = foldr Then rs Empty"

text \<open>\<open>exec\<close>: the leftmost match, its text, its groups and what follows.\<close>

record match_result =
  mr_text :: string
  mr_groups :: "(nat \<times> string) list"
  mr_before :: "char option"
  mr_after :: string

fun exec_from :: "regex \<Rightarrow> char option \<Rightarrow> string \<Rightarrow> match_result option" where
  "exec_from r p s = (case matches r (p, s, []) of
     (q, t, caps) # _ \<Rightarrow> Some \<lparr>mr_text = take (length s - length t) s, mr_groups = caps, mr_before = q, mr_after = t\<rparr>
   | [] \<Rightarrow> (case s of [] \<Rightarrow> None | c # s' \<Rightarrow> exec_from r (Some c) s'))"

declare exec_from.simps [simp del]

definition regex_exec :: "regex \<Rightarrow> string \<Rightarrow> match_result option" where
  "regex_exec r s = exec_from r None s"

definition regex_test :: "regex \<Rightarrow> string \<Rightarrow> bool" where
  "regex_test r s = (regex_exec r s \<noteq> None)"

definition group :: "nat \<Rightarrow> match_result \<Rightarrow> string option" where
  "group k m = map_of (mr_groups m) k"

text \<open>
  \<open>match\<close> with the flag g: the texts of the successive matches. After an empty match the search
  moves on by one character.
\<close>

fun all_matches :: "nat \<Rightarrow> regex \<Rightarrow> char option \<Rightarrow> string \<Rightarrow> string list" where
  "all_matches 0 r p s = []"
| "all_matches (Suc n) r p s = (case exec_from r p s of
     None \<Rightarrow> []
   | Some m \<Rightarrow> mr_text m # (if mr_text m \<noteq> [] then all_matches n r (mr_before m) (mr_after m)
       else (case mr_after m of [] \<Rightarrow> [] | c # s' \<Rightarrow> all_matches n r (Some c) s')))"

definition regex_match_all :: "regex \<Rightarrow> string \<Rightarrow> string list" where
  "regex_match_all r s = all_matches (length s + 1) r None s"

subsection \<open>A match consumes a prefix\<close>

lemma concat_map_in: "y \<in> set (concat (map f xs)) \<longleftrightarrow> (\<exists>x\<in>set xs. y \<in> set (f x))"
  by auto

definition consumes :: "match_state \<Rightarrow> match_state \<Rightarrow> bool" where
  "consumes st st' \<longleftrightarrow> (\<exists>u. fst (snd st) = u @ fst (snd st') \<and> fst st' = (if u = [] then fst st else Some (last u)))"

lemma consumes_refl [simp]: "consumes st st"
  by (simp add: consumes_def)

lemma consumes_trans: "consumes a b \<Longrightarrow> consumes b c \<Longrightarrow> consumes a c"
proof -
  assume "consumes a b" and "consumes b c"
  then obtain u v where "fst (snd a) = u @ fst (snd b)" "fst b = (if u = [] then fst a else Some (last u))"
    "fst (snd b) = v @ fst (snd c)" "fst c = (if v = [] then fst b else Some (last v))"
    by (auto simp: consumes_def)
  then show "consumes a c" unfolding consumes_def by (intro exI [of _ "u @ v"]) simp
qed

lemma repeat_match_consumes:
  assumes "\<And>st st'. st' \<in> set (f st) \<Longrightarrow> consumes st st'"
  shows "st' \<in> set (repeat_match n g f st) \<Longrightarrow> consumes st st'"
proof (induction n arbitrary: st)
  case (Suc n)
  then have "st' = st \<or> (\<exists>st1\<in>set (f st). st' \<in> set (repeat_match n g f st1))" by (auto simp: Let_def split: if_splits)
  then show ?case using assms Suc.IH by (blast intro: consumes_trans consumes_refl)
qed simp

lemma matches_consume: "st' \<in> set (matches r st) \<Longrightarrow> consumes st st'"
proof (induction r arbitrary: st st')
  case (Class P)
  then obtain p c t caps where "st = (p, c # t, caps)" "st' = (Some c, t, caps)"
    by (cases st) (auto split: list.splits if_splits)
  then have "fst (snd st) = [c] @ fst (snd st')" "fst st' = Some (last [c])" by simp_all
  then show ?case unfolding consumes_def by (intro exI [of _ "[c]"]) simp
next
  case (Then r1 r2)
  then obtain st1 where "st1 \<in> set (matches r1 st)" "st' \<in> set (matches r2 st1)" by auto
  then have "consumes st st1" "consumes st1 st'" using Then.IH by blast+
  then show ?case by (rule consumes_trans)
next
  case (Many g r)
  then show ?case using repeat_match_consumes [of "matches r"] by simp
next
  case (Group k r)
  then obtain st'' where st'': "st'' \<in> set (matches r st)" "fst st' = fst st''" "fst (snd st') = fst (snd st'')" by auto
  from Group.IH [OF st''(1)] show ?case by (simp add: consumes_def st''(2,3))
qed (auto split: if_splits)

text \<open>The match and what follows it are a suffix of the input.\<close>

lemma exec_from_parts:
  assumes "exec_from r p s = Some m"
  shows "\<exists>u. s = u @ mr_text m @ mr_after m"
  using assms
proof (induction s arbitrary: p)
  case Nil
  then obtain st sts where m: "matches r (p, [], []) = st # sts" by (subst (asm) exec_from.simps) (auto split: list.splits)
  then have "consumes (p, [], []) st" using matches_consume by (metis list.set_intros(1))
  then show ?case using Nil m by (subst (asm) exec_from.simps) (auto simp: consumes_def split: prod.splits)
next
  case (Cons c s)
  show ?case
  proof (cases "matches r (p, c # s, [])")
    case Nil
    then have "exec_from r (Some c) s = Some m" using Cons.prems by (subst (asm) exec_from.simps) simp
    from Cons.IH [OF this] show ?thesis by (metis append_Cons)
  next
    case (Cons st sts)
    obtain q t caps where st: "st = (q, t, caps)" by (metis prod_cases3)
    have "consumes (p, c # s, []) st" using Cons matches_consume by (metis list.set_intros(1))
    then obtain u where "c # s = u @ t" by (auto simp: consumes_def st)
    then show ?thesis using Cons.prems Cons st
      by (subst (asm) exec_from.simps) (auto intro: exI [of _ "[]"])
  qed
qed

subsection \<open>Repetition of a class\<close>

text \<open>The ends of \<open>[P]*\<close> and \<open>[P]+\<close>: all prefixes of characters of the class.\<close>

definition class_end :: "(char \<Rightarrow> bool) \<Rightarrow> match_state \<Rightarrow> string \<Rightarrow> match_state \<Rightarrow> bool" where
  "class_end P st u st' \<longleftrightarrow> fst (snd st) = u @ fst (snd st') \<and> (\<forall>c\<in>set u. P c)
     \<and> fst st' = (if u = [] then fst st else Some (last u)) \<and> snd (snd st') = snd (snd st)"

lemma class_match: "st' \<in> set (matches (Class P) st) \<longleftrightarrow> (\<exists>c. class_end P st [c] st')"
  by (cases st; cases st') (auto simp: class_end_def split: list.splits)

lemma class_end_step: "class_end P st [c] st1 \<Longrightarrow> class_end P st (c # u) st' \<longleftrightarrow> class_end P st1 u st'"
  by (auto simp: class_end_def)

lemma class_end_first: "class_end P st (c # u) st' \<Longrightarrow> \<exists>st1. class_end P st [c] st1"
  by (rule exI [of _ "(Some c, u @ fst (snd st'), snd (snd st))"]) (simp add: class_end_def)

lemma class_end_Nil: "class_end P st [] st' \<longleftrightarrow> st' = st"
  by (cases st; cases st') (auto simp: class_end_def)

lemma repeat_Suc_in: "st' \<in> set (repeat_match (Suc n) g f st) \<longleftrightarrow>
    st' = st \<or> (\<exists>st1. st1 \<in> set (f st) \<and> rest_length st1 < rest_length st \<and> st' \<in> set (repeat_match n g f st1))"
  by (auto simp: Let_def)

lemma repeat_class:
  "rest_length st \<le> n \<Longrightarrow> st' \<in> set (repeat_match n g (matches (Class P)) st) \<longleftrightarrow> (\<exists>u. class_end P st u st')"
proof (induction n arbitrary: st)
  case 0
  then have "class_end P st u st' \<longleftrightarrow> u = [] \<and> st' = st" for u
    by (cases st; cases u; cases st') (auto simp: class_end_def)
  then show ?case by simp
next
  case (Suc n)
  have len: "rest_length st1 < rest_length st" if "class_end P st [c] st1" for c st1
    using that by (cases st; cases st1) (simp add: class_end_def)
  have "st' \<in> set (repeat_match (Suc n) g (matches (Class P)) st) \<longleftrightarrow>
      st' = st \<or> (\<exists>c st1. class_end P st [c] st1 \<and> st' \<in> set (repeat_match n g (matches (Class P)) st1))"
    unfolding repeat_Suc_in class_match using len by blast
  also have "\<dots> \<longleftrightarrow> st' = st \<or> (\<exists>c st1 u. class_end P st [c] st1 \<and> class_end P st1 u st')"
    using Suc len by (metis less_Suc_eq_le order_less_le_trans)
  also have "\<dots> \<longleftrightarrow> (\<exists>u. class_end P st u st')"
    by (metis class_end_Nil class_end_step class_end_first neq_Nil_conv)
  finally show ?case .
qed

lemma many_class: "st' \<in> set (matches (Many g (Class P)) st) \<longleftrightarrow> (\<exists>u. class_end P st u st')"
  using repeat_class [of st "rest_length st"] by (simp del: matches.simps(2))

lemma one_more_class: "st' \<in> set (matches (one_more g (Class P)) st) \<longleftrightarrow> (\<exists>u. u \<noteq> [] \<and> class_end P st u st')"
proof -
  have "st' \<in> set (matches (one_more g (Class P)) st) \<longleftrightarrow> (\<exists>c st1 u. class_end P st [c] st1 \<and> class_end P st1 u st')"
  proof -
    have "st' \<in> set (matches (one_more g (Class P)) st) \<longleftrightarrow>
        (\<exists>st1. st1 \<in> set (matches (Class P) st) \<and> st' \<in> set (matches (Many g (Class P)) st1))"
      by (simp add: one_more_def Bex_def del: matches.simps(2,5))
    then show ?thesis unfolding many_class class_match by blast
  qed
  also have "\<dots> \<longleftrightarrow> (\<exists>u. u \<noteq> [] \<and> class_end P st u st')"
    by (metis class_end_step class_end_first list.distinct(1) neq_Nil_conv)
  finally show ?thesis .
qed

text \<open>A search fails exactly if every position fails; a match at the first position is the result.\<close>

lemma exec_from_here:
  "exec_from r p s = (case matches r (p, s, []) of
     st # _ \<Rightarrow> Some \<lparr>mr_text = take (length s - length (fst (snd st))) s, mr_groups = snd (snd st), mr_before = fst st, mr_after = fst (snd st)\<rparr>
   | [] \<Rightarrow> (case s of [] \<Rightarrow> None | c # s' \<Rightarrow> exec_from r (Some c) s'))"
  by (subst exec_from.simps) (simp add: case_prod_beta split: list.split)

end
