(* ===== verification/Job_Extractor.thy ===== *)
theory Job_Extractor
  imports Application_Status Regex
begin

text \<open>
  The extractor of application data (\<open>JobApplicationExtractor\<close> of
  \<open>services/job-application/job-application-extractor.ts\<close>): from a classified email to the company,
  role, status, recruiter and details of an application, by regular expressions over the subject
  and the body. The date parser of the runtime is an argument.
\<close>

record extracted_data =
  xd_id :: string
  xd_user_id :: uid
  xd_company_name :: string
  xd_company_domain :: string
  xd_role_title :: string
  xd_department :: string
  xd_status :: app_status
  xd_applied_date :: time
  xd_recruiter_name :: string
  xd_recruiter_email :: string
  xd_source_email_id :: string
  xd_location :: string
  xd_employment_type :: string
  xd_current_stage :: string
  xd_interview_rounds :: nat
  xd_deadlines :: "string list"

subsection \<open>Classes of characters\<close>

definition is_letter :: "char \<Rightarrow> bool" where
  "is_letter c = (let n = (of_char c :: nat) in (65 \<le> n \<and> n \<le> 90) \<or> (97 \<le> n \<and> n \<le> 122))"

definition is_domain_char :: "char \<Rightarrow> bool" where
  "is_domain_char c = (is_letter c \<or> is_digit c \<or> c = CHR ''.'' \<or> c = CHR ''-'')"

definition is_local_char :: "char \<Rightarrow> bool" where
  "is_local_char c = (is_letter c \<or> is_digit c \<or> c \<in> set ''._%+-'')"

definition letters :: regex where "letters = one_more True (Class is_letter)"
definition spaces :: regex where "spaces = one_more True (Class is_space)"
definition digit :: regex where "digit = Class is_digit"
definition letter_or_space :: regex where "letter_or_space = Class (\<lambda>c. is_letter c \<or> is_space c)"

text \<open>\<open>[A-Za-z0-9.-]+\.[A-Za-z]{2,}\<close>.\<close>

definition domain_regex :: regex where
  "domain_regex = Then (one_more True (Class is_domain_char)) (Then (Class (\<lambda>c. c = CHR ''.''))
     (Then (Class is_letter) (one_more True (Class is_letter))))"

text \<open>The end of a phrase: \<open>(?:\.|,|;|$)\<close>.\<close>

definition phrase_end :: regex where
  "phrase_end = any_of [Class (\<lambda>c. c \<in> set ''.,;''), AtEnd]"

subsection \<open>Text\<close>

definition truncate_text :: "string \<Rightarrow> string" where
  "truncate_text s = take 10000 s"

text \<open>\<open>replace(/\b\w/g, toUpperCase)\<close>.\<close>

fun capitalize_after :: "char option \<Rightarrow> string \<Rightarrow> string" where
  "capitalize_after p [] = []"
| "capitalize_after p (c # s) =
     (if word_edge p (c # s) \<and> is_ascii_word c then upper_char c else c) # capitalize_after (Some c) s"

definition capitalize_words :: "string \<Rightarrow> string" where
  "capitalize_words s = capitalize_after None s"

definition sender_regex :: regex where
  "sender_regex = Then (Class (\<lambda>c. c = CHR ''@'')) (Then (Group 1 domain_regex) AtEnd)"

definition extract_domain :: "string \<Rightarrow> string option" where
  "extract_domain sender =
     (case regex_exec sender_regex sender of
        None \<Rightarrow> None | Some m \<Rightarrow> group 1 m)"

definition format_domain_label :: "string \<Rightarrow> string" where
  "format_domain_label domain = capitalize_words (join_on '' '' (butlast (split_on (CHR ''.'') domain)))"

text \<open>\<open>toLowerCase().replace(/[^a-z0-9]+/g, '-')\<close>.\<close>

fun slug_from :: "bool \<Rightarrow> string \<Rightarrow> string" where
  "slug_from b [] = []"
| "slug_from b (c # s) = (if is_digit c \<or> is_letter c then c # slug_from False s
     else if b then slug_from True s else CHR ''-'' # slug_from True s)"

definition build_id :: "uid \<Rightarrow> string \<Rightarrow> string \<Rightarrow> string" where
  "build_id user company role = user @ '':'' @ slug_from False (to_lower (company @ ''-'' @ role))"

subsection \<open>Company and role\<close>

definition detected :: "string option \<Rightarrow> string option" where
  "detected d = (case truthy d of None \<Rightarrow> None | Some s \<Rightarrow> if trim s = [] then None else Some (trim s))"

definition extract_company_name :: "string option \<Rightarrow> string \<Rightarrow> string" where
  "extract_company_name detected_company sender =
     option_or (detected detected_company)
       (case extract_domain sender of Some d \<Rightarrow> format_domain_label d | None \<Rightarrow> ''Unknown Company'')"

definition extract_company_domain :: "string \<Rightarrow> string \<Rightarrow> string" where
  "extract_company_domain company_name sender =
     (case extract_domain sender of Some d \<Rightarrow> d | None \<Rightarrow> filter (\<lambda>c. \<not> is_space c) (to_lower company_name) @ ''.com'')"

text \<open>\<open>/for\s+(.+?)(?:\s+-|\s*\||:|$)/i\<close>.\<close>

definition role_regex :: regex where
  "role_regex = seq [text_ci ''for'', spaces, Group 1 (one_more False (Class (\<lambda>c. c \<notin> set [CHR 0x0A, CHR 0x0D]))),
     any_of [Then spaces (char_ci (CHR ''-'')), Then (Many True (Class is_space)) (char_ci (CHR ''|'')), char_ci (CHR '':''), AtEnd]]"

definition extract_role_title :: "string option \<Rightarrow> string \<Rightarrow> string" where
  "extract_role_title detected_role subject =
     option_or (detected detected_role)
       (case regex_exec role_regex subject of
          Some m \<Rightarrow> (case truthy (group 1 m) of Some t \<Rightarrow> trim t | None \<Rightarrow> ''Unknown Role'')
        | None \<Rightarrow> ''Unknown Role'')"

subsection \<open>Details\<close>

text \<open>The first pattern that matches gives its group, or the whole match where it has none.\<close>

fun first_pattern :: "regex list \<Rightarrow> string \<Rightarrow> string option" where
  "first_pattern [] s = None"
| "first_pattern (r # rs) s = (case regex_exec r s of
     None \<Rightarrow> first_pattern rs s
   | Some m \<Rightarrow> (case truthy (group 1 m) of
       Some t \<Rightarrow> Some (capitalize_words (trim t))
     | None \<Rightarrow> (if mr_text m \<noteq> [] then Some (capitalize_words (trim (mr_text m))) else first_pattern rs s)))"

definition department_patterns :: "regex list" where
  "department_patterns =
     [seq [text_ci ''for the'', spaces, Group 1 (Then letter_or_space (Many True letter_or_space)), spaces, text_ci ''team''],
      seq [text_ci ''department'', spaces, Group 1 (one_more False letter_or_space), phrase_end],
      any_of (map text_ci [''engineering'', ''product'', ''design'', ''sales'', ''marketing'', ''hr'', ''operations'', ''finance'', ''legal'', ''people''])]"

definition extract_department :: "string \<Rightarrow> string \<Rightarrow> string \<Rightarrow> string" where
  "extract_department raw_text role_title subject =
     option_or (first_pattern department_patterns (subject @ '' '' @ truncate_text raw_text))
       (if str_includes role_title ''Engineer'' then ''Engineering'' else ''General'')"

definition location_patterns :: "regex list" where
  "location_patterns = seq [text_ci ''in'', spaces, Group 1 (one_more False letter_or_space), phrase_end]
     # map text_ci [''remote'', ''hybrid'', ''on-site'']"

definition extract_location :: "string \<Rightarrow> string \<Rightarrow> string" where
  "extract_location raw_text subject = option_or (first_pattern location_patterns (subject @ '' '' @ truncate_text raw_text)) ''Remote''"

definition dash_or_space :: regex where
  "dash_or_space = Class (\<lambda>c. c = CHR ''-'' \<or> c = CHR '' '')"

definition extract_employment_type :: "string \<Rightarrow> string \<Rightarrow> string" where
  "extract_employment_type raw_text subject =
     (let t = subject @ '' '' @ truncate_text raw_text
      in if regex_test (seq [text_ci ''full'', dash_or_space, text_ci ''time'']) t then ''Full-time''
         else if regex_test (seq [text_ci ''part'', dash_or_space, text_ci ''time'']) t then ''Part-time''
         else if regex_test (text_ci ''contract'') t then ''Contract''
         else ''Full-time'')"

definition deadline_regex :: regex where
  "deadline_regex = seq [any_of [text_ci ''by'', text_ci ''before''], spaces,
     Group 1 (Then (one_more True (Class (\<lambda>c. is_letter c \<or> is_digit c \<or> c = CHR '','' \<or> is_space c)))
       (any_of [exactly 4 digit, seq [digit, optional digit, spaces, letters, spaces, exactly 4 digit]]))]"

definition extract_deadlines :: "string \<Rightarrow> string list" where
  "extract_deadlines raw_text = map trim (regex_match_all deadline_regex (truncate_text raw_text))"

definition extract_interview_rounds :: "string \<Rightarrow> job_email_category \<Rightarrow> nat" where
  "extract_interview_rounds raw_text category =
     (let t = truncate_text raw_text
      in case (case regex_exec (seq [text_ci ''round'', spaces, Group 1 (one_more True digit)]) t of
            None \<Rightarrow> None | Some m \<Rightarrow> truthy (group 1 m)) of
         Some ds \<Rightarrow> digits_value ds
       | None \<Rightarrow> if regex_test (any_of [seq [text_ci ''second'', spaces, text_ci ''round''], seq [text_ci ''round'', spaces, text_ci ''2'']]) t then 2
           else if category = INTERVIEW_INVITATION then 1 else 0)"

definition applied_date_regex :: regex where
  "applied_date_regex = Group 1 (Or
     (seq [exactly 4 digit, char_ci (CHR ''-''), exactly 2 digit, char_ci (CHR ''-''), exactly 2 digit])
     (seq [digit, optional digit, spaces, letters, spaces, exactly 4 digit]))"

definition extract_applied_date :: "(string \<Rightarrow> time option) \<Rightarrow> time \<Rightarrow> string \<Rightarrow> time option \<Rightarrow> time" where
  "extract_applied_date parse_date now raw_text fallback =
     (case (case regex_exec applied_date_regex (truncate_text raw_text) of
          None \<Rightarrow> None | Some m \<Rightarrow> (case truthy (group 1 m) of None \<Rightarrow> None | Some t \<Rightarrow> parse_date t)) of
        Some d \<Rightarrow> d | None \<Rightarrow> option_or fallback now)"

subsection \<open>The recruiter\<close>

definition extract_email_from_text :: "string \<Rightarrow> string option" where
  "extract_email_from_text raw_text =
     map_option mr_text (regex_exec (seq [one_more True (Class is_local_char), Class (\<lambda>c. c = CHR ''@''), domain_regex]) (truncate_text raw_text))"

definition extract_email_from_sender :: "string \<Rightarrow> string option" where
  "extract_email_from_sender sender = (if str_includes sender ''@'' then Some sender else None)"

definition extract_name_from_text :: "string \<Rightarrow> string \<Rightarrow> string option" where
  "extract_name_from_text raw_text sender =
     (case (case regex_exec (seq [text_ci ''hi'', spaces, Group 1 (Then letters (optional (Then spaces letters)))]) (truncate_text raw_text) of
          None \<Rightarrow> None | Some m \<Rightarrow> truthy (group 1 m)) of
        Some t \<Rightarrow> Some (capitalize_words (trim t))
      | None \<Rightarrow> map_option format_domain_label (extract_domain sender))"

definition GENERIC_ALIASES :: "string list" where
  "GENERIC_ALIASES = [''recruiting'', ''recruiter'', ''hr'', ''talent'', ''noreply'', ''jobs'', ''careers'', ''hello'']"

definition infer_recruiter_email :: "string option \<Rightarrow> string option \<Rightarrow> string \<Rightarrow> string option" where
  "infer_recruiter_email name explicit_email sender =
     (let specific = (case truthy explicit_email of None \<Rightarrow> False
            | Some e \<Rightarrow> to_lower (hd (split_on (CHR ''@'') e)) \<notin> set GENERIC_ALIASES)
      in if specific then explicit_email
         else case truthy name of
           None \<Rightarrow> explicit_email
         | Some n \<Rightarrow> (case extract_domain sender of
             None \<Rightarrow> explicit_email
           | Some d \<Rightarrow> (let first = to_lower (takeWhile (\<lambda>c. \<not> is_space c) (trim n))
               in if first = [] then explicit_email else Some (first @ ''@'' @ d))))"

definition extract_recruiter :: "classifiable_email \<Rightarrow> string \<times> string" where
  "extract_recruiter email =
     (let body = option_or (em_body_text email) [];
          sender_email = or_else (extract_email_from_text body) (extract_email_from_sender (em_sender email));
          sender_name = extract_name_from_text body (option_or sender_email (em_sender email));
          inferred = infer_recruiter_email sender_name sender_email (em_sender email)
      in (option_or sender_name ''Recruiter'', option_or inferred ''unknown@unknown.com''))"

subsection \<open>The extractor\<close>

fun extracted_status :: "job_email_category \<Rightarrow> app_status" where
  "extracted_status JOB_APPLICATION = APPLIED"
| "extracted_status INTERVIEW_INVITATION = INTERVIEW"
| "extracted_status ASSESSMENT_TEST = ASSESSMENT"
| "extracted_status OFFER_EMAIL = OFFER"
| "extracted_status REJECTION_EMAIL = REJECTED"
| "extracted_status RECRUITER_OUTREACH = SAVED"
| "extracted_status NETWORKING = SAVED"
| "extracted_status CAREER_NEWSLETTER = SAVED"
| "extracted_status NOT_JOB_RELATED = SAVED"

definition extract_current_stage :: "app_status \<Rightarrow> job_email_category \<Rightarrow> string" where
  "extract_current_stage status category =
     (if status = INTERVIEW then ''Interview'' else if status = ASSESSMENT then ''Assessment''
      else if category = REJECTION_EMAIL then ''Rejected'' else ''Applied'')"

definition extract_application :: "(string \<Rightarrow> time option) \<Rightarrow> time \<Rightarrow> classifiable_email \<Rightarrow> uid \<Rightarrow> job_email_classification \<Rightarrow> extracted_data" where
  "extract_application parse_date now email user cl =
     (let body = option_or (em_body_text email) [];
          name = extract_company_name (cl_detected_company cl) (em_sender email);
          title = extract_role_title (cl_detected_role cl) (em_subject email);
          status = extracted_status (cl_category cl)
      in \<lparr>xd_id = build_id user name title, xd_user_id = user, xd_company_name = name,
          xd_company_domain = extract_company_domain name (em_sender email), xd_role_title = title,
          xd_department = extract_department body title (em_subject email), xd_status = status,
          xd_applied_date = extract_applied_date parse_date now body (em_received_at email),
          xd_recruiter_name = fst (extract_recruiter email), xd_recruiter_email = snd (extract_recruiter email),
          xd_source_email_id = em_email_id email, xd_location = extract_location body (em_subject email),
          xd_employment_type = extract_employment_type body (em_subject email),
          xd_current_stage = extract_current_stage status (cl_category cl),
          xd_interview_rounds = extract_interview_rounds body (cl_category cl), xd_deadlines = extract_deadlines body\<rparr>)"

subsection \<open>The domain of a sender\<close>

definition domain_text :: "string \<Rightarrow> bool" where
  "domain_text d \<longleftrightarrow> (\<exists>a tld. d = a @ CHR ''.'' # tld \<and> a \<noteq> [] \<and> (\<forall>c\<in>set a. is_domain_char c)
     \<and> 2 \<le> length tld \<and> (\<forall>c\<in>set tld. is_letter c))"

lemma then_match: "st' \<in> set (matches (Then r1 r2) st) \<longleftrightarrow> (\<exists>st1. st1 \<in> set (matches r1 st) \<and> st' \<in> set (matches r2 st1))"
  by (simp add: Bex_def)

text \<open>What the pattern of a domain consumes.\<close>

lemma domain_regex_match:
  "(\<exists>q. (q, [], caps') \<in> set (matches domain_regex (p, s, caps))) \<longleftrightarrow> domain_text s \<and> caps' = caps"
proof
  assume "\<exists>q. (q, [], caps') \<in> set (matches domain_regex (p, s, caps))"
  then obtain q st1 st2 st3 u v c d where
    "class_end is_domain_char (p, s, caps) u st1" "u \<noteq> []" "class_end (\<lambda>c. c = CHR ''.'') st1 [c] st2"
    "class_end is_letter st2 [d] st3" "class_end is_letter st3 v (q, [], caps')" "v \<noteq> []"
    unfolding domain_regex_def then_match one_more_class class_match by blast
  then have "s = u @ CHR ''.'' # d # v" "caps' = caps" "\<forall>c\<in>set u. is_domain_char c" "\<forall>c\<in>set (d # v). is_letter c" "u \<noteq> []" "v \<noteq> []"
    by (auto simp: class_end_def)
  then show "domain_text s \<and> caps' = caps" unfolding domain_text_def
    by (intro conjI exI [of _ u] exI [of _ "d # v"]) (auto simp: Suc_le_eq)
next
  assume "domain_text s \<and> caps' = caps"
  then obtain a tld where s: "s = a @ CHR ''.'' # tld" "a \<noteq> []" "\<forall>c\<in>set a. is_domain_char c" "2 \<le> length tld" "\<forall>c\<in>set tld. is_letter c"
    and caps: "caps' = caps" by (auto simp: domain_text_def)
  then obtain d v where tld: "tld = d # v" "v \<noteq> []" by (cases tld) (auto simp: Suc_le_eq)
  define st1 where "st1 = (Some (last a), CHR ''.'' # tld, caps)"
  define st2 where "st2 = (Some (CHR ''.''), tld, caps)"
  define st3 where "st3 = (Some d, v, caps)"
  have "class_end is_domain_char (p, s, caps) a st1" "class_end (\<lambda>c. c = CHR ''.'') st1 [CHR ''.''] st2"
    "class_end is_letter st2 [d] st3" "class_end is_letter st3 v (Some (last v), [], caps)"
    using s tld by (auto simp: class_end_def st1_def st2_def st3_def)
  then have "(Some (last v), [], caps) \<in> set (matches domain_regex (p, s, caps))"
    unfolding domain_regex_def then_match one_more_class class_match using s(2) tld(2) by blast
  then show "\<exists>q. (q, [], caps') \<in> set (matches domain_regex (p, s, caps))" using caps by blast
qed

lemma domain_text_no_at: "domain_text d \<Longrightarrow> CHR ''@'' \<notin> set d"
proof -
  have "\<not> is_domain_char (CHR ''@'')" "\<not> is_letter (CHR ''@'')" by code_simp+
  then show "domain_text d \<Longrightarrow> CHR ''@'' \<notin> set d" by (auto simp: domain_text_def)
qed

text \<open>The pattern at one position: an at sign and then the whole rest.\<close>

lemma at_domain_match:
  "st' \<in> set (matches sender_regex (p, s, [])) \<Longrightarrow>
     \<exists>d. s = CHR ''@'' # d \<and> domain_text d \<and> fst (snd st') = [] \<and> snd (snd st') = [(1, d)]"
proof -
  assume "st' \<in> set (matches sender_regex (p, s, []))"
  then obtain c st1 st2 where st: "class_end (\<lambda>c. c = CHR ''@'') (p, s, []) [c] st1" "st2 \<in> set (matches (Group 1 domain_regex) st1)"
    "st' \<in> set (matches AtEnd st2)"
    unfolding sender_regex_def then_match class_match by blast
  then have s: "s = CHR ''@'' # fst (snd st1)" "snd (snd st1) = []" by (auto simp: class_end_def)
  from st(3) have e: "st' = st2" "fst (snd st2) = []" by (auto split: if_splits)
  from st(2) obtain q t caps where m: "(q, t, caps) \<in> set (matches domain_regex st1)"
    "st2 = (q, t, (1, take (rest_length st1 - length t) (fst (snd st1))) # caps)" by auto
  obtain p1 s1 c1 where st1: "st1 = (p1, s1, c1)" by (metis prod_cases3)
  have "domain_text (fst (snd st1)) \<and> caps = []"
    using m e(2) s(2) domain_regex_match [of caps p1 s1 c1] by (auto simp: st1)
  moreover have "rest_length st1 = length (fst (snd st1))" by (cases st1) simp
  ultimately show ?thesis using s m e by auto
qed

lemma at_domain_match_ex:
  assumes "domain_text d"
  shows "matches sender_regex (p, CHR ''@'' # d, []) \<noteq> []"
proof -
  from assms obtain q where q: "(q, [], []) \<in> set (matches domain_regex (Some (CHR ''@''), d, []))"
    using domain_regex_match [of "[]" "Some (CHR ''@'')" d "[]"] by blast
  have "class_end (\<lambda>c. c = CHR ''@'') (p, CHR ''@'' # d, []) [CHR ''@''] (Some (CHR ''@''), d, [])" by (simp add: class_end_def)
  moreover have "(q, [], [(1, d)]) \<in> set (matches (Group 1 domain_regex) (Some (CHR ''@''), d, []))"
    using q by (force intro: image_eqI [of _ _ "(q, [], [])"])
  moreover have "(q, [], [(1, d)]) \<in> set (matches AtEnd (q, [], [(1, d)]))" by simp
  ultimately have "(q, [], [(1, d)]) \<in> set (matches sender_regex (p, CHR ''@'' # d, []))"
    unfolding sender_regex_def then_match class_match by blast
  then show ?thesis by (metis empty_iff empty_set)
qed

lemma exec_at_domain:
  "map_option (group 1) (exec_from sender_regex p s) = Some (Some d)
     \<longleftrightarrow> domain_text d \<and> (\<exists>u. s = u @ CHR ''@'' # d)"
proof (induction s arbitrary: p)
  case Nil
  then show ?case
    using at_domain_match [of _ p "[]"] by (subst exec_from_here) (fastforce split: list.split)
next
  case (Cons c s)
  show ?case
  proof (cases "matches sender_regex (p, c # s, [])")
    case (Cons st sts)
    then have "st \<in> set (matches sender_regex (p, c # s, []))" by simp
    from at_domain_match [OF this] have st: "c = CHR ''@''" "domain_text s" "snd (snd st) = [(1, s)]" by auto
    have "map_option (group 1) (exec_from sender_regex p (c # s)) = Some (Some s)"
      by (subst exec_from_here) (simp add: Cons group_def st(3) del: matches.simps)
    moreover have "(\<exists>u. c # s = u @ CHR ''@'' # d) \<longleftrightarrow> d = s" 
      using domain_text_no_at [OF st(2)] st(1) by (auto simp: Cons_eq_append_conv)
    ultimately show ?thesis using st(2) by auto
  next
    case Nil
    have "exec_from sender_regex p (c # s) = exec_from sender_regex (Some c) s"
      by (subst exec_from_here) (simp add: Nil del: matches.simps)
    moreover have "\<not> (c # s = CHR ''@'' # d \<and> domain_text d)" using Nil at_domain_match_ex by metis
    ultimately show ?thesis using Cons.IH [of "Some c"] by (auto simp: Cons_eq_append_conv)
  qed
qed

lemma extract_domain_iff: "extract_domain sender = Some d \<longleftrightarrow> domain_text d \<and> (\<exists>u. sender = u @ ''@'' @ d)"
  using exec_at_domain [of None sender d]
  by (auto simp: extract_domain_def regex_exec_def split: option.splits)

text \<open>
  C31: the domain of a sender is what follows its last at sign, exactly where that is a domain name
  (labels of letters, digits, dots and dashes, a dot, two or more letters) up to the end of the text.
\<close>

theorem extract_domain_exact: "extract_domain sender = Some d \<longleftrightarrow> domain_text d \<and> (\<exists>u. sender = u @ ''@'' @ d)"
  by (rule extract_domain_iff)

text \<open>So a sender with a display name, as mail programs write it, has no domain.\<close>

lemma display_name_no_domain: "extract_domain (name @ ''<'' @ address @ ''>'') = None"
proof -
  have "\<not> (domain_text d \<and> (\<exists>u. name @ ''<'' @ address @ ''>'' = u @ ''@'' @ d))" for d
  proof
    assume d: "domain_text d \<and> (\<exists>u. name @ ''<'' @ address @ ''>'' = u @ ''@'' @ d)"
    then have "d \<noteq> []" "is_letter (last d)" by (auto simp: domain_text_def split: if_splits)
    moreover have "last (name @ ''<'' @ address @ ''>'') = last d" using d \<open>d \<noteq> []\<close> by (metis append_is_Nil_conv last_appendR)
    moreover have "\<not> is_letter (CHR ''>'')" by code_simp
    ultimately show False by simp
  qed
  then show ?thesis by (metis extract_domain_iff not_Some_eq)
qed

end
