(* ===== verification/Application_Merge.thy ===== *)
theory Application_Merge
  imports Applications Job_Extractor
begin

text \<open>
  The merge decision (\<open>ApplicationMergeService\<close> of
  \<open>services/application-merge/application-merge.service.ts\<close>): whether an email belongs to an
  application the user already has. Confidences are whole numbers; the number of days in a
  reason is the exact quotient rounded to one decimal.
\<close>

record merge_decision =
  md_target :: "job_application option"
  md_confidence_score :: int
  md_reasons :: "string list"

record confidence_result =
  cr_confidence :: int
  cr_reasons :: "string list"

definition DAY_MS :: int where
  "DAY_MS = 86400000"

definition days_fixed :: "int \<Rightarrow> string" where
  "days_fixed ms = (let tenths = (20 * ms + DAY_MS) div (2 * DAY_MS) in show_int (tenths div 10) @ ''.'' @ show_int (tenths mod 10))"

text \<open>A nullable text lowered and compared, or searched in.\<close>

definition lower_opt :: "string option \<Rightarrow> string option" where
  "lower_opt s = map_option to_lower s"

definition same_role :: "job_application \<Rightarrow> extracted_data \<Rightarrow> bool" where
  "same_role a x = (lower_opt (ja_role_title a) = Some (to_lower (xd_role_title x)))"

definition role_is_substring :: "job_application \<Rightarrow> extracted_data \<Rightarrow> bool" where
  "role_is_substring a x =
     ((case lower_opt (ja_role_title a) of None \<Rightarrow> False | Some r \<Rightarrow> str_includes r (to_lower (xd_role_title x)))
      \<or> str_includes (to_lower (xd_role_title x)) (option_or (lower_opt (ja_role_title a)) []))"

text \<open>\<open>existing.atsApplicationId !== atsApplicationId\<close>: null is not undefined.\<close>

definition same_ats :: "job_application \<Rightarrow> string option \<Rightarrow> bool" where
  "same_ats a ats = (ja_ats_application_id a \<noteq> None \<and> ja_ats_application_id a = ats)"

text \<open>The signals that count, with their weights.\<close>

definition role_signals :: "job_application \<Rightarrow> extracted_data \<Rightarrow> string option \<Rightarrow> string option \<Rightarrow> (int \<times> string) list" where
  "role_signals a x candidate_email ats =
     (if truthy ats \<noteq> None \<and> ja_ats_application_id a = ats then [(100, ''+100: Exact ATS Application ID match'')]
      else (if same_role a x then [(50, ''+50: Exact role match'')]
            else if role_is_substring a x then [(30, ''+30: Role fuzzy match'')] else [])
        @ (if truthy candidate_email \<noteq> None \<and> ja_candidate_email a = candidate_email
           then [(20, ''+20: Candidate email match'')] else []))"

definition other_signals :: "job_application \<Rightarrow> extracted_data \<Rightarrow> classifiable_email \<Rightarrow> (int \<times> string) list" where
  "other_signals a x email =
     (case truthy (em_thread_id email) of None \<Rightarrow> []
        | Some t \<Rightarrow> if t \<in> set (ja_thread_ids a) then [(30, ''+30: Thread ID match'')] else [])
     @ (if xd_recruiter_email x \<noteq> [] \<and> ja_recruiter_email a = Some (xd_recruiter_email x)
        then [(20, ''+20: Recruiter email match'')] else [])
     @ (let diff = \<bar>option_or (ja_applied_date a) 0 - xd_applied_date x\<bar>
        in if diff \<le> 14 * DAY_MS then [(15, ''+15: Close application date ('' @ days_fixed diff @ '' days apart)'')] else [])"

definition calculate_confidence ::
  "job_application \<Rightarrow> extracted_data \<Rightarrow> classifiable_email \<Rightarrow> string option \<Rightarrow> string option \<Rightarrow> string option \<Rightarrow> confidence_result" where
  "calculate_confidence a x email candidate_email ats opportunity_id =
     (if truthy opportunity_id \<noteq> None \<and> ja_opportunity_id a = opportunity_id
      then \<lparr>cr_confidence = 100, cr_reasons = [''+100: Exact canonical opportunity_id match'']\<rparr>
      else if ja_company_domain a \<noteq> Some (xd_company_domain x) \<and> lower_opt (ja_company_name a) \<noteq> Some (to_lower (xd_company_name x))
      then \<lparr>cr_confidence = 0, cr_reasons = [''Strict Reject: Different companies'']\<rparr>
      else if \<not> same_role a x \<and> \<not> role_is_substring a x \<and> \<not> same_ats a ats
      then \<lparr>cr_confidence = 0, cr_reasons = [''Strict Reject: Different roles without ATS ID override'']\<rparr>
      else (let signals = role_signals a x candidate_email ats @ other_signals a x email
        in \<lparr>cr_confidence = min (sum_list (map fst signals)) 100, cr_reasons = map snd signals\<rparr>))"

definition merge_where :: "uid \<Rightarrow> extracted_data \<Rightarrow> string option \<Rightarrow> string option \<Rightarrow> job_application \<Rightarrow> bool" where
  "merge_where user x ats opportunity_id a =
     (owned_application user a \<and> ja_status a \<notin> {''REJECTED'', ''WITHDRAWN''}
      \<and> (if truthy opportunity_id \<noteq> None then ja_opportunity_id a = opportunity_id
         else if truthy ats \<noteq> None then ja_ats_application_id a = ats
         else if xd_company_domain x \<noteq> [] then ja_company_domain a = Some (xd_company_domain x)
         else True))"

definition merge_candidates :: "uid \<Rightarrow> extracted_data \<Rightarrow> string option \<Rightarrow> string option \<Rightarrow> job_application list \<Rightarrow> job_application list" where
  "merge_candidates user x ats opportunity_id apps =
     take 50 (sort_key (\<lambda>a. - ja_last_activity_at a) (find_many (merge_where user x ats opportunity_id) apps))"

text \<open>The loop over the candidates; the highest confidence starts at -1.\<close>

definition better_match :: "(job_application \<Rightarrow> confidence_result) \<Rightarrow> merge_decision \<Rightarrow> job_application \<Rightarrow> merge_decision" where
  "better_match conf best a =
     (if cr_confidence (conf a) > md_confidence_score best \<or> md_confidence_score best = -1
      then \<lparr>md_target = Some a, md_confidence_score = cr_confidence (conf a), md_reasons = cr_reasons (conf a)\<rparr>
      else best)"

definition best_match :: "(job_application \<Rightarrow> confidence_result) \<Rightarrow> job_application list \<Rightarrow> merge_decision" where
  "best_match conf candidates = foldl (better_match conf) \<lparr>md_target = None, md_confidence_score = -1, md_reasons = []\<rparr> candidates"

definition find_match :: "uid \<Rightarrow> extracted_data \<Rightarrow> classifiable_email \<Rightarrow> string option \<Rightarrow> string option \<Rightarrow> string option
    \<Rightarrow> job_application list \<Rightarrow> merge_decision" where
  "find_match user x email candidate_email ats opportunity_id apps =
     (let best = best_match (\<lambda>a. calculate_confidence a x email candidate_email ats opportunity_id)
            (merge_candidates user x ats opportunity_id apps);
          highest = (if md_confidence_score best = -1 then 0 else md_confidence_score best)
      in if highest \<ge> 80 \<and> md_target best \<noteq> None then best\<lparr>md_confidence_score := highest\<rparr>
         else \<lparr>md_target = None, md_confidence_score = highest, md_reasons = md_reasons best\<rparr>)"

subsection \<open>The decision\<close>

lemma signals_nonneg: "\<forall>p\<in>set (role_signals a x ce ats @ other_signals a x e). 0 \<le> fst p"
proof -
  have "list_all (\<lambda>p. 0 \<le> fst p) (role_signals a x ce ats @ other_signals a x e)"
    by (simp add: role_signals_def other_signals_def Let_def split: option.split)
  then show ?thesis by (simp only: list_all_iff)
qed

lemma confidence_range: "0 \<le> cr_confidence (calculate_confidence a x e ce ats oid) \<and> cr_confidence (calculate_confidence a x e ce ats oid) \<le> 100"
proof -
  have sum: "(\<forall>p\<in>set xs. 0 \<le> fst p) \<Longrightarrow> 0 \<le> sum_list (map fst xs)" for xs :: "(int \<times> string) list"
    by (induction xs) auto
  have "0 \<le> sum_list (map fst (role_signals a x ce ats @ other_signals a x e))" by (rule sum [OF signals_nonneg])
  then show ?thesis unfolding calculate_confidence_def Let_def by simp
qed

text \<open>The loop keeps the first of the candidates with the highest confidence.\<close>

definition first_best :: "(job_application \<Rightarrow> int) \<Rightarrow> job_application \<Rightarrow> job_application list \<Rightarrow> bool" where
  "first_best v a xs \<longleftrightarrow> (\<exists>ys zs. xs = ys @ a # zs \<and> (\<forall>y\<in>set ys. v y < v a) \<and> (\<forall>z\<in>set zs. v z \<le> v a))"

lemma best_match_spec:
  assumes "\<And>a. 0 \<le> cr_confidence (conf a)" and "xs \<noteq> []"
  shows "\<exists>a. best_match conf xs = \<lparr>md_target = Some a, md_confidence_score = cr_confidence (conf a), md_reasons = cr_reasons (conf a)\<rparr>
    \<and> first_best (\<lambda>a. cr_confidence (conf a)) a xs"
  using assms(2)
proof (induction xs rule: rev_induct)
  case (snoc x xs)
  show ?case
  proof (cases "xs = []")
    case True
    have "first_best (\<lambda>a. cr_confidence (conf a)) x [x]" unfolding first_best_def by (intro exI [of _ "[]"]) simp
    with True show ?thesis by (intro exI [of _ x]) (simp add: best_match_def better_match_def)
  next
    case False
    then obtain a where a: "best_match conf xs = \<lparr>md_target = Some a, md_confidence_score = cr_confidence (conf a), md_reasons = cr_reasons (conf a)\<rparr>"
      "first_best (\<lambda>a. cr_confidence (conf a)) a xs" using snoc.IH by blast
    then obtain ys zs where xs: "xs = ys @ a # zs" "\<forall>y\<in>set ys. cr_confidence (conf y) < cr_confidence (conf a)"
      "\<forall>z\<in>set zs. cr_confidence (conf z) \<le> cr_confidence (conf a)" by (auto simp: first_best_def)
    have step: "best_match conf (xs @ [x]) = better_match conf (best_match conf xs) x" by (simp add: best_match_def)
    show ?thesis
    proof (cases "cr_confidence (conf x) > cr_confidence (conf a)")
      case True
      then have "first_best (\<lambda>a. cr_confidence (conf a)) x (xs @ [x])"
        unfolding first_best_def using xs by (intro exI [of _ xs] exI [of _ "[]"]) auto
      then show ?thesis using True by (intro exI [of _ x]) (simp add: step a(1) better_match_def)
    next
      case False
      then have "first_best (\<lambda>a. cr_confidence (conf a)) a (xs @ [x])"
        unfolding first_best_def using xs by (intro exI [of _ ys] exI [of _ "zs @ [x]"]) auto
      moreover have "cr_confidence (conf a) \<noteq> -1" using assms(1) [of a] by simp
      ultimately show ?thesis using False by (intro exI [of _ a]) (simp add: step a(1) better_match_def)
    qed
  qed
qed simp

text \<open>
  C24: an email is merged into the first of the candidates (the user's applications that are not
  closed, of the opportunity, the tracking id or the domain given, the 50 most recently active ones)
  with the highest confidence, if that is at least 80; otherwise into none. Confidences are between
  0 and 100.
\<close>

theorem merge_target_best:
  "case md_target (find_match user x e ce ats oid apps) of
     None \<Rightarrow> md_confidence_score (find_match user x e ce ats oid apps) \<in> {0..79}
       \<and> (\<nexists>a. a \<in> set (merge_candidates user x ats oid apps) \<and> 80 \<le> cr_confidence (calculate_confidence a x e ce ats oid))
   | Some a \<Rightarrow> first_best (\<lambda>a. cr_confidence (calculate_confidence a x e ce ats oid)) a (merge_candidates user x ats oid apps)
       \<and> md_confidence_score (find_match user x e ce ats oid apps) = cr_confidence (calculate_confidence a x e ce ats oid)
       \<and> md_confidence_score (find_match user x e ce ats oid apps) \<in> {80..100}"
proof (cases "merge_candidates user x ats oid apps = []")
  case True
  then show ?thesis by (simp add: find_match_def best_match_def)
next
  case False
  let ?conf = "\<lambda>a. calculate_confidence a x e ce ats oid"
  from best_match_spec [of ?conf, OF _ False] confidence_range
  obtain a where a: "best_match ?conf (merge_candidates user x ats oid apps)
      = \<lparr>md_target = Some a, md_confidence_score = cr_confidence (?conf a), md_reasons = cr_reasons (?conf a)\<rparr>"
    "first_best (\<lambda>a. cr_confidence (?conf a)) a (merge_candidates user x ats oid apps)" by blast
  have m: "find_match user x e ce ats oid apps = (if 80 \<le> cr_confidence (?conf a) 
      then \<lparr>md_target = Some a, md_confidence_score = cr_confidence (?conf a), md_reasons = cr_reasons (?conf a)\<rparr>
      else \<lparr>md_target = None, md_confidence_score = cr_confidence (?conf a), md_reasons = cr_reasons (?conf a)\<rparr>)"
    using confidence_range [of a x e ce ats oid] by (simp add: find_match_def a(1) Let_def)
  have top: "cr_confidence (?conf b) \<le> cr_confidence (?conf a)" if "b \<in> set (merge_candidates user x ats oid apps)" for b
    using a(2) that by (force simp: first_best_def)
  show ?thesis
  proof (cases "80 \<le> cr_confidence (?conf a)")
    case True
    then show ?thesis using a(2) confidence_range [of a x e ce ats oid] by (simp add: m)
  next
    case False
    then show ?thesis using top confidence_range [of a x e ce ats oid] by (force simp: m)
  qed
qed

text \<open>
  With an opportunity every candidate scores 100, so the application chosen is the most recently
  active one of the opportunity that is the user's and not closed.
\<close>

lemma merge_by_opportunity:
  assumes "oid \<noteq> []"
  shows "md_target (find_match user x e ce ats (Some oid) apps) =
    first_by (\<lambda>a. - ja_last_activity_at a)
      (\<lambda>a. owned_application user a \<and> ja_status a \<notin> {''REJECTED'', ''WITHDRAWN''} \<and> ja_opportunity_id a = Some oid) apps"
proof -
  have tr: "truthy (Some oid) \<noteq> None" using assms by (cases oid) (auto simp: truthy_def)
  then have w: "merge_where user x ats (Some oid) =
      (\<lambda>a. owned_application user a \<and> ja_status a \<notin> {''REJECTED'', ''WITHDRAWN''} \<and> ja_opportunity_id a = Some oid)"
    unfolding merge_where_def by simp
  let ?C = "merge_candidates user x ats (Some oid) apps"
  have all: "cr_confidence (calculate_confidence a x e ce ats (Some oid)) = 100" if "a \<in> set ?C" for a
  proof -
    from that have "a \<in> set (find_many (merge_where user x ats (Some oid)) apps)"
      unfolding merge_candidates_def by (auto dest: in_set_takeD)
    then have "ja_opportunity_id a = Some oid" unfolding find_many_def w by simp
    then show ?thesis using tr by (simp add: calculate_confidence_def)
  qed
  have f: "first_by (\<lambda>a. - ja_last_activity_at a) (merge_where user x ats (Some oid)) apps = (case ?C of [] \<Rightarrow> None | a # _ \<Rightarrow> Some a)"
    unfolding merge_candidates_def first_by_def find_many_def by (cases "sort_key (\<lambda>a. - ja_last_activity_at a) (filter (merge_where user x ats (Some oid)) apps)") simp_all
  show ?thesis
  proof (cases ?C)
    case Nil
    then show ?thesis using f unfolding w by (simp add: find_match_def best_match_def)
  next
    case (Cons c cs)
    then have ne: "?C \<noteq> []" by simp
    from best_match_spec [of "\<lambda>a. calculate_confidence a x e ce ats (Some oid)", OF _ ne] confidence_range
    obtain a where a: "best_match (\<lambda>a. calculate_confidence a x e ce ats (Some oid)) ?C
        = \<lparr>md_target = Some a, md_confidence_score = cr_confidence (calculate_confidence a x e ce ats (Some oid)),
           md_reasons = cr_reasons (calculate_confidence a x e ce ats (Some oid))\<rparr>"
      "first_best (\<lambda>a. cr_confidence (calculate_confidence a x e ce ats (Some oid))) a ?C" by blast
    from a(2) obtain ys zs where ys: "?C = ys @ a # zs"
      "\<forall>y\<in>set ys. cr_confidence (calculate_confidence y x e ce ats (Some oid)) < cr_confidence (calculate_confidence a x e ce ats (Some oid))"
      by (auto simp: first_best_def)
    then have "ys = []" using all by (cases ys) force+
    then have "a = c" using ys(1) Cons by simp
    moreover have "cr_confidence (calculate_confidence a x e ce ats (Some oid)) = 100" using all ys(1) by simp
    ultimately show ?thesis using a(1) f Cons unfolding w by (simp add: find_match_def Let_def)
  qed
qed

end
