(* ===== verification/Application_Timeline.thy ===== *)
theory Application_Timeline
  imports Status_Engine Ownership
begin

text \<open>
  The timeline of an application (\<open>ApplicationTimelineService\<close> of
  \<open>services/application-timeline/application-timeline.service.ts\<close>) and the list and detail queries of
  \<open>services/application-query/application-query.service.ts\<close> that read it. The events of a status change
  are in \<open>Status_Engine\<close>.
\<close>

subsection \<open>Events of an email\<close>

definition build_search_text :: "classifiable_email \<Rightarrow> string" where
  "build_search_text email =
     (let text_body = trim (option_or (em_body_text email) []); html_body = trim (option_or (em_body_html email) []);
          body = (if text_body \<noteq> [] then text_body else html_body)
      in to_lower (em_subject email @ [CHR 0x0A] @ body))"

definition has_any :: "string \<Rightarrow> string list \<Rightarrow> bool" where
  "has_any text patterns = list_ex (\<lambda>p. str_includes text (to_lower p)) patterns"

definition resolve_email_event_type :: "classifiable_email \<Rightarrow> job_email_category \<Rightarrow> timeline_event_type option" where
  "resolve_email_event_type email category =
     (let t = build_search_text email
      in case category of
           JOB_APPLICATION \<Rightarrow> Some (if has_any t [''received'', ''confirmed'', ''thank you for applying'', ''application confirmation'']
             then EV_APPLICATION_CONFIRMED else EV_APPLICATION_SUBMITTED)
         | RECRUITER_OUTREACH \<Rightarrow> Some EV_RECRUITER_CONTACT
         | ASSESSMENT_TEST \<Rightarrow> Some (if has_any t [''completed'', ''completion'', ''submitted'', ''finished'', ''passed'']
             then EV_ASSESSMENT_COMPLETED else EV_ASSESSMENT)
         | INTERVIEW_INVITATION \<Rightarrow>
             Some (if has_any t [''final interview'', ''final round'', ''onsite'', ''on-site'', ''panel'', ''loop''] then EV_FINAL_INTERVIEW
               else if has_any t [''phone screen'', ''phone interview'', ''screening call'', ''screening''] then EV_PHONE_SCREEN
               else EV_INTERVIEW)
         | OFFER_EMAIL \<Rightarrow> Some EV_OFFER
         | REJECTION_EMAIL \<Rightarrow> Some EV_REJECTION
         | _ \<Rightarrow> None)"

definition describe_email_event :: "timeline_event_type \<Rightarrow> string \<Rightarrow> string" where
  "describe_email_event ev subject =
     map (\<lambda>c. if c = CHR ''_'' then CHR '' '' else c) (show_event_type ev) @ '' from '' @ (if subject = [] then ''Unknown Subject'' else subject)"

definition email_event_metadata :: "classifiable_email \<Rightarrow> job_email_classification \<Rightarrow> (string \<times> json) list \<Rightarrow> json" where
  "email_event_metadata email cl metadata = JObj (metadata @
     [(''sourceEmailId'', JStr (em_email_id email)), (''sender'', JStr (em_sender email)), (''subject'', JStr (em_subject email)),
      (''threadId'', jopt (em_thread_id email)),
      (''classification'', JObj [(''category'', JStr (show_category (cl_category cl))), (''confidence'', JNum (cl_confidence cl)),
        (''detectedCompany'', jopt (cl_detected_company cl)), (''detectedRole'', jopt (cl_detected_role cl))]),
      (''matchedText'', JStr (take 500 (build_search_text email)))])"

definition build_email_timeline_event :: "time \<Rightarrow> uid \<Rightarrow> classifiable_email \<Rightarrow> job_email_classification \<Rightarrow> (string \<times> json) list
    \<Rightarrow> timeline_input option" where
  "build_email_timeline_event now app email cl metadata =
     (case resolve_email_event_type email (cl_category cl) of
        None \<Rightarrow> None
      | Some ev \<Rightarrow> Some \<lparr>ti_application_id = app, ti_event_type = ev, ti_timestamp = option_or (em_received_at email) now,
          ti_source_email_id = Some (em_email_id email), ti_metadata = Some (email_event_metadata email cl metadata),
          ti_description = Some (describe_email_event ev (em_subject email))\<rparr>)"

subsection \<open>Operations\<close>

definition create_timeline_event :: "time \<Rightarrow> uid \<Rightarrow> timeline_input \<Rightarrow> uid option \<Rightarrow> app_db \<Rightarrow> (timeline_event, app_db) outcome" where
  "create_timeline_event now fresh i user db =
     (case (case truthy user of None \<Rightarrow> Inr () | Some u \<Rightarrow> map_result (\<lambda>_. ()) (ensure_application_access u (ti_application_id i) db)) of
        Inl e \<Rightarrow> (Inl e, db)
      | Inr _ \<Rightarrow>
          if find_row (\<lambda>a. ja_id a = ti_application_id i) (db_applications db) = None then (Inl (PrismaError ''P2003''), db)
          else (Inr (timeline_row now fresh i), db\<lparr>db_timeline := db_timeline db @ [timeline_row now fresh i]\<rparr>))"

text \<open>An event of an application of the user: with a user id the lookup goes through the application's user id.\<close>

definition timeline_event_of :: "uid option \<Rightarrow> uid \<Rightarrow> app_db \<Rightarrow> timeline_event option" where
  "timeline_event_of user i db = find_row (\<lambda>e. te_id e = i \<and> (case truthy user of None \<Rightarrow> True
     | Some u \<Rightarrow> \<exists>a\<in>set (db_applications db). ja_id a = te_application_id e \<and> ja_user_id a = u)) (db_timeline db)"

definition get_timeline_event :: "uid \<Rightarrow> uid option \<Rightarrow> app_db \<Rightarrow> error + timeline_event" where
  "get_timeline_event i user db =
     (case timeline_event_of user i db of None \<Rightarrow> Inl (NotFoundError ''Timeline event'' i) | Some e \<Rightarrow> Inr e)"

text \<open>A field left undefined (\<open>None\<close>) keeps its value; null (\<open>Some None\<close>) is stored, as the JSON null in the metadata.\<close>

record timeline_patch =
  tp_event_type :: "timeline_event_type option"
  tp_timestamp :: "time option"
  tp_source_email_id :: "uid option option"
  tp_metadata :: "json option option"
  tp_description :: "string option option"

definition patched_event :: "timeline_patch \<Rightarrow> timeline_event \<Rightarrow> timeline_event" where
  "patched_event p e = e\<lparr>te_event_type := option_or (tp_event_type p) (te_event_type e),
     te_timestamp := option_or (tp_timestamp p) (te_timestamp e), te_occurred_at := option_or (tp_timestamp p) (te_occurred_at e),
     te_source_email_id := option_or (tp_source_email_id p) (te_source_email_id e),
     te_metadata := (case tp_metadata p of None \<Rightarrow> te_metadata e | Some m \<Rightarrow> option_or m JNull),
     te_description := option_or (tp_description p) (te_description e)\<rparr>"

definition patch_timeline_event :: "uid \<Rightarrow> timeline_patch \<Rightarrow> uid option \<Rightarrow> app_db \<Rightarrow> (timeline_event, app_db) outcome" where
  "patch_timeline_event i p user db =
     (case timeline_event_of user i db of
        None \<Rightarrow> (Inl (NotFoundError ''Timeline event'' i), db)
      | Some e \<Rightarrow> (Inr (patched_event p e), db\<lparr>db_timeline := update_many (\<lambda>r. te_id r = i) (patched_event p) (db_timeline db)\<rparr>))"

text \<open>The page is cut in the order of the database and then sorted with the id as the last key.\<close>

definition list_timeline :: "uid \<Rightarrow> uid option \<Rightarrow> pagination_input option \<Rightarrow> app_db \<Rightarrow> error + timeline_event list" where
  "list_timeline app user pagination db =
     (case (case truthy user of None \<Rightarrow> Inr () | Some u \<Rightarrow> map_result (\<lambda>_. ()) (ensure_application_access u app db)) of
        Inl e \<Rightarrow> Inl e
      | Inr _ \<Rightarrow> Inr (sort_key (\<lambda>e. (te_timestamp e, te_created_at e, te_id e))
          (paged (resolve_pagination pagination)
            (sort_key (\<lambda>e. (te_timestamp e, te_created_at e)) (find_many (\<lambda>e. te_application_id e = app) (db_timeline db))))))"

text \<open>\<open>updateTimelineEvent\<close> of the command service: the ownership guard, which also accepts the legacy id, and then the patch.\<close>

definition update_timeline_event :: "uid \<Rightarrow> uid \<Rightarrow> timeline_patch \<Rightarrow> app_db \<Rightarrow> (timeline_event, app_db) outcome" where
  "update_timeline_event user i p db =
     (case ensure_timeline_access user i db of
        Inl e \<Rightarrow> (Inl e, db)
      | Inr _ \<Rightarrow> patch_timeline_event i p (Some user) db)"

subsection \<open>Lists of applications\<close>

record list_filters =
  lf_status :: "string option"
  lf_company :: "string option"
  lf_role :: "string option"
  lf_date :: "(time \<times> time) option"

text \<open>
  \<open>lf_date\<close> is the day of the date asked for, from its first to its last millisecond in the time
  zone of the server, where it parses. \<open>contains\<close> in insensitive mode is on ASCII.
\<close>

definition text_contains :: "string option \<Rightarrow> string \<Rightarrow> bool" where
  "text_contains column part = (case column of None \<Rightarrow> False | Some s \<Rightarrow> str_includes (to_lower s) (to_lower part))"

definition list_where :: "uid \<Rightarrow> list_filters \<Rightarrow> job_application \<Rightarrow> bool" where
  "list_where user f a =
     (owned_application user a
      \<and> (case truthy (lf_status f) of None \<Rightarrow> True | Some s \<Rightarrow> ja_status a = to_upper s)
      \<and> (case truthy (lf_company f) of None \<Rightarrow> True | Some s \<Rightarrow> text_contains (ja_company_name a) s)
      \<and> (case truthy (lf_role f) of None \<Rightarrow> True | Some s \<Rightarrow> text_contains (ja_role_title a) s)
      \<and> (case lf_date f of None \<Rightarrow> True
         | Some (start, until) \<Rightarrow> (case ja_applied_date a of None \<Rightarrow> False | Some d \<Rightarrow> start \<le> d \<and> d < until)))"

text \<open>Postgres puts rows without a date first in a descending order. A status that the enum does not have throws.\<close>

definition list_applications :: "uid \<Rightarrow> list_filters \<Rightarrow> pagination_input option \<Rightarrow> app_db \<Rightarrow> error + job_application list" where
  "list_applications user f pagination db =
     (if (case truthy (lf_status f) of None \<Rightarrow> False | Some s \<Rightarrow> \<not> is_application_status (to_upper s))
      then Inl (GenericError ''Invalid value for argument `status`. Expected ApplicationStatus.'')
      else Inr (paged (resolve_pagination pagination)
        (sort_key (\<lambda>a. case ja_applied_date a of None \<Rightarrow> (0 :: int, 0) | Some d \<Rightarrow> (1, - d)) (find_many (list_where user f) (db_applications db)))))"

definition application_status_history :: "uid \<Rightarrow> uid \<Rightarrow> pagination_input option \<Rightarrow> app_db \<Rightarrow> error + status_history_record list" where
  "application_status_history user app pagination db =
     (case ensure_application_access user app db of
        Inl e \<Rightarrow> Inl e
      | Inr _ \<Rightarrow> get_status_history app (Some user) pagination db)"

subsection \<open>Properties\<close>



text \<open>A user known by a legacy id passes the guard but cannot change an event.\<close>

lemma legacy_owner_cannot_update:
  assumes "db_applications db = [a]" and "ja_legacy_user_id a = Some user" and "ja_user_id a \<noteq> user" and "user \<noteq> []"
    and "db_timeline db = [e]" and "te_application_id e = ja_id a"
  shows "(\<exists>v. ensure_timeline_access user (te_id e) db = Inr v)
    \<and> update_timeline_event user (te_id e) p db = (Inl (NotFoundError ''Timeline event'' (te_id e)), db)"
proof -
  have tr: "truthy (Some user) = Some user" using assms(4) by (cases user) (simp_all add: truthy_def)
  show ?thesis using assms
    by (simp add: ensure_timeline_access_def event_owned_def owned_application_def user_ownership_filter_def update_timeline_event_def
        patch_timeline_event_def timeline_event_of_def tr)
qed

text \<open>Without pages a timeline lists every event of the application once, by time, creation and id.\<close>

lemma list_timeline_all:
  assumes "list_timeline app user None db = Inr es"
  shows "mset es = mset (find_many (\<lambda>e. te_application_id e = app) (db_timeline db))
    \<and> sorted (map (\<lambda>e. (te_timestamp e, te_created_at e, te_id e)) es)"
  using assms by (auto simp: list_timeline_def resolve_pagination_def paged_def split: sum.splits)

end
