(* ===== verification/Outcomes.thy ===== *)
theory Outcomes
  imports Applications
begin

text \<open>
  Outcome and action events: \<open>OutcomeService\<close> of \<open>services/outcome.service.ts\<close> and
  \<open>ActionService\<close> of \<open>services/action.service.ts\<close>.
  The rows an event refers to exist, except where a lookup is shown; the caches of the analytics
  service are not modelled.
\<close>

record outcome_event =
  oc_id :: uid
  oc_application_id :: uid
  oc_user_id :: uid
  oc_outcome_type :: string
  oc_outcome_category :: string
  oc_outcome_status :: string
  oc_explicit :: bool
  oc_source_type :: string
  oc_source_id :: "string option"
  oc_source_data :: "json option"
  oc_evidence :: "string option"
  oc_confidence :: rat
  oc_occurred_at :: time
  oc_resulting_status :: "string option"
  oc_is_current :: bool

record action_event =
  ae_id :: uid
  ae_user_id :: uid
  ae_application_id :: "uid option"
  ae_opportunity_id :: "uid option"
  ae_action_type :: string
  ae_action_subtype :: "string option"
  ae_strategy_tags :: "string list"
  ae_context :: "json option"
  ae_source_type :: string
  ae_source_id :: "string option"
  ae_occurred_at :: time
  ae_notes :: "string option"
  ae_confidence :: "rat option"
  ae_created_at :: time

record events_db =
  vd_applications :: "job_application list"
  vd_outcomes :: "outcome_event list"
  vd_actions :: "action_event list"

subsection \<open>Outcomes\<close>

record outcome_input =
  oi_application_id :: uid
  oi_user_id :: uid
  oi_outcome_type :: string
  oi_source_type :: string
  oi_source_id :: "string option"
  oi_source_data :: "json option"
  oi_evidence :: "string option"
  oi_confidence :: "rat option"
  oi_occurred_at :: time

definition OUTCOME_TYPE_TO_CATEGORY :: "(string \<times> string) list" where
  "OUTCOME_TYPE_TO_CATEGORY =
     [(''APPLICATION_SUBMITTED'', ''NEUTRAL''), (''APPLICATION_SENT'', ''NEUTRAL''), (''SCREENING'', ''NEUTRAL''),
      (''RECRUITER_CONTACT'', ''NEUTRAL''), (''ASSESSMENT'', ''NEUTRAL''), (''INTERVIEW_SCHEDULED'', ''NEUTRAL''),
      (''INTERVIEW_COMPLETED'', ''NEUTRAL''), (''OFFER_RECEIVED'', ''POSITIVE''), (''OFFER_ACCEPTED'', ''POSITIVE''),
      (''OFFER_DECLINED'', ''NEGATIVE''), (''REJECTION_RECEIVED'', ''NEGATIVE''), (''WITHDRAWN'', ''NEGATIVE''), (''NO_RESPONSE'', ''NEGATIVE'')]"

definition TERMINAL_OUTCOMES :: "string list" where
  "TERMINAL_OUTCOMES = [''OFFER_ACCEPTED'', ''OFFER_DECLINED'', ''REJECTION_RECEIVED'', ''WITHDRAWN'']"

definition OUTCOME_TYPE_TO_STATUS :: "(string \<times> string) list" where
  "OUTCOME_TYPE_TO_STATUS =
     [(''APPLICATION_SUBMITTED'', ''Applied''), (''APPLICATION_SENT'', ''Applied''), (''SCREENING'', ''Screening''),
      (''RECRUITER_CONTACT'', ''Recruiter Contact''), (''ASSESSMENT'', ''Assessment''), (''INTERVIEW_SCHEDULED'', ''Interviewing''),
      (''INTERVIEW_COMPLETED'', ''Interviewing''), (''OFFER_RECEIVED'', ''Offer''), (''OFFER_ACCEPTED'', ''Accepted''),
      (''OFFER_DECLINED'', ''Declined''), (''REJECTION_RECEIVED'', ''Rejected''), (''WITHDRAWN'', ''Withdrawn''), (''NO_RESPONSE'', ''No Response'')]"

definition outcome_category :: "string \<Rightarrow> string" where
  "outcome_category t = option_or (map_of OUTCOME_TYPE_TO_CATEGORY t) ''NEUTRAL''"

definition resulting_status :: "string \<Rightarrow> string" where
  "resulting_status t = option_or (map_of OUTCOME_TYPE_TO_STATUS t) ''Unknown''"

definition outcome_status :: "string \<Rightarrow> string" where
  "outcome_status source = (if source = ''EMAIL'' then ''EXPLICIT'' else if source = ''MANUAL'' then ''USER_REPORTED'' else ''INFERRED'')"

definition new_outcome :: "uid \<Rightarrow> outcome_input \<Rightarrow> outcome_event" where
  "new_outcome fresh x =
     (let explicit = (oi_source_type x = ''EMAIL'' \<or> oi_source_type x = ''MANUAL'')
      in \<lparr>oc_id = fresh, oc_application_id = oi_application_id x, oc_user_id = oi_user_id x, oc_outcome_type = oi_outcome_type x,
          oc_outcome_category = outcome_category (oi_outcome_type x), oc_outcome_status = outcome_status (oi_source_type x),
          oc_explicit = explicit, oc_source_type = oi_source_type x, oc_source_id = oi_source_id x, oc_source_data = oi_source_data x,
          oc_evidence = oi_evidence x, oc_confidence = option_or (oi_confidence x) (if explicit then 95 / 100 else 1 / 2),
          oc_occurred_at = oi_occurred_at x, oc_resulting_status = Some (resulting_status (oi_outcome_type x)), oc_is_current = True\<rparr>)"

text \<open>
  The column \<open>status\<close> of an application is the enum of the schema: the database client refuses a
  write of any other text.
\<close>

definition set_application_status :: "time \<Rightarrow> uid \<Rightarrow> string \<Rightarrow> job_application list \<Rightarrow> error + job_application list" where
  "set_application_status now i status apps =
     (if \<not> is_application_status status then Inl (GenericError ''Invalid value for argument `status`. Expected ApplicationStatus.'')
      else if find_row (\<lambda>a. ja_id a = i) apps = None then Inl (PrismaError ''P2025'')
      else Inr (update_many (\<lambda>a. ja_id a = i) (\<lambda>a. a\<lparr>ja_status := status, ja_updated_at := now\<rparr>) apps))"

definition record_outcome_tx :: "time \<Rightarrow> uid \<Rightarrow> outcome_input \<Rightarrow> events_db \<Rightarrow> (outcome_event, events_db) outcome" where
  "record_outcome_tx now fresh x db =
     (if find_row (\<lambda>a. ja_id a = oi_application_id x) (vd_applications db) = None then (Inl (PrismaError ''P2003''), db)
      else
        let event = new_outcome fresh x;
            db1 = db\<lparr>vd_outcomes := vd_outcomes db @ [event]\<rparr>;
            last_outcome = first_by (\<lambda>e. - oc_occurred_at e)
              (\<lambda>e. oc_application_id e = oi_application_id x \<and> oc_is_current e \<and> oc_id e \<noteq> fresh) (vd_outcomes db1);
            update = (case last_outcome of None \<Rightarrow> True | Some l \<Rightarrow> oc_occurred_at event > oc_occurred_at l)
              \<or> oi_outcome_type x \<in> set TERMINAL_OUTCOMES
        in if update then (case set_application_status now (oi_application_id x) (resulting_status (oi_outcome_type x)) (vd_applications db1) of
               Inl e \<Rightarrow> (Inl e, db1) | Inr apps \<Rightarrow> (Inr event, db1\<lparr>vd_applications := apps\<rparr>))
           else (Inr event, db1))"

definition record_outcome :: "time \<Rightarrow> uid \<Rightarrow> outcome_input \<Rightarrow> events_db \<Rightarrow> (outcome_event, events_db) outcome" where
  "record_outcome now fresh x = transaction (record_outcome_tx now fresh x)"

definition outcome_timeline :: "uid \<Rightarrow> events_db \<Rightarrow> outcome_event list" where
  "outcome_timeline i db = sort_key oc_occurred_at (find_many (\<lambda>e. oc_application_id e = i \<and> oc_is_current e) (vd_outcomes db))"

definition current_outcome :: "uid \<Rightarrow> events_db \<Rightarrow> outcome_event option" where
  "current_outcome i db = first_by (\<lambda>e. - oc_occurred_at e) (\<lambda>e. oc_application_id e = i \<and> oc_is_current e) (vd_outcomes db)"

definition recent_outcomes :: "(outcome_event \<Rightarrow> bool) \<Rightarrow> events_db \<Rightarrow> outcome_event list" where
  "recent_outcomes P db = sort_key (\<lambda>e. - oc_occurred_at e) (find_many (\<lambda>e. P e \<and> oc_is_current e) (vd_outcomes db))"

definition outcomes_by_type_and_range :: "uid \<Rightarrow> string list \<Rightarrow> time \<Rightarrow> time \<Rightarrow> events_db \<Rightarrow> outcome_event list" where
  "outcomes_by_type_and_range user types a b db =
     recent_outcomes (\<lambda>e. oc_user_id e = user \<and> oc_outcome_type e \<in> set types \<and> a \<le> oc_occurred_at e \<and> oc_occurred_at e \<le> b) db"

definition user_outcomes :: "uid \<Rightarrow> nat \<Rightarrow> events_db \<Rightarrow> outcome_event list" where
  "user_outcomes user limit db = take limit (recent_outcomes (\<lambda>e. oc_user_id e = user) db)"

definition outcomes_by_category :: "uid \<Rightarrow> string \<Rightarrow> nat \<Rightarrow> events_db \<Rightarrow> outcome_event list" where
  "outcomes_by_category user category limit db = take limit (recent_outcomes (\<lambda>e. oc_user_id e = user \<and> oc_outcome_category e = category) db)"

definition terminal_outcomes :: "uid \<Rightarrow> nat \<Rightarrow> events_db \<Rightarrow> outcome_event list" where
  "terminal_outcomes user limit db = outcomes_by_category user ''TERMINAL'' limit db"

text \<open>The counts, in the order in which the types are first seen.\<close>

fun add_count :: "string \<Rightarrow> (string \<times> nat) list \<Rightarrow> (string \<times> nat) list" where
  "add_count k [] = [(k, 1)]"
| "add_count k ((j, n) # rest) = (if j = k then (j, n + 1) # rest else (j, n) # add_count k rest)"

definition count_by_type :: "string list \<Rightarrow> (string \<times> nat) list" where
  "count_by_type ts = foldl (\<lambda>m t. add_count t m) [] ts"

definition count_outcomes_by_type :: "uid \<Rightarrow> events_db \<Rightarrow> (string \<times> nat) list" where
  "count_outcomes_by_type user db = count_by_type (map oc_outcome_type (find_many (\<lambda>e. oc_user_id e = user \<and> oc_is_current e) (vd_outcomes db)))"

subsection \<open>Actions\<close>

record action_input =
  ai_user_id :: uid
  ai_action_type :: string
  ai_application_id :: "uid option"
  ai_opportunity_id :: "uid option"
  ai_action_subtype :: "string option"
  ai_strategy_tags :: "string list option"
  ai_context :: "json option"
  ai_source_type :: "string option"
  ai_source_id :: "string option"
  ai_occurred_at :: "time option"
  ai_notes :: "string option"
  ai_confidence :: "rat option"

definition KNOWN_SOURCE_TYPES :: "string list" where
  "KNOWN_SOURCE_TYPES = [''USER_ACTION'', ''SYSTEM_TRACKED'', ''IMPORTED'']"

definition resume_version_tag :: "int \<Rightarrow> string" where
  "resume_version_tag v = ''resume_v'' @ show_int v"

text \<open>\<open>replace(/\s+/g, '_')\<close>.\<close>

fun underscores :: "bool \<Rightarrow> string \<Rightarrow> string" where
  "underscores b [] = []"
| "underscores b (c # s) = (if \<not> is_space c then c # underscores False s
     else if b then underscores True s else CHR ''_'' # underscores True s)"

definition applied_via_tag :: "string \<Rightarrow> string" where
  "applied_via_tag channel = ''applied_via_'' @ underscores False (to_lower channel)"

definition record_action :: "time \<Rightarrow> uid \<Rightarrow> action_input \<Rightarrow> events_db \<Rightarrow> (action_event, events_db) outcome" where
  "record_action now fresh x db =
     (if ai_user_id x = [] then (Inl (TypeError ''ActionService.recordAction: userId is required''), db)
      else if ai_action_type x = [] then (Inl (TypeError ''ActionService.recordAction: actionType is required''), db)
      else
        let source = to_upper (option_or (ai_source_type x) ''USER_ACTION'')
        in if source \<notin> set KNOWN_SOURCE_TYPES
           then (Inl (TypeError (''ActionService.recordAction: invalid sourceType \"'' @ option_or (ai_source_type x) []
             @ ''\". Valid values: '' @ join_on '', '' KNOWN_SOURCE_TYPES)), db)
           else (let event = \<lparr>ae_id = fresh, ae_user_id = ai_user_id x, ae_application_id = ai_application_id x,
                   ae_opportunity_id = ai_opportunity_id x, ae_action_type = to_upper (ai_action_type x), ae_action_subtype = ai_action_subtype x,
                   ae_strategy_tags = option_or (ai_strategy_tags x) [], ae_context = ai_context x, ae_source_type = source,
                   ae_source_id = ai_source_id x, ae_occurred_at = option_or (ai_occurred_at x) now, ae_notes = ai_notes x,
                   ae_confidence = ai_confidence x, ae_created_at = now\<rparr>
             in (Inr event, db\<lparr>vd_actions := vd_actions db @ [event]\<rparr>)))"

record action_filters =
  af_action_type :: "string option"
  af_application_id :: "string option"
  af_opportunity_id :: "string option"
  af_start_date :: "time option"
  af_end_date :: "time option"

definition filter_allows :: "'a option \<Rightarrow> ('a \<Rightarrow> bool) \<Rightarrow> bool" where
  "filter_allows f P = (case f of None \<Rightarrow> True | Some v \<Rightarrow> P v)"

definition latest_actions :: "(action_event \<Rightarrow> bool) \<Rightarrow> events_db \<Rightarrow> action_event list" where
  "latest_actions P db = sort_key (\<lambda>e. (- ae_occurred_at e, - ae_created_at e)) (find_many P (vd_actions db))"

definition earliest_actions :: "(action_event \<Rightarrow> bool) \<Rightarrow> events_db \<Rightarrow> action_event list" where
  "earliest_actions P db = sort_key (\<lambda>e. (ae_occurred_at e, ae_created_at e)) (find_many P (vd_actions db))"

definition get_user_actions :: "uid \<Rightarrow> action_filters \<Rightarrow> events_db \<Rightarrow> error + action_event list" where
  "get_user_actions user f db =
     (if user = [] then Inl (TypeError ''ActionService.getUserActions: userId is required'')
      else Inr (latest_actions (\<lambda>e. ae_user_id e = user
        \<and> filter_allows (truthy (af_action_type f)) (\<lambda>t. ae_action_type e = to_upper t)
        \<and> filter_allows (truthy (af_application_id f)) (\<lambda>i. ae_application_id e = Some i)
        \<and> filter_allows (truthy (af_opportunity_id f)) (\<lambda>i. ae_opportunity_id e = Some i)
        \<and> filter_allows (af_start_date f) (\<lambda>t. t \<le> ae_occurred_at e)
        \<and> filter_allows (af_end_date f) (\<lambda>t. ae_occurred_at e \<le> t)) db))"

definition get_application_actions :: "uid \<Rightarrow> events_db \<Rightarrow> error + action_event list" where
  "get_application_actions i db = (if i = [] then Inl (TypeError ''ActionService.getApplicationActions: applicationId is required'')
     else Inr (earliest_actions (\<lambda>e. ae_application_id e = Some i) db))"

definition get_actions_by_tag :: "uid \<Rightarrow> string \<Rightarrow> events_db \<Rightarrow> error + action_event list" where
  "get_actions_by_tag user tag db =
     (if user = [] then Inl (TypeError ''ActionService.getActionsByTag: userId is required'')
      else if tag = [] then Inl (TypeError ''ActionService.getActionsByTag: tag is required'')
      else Inr (latest_actions (\<lambda>e. ae_user_id e = user \<and> tag \<in> set (ae_strategy_tags e)) db))"

definition get_opportunity_actions :: "uid \<Rightarrow> events_db \<Rightarrow> error + action_event list" where
  "get_opportunity_actions i db = (if i = [] then Inl (TypeError ''ActionService.getOpportunityActions: opportunityId is required'')
     else Inr (earliest_actions (\<lambda>e. ae_opportunity_id e = Some i) db))"

definition add_strategy_tag :: "uid \<Rightarrow> string \<Rightarrow> events_db \<Rightarrow> (action_event option, events_db) outcome" where
  "add_strategy_tag i tag db =
     (if i = [] then (Inl (TypeError ''addStrategyTag: actionEventId required''), db)
      else if tag = [] then (Inl (TypeError ''addStrategyTag: tag required''), db)
      else case find_row (\<lambda>e. ae_id e = i) (vd_actions db) of
        None \<Rightarrow> (Inl (GenericError (''ActionEvent not found: '' @ i)), db)
      | Some e \<Rightarrow> if tag \<in> set (ae_strategy_tags e) then (Inr (Some e), db)
          else (let push = (\<lambda>e. e\<lparr>ae_strategy_tags := ae_strategy_tags e @ [tag]\<rparr>)
            in (Inr (Some (push e)), db\<lparr>vd_actions := update_many (\<lambda>e. ae_id e = i) push (vd_actions db)\<rparr>)))"

definition count_actions_by_type :: "uid \<Rightarrow> events_db \<Rightarrow> error + (string \<times> nat) list" where
  "count_actions_by_type user db = (if user = [] then Inl (TypeError ''countActionsByType: userId required'')
     else Inr (count_by_type (map ae_action_type (find_many (\<lambda>e. ae_user_id e = user) (vd_actions db)))))"

subsection \<open>What can be recorded\<close>

text \<open>No outcome type maps to a status of the enum.\<close>

lemma resulting_status_invalid [simp]: "\<not> is_application_status (resulting_status t)"
proof -
  have "list_all (\<lambda>(_, s). \<not> is_application_status s) OUTCOME_TYPE_TO_STATUS" "\<not> is_application_status ''Unknown''" by code_simp+
  then show ?thesis unfolding resulting_status_def
    by (cases "map_of OUTCOME_TYPE_TO_STATUS t") (auto simp: list_all_iff dest: map_of_SomeD)
qed

lemma latest_le:
  fixes t :: "'r \<Rightarrow> time"
  shows "(case first_by (\<lambda>e. - t e) P rows of None \<Rightarrow> True | Some l \<Rightarrow> t0 > t l) \<longleftrightarrow> \<not> (\<exists>l\<in>set rows. P l \<and> t0 \<le> t l)"
proof (cases "sort_key (\<lambda>e. - t e) (filter P rows)")
  case Nil
  then have "filter P rows = []" by (metis set_empty set_sort)
  then show ?thesis using Nil by (auto simp: first_by_def filter_empty_conv)
next
  case (Cons l ls)
  have "sorted (map (\<lambda>e. - t e) (l # ls))" unfolding Cons [symmetric] by simp
  moreover have s: "set (l # ls) = {r \<in> set rows. P r}" unfolding Cons [symmetric] by simp
  ultimately have "P l" "l \<in> set rows" "\<forall>r\<in>set rows. P r \<longrightarrow> t r \<le> t l" by auto
  then show ?thesis using Cons by (force simp: first_by_def)
qed

lemma outcome_recorded_cases:
  "((\<exists>ev. fst (record_outcome now fresh x db) = Inr ev) \<longleftrightarrow>
      find_row (\<lambda>a. ja_id a = oi_application_id x) (vd_applications db) \<noteq> None \<and> oi_outcome_type x \<notin> set TERMINAL_OUTCOMES
      \<and> (\<exists>l\<in>set (vd_outcomes db). oc_application_id l = oi_application_id x \<and> oc_is_current l \<and> oc_id l \<noteq> fresh
           \<and> oi_occurred_at x \<le> oc_occurred_at l))
    \<and> vd_applications (snd (record_outcome now fresh x db)) = vd_applications db
    \<and> vd_outcomes (snd (record_outcome now fresh x db)) =
        (case fst (record_outcome now fresh x db) of Inl _ \<Rightarrow> vd_outcomes db | Inr ev \<Rightarrow> vd_outcomes db @ [ev])"
proof -
  have id: "oc_id (new_outcome fresh x) = fresh" "oc_occurred_at (new_outcome fresh x) = oi_occurred_at x" by (simp_all add: new_outcome_def Let_def)
  show ?thesis
    by (simp add: record_outcome_def transaction_def record_outcome_tx_def Let_def latest_le set_application_status_def id) auto
qed

text \<open>
  C9: an outcome of an application can be recorded only if the application exists, the outcome is not
  a terminal one and another current outcome of the application is at least as late; every other
  call throws and leaves the tables as they were. The status that the service writes for a newer or
  terminal outcome is never one of the statuses the column allows.
\<close>

theorem outcome_recorded_iff:
  "((\<exists>ev. fst (record_outcome now fresh x db) = Inr ev) \<longleftrightarrow>
      find_row (\<lambda>a. ja_id a = oi_application_id x) (vd_applications db) \<noteq> None \<and> oi_outcome_type x \<notin> set TERMINAL_OUTCOMES
      \<and> (\<exists>l\<in>set (vd_outcomes db). oc_application_id l = oi_application_id x \<and> oc_is_current l \<and> oc_id l \<noteq> fresh
           \<and> oi_occurred_at x \<le> oc_occurred_at l))
    \<and> vd_applications (snd (record_outcome now fresh x db)) = vd_applications db
    \<and> vd_outcomes (snd (record_outcome now fresh x db)) =
        (case fst (record_outcome now fresh x db) of Inl _ \<Rightarrow> vd_outcomes db | Inr ev \<Rightarrow> vd_outcomes db @ [ev])"
  by (rule outcome_recorded_cases)

text \<open>So no outcome is ever recorded: the table starts empty and every call throws.\<close>

lemma outcomes_stay_empty:
  assumes "vd_outcomes db = []"
  shows "fold (\<lambda>(now, fresh, x) d. snd (record_outcome now fresh x d)) xs db = db"
proof (induction xs)
  case (Cons y xs)
  obtain now fresh x where y: "y = (now, fresh, x)" by (metis prod_cases3)
  have "\<nexists>ev. fst (record_outcome now fresh x db) = Inr ev" using outcome_recorded_cases [of now fresh x db] assms by simp
  then have "throws (record_outcome now fresh x db)" by (auto simp: throws_def split: sum.split)
  then have "snd (record_outcome now fresh x db) = db" unfolding record_outcome_def by (rule transaction_atomic)
  then show ?case using Cons y by simp
qed simp

text \<open>A tag is added once, and adding it again changes nothing.\<close>

lemma add_strategy_tag_idem:
  assumes "add_strategy_tag i tag db = (Inr e, db')"
  shows "\<exists>e'. add_strategy_tag i tag db' = (Inr e', db')"
proof -
  from assms(1) obtain r where r: "find_row (\<lambda>e. ae_id e = i) (vd_actions db) = Some r" "i \<noteq> []" "tag \<noteq> []"
    by (auto simp: add_strategy_tag_def split: if_splits option.splits)
  show ?thesis
  proof (cases "tag \<in> set (ae_strategy_tags r)")
    case True
    then have "add_strategy_tag i tag db = (Inr (Some r), db)" using r by (simp add: add_strategy_tag_def)
    then show ?thesis using assms(1) by auto
  next
    case False
    let ?push = "\<lambda>e. e\<lparr>ae_strategy_tags := ae_strategy_tags e @ [tag]\<rparr>"
    have upd: "find_row (\<lambda>e. ae_id e = i) (update_many (\<lambda>e. ae_id e = i) ?push rows) = map_option ?push (find_row (\<lambda>e. ae_id e = i) rows)"
      for rows :: "action_event list"
      by (induction rows) auto
    have "db' = db\<lparr>vd_actions := update_many (\<lambda>e. ae_id e = i) ?push (vd_actions db)\<rparr>"
      using assms(1) r False by (auto simp: add_strategy_tag_def Let_def)
    then have "find_row (\<lambda>e. ae_id e = i) (vd_actions db') = Some (?push r)" using upd r(1) by simp
    then show ?thesis using r(2,3) by (simp add: add_strategy_tag_def)
  qed
qed

end
