(* ===== verification/Resumes.thy ===== *)
theory Resumes
  imports Outbox Ownership Outcomes
begin

text \<open>
  Resume versions (\<open>ResumeUploadService\<close> of \<open>services/resume/resume-upload.service.ts\<close>) and the file
  checks of \<open>infrastructure/security/utils.ts\<close>. The storage, the digest and the placement lookup
  are arguments; a file is the list of its bytes. An upload reads the latest version before its
  transaction, so the two are separate steps.
\<close>

record resume_hash =
  rh_id :: uid
  rh_hash :: string
  rh_storage_key :: string
  rh_mime_type :: string
  rh_size_bytes :: nat

record user_resume =
  ur_id :: uid
  ur_user_id :: uid
  ur_legacy_user_id :: "string option"
  ur_resume_hash_id :: "uid option"
  ur_filename :: string
  ur_original_name :: "string option"
  ur_storage_key :: string
  ur_content_type :: string
  ur_is_active :: bool
  ur_version :: int
  ur_superseded_at :: "time option"
  ur_scanning_status :: "string option"
  ur_status :: "string option"
  ur_created_at :: time

record application_resume =
  ar_application_id :: uid
  ar_resume_version_id :: uid
  ar_snapshot_key :: string
  ar_snapshot_metadata :: json
  ar_applied_at :: "time option"
  ar_usage_context :: json

record resume_db =
  rs_hashes :: "resume_hash list"
  rs_resumes :: "user_resume list"
  rs_links :: "application_resume list"
  rs_outbox :: outbox_db
  rs_events :: events_db

subsection \<open>Files\<close>

definition PDF :: string where "PDF = ''application/pdf''"
definition DOCX :: string where "DOCX = ''application/vnd.openxmlformats-officedocument.wordprocessingml.document''"
definition DOC :: string where "DOC = ''application/msword''"

record file_signature =
  fs_bytes :: "nat list"
  fs_mime_types :: "string list"

definition FILE_SIGNATURES :: "(string \<times> file_signature) list" where
  "FILE_SIGNATURES =
     [(''pdf'', \<lparr>fs_bytes = [0x25, 0x50, 0x44, 0x46], fs_mime_types = [PDF]\<rparr>),
      (''docx'', \<lparr>fs_bytes = [0x50, 0x4b, 0x03, 0x04], fs_mime_types = [DOCX]\<rparr>),
      (''doc'', \<lparr>fs_bytes = [0xd0, 0xcf, 0x11, 0xe0, 0xa1, 0xb1, 0x1a, 0xe1], fs_mime_types = [DOC]\<rparr>)]"

definition ALLOWED_DOCUMENT_MIME_TYPES :: "string list" where
  "ALLOWED_DOCUMENT_MIME_TYPES = [PDF, DOCX, DOC]"

definition file_extension_for_mime_type :: "string \<Rightarrow> string" where
  "file_extension_for_mime_type mime = option_or (map_of [(PDF, ''.pdf''), (DOCX, ''.docx''), (DOC, ''.doc'')] mime) []"

text \<open>\<open>replace('.', '')\<close> removes the first dot.\<close>

definition assert_file_signature :: "nat list \<Rightarrow> string \<Rightarrow> string \<Rightarrow> error option" where
  "assert_file_signature buffer mime extension =
     (let ext = to_lower (remove1 (CHR ''.'') (if extension = [] then file_extension_for_mime_type mime else extension))
      in case map_of FILE_SIGNATURES ext of
           None \<Rightarrow> None
         | Some sig \<Rightarrow>
             if mime \<notin> set (fs_mime_types sig)
             then Some (GenericError (''File signature for .'' @ ext @ '' does not match declared MIME type '' @ [CHR 0x27] @ mime @ [CHR 0x27]
               @ ''. Possible file type spoofing.''))
             else if take (length (fs_bytes sig)) buffer \<noteq> fs_bytes sig
             then Some (GenericError (''File content does not match '' @ ext @ '' signature. Possible file type spoofing.''))
             else None)"

text \<open>\<open>path.basename\<close> and \<open>path.extname\<close> for the separator \<open>/\<close>.\<close>

definition path_basename :: "string \<Rightarrow> string" where
  "path_basename p = rev (takeWhile (\<lambda>c. c \<noteq> CHR ''/'') (dropWhile (\<lambda>c. c = CHR ''/'') (rev p)))"

definition path_extname :: "string \<Rightarrow> string" where
  "path_extname p =
     (let b = path_basename p; ext = rev (takeWhile (\<lambda>c. c \<noteq> CHR ''.'') (rev b)); stem = length b - length ext
      in if CHR ''.'' \<notin> set b \<or> stem \<le> 1 \<or> b = ''..'' then [] else CHR ''.'' # ext)"

definition sanitize_filename :: "string \<Rightarrow> string" where
  "sanitize_filename filename =
     (let base = path_basename filename
      in if base = [] \<or> base = ''.'' \<or> base = ''..'' then ''unnamed''
         else (let s = map (\<lambda>c. if c \<in> set ''<>:|?*'' \<or> c = CHR 0x22 then CHR ''_'' else c) base
           in if starts_with s ''.'' then ''unnamed'' @ s else s))"

definition as_validation_error :: "error \<Rightarrow> error" where
  "as_validation_error e = (case e of GenericError m \<Rightarrow> ValidationError m | _ \<Rightarrow> e)"

text \<open>\<open>max_bytes\<close> is the limit of the configuration, \<open>max_mb\<close> the text of its value in megabytes.\<close>

definition validate_file :: "nat \<Rightarrow> string \<Rightarrow> nat list \<Rightarrow> string \<Rightarrow> string \<Rightarrow> error option" where
  "validate_file max_bytes max_mb buffer mime filename =
     (if mime \<notin> set ALLOWED_DOCUMENT_MIME_TYPES
      then Some (ValidationError (''Unsupported file type: '' @ mime @ ''. Allowed types: PDF, DOCX, DOC.''))
      else if buffer = [] then Some (ValidationError ''Uploaded file is empty.'')
      else if length buffer > max_bytes then Some (ValidationError (''File exceeds maximum size of '' @ max_mb @ '' MB.''))
      else
        let ext = to_lower (path_extname filename)
        in if ext \<notin> {''.pdf'', ''.docx'', ''.doc''}
           then Some (ValidationError (''Invalid file extension: '' @ ext @ ''. Allowed: .pdf, .docx, .doc''))
           else map_option as_validation_error (assert_file_signature buffer mime ext))"

subsection \<open>Upload\<close>

definition owned_resume :: "uid \<Rightarrow> user_resume \<Rightarrow> bool" where
  "owned_resume user r = user_ownership_filter user None (ur_user_id r, ur_legacy_user_id r)"

record upload_input =
  up_user_id :: uid
  up_file :: "nat list"
  up_filename :: string
  up_mime_type :: string

text \<open>The storage: every call may fail.\<close>

record 'w storage_ops =
  so_upload :: "string \<Rightarrow> string \<Rightarrow> nat list \<Rightarrow> string \<Rightarrow> 'w \<Rightarrow> (unit, 'w) outcome"
  so_delete :: "string \<Rightarrow> string \<Rightarrow> 'w \<Rightarrow> (unit, 'w) outcome"
  so_presigned_url :: "string \<Rightarrow> 'w \<Rightarrow> (string, 'w) outcome"

definition storage_key :: "string \<Rightarrow> string \<Rightarrow> string" where
  "storage_key hash ext = ''uploads/resumes/'' @ hash @ ext"

definition quarantine_key :: "time \<Rightarrow> uid \<Rightarrow> string \<Rightarrow> string \<Rightarrow> string" where
  "quarantine_key now user hash ext = ''uploads/quarantine/resumes/'' @ user @ ''/'' @ hash @ ''-'' @ show_int now @ ext"

text \<open>The record of the content: the one with this hash, or a new one.\<close>

definition hash_record :: "uid \<Rightarrow> string \<Rightarrow> string \<Rightarrow> string \<Rightarrow> nat \<Rightarrow> resume_hash list \<Rightarrow> (uid \<times> bool) \<times> resume_hash list" where
  "hash_record fresh hash key mime bytes rows =
     (case find_row (\<lambda>h. rh_hash h = hash) rows of
        Some h \<Rightarrow> ((rh_id h, True), rows)
      | None \<Rightarrow> ((fresh, False), rows @ [\<lparr>rh_id = fresh, rh_hash = hash, rh_storage_key = key, rh_mime_type = mime, rh_size_bytes = bytes\<rparr>]))"

definition next_version :: "uid \<Rightarrow> user_resume list \<Rightarrow> int" where
  "next_version user rows = (case first_by (\<lambda>r. - ur_version r) (owned_resume user) rows of None \<Rightarrow> 1 | Some r \<Rightarrow> ur_version r + 1)"

text \<open>The transaction: the active versions are superseded and the new one is added, with its event.\<close>

record upload_commit =
  uc_resume_id :: uid
  uc_event_id :: uid
  uc_correlation :: string
  uc_scope_user :: uid
  uc_cell_id :: string
  uc_hash_id :: uid
  uc_hash :: string
  uc_key :: string
  uc_quarantine_key :: string
  uc_bucket :: string
  uc_clean_bucket :: string
  uc_version :: int

definition new_resume :: "time \<Rightarrow> upload_commit \<Rightarrow> upload_input \<Rightarrow> user_resume" where
  "new_resume now c x = \<lparr>ur_id = uc_resume_id c, ur_user_id = uc_scope_user c, ur_legacy_user_id = Some (up_user_id x),
     ur_resume_hash_id = Some (uc_hash_id c), ur_filename = sanitize_filename (up_filename x),
     ur_original_name = Some (sanitize_filename (up_filename x)), ur_storage_key = uc_key c, ur_content_type = up_mime_type x,
     ur_is_active = True, ur_version = uc_version c, ur_superseded_at = None, ur_scanning_status = Some ''pending'',
     ur_status = Some ''pending'', ur_created_at = now\<rparr>"

definition upload_payload :: "upload_commit \<Rightarrow> upload_input \<Rightarrow> json" where
  "upload_payload c x = JObj [(''userId'', JStr (up_user_id x)), (''cellId'', JStr (uc_cell_id c)), (''userResumeId'', JStr (uc_resume_id c)),
     (''quarantineBucket'', JStr (uc_bucket c)), (''quarantineKey'', JStr (uc_quarantine_key c)), (''cleanBucket'', JStr (uc_clean_bucket c)),
     (''cleanKey'', JStr (uc_key c)), (''originalFilename'', JStr (sanitize_filename (up_filename x))), (''mimeType'', JStr (up_mime_type x)),
     (''fileHash'', JStr (uc_hash c))]"

definition commit_upload :: "time \<Rightarrow> upload_commit \<Rightarrow> upload_input \<Rightarrow> resume_db \<Rightarrow> event_object \<times> resume_db" where
  "commit_upload now c x db =
     (case publish_in_transaction now (uc_event_id c) ''RESUME_UPLOADED'' (uc_resume_id c) ''UserResume'' (up_user_id x) (uc_cell_id c)
          (upload_payload c x) (uc_correlation c) (rs_outbox db) of
        (ev, ob) \<Rightarrow> (ev, db\<lparr>rs_resumes := update_many (\<lambda>r. owned_resume (up_user_id x) r \<and> ur_is_active r)
            (\<lambda>r. r\<lparr>ur_is_active := False, ur_superseded_at := Some now\<rparr>) (rs_resumes db) @ [new_resume now c x], rs_outbox := ob\<rparr>))"

record upload_world =
  uw_max_bytes :: nat
  uw_max_mb :: string
  uw_bucket :: "string option"
  uw_sha256 :: "nat list \<Rightarrow> string"
  uw_key_hash :: "string \<Rightarrow> string"
  uw_scope :: "uid \<Rightarrow> uid"
  uw_cell :: "uid \<Rightarrow> error + string"
  uw_db_error :: "error option"
  uw_queue_fails :: "uid \<Rightarrow> error option"

record upload_result =
  us_resume_id :: uid
  us_hash_id :: uid
  us_deduplicated :: bool
  us_version :: int
  us_storage_key :: string
  us_presigned_url :: string

text \<open>The action recorded after the transaction; a failure to record it is only logged.\<close>

definition record_upload_action :: "time \<Rightarrow> uid \<Rightarrow> bool \<Rightarrow> upload_commit \<Rightarrow> upload_input \<Rightarrow> events_db \<Rightarrow> events_db" where
  "record_upload_action now action_id dedup c x evs = snd (record_action now action_id
     \<lparr>ai_user_id = up_user_id x, ai_action_type = ''RESUME_UPDATE'', ai_application_id = None, ai_opportunity_id = None, ai_action_subtype = None,
      ai_strategy_tags = Some [resume_version_tag (uc_version c)],
      ai_context = Some (JObj [(''userResumeId'', JStr (uc_resume_id c)), (''version'', JNum (of_int (uc_version c))),
        (''deduplicated'', JBool dedup), (''scanningStatus'', JStr ''pending'')]),
      ai_source_type = Some ''SYSTEM_TRACKED'', ai_source_id = None, ai_occurred_at = Some now, ai_notes = None, ai_confidence = None\<rparr> evs)"

text \<open>
  \<open>upload\<close>: \<open>uw_db_error\<close> is the error of the transaction, if it fails; the file is then deleted from
  the quarantine. The fast dispatch of the event, the action and the URL come after the transaction,
  so a failure of the URL is reported with the version already committed.
\<close>

definition upload :: "upload_world \<Rightarrow> 'w storage_ops \<Rightarrow> time \<Rightarrow> uid \<times> uid \<times> uid \<times> string \<times> uid \<Rightarrow> upload_input \<Rightarrow> resume_db \<times> 'w
    \<Rightarrow> (upload_result, resume_db \<times> 'w) outcome" where
  "upload W S now fresh x st =
     (case (fresh, st) of ((hash_id, resume_id, event_id, correlation, action_id), (db, w)) \<Rightarrow>
       (case validate_file (uw_max_bytes W) (uw_max_mb W) (up_file x) (up_mime_type x) (up_filename x) of
          Some e \<Rightarrow> (Inl e, st)
        | None \<Rightarrow>
          let hash = uw_sha256 W (up_file x); ext = file_extension_for_mime_type (up_mime_type x);
              quarantine = option_or (truthy (uw_bucket W)) ''resume-quarantine''; clean = option_or (truthy (uw_bucket W)) ''resume-clean'';
              qkey = quarantine_key now (up_user_id x) hash ext; key = storage_key hash ext
          in case so_upload S quarantine qkey (up_file x) (up_mime_type x) w of
               (Inl e, w1) \<Rightarrow> (Inl e, (db, w1))
             | (Inr _, w1) \<Rightarrow>
               (case hash_record hash_id hash key (up_mime_type x) (length (up_file x)) (rs_hashes db) of
                 ((hid, dedup), hashes) \<Rightarrow>
                   (case uw_cell W (uw_scope W (up_user_id x)) of
                      Inl e \<Rightarrow> (Inl e, (db\<lparr>rs_hashes := hashes\<rparr>, w1))
                    | Inr cell \<Rightarrow>
                      let version = next_version (up_user_id x) (rs_resumes db);
                          c = \<lparr>uc_resume_id = resume_id, uc_event_id = event_id, uc_correlation = correlation,
                            uc_scope_user = uw_scope W (up_user_id x), uc_cell_id = cell, uc_hash_id = hid, uc_hash = hash, uc_key = key,
                            uc_quarantine_key = qkey, uc_bucket = quarantine, uc_clean_bucket = clean, uc_version = version\<rparr>
                      in case uw_db_error W of
                           Some e \<Rightarrow> (Inl e, (db\<lparr>rs_hashes := hashes\<rparr>, snd (so_delete S qkey quarantine w1)))
                         | None \<Rightarrow> (case commit_upload now c x (db\<lparr>rs_hashes := hashes\<rparr>) of
                             (ev, db1) \<Rightarrow>
                               (let db2 = db1\<lparr>rs_outbox := publish_from_event (uw_key_hash W) now (uw_queue_fails W) ev (rs_outbox db1),
                                      rs_events := record_upload_action now action_id dedup c x (rs_events db1)\<rparr>
                                in case so_presigned_url S key w1 of
                                     (Inl e, w2) \<Rightarrow> (Inl e, (db2, w2))
                                   | (Inr url, w2) \<Rightarrow> (Inr \<lparr>us_resume_id = resume_id, us_hash_id = hid, us_deduplicated = dedup, us_version = version,
                                       us_storage_key = key, us_presigned_url = url\<rparr>, (db2, w2))))))))"

subsection \<open>Versions\<close>

record active_resume =
  ra_id :: uid
  ra_storage_key :: string
  ra_original_name :: string
  ra_mime_type :: string
  ra_size_bytes :: nat
  ra_hash :: string
  ra_version :: int

definition active_record :: "uid \<Rightarrow> resume_db \<Rightarrow> (user_resume \<times> resume_hash) option" where
  "active_record user db =
     (case first_by (\<lambda>r. - ur_created_at r) (\<lambda>r. owned_resume user r \<and> ur_is_active r) (rs_resumes db) of
        None \<Rightarrow> None
      | Some r \<Rightarrow> (case find_row (\<lambda>h. Some (rh_id h) = ur_resume_hash_id r) (rs_hashes db) of None \<Rightarrow> None | Some h \<Rightarrow> Some (r, h)))"

definition get_active_resume_row :: "uid \<Rightarrow> resume_db \<Rightarrow> active_resume option" where
  "get_active_resume_row user db = map_option (\<lambda>(r, h). \<lparr>ra_id = ur_id r, ra_storage_key = rh_storage_key h,
     ra_original_name = option_or (ur_original_name r) [], ra_mime_type = rh_mime_type h, ra_size_bytes = rh_size_bytes h,
     ra_hash = rh_hash h, ra_version = ur_version r\<rparr>) (active_record user db)"

text \<open>\<open>getActiveResume\<close> adds the URL of the stored file.\<close>

definition get_active_resume :: "'w storage_ops \<Rightarrow> uid \<Rightarrow> resume_db \<Rightarrow> 'w \<Rightarrow> ((user_resume \<times> resume_hash \<times> string) option, 'w) outcome" where
  "get_active_resume S user db w =
     (case active_record user db of
        None \<Rightarrow> (Inr None, w)
      | Some (r, h) \<Rightarrow> (case so_presigned_url S (rh_storage_key h) w of
          (Inl e, w1) \<Rightarrow> (Inl e, w1) | (Inr url, w1) \<Rightarrow> (Inr (Some (r, h, url)), w1)))"

definition link_count :: "uid \<Rightarrow> resume_db \<Rightarrow> nat" where
  "link_count i db = count_rows (\<lambda>l. ar_resume_version_id l = i) (rs_links db)"

definition list_versions :: "uid \<Rightarrow> resume_db \<Rightarrow> (user_resume \<times> resume_hash option \<times> nat) list" where
  "list_versions user db = map (\<lambda>r. (r, find_row (\<lambda>h. Some (rh_id h) = ur_resume_hash_id r) (rs_hashes db), link_count (ur_id r) db))
     (sort_key ur_version (find_many (owned_resume user) (rs_resumes db)))"

definition delete_version :: "uid \<Rightarrow> uid \<Rightarrow> resume_db \<Rightarrow> (unit, resume_db) outcome" where
  "delete_version user i db =
     (case find_row (\<lambda>r. ur_id r = i \<and> owned_resume user r) (rs_resumes db) of
        None \<Rightarrow> (Inr (), db)
      | Some r \<Rightarrow> if link_count (ur_id r) db > 0
          then (Inl (ValidationError (''Cannot delete resume version '' @ show_int (ur_version r) @ '' - it is linked to ''
            @ show_nat (link_count (ur_id r) db) @ '' application(s).'')), db)
          else (Inr (), db\<lparr>rs_resumes := delete_many (\<lambda>s. ur_id s = ur_id r) (rs_resumes db)\<rparr>))"

definition resume_snapshot :: "active_resume \<Rightarrow> json" where
  "resume_snapshot a = JObj [(''originalName'', JStr (ra_original_name a)), (''mimeType'', JStr (ra_mime_type a)),
     (''sizeBytes'', JNum (of_nat (ra_size_bytes a))), (''sha256'', JStr (ra_hash a)), (''version'', JNum (of_int (ra_version a)))]"

definition link_application_resume :: "uid \<Rightarrow> uid \<Rightarrow> active_resume \<Rightarrow> time \<Rightarrow> json \<Rightarrow> app_db \<Rightarrow> application_resume list
    \<Rightarrow> (unit, application_resume list) outcome" where
  "link_application_resume user app a applied_at context apps links =
     (case ensure_application_access user app apps of
        Inl e \<Rightarrow> (Inl e, links)
      | Inr _ \<Rightarrow>
          if find_row (\<lambda>l. ar_application_id l = app \<and> ar_resume_version_id l = ra_id a) links \<noteq> None then (Inr (), links)
          else (Inr (), links @ [\<lparr>ar_application_id = app, ar_resume_version_id = ra_id a, ar_snapshot_key = ra_storage_key a,
            ar_snapshot_metadata = resume_snapshot a, ar_applied_at = Some applied_at, ar_usage_context = context\<rparr>]))"

record linked_resume =
  lr_user_resume_id :: uid
  lr_version :: int
  lr_original_name :: string
  lr_snapshot_key :: string
  lr_applied_at :: time
  lr_usage_context :: json
  lr_size_bytes :: nat

definition get_application_resume :: "uid \<Rightarrow> uid \<Rightarrow> job_application list \<Rightarrow> resume_db \<Rightarrow> linked_resume option" where
  "get_application_resume user app apps db =
     (case find_row (\<lambda>l. ar_application_id l = app \<and> (\<exists>a\<in>set apps. ja_id a = app \<and> owned_application user a)) (rs_links db) of
        None \<Rightarrow> None
      | Some l \<Rightarrow> map_option (\<lambda>r. \<lparr>lr_user_resume_id = ur_id r, lr_version = ur_version r, lr_original_name = option_or (ur_original_name r) [],
          lr_snapshot_key = ar_snapshot_key l, lr_applied_at = option_or (ar_applied_at l) 0, lr_usage_context = ar_usage_context l,
          lr_size_bytes = (case find_row (\<lambda>h. Some (rh_id h) = ur_resume_hash_id r) (rs_hashes db) of None \<Rightarrow> 0 | Some h \<Rightarrow> rh_size_bytes h)\<rparr>)
          (find_row (\<lambda>r. ur_id r = ar_resume_version_id l) (rs_resumes db)))"

subsection \<open>What is accepted\<close>

text \<open>
  C26: a file is accepted exactly if it is not longer than the limit and one of the three formats
  fits it throughout: the extension of its name, the declared type and the first bytes.
\<close>

theorem accepted_file_genuine:
  "validate_file max_bytes max_mb buffer mime filename = None \<longleftrightarrow>
     length buffer \<le> max_bytes \<and> (\<exists>k sig. (k, sig) \<in> set FILE_SIGNATURES \<and> to_lower (path_extname filename) = CHR ''.'' # k
       \<and> mime \<in> set (fs_mime_types sig) \<and> take (length (fs_bytes sig)) buffer = fs_bytes sig)"
proof -
  define ext where "ext = to_lower (path_extname filename)"
  have four: "Suc (Suc (Suc (Suc 0))) = 4" "Suc (Suc (Suc (Suc 4))) = 8" by simp_all
  have in_sigs: "(\<exists>k sig. (k, sig) \<in> set FILE_SIGNATURES \<and> P k sig) \<longleftrightarrow>
      P ''pdf'' \<lparr>fs_bytes = [0x25, 0x50, 0x44, 0x46], fs_mime_types = [PDF]\<rparr>
      \<or> P ''docx'' \<lparr>fs_bytes = [0x50, 0x4b, 0x03, 0x04], fs_mime_types = [DOCX]\<rparr>
      \<or> P ''doc'' \<lparr>fs_bytes = [0xd0, 0xcf, 0x11, 0xe0, 0xa1, 0xb1, 0x1a, 0xe1], fs_mime_types = [DOC]\<rparr>" for P
    unfolding FILE_SIGNATURES_def set_simps insert_iff empty_iff prod.inject by blast
  have sigs: "(\<exists>k sig. (k, sig) \<in> set FILE_SIGNATURES \<and> ext = CHR ''.'' # k \<and> mime \<in> set (fs_mime_types sig)
        \<and> take (length (fs_bytes sig)) buffer = fs_bytes sig) \<longleftrightarrow>
      (ext = ''.pdf'' \<and> mime = PDF \<and> take 4 buffer = [0x25, 0x50, 0x44, 0x46])
      \<or> (ext = ''.docx'' \<and> mime = DOCX \<and> take 4 buffer = [0x50, 0x4b, 0x03, 0x04])
      \<or> (ext = ''.doc'' \<and> mime = DOC \<and> take 8 buffer = [0xd0, 0xcf, 0x11, 0xe0, 0xa1, 0xb1, 0x1a, 0xe1])"
    unfolding in_sigs by (simp add: four)
  have maps: "map_of FILE_SIGNATURES ''pdf'' = Some \<lparr>fs_bytes = [0x25, 0x50, 0x44, 0x46], fs_mime_types = [PDF]\<rparr>"
    "map_of FILE_SIGNATURES ''docx'' = Some \<lparr>fs_bytes = [0x50, 0x4b, 0x03, 0x04], fs_mime_types = [DOCX]\<rparr>"
    "map_of FILE_SIGNATURES ''doc'' = Some \<lparr>fs_bytes = [0xd0, 0xcf, 0x11, 0xe0, 0xa1, 0xb1, 0x1a, 0xe1], fs_mime_types = [DOC]\<rparr>"
    by (simp_all add: FILE_SIGNATURES_def)
  have low: "to_lower ''pdf'' = ''pdf''" "to_lower ''docx'' = ''docx''" "to_lower ''doc'' = ''doc''" by code_simp+
  have sig: "assert_file_signature buffer mime ''.pdf'' = None \<longleftrightarrow> mime = PDF \<and> take 4 buffer = [0x25, 0x50, 0x44, 0x46]"
    "assert_file_signature buffer mime ''.docx'' = None \<longleftrightarrow> mime = DOCX \<and> take 4 buffer = [0x50, 0x4b, 0x03, 0x04]"
    "assert_file_signature buffer mime ''.doc'' = None \<longleftrightarrow> mime = DOC \<and> take 8 buffer = [0xd0, 0xcf, 0x11, 0xe0, 0xa1, 0xb1, 0x1a, 0xe1]"
    for mime by (simp_all add: assert_file_signature_def maps low Let_def four)
  have one: "validate_file max_bytes max_mb buffer mime filename = None \<longleftrightarrow>
      mime \<in> set ALLOWED_DOCUMENT_MIME_TYPES \<and> buffer \<noteq> [] \<and> length buffer \<le> max_bytes \<and> ext \<in> {''.pdf'', ''.docx'', ''.doc''}
      \<and> assert_file_signature buffer mime ext = None"
    unfolding validate_file_def ext_def [symmetric] Let_def by (simp del: insert_iff)
  show ?thesis unfolding one ext_def [symmetric] sigs
  proof
    assume "mime \<in> set ALLOWED_DOCUMENT_MIME_TYPES \<and> buffer \<noteq> [] \<and> length buffer \<le> max_bytes \<and> ext \<in> {''.pdf'', ''.docx'', ''.doc''}
      \<and> assert_file_signature buffer mime ext = None"
    then show "length buffer \<le> max_bytes \<and> ((ext = ''.pdf'' \<and> mime = PDF \<and> take 4 buffer = [0x25, 0x50, 0x44, 0x46])
      \<or> (ext = ''.docx'' \<and> mime = DOCX \<and> take 4 buffer = [0x50, 0x4b, 0x03, 0x04])
      \<or> (ext = ''.doc'' \<and> mime = DOC \<and> take 8 buffer = [0xd0, 0xcf, 0x11, 0xe0, 0xa1, 0xb1, 0x1a, 0xe1]))"
      using sig by blast
  next
    assume r: "length buffer \<le> max_bytes \<and> ((ext = ''.pdf'' \<and> mime = PDF \<and> take 4 buffer = [0x25, 0x50, 0x44, 0x46])
      \<or> (ext = ''.docx'' \<and> mime = DOCX \<and> take 4 buffer = [0x50, 0x4b, 0x03, 0x04])
      \<or> (ext = ''.doc'' \<and> mime = DOC \<and> take 8 buffer = [0xd0, 0xcf, 0x11, 0xe0, 0xa1, 0xb1, 0x1a, 0xe1]))"
    moreover from this have "buffer \<noteq> []" by (cases buffer) simp_all
    moreover have "PDF \<in> set ALLOWED_DOCUMENT_MIME_TYPES" "DOCX \<in> set ALLOWED_DOCUMENT_MIME_TYPES" "DOC \<in> set ALLOWED_DOCUMENT_MIME_TYPES"
      by (simp_all add: ALLOWED_DOCUMENT_MIME_TYPES_def)
    ultimately have known: "mime \<in> set ALLOWED_DOCUMENT_MIME_TYPES" "buffer \<noteq> []"
      by (metis (no_types, lifting))+
    have "ext = ''.pdf'' \<or> ext = ''.docx'' \<or> ext = ''.doc''" using r by (elim conjE disjE) simp_all
    then have ext: "ext \<in> {''.pdf'', ''.docx'', ''.doc''}" unfolding insert_iff empty_iff by (simp only: simp_thms)
    have "assert_file_signature buffer mime ext = None"
      using r by (elim conjE disjE) (simp_all only: sig refl simp_thms)
    then show "mime \<in> set ALLOWED_DOCUMENT_MIME_TYPES \<and> buffer \<noteq> [] \<and> length buffer \<le> max_bytes \<and> ext \<in> {''.pdf'', ''.docx'', ''.doc''}
      \<and> assert_file_signature buffer mime ext = None"
      using r known ext by (simp only: simp_thms)
  qed
qed

subsection \<open>One active version\<close>

lemma next_version_above: "owned_resume user r \<Longrightarrow> r \<in> set rows \<Longrightarrow> ur_version r < next_version user rows"
proof -
  assume r: "owned_resume user r" "r \<in> set rows"
  then obtain l where l: "first_by (\<lambda>r. - ur_version r) (owned_resume user) rows = Some l"
    using first_by_None_iff by (metis not_None_eq)
  then show ?thesis using first_by_least [OF l r(2,1)] by (simp add: next_version_def)
qed

lemma owned_resume_superseded [simp]:
  "owned_resume user (r\<lparr>ur_is_active := b, ur_superseded_at := t\<rparr>) = owned_resume user r"
  by (simp add: owned_resume_def)

text \<open>
  C27: after an upload the uploaded version is the only active one the user owns and its number is
  above those of all the others; the other versions keep their id, owner, number and content, in
  order, and no version of anyone else changes.
\<close>

theorem upload_activates:
  assumes "upload W S now fresh x (db, w) = (Inr res, (db', w'))"
  shows "\<exists>n. filter (\<lambda>r. owned_resume (up_user_id x) r \<and> ur_is_active r) (rs_resumes db') = [n]
      \<and> ur_id n = us_resume_id res \<and> ur_version n = us_version res
      \<and> (\<forall>r\<in>set (rs_resumes db). owned_resume (up_user_id x) r \<longrightarrow> ur_version r < us_version res)
      \<and> map (\<lambda>r. (ur_id r, ur_user_id r, ur_legacy_user_id r, ur_version r, ur_resume_hash_id r)) (butlast (rs_resumes db'))
          = map (\<lambda>r. (ur_id r, ur_user_id r, ur_legacy_user_id r, ur_version r, ur_resume_hash_id r)) (rs_resumes db)
      \<and> filter (\<lambda>r. \<not> owned_resume (up_user_id x) r) (butlast (rs_resumes db')) = filter (\<lambda>r. \<not> owned_resume (up_user_id x) r) (rs_resumes db)"
proof -
  obtain c where c: "rs_resumes db' = update_many (\<lambda>r. owned_resume (up_user_id x) r \<and> ur_is_active r)
        (\<lambda>r. r\<lparr>ur_is_active := False, ur_superseded_at := Some now\<rparr>) (rs_resumes db) @ [new_resume now c x]"
    and v: "uc_version c = us_version res" "us_version res = next_version (up_user_id x) (rs_resumes db)" "uc_resume_id c = us_resume_id res"
    using assms by (auto simp: upload_def commit_upload_def Let_def split: option.splits prod.splits sum.splits)
  have new: "owned_resume (up_user_id x) (new_resume now c x)" "ur_is_active (new_resume now c x)"
    "ur_id (new_resume now c x) = us_resume_id res" "ur_version (new_resume now c x) = us_version res"
    by (simp_all add: owned_resume_def user_ownership_filter_def new_resume_def v)
  have old: "filter (\<lambda>r. owned_resume u r \<and> ur_is_active r) (update_many (\<lambda>r. owned_resume u r \<and> ur_is_active r)
      (\<lambda>r. r\<lparr>ur_is_active := False, ur_superseded_at := Some now\<rparr>) rows) = []" for u and rows :: "user_resume list"
    by (induction rows) auto
  have others: "filter (\<lambda>r. \<not> owned_resume u r) (update_many (\<lambda>r. owned_resume u r \<and> ur_is_active r)
      (\<lambda>r. r\<lparr>ur_is_active := False, ur_superseded_at := Some now\<rparr>) rows) = filter (\<lambda>r. \<not> owned_resume u r) rows" for u and rows :: "user_resume list"
    by (induction rows) auto
  show ?thesis
    by (intro exI [of _ "new_resume now c x"]) (auto simp: c old others new v(2) next_version_above map_update_many_key)
qed

theorem upload_activates_witness:
  "\<exists>(W :: upload_world) (S :: unit storage_ops) x res db'. upload W S 5 (''h'', ''r'', ''e'', ''c'', ''a'') x (\<lparr>rs_hashes = [], rs_resumes = [], rs_links = [], rs_outbox = \<lparr>od_events = [], od_jobs = []\<rparr>, rs_events = \<lparr>vd_applications = [], vd_outcomes = [], vd_actions = []\<rparr>\<rparr>, ()) = (Inr res, (db', ()))
     \<and> (\<exists>n. filter (\<lambda>r. owned_resume (up_user_id x) r \<and> ur_is_active r) (rs_resumes db') = [n])"
proof -
  let ?W = "\<lparr>uw_max_bytes = 10, uw_max_mb = ''1'', uw_bucket = Some ''b'', uw_sha256 = (\<lambda>_. ''s''), uw_key_hash = id, uw_scope = id,
    uw_cell = (\<lambda>_. Inr ''cell''), uw_db_error = None, uw_queue_fails = (\<lambda>_. None)\<rparr> :: upload_world"
  let ?S = "\<lparr>so_upload = (\<lambda>_ _ _ _ w. (Inr (), w)), so_delete = (\<lambda>_ _ w. (Inr (), w)), so_presigned_url = (\<lambda>k w. (Inr k, w))\<rparr> :: unit storage_ops"
  let ?x = "\<lparr>up_user_id = ''u'', up_file = [0x25, 0x50, 0x44, 0x46, 0x2d], up_filename = ''cv.pdf'', up_mime_type = PDF\<rparr>"
  let ?db = "\<lparr>rs_hashes = [], rs_resumes = [], rs_links = [], rs_outbox = \<lparr>od_events = [], od_jobs = []\<rparr>, rs_events = \<lparr>vd_applications = [], vd_outcomes = [], vd_actions = []\<rparr>\<rparr> :: resume_db"
  have "validate_file 10 ''1'' [0x25, 0x50, 0x44, 0x46, 0x2d] PDF ''cv.pdf'' = None" by code_simp
  then obtain res db' where r: "upload ?W ?S 5 (''h'', ''r'', ''e'', ''c'', ''a'') ?x (?db, ()) = (Inr res, (db', ()))"
    by (simp add: upload_def Let_def hash_record_def split_def)
  from upload_activates [OF this] r show ?thesis by blast
qed

text \<open>Two uploads that both read the latest version before either commits share a version number.\<close>

lemma concurrent_uploads_share_version:
  assumes "uc_version c = next_version u (rs_resumes db)" and "uc_version d = next_version u (rs_resumes db)" and "up_user_id x = u" and "up_user_id y = u"
  shows "\<exists>r s. r \<in> set (rs_resumes (snd (commit_upload t d y (snd (commit_upload now c x db))))) \<and> ur_id r = uc_resume_id c
    \<and> s \<in> set (rs_resumes (snd (commit_upload t d y (snd (commit_upload now c x db))))) \<and> ur_id s = uc_resume_id d
    \<and> ur_version r = ur_version s"
proof -
  let ?r = "(new_resume now c x)\<lparr>ur_is_active := False, ur_superseded_at := Some t\<rparr>"
  have own: "owned_resume u (new_resume now c x)" "ur_is_active (new_resume now c x)"
    using assms(3) by (simp_all add: owned_resume_def user_ownership_filter_def new_resume_def)
  have "rs_resumes (snd (commit_upload t d y (snd (commit_upload now c x db)))) =
      update_many (\<lambda>r. owned_resume u r \<and> ur_is_active r) (\<lambda>r. r\<lparr>ur_is_active := False, ur_superseded_at := Some t\<rparr>)
        (update_many (\<lambda>r. owned_resume u r \<and> ur_is_active r) (\<lambda>r. r\<lparr>ur_is_active := False, ur_superseded_at := Some now\<rparr>) (rs_resumes db))
      @ [?r, new_resume t d y]"
    using assms(3,4) own by (simp add: commit_upload_def publish_in_transaction_def Let_def)
  then show ?thesis
    using assms(1,2) by (intro exI [of _ ?r] exI [of _ "new_resume t d y"]) (simp add: new_resume_def)
qed

text \<open>Deleting the active version, which nothing links to, leaves the user without an active one.\<close>

lemma delete_active_leaves_none:
  assumes "rs_resumes db = [r]" and "owned_resume user r" and "ur_is_active r" and "link_count (ur_id r) db = 0"
  shows "get_active_resume_row user (snd (delete_version user (ur_id r) db)) = None"
  using assms by (simp add: delete_version_def get_active_resume_row_def active_record_def delete_many_def first_by_def)

end
