(* ===== verification/Text_Words.thy ===== *)
theory Text_Words
  imports Prelude
begin

text \<open>
  The text functions the resolution services share: words of a string, and the regular
  expressions of \<open>replace\<close> and \<open>split\<close> that amount to taking words.
\<close>

text \<open>The maximal runs of characters that satisfy a predicate.\<close>

function words_by :: "(char \<Rightarrow> bool) \<Rightarrow> string \<Rightarrow> string list" where
  "words_by P s = (let r = dropWhile (\<lambda>c. \<not> P c) s in if r = [] then [] else takeWhile P r # words_by P (dropWhile P r))"
  by pat_completeness auto
termination
proof (relation "measure (\<lambda>(P, s). length s)")
  fix P :: "char \<Rightarrow> bool" and s r
  assume r: "r = dropWhile (\<lambda>c. \<not> P c) s" and ne: "r \<noteq> []"
  then obtain c t where ct: "r = c # t" "P c" by (metis dropWhile_eq_Cons_conv neq_Nil_conv)
  then have "length (dropWhile P r) < length r" by (simp add: le_imp_less_Suc length_dropWhile_le)
  also have "length r \<le> length s" using r by (simp add: length_dropWhile_le)
  finally show "((P, dropWhile P r), P, s) \<in> measure (\<lambda>(P, s). length s)" by simp
qed simp

declare words_by.simps [simp del]

definition is_word_char :: "char \<Rightarrow> bool" where
  "is_word_char c = (let n = (of_char c :: nat) in (48 \<le> n \<and> n \<le> 57) \<or> (97 \<le> n \<and> n \<le> 122))"

text \<open>\<open>split(/\s+/).filter(Boolean)\<close>.\<close>

definition space_words :: "string \<Rightarrow> string list" where
  "space_words s = words_by (\<lambda>c. \<not> is_space c) s"

text \<open>\<open>toLowerCase().replace(/[^a-z0-9]+/g, ' ')\<close> and then the words.\<close>

definition plain_words :: "string \<Rightarrow> string list" where
  "plain_words s = words_by is_word_char s"

lemma words_by_Nil [simp]: "words_by P [] = []"
  by (simp add: words_by.simps)

lemma words_by_sound: "w \<in> set (words_by P s) \<Longrightarrow> w \<noteq> [] \<and> (\<forall>c\<in>set w. P c) \<and> set w \<subseteq> set s"
proof (induction P s rule: words_by.induct)
  case (1 P s)
  let ?r = "dropWhile (\<lambda>c. \<not> P c) s"
  show ?case
  proof (cases "?r = []")
    case True
    then show ?thesis using "1.prems" by (subst (asm) words_by.simps) simp
  next
    case False
    then obtain c t where ct: "?r = c # t" "P c" by (metis dropWhile_eq_Cons_conv neq_Nil_conv)
    have w: "w = takeWhile P ?r \<or> w \<in> set (words_by P (dropWhile P ?r))"
      using "1.prems" False by (subst (asm) words_by.simps) (auto simp: Let_def split: if_splits)
    have sub: "set ?r \<subseteq> set s" using set_dropWhileD by fastforce
    show ?thesis
    proof (cases "w = takeWhile P ?r")
      case True
      then show ?thesis using ct sub by (auto dest: set_takeWhileD)
    next
      case nt: False
      then have "w \<in> set (words_by P (dropWhile P ?r))" using w by simp
      from "1.IH" [OF refl False this] show ?thesis using sub set_dropWhileD by fastforce
    qed
  qed
qed

lemma words_by_step: "w \<noteq> [] \<Longrightarrow> \<forall>c\<in>set w. P c \<Longrightarrow> \<not> P d \<Longrightarrow> words_by P (w @ d # s) = w # words_by P (d # s)"
  by (subst words_by.simps) (auto simp: Let_def neq_Nil_conv takeWhile_append2 dropWhile_append2)

lemma words_by_word:
  assumes "w \<noteq> []" and "\<forall>c\<in>set w. P c"
  shows "words_by P w = [w]"
proof -
  have "dropWhile (\<lambda>c. \<not> P c) w = w" "takeWhile P w = w" "dropWhile P w = []"
    using assms by (auto simp: dropWhile_eq_self_iff takeWhile_eq_all_conv)
  then show ?thesis using assms(1) by (subst words_by.simps) (simp add: Let_def del: dropWhile_eq_Nil_conv)
qed

lemma words_by_skip: "\<not> P d \<Longrightarrow> words_by P (d # s) = words_by P s"
  by (subst (1 2) words_by.simps) simp

text \<open>Taking words undoes joining words.\<close>

lemma words_by_join:
  "\<not> P CHR '' '' \<Longrightarrow> \<forall>w\<in>set ws. w \<noteq> [] \<and> (\<forall>c\<in>set w. P c) \<Longrightarrow> words_by P (join_on '' '' ws) = ws"
proof (induction ws)
  case (Cons w ws)
  then show ?case by (cases ws) (auto simp: words_by_word words_by_step words_by_skip)
qed simp

lemma set_join_on: "set (join_on '' '' ws) \<subseteq> insert CHR '' '' (\<Union>w\<in>set ws. set w)"
proof (induction ws)
  case (Cons w ws)
  then show ?case by (cases ws) auto
qed simp

end
