(* ===== verification/Companies.thy ===== *)
theory Companies
  imports Ownership Text_Words
begin

text \<open>
  Company resolution (\<open>CompanyService\<close> of \<open>services/company/company.service.ts\<close>): the canonical
  name and the aliases of a company, and the tables of companies and aliases. A query without
  an order gives the first row inserted; fresh ids are arguments.
\<close>

record company =
  cy_id :: uid
  cy_name :: string
  cy_domain :: string
  cy_careers_url :: "string option"
  cy_website :: "string option"
  cy_logo_url :: "string option"
  cy_industry :: "string option"
  cy_headquarters :: "string option"

record company_alias =
  ca_id :: uid
  ca_company_id :: uid
  ca_value :: string
  ca_normalized_value :: string

record company_db =
  cb_companies :: "company list"
  cb_aliases :: "company_alias list"

record company_input =
  cx_name :: string
  cx_domain :: string
  cx_careers_url :: "string option"
  cx_website :: "string option"
  cx_logo_url :: "string option"
  cx_industry :: "string option"
  cx_headquarters :: "string option"
  cx_aliases :: "string list"

subsection \<open>Names\<close>

definition LEGAL_SUFFIXES :: "string list" where
  "LEGAL_SUFFIXES = [''inc'', ''incorporated'', ''llc'', ''l.l.c'', ''ltd'', ''limited'', ''corp'', ''corporation'', ''co'', ''company'',
     ''plc'', ''gmbh'', ''sarl'', ''pte'', ''sa'', ''ag'', ''bv'']"

definition ALIAS_NOISE :: "string list" where
  "ALIAS_NOISE = [''incorporated'', ''inc'', ''llc'', ''ltd'', ''limited'', ''corp'', ''corporation'', ''company'', ''co'', ''plc'', ''gmbh'',
     ''sarl'', ''pte'', ''sa'', ''ag'', ''bv'']"

definition CANONICAL_ALIAS_OVERRIDES :: "(string \<times> string) list" where
  "CANONICAL_ALIAS_OVERRIDES = [(''facebook'', ''Meta''), (''facebook.com'', ''Meta''), (''facebook inc'', ''Meta''), (''facebook llc'', ''Meta''),
     (''fb'', ''Meta''), (''meta platforms'', ''Meta''), (''meta platforms inc'', ''Meta''), (''google llc'', ''Google''),
     (''google inc'', ''Google''), (''google incorporated'', ''Google'')]"

text \<open>\<open>replace(/https?:\/\//g, '')\<close>.\<close>

function strip_protocols :: "string \<Rightarrow> string" where
  "strip_protocols s =
     (case s of
        [] \<Rightarrow> []
      | c # t \<Rightarrow> if starts_with s ''https://'' then strip_protocols (drop 8 s)
          else if starts_with s ''http://'' then strip_protocols (drop 7 s)
          else c # strip_protocols t)"
  by pat_completeness auto
termination by (relation "measure length") auto

declare strip_protocols.simps [simp del]

text \<open>
  After the first replacements only words of letters and digits and spaces are left, so a
  suffix between word boundaries is a word.
\<close>

definition alias_words :: "string \<Rightarrow> string list" where
  "alias_words s = filter (\<lambda>w. w \<notin> set ALIAS_NOISE) (plain_words (strip_protocols (to_lower s)))"

definition normalize_alias :: "string \<Rightarrow> string" where
  "normalize_alias s = join_on '' '' (alias_words s)"

definition normalize_company_token :: "string \<Rightarrow> string" where
  "normalize_company_token s = filter is_word_char (to_lower s)"

fun drop_suffixes :: "string list \<Rightarrow> string list" where
  "drop_suffixes [] = []"
| "drop_suffixes (w # ws) = (if normalize_company_token w \<in> set LEGAL_SUFFIXES then drop_suffixes ws else w # ws)"

definition strip_legal_suffixes :: "string \<Rightarrow> string" where
  "strip_legal_suffixes s = trim (join_on '' '' (rev (drop_suffixes (rev (space_words (trim s))))))"

definition extract_domain_label :: "string \<Rightarrow> string" where
  "extract_domain_label domain =
     (let parts = filter (\<lambda>p. p \<noteq> []) (split_on (CHR ''.'') (to_lower domain))
      in if length parts < 2 then domain else parts ! (length parts - 2))"

definition capitalize :: "string \<Rightarrow> string" where
  "capitalize w = to_upper (take 1 w) @ to_lower (drop 1 w)"

definition title_case :: "string \<Rightarrow> string" where
  "title_case s = join_on '' '' (map capitalize (space_words s))"

text \<open>
  A lookup in the object literal of overrides. For the key \<open>constructor\<close> it finds the function
  every object inherits, which is a value too; no other inherited name is in lower case.
\<close>

datatype override = Own string | Inherited

definition lookup_override :: "string \<Rightarrow> override option" where
  "lookup_override k = (case map_of CANONICAL_ALIAS_OVERRIDES k of
     Some v \<Rightarrow> Some (Own v)
   | None \<Rightarrow> if k = ''constructor'' then Some Inherited else None)"

definition first_text :: "string \<Rightarrow> string \<Rightarrow> string" where
  "first_text a b = (if a \<noteq> [] then a else b)"

definition resolve_canonical_name :: "string \<Rightarrow> string \<Rightarrow> override" where
  "resolve_canonical_name name domain =
     (let label = normalize_alias (extract_domain_label domain)
      in case or_else (lookup_override (normalize_alias name))
           (or_else (lookup_override (normalize_alias domain)) (if label \<noteq> [] then lookup_override label else None)) of
           Some o' \<Rightarrow> o'
         | None \<Rightarrow> Own (title_case (first_text (strip_legal_suffixes name) (first_text (extract_domain_label domain) name))))"

definition lookup_canonical_alias_variants :: "string \<Rightarrow> string list" where
  "lookup_canonical_alias_variants canonical =
     map fst (filter (\<lambda>(_, c). normalize_alias c = normalize_alias canonical) CANONICAL_ALIAS_OVERRIDES)"

definition build_alias_values :: "string \<Rightarrow> string \<Rightarrow> string \<Rightarrow> string list \<Rightarrow> string list" where
  "build_alias_values name domain canonical aliases =
     filter (\<lambda>v. v \<noteq> [] \<and> trim v \<noteq> [])
       ([name, canonical, domain, extract_domain_label domain] @ aliases @ lookup_canonical_alias_variants canonical)"

subsection \<open>Resolution\<close>

text \<open>The first spelling of every normalised alias, in the order of the values.\<close>

fun unique_aliases :: "string list \<Rightarrow> (string \<times> string) list" where
  "unique_aliases [] = []"
| "unique_aliases (v # vs) =
     (let n = normalize_alias v
      in if n = [] then unique_aliases vs else (n, trim v) # filter (\<lambda>(k, _). k \<noteq> n) (unique_aliases vs))"

definition upsert_alias :: "uid \<Rightarrow> uid \<Rightarrow> string \<times> string \<Rightarrow> company_alias list \<Rightarrow> company_alias list" where
  "upsert_alias fresh company_id nv rows =
     (let same = (\<lambda>a. ca_normalized_value a = fst nv)
      in if find_row same rows = None
         then rows @ [\<lparr>ca_id = fresh, ca_company_id = company_id, ca_value = snd nv, ca_normalized_value = fst nv\<rparr>]
         else update_many same (\<lambda>a. a\<lparr>ca_company_id := company_id, ca_value := snd nv\<rparr>) rows)"

fun upsert_alias_list :: "(nat \<Rightarrow> uid) \<Rightarrow> nat \<Rightarrow> uid \<Rightarrow> (string \<times> string) list \<Rightarrow> company_alias list \<Rightarrow> company_alias list" where
  "upsert_alias_list fresh n company_id [] rows = rows"
| "upsert_alias_list fresh n company_id (nv # nvs) rows =
     upsert_alias_list fresh (Suc n) company_id nvs (upsert_alias (fresh n) company_id nv rows)"

definition upsert_aliases :: "(nat \<Rightarrow> uid) \<Rightarrow> uid \<Rightarrow> string list \<Rightarrow> company_db \<Rightarrow> company_db" where
  "upsert_aliases fresh company_id values db =
     db\<lparr>cb_aliases := upsert_alias_list fresh 0 company_id (unique_aliases values) (cb_aliases db)\<rparr>"

definition updated_company :: "string \<Rightarrow> company_input \<Rightarrow> company \<Rightarrow> company" where
  "updated_company canonical x c = c\<lparr>cy_name := first_text canonical (cy_name c),
     cy_careers_url := or_else (cx_careers_url x) (cy_careers_url c), cy_website := or_else (cx_website x) (cy_website c),
     cy_logo_url := or_else (cx_logo_url x) (cy_logo_url c), cy_industry := or_else (cx_industry x) (cy_industry c),
     cy_headquarters := or_else (cx_headquarters x) (cy_headquarters c)\<rparr>"

definition new_company :: "uid \<Rightarrow> string \<Rightarrow> company_input \<Rightarrow> company" where
  "new_company i canonical x = \<lparr>cy_id = i, cy_name = canonical, cy_domain = cx_domain x, cy_careers_url = cx_careers_url x,
     cy_website = cx_website x, cy_logo_url = cx_logo_url x, cy_industry = cx_industry x, cy_headquarters = cx_headquarters x\<rparr>"

text \<open>The company an alias or the domain leads to.\<close>

definition find_company :: "string list \<Rightarrow> string \<Rightarrow> company_db \<Rightarrow> company option" where
  "find_company normalized domain db =
     or_else (case find_row (\<lambda>a. ca_normalized_value a \<in> set normalized) (cb_aliases db) of
                None \<Rightarrow> None
              | Some a \<Rightarrow> find_row (\<lambda>c. cy_id c = ca_company_id a) (cb_companies db))
       (find_row (\<lambda>c. cy_domain c = domain) (cb_companies db))"

definition resolve_company :: "uid \<Rightarrow> (nat \<Rightarrow> uid) \<Rightarrow> company_input \<Rightarrow> company_db \<Rightarrow> (company, company_db) outcome" where
  "resolve_company fresh fresh_alias x db =
     (case resolve_canonical_name (cx_name x) (cx_domain x) of
        Inherited \<Rightarrow> (Inl (TypeError ''value.toLowerCase is not a function''), db)
      | Own canonical \<Rightarrow>
          (let values = build_alias_values (cx_name x) (cx_domain x) canonical (cx_aliases x);
               normalized = filter (\<lambda>v. v \<noteq> []) (map normalize_alias values)
           in case find_company normalized (cx_domain x) db of
                Some c \<Rightarrow>
                  (let u = updated_company canonical x c
                   in (Inr u, upsert_aliases fresh_alias (cy_id c) values
                        (db\<lparr>cb_companies := update_many (\<lambda>r. cy_id r = cy_id c) (updated_company canonical x) (cb_companies db)\<rparr>)))
              | None \<Rightarrow>
                  (let c = new_company fresh canonical x
                   in (Inr c, upsert_aliases fresh_alias fresh values (db\<lparr>cb_companies := cb_companies db @ [c]\<rparr>)))))"

definition link_application_to_company :: "uid \<Rightarrow> (nat \<Rightarrow> uid) \<Rightarrow> time \<Rightarrow> uid \<Rightarrow> uid \<Rightarrow> company_input \<Rightarrow> company_db \<times> app_db
    \<Rightarrow> (company, company_db \<times> app_db) outcome" where
  "link_application_to_company fresh fresh_alias now user app x st =
     (case ensure_application_access user app (snd st) of
        Inl e \<Rightarrow> (Inl e, st)
      | Inr _ \<Rightarrow>
          (case resolve_company fresh fresh_alias x (fst st) of
             (Inl e, db) \<Rightarrow> (Inl e, (db, snd st))
           | (Inr c, db) \<Rightarrow> (Inr c, (db, (snd st)\<lparr>db_applications := update_many (\<lambda>a. ja_id a = app)
               (\<lambda>a. a\<lparr>ja_company_id := Some (cy_id c), ja_company_name := Some (cy_name c), ja_company_domain := Some (cy_domain c),
                  ja_updated_at := now\<rparr>) (db_applications (snd st))\<rparr>))))"

subsection \<open>Resolution is stable\<close>

definition companies_ok :: "company_db \<Rightarrow> bool" where
  "companies_ok db \<longleftrightarrow> distinct (map cy_id (cb_companies db)) \<and> distinct (map cy_domain (cb_companies db))
     \<and> distinct (map ca_normalized_value (cb_aliases db)) \<and> ca_company_id ` set (cb_aliases db) \<subseteq> cy_id ` set (cb_companies db)"

lemma keys_filter: "fst ` {x \<in> set ps. case x of (k, _) \<Rightarrow> k \<noteq> n} = fst ` set ps - {n}"
  by force

lemma unique_aliases_keys: "fst ` set (unique_aliases vs) = {n \<in> normalize_alias ` set vs. n \<noteq> []}"
  by (induction vs) (auto simp: Let_def keys_filter)

lemma upsert_alias_rows:
  "map ca_normalized_value (upsert_alias f cid nv rows) =
     (if fst nv \<in> ca_normalized_value ` set rows then map ca_normalized_value rows else map ca_normalized_value rows @ [fst nv])"
proof (cases "find_row (\<lambda>a. ca_normalized_value a = fst nv) rows = None")
  case True
  then have "fst nv \<notin> ca_normalized_value ` set rows" by (auto simp: find_row_None_iff)
  then show ?thesis using True by (simp add: upsert_alias_def)
next
  case False
  then have "\<exists>r\<in>set rows. ca_normalized_value r = fst nv" unfolding find_row_None_iff by blast
  then have "fst nv \<in> ca_normalized_value ` set rows" by (metis image_eqI)
  then show ?thesis using False by (auto simp: upsert_alias_def Let_def table_simps)
qed

lemma upsert_alias_company:
  "a \<in> set (upsert_alias f cid nv rows) \<Longrightarrow>
     (if ca_normalized_value a = fst nv then ca_company_id a = cid else a \<in> set rows)"
  by (auto simp: upsert_alias_def Let_def find_row_None_iff set_update_many split: if_splits)

lemma upsert_alias_list_rows:
  "distinct (map ca_normalized_value rows) \<Longrightarrow> distinct (map ca_normalized_value (upsert_alias_list f n cid nvs rows))
    \<and> ca_normalized_value ` set (upsert_alias_list f n cid nvs rows) = ca_normalized_value ` set rows \<union> fst ` set nvs"
proof (induction nvs arbitrary: n rows)
  case (Cons nv nvs)
  have m: "map ca_normalized_value (upsert_alias (f n) cid nv rows) =
      (if fst nv \<in> ca_normalized_value ` set rows then map ca_normalized_value rows else map ca_normalized_value rows @ [fst nv])"
    by (rule upsert_alias_rows)
  then have "distinct (map ca_normalized_value (upsert_alias (f n) cid nv rows))" using Cons.prems by auto
  moreover have "ca_normalized_value ` set (upsert_alias (f n) cid nv rows) = insert (fst nv) (ca_normalized_value ` set rows)"
    using arg_cong [OF m, of set] by (auto split: if_splits)
  ultimately show ?case using Cons.IH by simp
qed simp

lemma upsert_alias_list_company:
  "a \<in> set (upsert_alias_list f n cid nvs rows) \<Longrightarrow>
     (if ca_normalized_value a \<in> fst ` set nvs then ca_company_id a = cid else a \<in> set rows)"
proof (induction nvs arbitrary: n rows)
  case (Cons nv nvs)
  from Cons.IH [of "Suc n" "upsert_alias (f n) cid nv rows"] Cons.prems
  show ?case using upsert_alias_company [of a "f n" cid nv rows] by (auto split: if_splits)
qed simp

lemma or_else_simps [simp]: "or_else a a = a" "or_else a (or_else a b) = or_else a b" "or_else (Some v) b = Some v" "or_else None b = b"
  by (simp_all add: or_else_def split: option.splits)

lemma updated_twice: "updated_company n x (updated_company n x c) = updated_company n x c" "updated_company n x (new_company i n x) = new_company i n x"
  by (simp_all add: updated_company_def new_company_def first_text_def)

lemma updated_company_keys [simp]: "cy_id (updated_company n x c) = cy_id c" "cy_domain (updated_company n x c) = cy_domain c"
  by (simp_all add: updated_company_def)

lemma find_updated:
  assumes "distinct (map cy_id rows)" and "c \<in> set rows"
  shows "find_row (\<lambda>r. cy_id r = cy_id c) (update_many (\<lambda>r. cy_id r = cy_id c) (updated_company n x) rows) = Some (updated_company n x c)"
  using find_row_unique [OF assms] by (subst find_row_update_many_same) simp_all

text \<open>What a resolution leaves behind: its company, under every alias and, lacking aliases, under its domain.\<close>

definition resolved_to :: "company \<Rightarrow> string list \<Rightarrow> string \<Rightarrow> company_db \<Rightarrow> bool" where
  "resolved_to c normalized domain db \<longleftrightarrow> companies_ok db \<and> find_row (\<lambda>r. cy_id r = cy_id c) (cb_companies db) = Some c
     \<and> (\<forall>n\<in>set normalized. \<exists>a\<in>set (cb_aliases db). ca_normalized_value a = n)
     \<and> (\<forall>a\<in>set (cb_aliases db). ca_normalized_value a \<in> set normalized \<longrightarrow> ca_company_id a = cy_id c)
     \<and> (normalized = [] \<longrightarrow> cy_domain c = domain)"

lemma resolved_found:
  assumes "resolved_to c normalized domain db"
  shows "find_company normalized domain db = Some c"
proof (cases "normalized = []")
  case True
  then have "find_row (\<lambda>r. cy_domain r = cy_domain c) (cb_companies db) = Some c"
    using assms find_row_unique [of cy_domain "cb_companies db" c]
    by (auto simp: resolved_to_def companies_ok_def dest: find_row_SomeD)
  moreover have "find_row (\<lambda>a. ca_normalized_value a \<in> set normalized) (cb_aliases db) = None" using True by (simp add: find_row_None_iff)
  ultimately show ?thesis using assms True by (simp add: find_company_def resolved_to_def)
next
  case False
  then obtain n where n: "n \<in> set normalized" by (cases normalized) auto
  then have "\<exists>a\<in>set (cb_aliases db). ca_normalized_value a \<in> set normalized" using assms unfolding resolved_to_def by metis
  then have "find_row (\<lambda>a. ca_normalized_value a \<in> set normalized) (cb_aliases db) \<noteq> None"
    unfolding find_row_None_iff by blast
  then obtain a where a: "find_row (\<lambda>a. ca_normalized_value a \<in> set normalized) (cb_aliases db) = Some a" by blast
  then have "ca_company_id a = cy_id c" using assms by (auto simp: resolved_to_def dest: find_row_SomeD)
  then show ?thesis using a assms by (simp add: find_company_def resolved_to_def)
qed

lemma upsert_resolved:
  assumes "companies_ok db" and "find_row (\<lambda>r. cy_id r = cy_id c) (cb_companies db) = Some c"
    and "normalized = filter (\<lambda>v. v \<noteq> []) (map normalize_alias vals)" and "normalized = [] \<longrightarrow> cy_domain c = domain"
  shows "resolved_to c normalized domain (upsert_aliases f (cy_id c) vals db)"
proof -
  let ?rows = "upsert_alias_list f 0 (cy_id c) (unique_aliases vals) (cb_aliases db)"
  have k: "fst ` set (unique_aliases vals) = set normalized" using unique_aliases_keys [of vals] assms(3) by auto
  have d: "distinct (map ca_normalized_value ?rows)" "ca_normalized_value ` set ?rows = ca_normalized_value ` set (cb_aliases db) \<union> set normalized"
    using upsert_alias_list_rows [of "cb_aliases db" f 0 "cy_id c" "unique_aliases vals"] assms(1) k by (simp_all add: companies_ok_def)
  have own: "if ca_normalized_value a \<in> set normalized then ca_company_id a = cy_id c else a \<in> set (cb_aliases db)" if "a \<in> set ?rows" for a
    using upsert_alias_list_company [OF that] k by simp
  have "cy_id c \<in> cy_id ` set (cb_companies db)" using find_row_SomeD [OF assms(2)] by auto
  then have "ca_company_id ` set ?rows \<subseteq> cy_id ` set (cb_companies db)"
    using own assms(1) by (fastforce simp: companies_ok_def split: if_splits)
  then have "companies_ok (upsert_aliases f (cy_id c) vals db)" using assms(1) d(1) by (simp add: companies_ok_def upsert_aliases_def)
  moreover have "\<forall>n\<in>set normalized. \<exists>a\<in>set ?rows. ca_normalized_value a = n" using d(2) by (metis UnCI imageE)
  ultimately show ?thesis using own assms(2,4) by (auto simp: resolved_to_def upsert_aliases_def)
qed

lemma companies_ok_update:
  assumes "companies_ok db"
  shows "companies_ok (db\<lparr>cb_companies := update_many P (updated_company n x) (cb_companies db)\<rparr>)"
proof -
  have "map cy_id (update_many P (updated_company n x) (cb_companies db)) = map cy_id (cb_companies db)"
    "map cy_domain (update_many P (updated_company n x) (cb_companies db)) = map cy_domain (cb_companies db)"
    by (rule map_update_many_key, simp)+
  moreover from this(1) have "cy_id ` set (update_many P (updated_company n x) (cb_companies db)) = cy_id ` set (cb_companies db)"
    by (metis list.set_map)
  ultimately show ?thesis using assms by (simp add: companies_ok_def)
qed

lemma find_company_in:
  assumes "find_company normalized domain db = Some c"
  shows "c \<in> set (cb_companies db)"
  using assms by (auto simp: find_company_def or_else_def split: option.splits dest: find_row_SomeD)

lemma resolve_company_again:
  assumes "companies_ok db" and "fresh \<notin> cy_id ` set (cb_companies db)" and "resolve_company fresh fa x db = (Inr c, db')"
  shows "companies_ok db' \<and> c \<in> set (cb_companies db')
    \<and> (\<exists>db''. resolve_company fresh' fa' x db' = (Inr c, db'') \<and> map cy_id (cb_companies db'') = map cy_id (cb_companies db'))"
proof -
  from assms(3) obtain canonical where can: "resolve_canonical_name (cx_name x) (cx_domain x) = Own canonical"
    by (auto simp: resolve_company_def split: override.splits)
  define vals where "vals = build_alias_values (cx_name x) (cx_domain x) canonical (cx_aliases x)"
  define normalized where "normalized = filter (\<lambda>v. v \<noteq> []) (map normalize_alias vals)"
  have resolve: "resolve_company f g x d = (case find_company normalized (cx_domain x) d of
      Some c \<Rightarrow> (Inr (updated_company canonical x c), upsert_aliases g (cy_id c) vals
        (d\<lparr>cb_companies := update_many (\<lambda>r. cy_id r = cy_id c) (updated_company canonical x) (cb_companies d)\<rparr>))
    | None \<Rightarrow> (Inr (new_company f canonical x), upsert_aliases g f vals (d\<lparr>cb_companies := cb_companies d @ [new_company f canonical x]\<rparr>)))" for f g d
    by (simp add: resolve_company_def can vals_def normalized_def Let_def split: option.split)
  have res: "resolved_to c normalized (cx_domain x) db' \<and> updated_company canonical x c = c"
  proof (cases "find_company normalized (cx_domain x) db")
    case (Some c0)
    then have c: "c = updated_company canonical x c0" "db' = upsert_aliases fa (cy_id c) vals
        (db\<lparr>cb_companies := update_many (\<lambda>r. cy_id r = cy_id c0) (updated_company canonical x) (cb_companies db)\<rparr>)"
      using assms(3) by (auto simp: resolve)
    have "normalized = [] \<longrightarrow> cy_domain c = cx_domain x"
      using Some c(1) by (auto simp: find_company_def find_row_None_iff dest: find_row_SomeD split: option.splits)
    then show ?thesis unfolding c(2) using assms(1) c(1) find_company_in [OF Some] find_updated
      by (intro conjI upsert_resolved companies_ok_update) (auto simp: companies_ok_def normalized_def updated_twice)
  next
    case None
    then have c: "c = new_company fresh canonical x" "db' = upsert_aliases fa (cy_id c) vals (db\<lparr>cb_companies := cb_companies db @ [c]\<rparr>)"
      using assms(3) by (auto simp: resolve new_company_def)
    have "cx_domain x \<notin> cy_domain ` set (cb_companies db)"
      using None by (auto simp: find_company_def or_else_def find_row_None_iff split: option.splits)
    then have "companies_ok (db\<lparr>cb_companies := cb_companies db @ [c]\<rparr>)"
      using assms(1,2) c(1) by (auto simp: companies_ok_def new_company_def)
    moreover have "find_row (\<lambda>r. cy_id r = cy_id c) (cb_companies db @ [c]) = Some c"
      using assms(2) c(1) by (auto simp: find_row_append new_company_def find_row_None_iff split: option.splits dest!: find_row_SomeD)
    ultimately show ?thesis unfolding c(2) using c(1)
      by (intro conjI upsert_resolved) (simp_all add: normalized_def updated_twice, simp add: new_company_def)
  qed
  have "find_company normalized (cx_domain x) db' = Some c" using resolved_found res by blast
  moreover have "map cy_id (update_many (\<lambda>r. cy_id r = cy_id c) (updated_company canonical x) (cb_companies db')) = map cy_id (cb_companies db')"
    by (rule map_update_many_key) simp
  ultimately have "\<exists>db''. resolve_company fresh' fa' x db' = (Inr c, db'') \<and> map cy_id (cb_companies db'') = map cy_id (cb_companies db')"
    using res by (simp add: resolve upsert_aliases_def)
  then show ?thesis using res find_company_in \<open>find_company normalized (cx_domain x) db' = Some c\<close> by (auto simp: resolved_to_def)
qed

text \<open>
  Resolving a company is stable. Whatever the tables hold, a resolution keeps ids, domains and
  normalised aliases unique and every alias attached to a company; resolving the same input
  again, at any later time and with any fresh ids, gives the same company and adds none.
\<close>

lemma resolve_company_stable:
  assumes "companies_ok db" and "fresh \<notin> cy_id ` set (cb_companies db)" and "resolve_company fresh fa x db = (Inr c, db')"
  shows "companies_ok db' \<and> c \<in> set (cb_companies db')
    \<and> (\<exists>db''. resolve_company fresh' fa' x db' = (Inr c, db'') \<and> map cy_id (cb_companies db'') = map cy_id (cb_companies db'))"
  using resolve_company_again [OF assms] .

definition plain_input :: "string \<Rightarrow> string \<Rightarrow> company_input" where
  "plain_input name domain = \<lparr>cx_name = name, cx_domain = domain, cx_careers_url = None, cx_website = None, cx_logo_url = None,
     cx_industry = None, cx_headquarters = None, cx_aliases = []\<rparr>"

definition empty_companies :: company_db where
  "empty_companies = \<lparr>cb_companies = [], cb_aliases = []\<rparr>"

definition numbered :: "string \<Rightarrow> nat \<Rightarrow> uid" where
  "numbered p n = p @ show_nat n"

lemma resolve_acme:
  "resolve_company ''c1'' (numbered ''a'') (plain_input ''Acme Inc'' ''acme.com.au'') empty_companies =
     (Inr (new_company ''c1'' ''Acme'' (plain_input ''Acme Inc'' ''acme.com.au'')),
      \<lparr>cb_companies = [new_company ''c1'' ''Acme'' (plain_input ''Acme Inc'' ''acme.com.au'')],
       cb_aliases = [\<lparr>ca_id = ''a0'', ca_company_id = ''c1'', ca_value = ''Acme Inc'', ca_normalized_value = ''acme''\<rparr>,
         \<lparr>ca_id = ''a1'', ca_company_id = ''c1'', ca_value = ''acme.com.au'', ca_normalized_value = ''acme com au''\<rparr>,
         \<lparr>ca_id = ''a2'', ca_company_id = ''c1'', ca_value = ''com'', ca_normalized_value = ''com''\<rparr>]\<rparr>)"
  by code_simp

lemma resolve_company_stable_witness:
  "\<exists>c db' db''. resolve_company ''c1'' (numbered ''a'') (plain_input ''Acme Inc'' ''acme.com.au'') empty_companies = (Inr c, db')
    \<and> companies_ok db' \<and> resolve_company ''c2'' (numbered ''b'') (plain_input ''Acme Inc'' ''acme.com.au'') db' = (Inr c, db'')
    \<and> map cy_id (cb_companies db'') = map cy_id (cb_companies db')"
proof -
  have "companies_ok empty_companies" "''c1'' \<notin> cy_id ` set (cb_companies empty_companies)"
    by (simp_all add: companies_ok_def empty_companies_def)
  from resolve_company_stable [OF this resolve_acme, of "''c2''" "numbered ''b''"] resolve_acme show ?thesis by blast
qed

text \<open>
  Two companies under one registry suffix are taken for one: the label before the last of
  \<open>acme.com.au\<close> is \<open>com\<close>, which becomes an alias of the first company, so the second is
  resolved to the first and renames it.
\<close>

lemma public_suffix_merges_companies:
  "case fst (resolve_company ''c2'' (numbered ''b'') (plain_input ''Globex'' ''globex.com.au'')
       (snd (resolve_company ''c1'' (numbered ''a'') (plain_input ''Acme Inc'' ''acme.com.au'') empty_companies))) of
     Inl _ \<Rightarrow> False | Inr c \<Rightarrow> cy_id c = ''c1'' \<and> cy_name c = ''Globex'' \<and> cy_domain c = ''acme.com.au''"
  unfolding resolve_acme snd_conv by code_simp

text \<open>A company whose name or domain label is \<open>constructor\<close> cannot be resolved.\<close>

lemma constructor_not_resolved:
  "fst (resolve_company i f (plain_input ''Constructor'' ''constructor.io'') db) = Inl (TypeError ''value.toLowerCase is not a function'')"
proof -
  have "resolve_canonical_name ''Constructor'' ''constructor.io'' = Inherited" by code_simp
  then show ?thesis by (simp add: resolve_company_def plain_input_def)
qed

text \<open>Normalisation is idempotent.\<close>

lemma plain_words_chars: "w \<in> set (alias_words s) \<Longrightarrow> w \<noteq> [] \<and> (\<forall>c\<in>set w. is_word_char c)"
  using words_by_sound [of w is_word_char] by (auto simp: alias_words_def plain_words_def)

lemma strip_protocols_plain: "CHR ''/'' \<notin> set s \<Longrightarrow> strip_protocols s = s"
proof (induction s)
  case (Cons c s)
  then have "\<not> starts_with (c # s) ''https://''" "\<not> starts_with (c # s) ''http://''" by (auto simp: starts_with_iff)
  then show ?case using Cons by (subst strip_protocols.simps) auto
qed (simp add: strip_protocols.simps)

lemma normalize_alias_idem: "normalize_alias (normalize_alias s) = normalize_alias s"
proof -
  let ?j = "join_on '' '' (alias_words s)"
  have ch: "c = CHR '' '' \<or> is_word_char c" if "c \<in> set ?j" for c
    using that set_join_on [of "alias_words s"] plain_words_chars by fastforce
  then have "to_lower ?j = ?j"
    by (auto simp: to_lower_def lower_char_def is_word_char_def Let_def intro!: map_idI) force
  moreover have "strip_protocols ?j = ?j" using ch by (intro strip_protocols_plain) (force simp: is_word_char_def Let_def)
  moreover have "plain_words ?j = alias_words s"
    unfolding plain_words_def using plain_words_chars by (intro words_by_join) (auto simp: is_word_char_def)
  moreover have "filter (\<lambda>w. w \<notin> set ALIAS_NOISE) (alias_words s) = alias_words s" by (simp add: alias_words_def)
  ultimately show ?thesis by (simp add: normalize_alias_def alias_words_def)
qed

end
