(* ===== verification/Recruiters.thy ===== *)
theory Recruiters
  imports Companies Pagination
begin

text \<open>
  Recruiters (\<open>RecruiterService\<close> of \<open>services/recruiter/recruiter.service.ts\<close>): the link from an email
  of an application to the recruiter that wrote it, and the lists and insights over these links.
  The mean response time is exact before it is rounded to a tenth of a minute.
\<close>

record recruiter =
  rr_id :: uid
  rr_company_id :: uid
  rr_name :: string
  rr_email :: string
  rr_title :: string
  rr_created_at :: time
  rr_updated_at :: time

record linked_email =
  ke_id :: uid
  ke_user_id :: "uid option"
  ke_legacy_user_id :: "string option"
  ke_provider_message_id :: string
  ke_thread_id :: string
  ke_subject :: "string option"
  ke_from :: "string option"
  ke_received_at :: time
  ke_application_id :: "uid option"
  ke_recruiter_id :: "uid option"

record contact_db =
  kb_apps :: app_db
  kb_companies :: company_db
  kb_recruiters :: "recruiter list"
  kb_emails :: "linked_email list"

record recruiter_sync_input =
  ks_user_id :: uid
  ks_application_id :: uid
  ks_role_title :: string
  ks_email :: classifiable_email
  ks_company_name :: string
  ks_company_domain :: string
  ks_recruiter_name :: "string option"
  ks_recruiter_email :: "string option"
  ks_title :: "string option"

subsection \<open>Names and titles\<close>

definition capitalize_part :: "string \<Rightarrow> string" where
  "capitalize_part s = (case s of [] \<Rightarrow> [] | c # cs \<Rightarrow> upper_char c # cs)"

definition infer_name_from_email :: "string \<Rightarrow> string" where
  "infer_name_from_email email =
     (let local = hd (split_on (CHR ''@'') email)
      in if local = [] then ''Recruiter'' else join_on '' '' (map capitalize_part (words_by (\<lambda>c. c \<notin> set ''._-'') local)))"

text \<open>The patterns are plain texts, but for an optional prefix that does not matter to a test.\<close>

definition infer_title :: "classifiable_email \<Rightarrow> string \<Rightarrow> string" where
  "infer_title email role_title =
     (let t = to_lower (em_subject email @ [CHR 0x0A] @ option_or (em_body_text email) [])
      in if list_ex (str_includes t) [''recruiter'', ''talent acquisition'', ''talent partner''] then ''Recruiter''
         else if str_includes t ''hiring manager'' then ''Hiring Manager''
         else if str_includes t ''sourcer'' then ''Sourcer''
         else if list_ex (str_includes t) [''people operations'', ''people partner'', ''hr''] then ''People Operations''
         else ''Recruiter'')"

definition normalize_recruiter_title :: "string \<Rightarrow> string" where
  "normalize_recruiter_title title = (if trim title \<noteq> [] then trim title else ''Recruiter'')"

definition synced_name :: "recruiter_sync_input \<Rightarrow> string \<Rightarrow> string" where
  "synced_name x email = option_or (case ks_recruiter_name x of None \<Rightarrow> None | Some n \<Rightarrow> truthy (Some (trim n))) (infer_name_from_email email)"

definition synced_title :: "recruiter_sync_input \<Rightarrow> string" where
  "synced_title x = normalize_recruiter_title (option_or (ks_title x) (infer_title (ks_email x) (ks_role_title x)))"

subsection \<open>Synchronisation\<close>

definition upsert_recruiter :: "time \<Rightarrow> uid \<Rightarrow> uid \<Rightarrow> string \<Rightarrow> recruiter_sync_input \<Rightarrow> recruiter list \<Rightarrow> recruiter \<times> recruiter list" where
  "upsert_recruiter now fresh company_id email x rows =
     (case find_row (\<lambda>r. rr_company_id r = company_id \<and> rr_email r = email) rows of
        Some r \<Rightarrow> (let upd = (\<lambda>r. r\<lparr>rr_name := synced_name x email, rr_title := synced_title x, rr_updated_at := now\<rparr>)
          in (upd r, update_many (\<lambda>s. rr_company_id s = company_id \<and> rr_email s = email) upd rows))
      | None \<Rightarrow> (let r = \<lparr>rr_id = fresh, rr_company_id = company_id, rr_name = synced_name x email, rr_email = email,
            rr_title = synced_title x, rr_created_at = now, rr_updated_at = now\<rparr> in (r, rows @ [r])))"

definition link_recruiter :: "time \<Rightarrow> recruiter \<Rightarrow> recruiter_sync_input \<Rightarrow> contact_db \<Rightarrow> (recruiter, contact_db) outcome" where
  "link_recruiter now r x db =
     (let apps = update_many (\<lambda>a. ja_id a = ks_application_id x)
            (\<lambda>a. a\<lparr>ja_recruiter_id := Some (rr_id r), ja_recruiter_name := Some (rr_name r), ja_recruiter_email := Some (rr_email r),
               ja_updated_at := now\<rparr>) (db_applications (kb_apps db));
          db1 = db\<lparr>kb_apps := (kb_apps db)\<lparr>db_applications := apps\<rparr>\<rparr>;
          this = (\<lambda>e. ke_legacy_user_id e = Some (ks_user_id x) \<and> ke_provider_message_id e = em_email_id (ks_email x))
      in if find_row this (kb_emails db) = None then (Inl (PrismaError ''P2025''), db1)
         else (Inr r, db1\<lparr>kb_emails := update_many this
           (\<lambda>e. e\<lparr>ke_application_id := Some (ks_application_id x), ke_recruiter_id := Some (rr_id r)\<rparr>) (kb_emails db)\<rparr>))"

definition sync_recruiter_from_email :: "time \<Rightarrow> uid \<Rightarrow> uid \<Rightarrow> (nat \<Rightarrow> uid) \<Rightarrow> recruiter_sync_input \<Rightarrow> contact_db
    \<Rightarrow> (recruiter option, contact_db) outcome" where
  "sync_recruiter_from_email now fresh fresh_company fresh_alias x db =
     (case ensure_application_access (ks_user_id x) (ks_application_id x) (kb_apps db) of
        Inl e \<Rightarrow> (Inl e, db)
      | Inr _ \<Rightarrow>
          let email = option_or (ks_recruiter_email x) (em_sender (ks_email x))
          in if email = [] then (Inr None, db)
             else case resolve_company fresh_company fresh_alias (plain_input (ks_company_name x) (ks_company_domain x)) (kb_companies db) of
                    (Inl e, cdb) \<Rightarrow> (Inl e, db\<lparr>kb_companies := cdb\<rparr>)
                  | (Inr c, cdb) \<Rightarrow>
                      (case upsert_recruiter now fresh (cy_id c) email x (kb_recruiters db) of
                         (r, rows) \<Rightarrow> andthen (link_recruiter now r x (db\<lparr>kb_companies := cdb, kb_recruiters := rows\<rparr>)) (\<lambda>r s. (Inr (Some r), s))))"

subsection \<open>Lists\<close>

record recruiter_filters =
  kf_company :: "string option"
  kf_name :: "string option"

definition contains_ci :: "string \<Rightarrow> string \<Rightarrow> bool" where
  "contains_ci s part = str_includes (to_lower s) (to_lower part)"

definition applications_of :: "uid \<Rightarrow> recruiter \<Rightarrow> contact_db \<Rightarrow> job_application list" where
  "applications_of user r db = find_many (\<lambda>a. ja_recruiter_id a = Some (rr_id r) \<and> ja_user_id a = user) (db_applications (kb_apps db))"

definition emails_of :: "uid \<Rightarrow> recruiter \<Rightarrow> contact_db \<Rightarrow> linked_email list" where
  "emails_of user r db = find_many (\<lambda>e. ke_recruiter_id e = Some (rr_id r) \<and> ke_user_id e = Some user) (kb_emails db)"

definition recruiter_company :: "recruiter \<Rightarrow> contact_db \<Rightarrow> company option" where
  "recruiter_company r db = find_row (\<lambda>c. cy_id c = rr_company_id r) (cb_companies (kb_companies db))"

text \<open>The conditions of a search are alternatives; without any, all recruiters are searched.\<close>

definition search_conditions :: "recruiter_filters \<Rightarrow> contact_db \<Rightarrow> (recruiter \<Rightarrow> bool) list" where
  "search_conditions f db =
     (case truthy (kf_name f) of None \<Rightarrow> [] | Some n \<Rightarrow> [\<lambda>r. contains_ci (rr_name r) n])
     @ (case truthy (kf_company f) of None \<Rightarrow> []
        | Some n \<Rightarrow> [\<lambda>r. case recruiter_company r db of None \<Rightarrow> False | Some c \<Rightarrow> contains_ci (cy_name c) n,
                     \<lambda>r. case recruiter_company r db of None \<Rightarrow> False | Some c \<Rightarrow> contains_ci (cy_domain c) n])"

record recruiter_list_item =
  kl_recruiter :: recruiter
  kl_application_count :: nat
  kl_total_emails :: nat
  kl_last_contact_at :: "time option"

definition list_recruiters :: "uid \<Rightarrow> recruiter_filters \<Rightarrow> pagination_input option \<Rightarrow> contact_db \<Rightarrow> recruiter_list_item list" where
  "list_recruiters user f pagination db =
     (let conditions = search_conditions f db;
          rows = sort_key (\<lambda>r. - rr_updated_at r) (find_many (\<lambda>r. (conditions = [] \<or> list_ex (\<lambda>c. c r) conditions)
            \<and> applications_of user r db \<noteq> []) (kb_recruiters db))
      in map (\<lambda>r. \<lparr>kl_recruiter = r, kl_application_count = length (applications_of user r db),
           kl_total_emails = length (emails_of user r db),
           kl_last_contact_at = (case map ke_received_at (emails_of user r db) of [] \<Rightarrow> None | t # ts \<Rightarrow> Some (fold max ts t))\<rparr>)
         (paged (resolve_pagination pagination) rows))"

subsection \<open>Insights\<close>

text \<open>The times of each thread, in the order in which the threads first occur.\<close>

definition threads_of :: "linked_email list \<Rightarrow> string list" where
  "threads_of es = rev (remdups (rev (map ke_thread_id es)))"

definition thread_times :: "linked_email list \<Rightarrow> time list list" where
  "thread_times es = map (\<lambda>k. sort (map ke_received_at (filter (\<lambda>e. ke_thread_id e = k) es))) (threads_of es)"

definition time_deltas :: "time list \<Rightarrow> rat list" where
  "time_deltas ts = map2 (\<lambda>a b. of_int (b - a) / 60000) ts (tl ts)"

definition average_response_time_minutes :: "linked_email list \<Rightarrow> rat" where
  "average_response_time_minutes es =
     (let deltas = concat (map time_deltas (thread_times es))
      in if deltas = [] then 0
         else of_int \<lfloor>sum_list deltas / of_nat (length deltas) * 10 + 1 / 2\<rfloor> / 10)"

record recruiter_insight =
  kn_recruiter :: recruiter
  kn_first_contact_at :: "time option"
  kn_last_contact_at :: "time option"
  kn_total_emails :: nat
  kn_average_response :: rat
  kn_application_count :: nat
  kn_conversations :: "linked_email list"

definition build_insight :: "recruiter \<Rightarrow> job_application list \<Rightarrow> linked_email list \<Rightarrow> recruiter_insight" where
  "build_insight r apps es = \<lparr>kn_recruiter = r,
     kn_first_contact_at = (if es = [] then None else Some (ke_received_at (hd es))),
     kn_last_contact_at = (if es = [] then None else Some (ke_received_at (last es))),
     kn_total_emails = length es, kn_average_response = average_response_time_minutes es,
     kn_application_count = length apps, kn_conversations = es\<rparr>"

definition recruiter_links :: "contact_db \<Rightarrow> (uid \<times> uid list) list" where
  "recruiter_links db = map (\<lambda>r. (rr_id r, map ja_id (find_many (\<lambda>a. ja_recruiter_id a = Some (rr_id r)) (db_applications (kb_apps db))))) (kb_recruiters db)"

definition get_recruiter :: "uid \<Rightarrow> uid \<Rightarrow> contact_db \<Rightarrow> error + recruiter_insight" where
  "get_recruiter user i db =
     (case ensure_recruiter_access user i (recruiter_links db) (kb_apps db) of
        Inl e \<Rightarrow> Inl e
      | Inr _ \<Rightarrow> (case find_row (\<lambda>r. rr_id r = i) (kb_recruiters db) of
          None \<Rightarrow> Inl (NotFoundError ''Recruiter'' i)
        | Some r \<Rightarrow> Inr (build_insight r (applications_of user r db) (sort_key ke_received_at (emails_of user r db)))))"

definition get_recruiter_by_application :: "uid \<Rightarrow> uid \<Rightarrow> contact_db \<Rightarrow> error + recruiter_insight option" where
  "get_recruiter_by_application user app db =
     (case find_row (\<lambda>a. ja_id a = app \<and> ja_user_id a = user) (db_applications (kb_apps db)) of
        None \<Rightarrow> Inr None
      | Some a \<Rightarrow> (case truthy (ja_recruiter_id a) of None \<Rightarrow> Inr None | Some i \<Rightarrow> map_result Some (get_recruiter user i db)))"

subsection \<open>Links\<close>

definition sample_row :: job_application where
  "sample_row = \<lparr>ja_id = ''p'', ja_user_id = ''u'', ja_legacy_user_id = None, ja_company_id = None, ja_opportunity_id = None,
     ja_snapshot_id = None, ja_company_name = None, ja_company_domain = None, ja_role_title = None, ja_status = ''APPLIED'',
     ja_source_provider = ''MANUAL'', ja_applied_date = None, ja_last_activity_at = 0, ja_recruiter_id = None, ja_recruiter_name = None,
     ja_recruiter_email = None, ja_current_stage = None, ja_thread_ids = [], ja_ats_application_id = None, ja_candidate_email = None,
     ja_role_department = None, ja_source_email_id = None, ja_location = None, ja_employment_type = None, ja_interview_rounds = 0,
     ja_deadlines = [], ja_updated_at = 0\<rparr>"

text \<open>A recruiter is known by company and address.\<close>

abbreviation recruiter_key :: "recruiter \<Rightarrow> uid \<times> string" where
  "recruiter_key r \<equiv> (rr_company_id r, rr_email r)"

lemma upsert_recruiter_spec:
  assumes "distinct (map recruiter_key rows)" and "upsert_recruiter now fresh cid email x rows = (r, rows')"
  shows "r \<in> set rows' \<and> distinct (map recruiter_key rows') \<and> recruiter_key r = (cid, email)
    \<and> find_many (\<lambda>s. recruiter_key s \<noteq> (cid, email)) rows' = find_many (\<lambda>s. recruiter_key s \<noteq> (cid, email)) rows"
proof (cases "find_row (\<lambda>r. rr_company_id r = cid \<and> rr_email r = email) rows")
  case None
  then have "(cid, email) \<notin> recruiter_key ` set rows" by (auto simp: find_row_None_iff)
  then show ?thesis using assms None by (auto simp: upsert_recruiter_def find_many_def Let_def)
next
  case (Some s)
  let ?upd = "\<lambda>r. r\<lparr>rr_name := synced_name x email, rr_title := synced_title x, rr_updated_at := now\<rparr>"
  have r: "r = ?upd s" "rows' = update_many (\<lambda>s. rr_company_id s = cid \<and> rr_email s = email) ?upd rows"
    using assms(2) Some by (auto simp: upsert_recruiter_def Let_def)
  have "find_many (\<lambda>s. recruiter_key s \<noteq> (cid, email)) (update_many (\<lambda>s. rr_company_id s = cid \<and> rr_email s = email) ?upd xs)
      = find_many (\<lambda>s. recruiter_key s \<noteq> (cid, email)) xs" for xs
    by (induction xs) (auto simp: find_many_def)
  moreover have "s \<in> set rows" "recruiter_key s = (cid, email)" using find_row_SomeD [OF Some] by auto
  ultimately show ?thesis using assms(1) by (auto simp: r set_update_many map_update_many_key)
qed

lemma link_recruiter_Inr:
  assumes "link_recruiter now r x db = (Inr r', db')"
  shows "r' = r \<and> kb_recruiters db' = kb_recruiters db
    \<and> (\<forall>a\<in>set (db_applications (kb_apps db')). ja_id a = ks_application_id x \<longrightarrow>
         ja_recruiter_id a = Some (rr_id r) \<and> ja_recruiter_email a = Some (rr_email r))
    \<and> find_many (\<lambda>a. ja_id a \<noteq> ks_application_id x) (db_applications (kb_apps db'))
        = find_many (\<lambda>a. ja_id a \<noteq> ks_application_id x) (db_applications (kb_apps db))
    \<and> (\<exists>e\<in>set (kb_emails db'). ke_provider_message_id e = em_email_id (ks_email x) \<and> ke_legacy_user_id e = Some (ks_user_id x)
         \<and> ke_application_id e = Some (ks_application_id x) \<and> ke_recruiter_id e = Some (rr_id r))
    \<and> find_many (\<lambda>e. ke_provider_message_id e \<noteq> em_email_id (ks_email x)) (kb_emails db')
        = find_many (\<lambda>e. ke_provider_message_id e \<noteq> em_email_id (ks_email x)) (kb_emails db)"
proof -
  define this_mail where "this_mail = (\<lambda>e :: linked_email. ke_legacy_user_id e = Some (ks_user_id x) \<and> ke_provider_message_id e = em_email_id (ks_email x))"
  define app_upd where "app_upd = (\<lambda>a :: job_application. a\<lparr>ja_recruiter_id := Some (rr_id r), ja_recruiter_name := Some (rr_name r),
    ja_recruiter_email := Some (rr_email r), ja_updated_at := now\<rparr>)"
  define mail_upd where "mail_upd = (\<lambda>e :: linked_email. e\<lparr>ke_application_id := Some (ks_application_id x), ke_recruiter_id := Some (rr_id r)\<rparr>)"
  have ne: "find_row this_mail (kb_emails db) \<noteq> None" and r: "r' = r"
    and db': "db' = db\<lparr>kb_apps := (kb_apps db)\<lparr>db_applications := update_many (\<lambda>a. ja_id a = ks_application_id x) app_upd (db_applications (kb_apps db))\<rparr>,
      kb_emails := update_many this_mail mail_upd (kb_emails db)\<rparr>"
    using assms unfolding link_recruiter_def this_mail_def app_upd_def mail_upd_def Let_def by (auto split: if_splits)
  have apps: "find_many (\<lambda>a. ja_id a \<noteq> i) (update_many (\<lambda>a. ja_id a = i) app_upd xs) = find_many (\<lambda>a. ja_id a \<noteq> i) xs" for i xs
    by (induction xs) (auto simp: find_many_def app_upd_def)
  have mails: "find_many (\<lambda>e. ke_provider_message_id e \<noteq> em_email_id (ks_email x)) (update_many this_mail mail_upd xs)
      = find_many (\<lambda>e. ke_provider_message_id e \<noteq> em_email_id (ks_email x)) xs" for xs
    by (induction xs) (auto simp: find_many_def mail_upd_def this_mail_def)
  obtain e where e: "e \<in> set (kb_emails db)" "this_mail e" using ne find_row_SomeD by (metis not_None_eq)
  then have "mail_upd e \<in> set (update_many this_mail mail_upd (kb_emails db))" unfolding set_update_many by (intro image_eqI [of _ _ e]) simp_all
  then have m: "mail_upd e \<in> set (kb_emails db')" by (simp add: db')
  have "ke_provider_message_id (mail_upd e) = em_email_id (ks_email x)" "ke_legacy_user_id (mail_upd e) = Some (ks_user_id x)"
    "ke_application_id (mail_upd e) = Some (ks_application_id x)" "ke_recruiter_id (mail_upd e) = Some (rr_id r)"
    using e(2) by (simp_all add: mail_upd_def this_mail_def)
  with m have linked: "\<exists>e\<in>set (kb_emails db'). ke_provider_message_id e = em_email_id (ks_email x) \<and> ke_legacy_user_id e = Some (ks_user_id x)
      \<and> ke_application_id e = Some (ks_application_id x) \<and> ke_recruiter_id e = Some (rr_id r)" by blast
  have upd: "\<forall>a\<in>set (update_many (\<lambda>a. ja_id a = i) app_upd as). ja_id a = i \<longrightarrow> ja_recruiter_id a = Some (rr_id r) \<and> ja_recruiter_email a = Some (rr_email r)"
    for as i
  proof
    fix a assume "a \<in> set (update_many (\<lambda>a. ja_id a = i) app_upd as)"
    then obtain b where "a = (if ja_id b = i then app_upd b else b)" by (auto simp only: set_update_many image_iff)
    then show "ja_id a = i \<longrightarrow> ja_recruiter_id a = Some (rr_id r) \<and> ja_recruiter_email a = Some (rr_email r)"
      by (cases "ja_id b = i") (simp_all add: app_upd_def)
  qed
  have fields: "kb_recruiters db' = kb_recruiters db" "kb_emails db' = update_many this_mail mail_upd (kb_emails db)"
    "db_applications (kb_apps db') = update_many (\<lambda>a. ja_id a = ks_application_id x) app_upd (db_applications (kb_apps db))"
    by (simp_all add: db')
  show ?thesis
    by (intro conjI r fields(1) linked; unfold fields(2,3); rule upd apps mails)
qed



subsection \<open>Response times\<close>

lemma time_deltas_Cons2: "time_deltas (a # b # ts) = (of_int (b - a) / 60000) # time_deltas (b # ts)"
  by (simp add: time_deltas_def)

lemma time_deltas_span: "ts \<noteq> [] \<Longrightarrow> sum_list (time_deltas ts) = of_int (last ts - hd ts) / 60000 \<and> length (time_deltas ts) = length ts - 1"
proof (induction ts)
  case (Cons a ts)
  then show ?case by (cases ts) (auto simp: time_deltas_Cons2 time_deltas_def diff_divide_distrib)
qed simp

lemma partition_lengths:
  assumes "distinct ks" and "f ` set xs \<subseteq> set ks"
  shows "sum_list (map (\<lambda>k. length (filter (\<lambda>x. f x = k) xs)) ks) = length xs"
  using assms(2)
proof (induction xs)
  case (Cons x xs)
  have "sum_list (map (\<lambda>k. length (filter (\<lambda>y. f y = k) (x # xs))) ks)
      = sum_list (map (\<lambda>k. (if f x = k then 1 else 0) + length (filter (\<lambda>y. f y = k) xs)) ks)"
    by (intro arg_cong [where f = sum_list] map_cong) auto
  also have "\<dots> = sum_list (map (\<lambda>k. if f x = k then 1 else 0) ks) + length xs"
    using Cons by (simp add: sum_list_addf)
  also have "sum_list (map (\<lambda>k. if f x = k then 1 else 0) ks) = (1 :: nat)"
    using assms(1) Cons.prems by (simp add: sum_list_distinct_conv_sum_set)
  finally show ?case by simp
qed simp

lemma thread_times_ne:
  assumes "ts \<in> set (thread_times es)"
  shows "ts \<noteq> []"
proof -
  from assms obtain e where e: "e \<in> set es" "ts = sort (map ke_received_at (filter (\<lambda>f. ke_thread_id f = ke_thread_id e) es))"
    by (auto simp: thread_times_def threads_of_def)
  then have "length ts \<noteq> 0" by (auto simp: filter_empty_conv)
  then show ?thesis by auto
qed

lemma gaps_of_threads:
  assumes "\<forall>ts\<in>set tss. ts \<noteq> []"
  shows "sum_list (concat (map time_deltas tss)) = of_int (sum_list (map (\<lambda>ts. last ts - hd ts) tss)) / 60000
    \<and> length (concat (map time_deltas tss)) + length tss = sum_list (map length tss)"
  using assms
proof (induction tss)
  case (Cons ts tss)
  then have "sum_list (time_deltas ts) = of_int (last ts - hd ts) / 60000" "length (time_deltas ts) = length ts - 1" "1 \<le> length ts"
    using time_deltas_span [of ts] by (auto simp: Suc_le_eq)
  moreover have "sum_list (concat (map time_deltas tss)) = of_int (sum_list (map (\<lambda>ts. last ts - hd ts) tss)) / 60000
    \<and> length (concat (map time_deltas tss)) + length tss = sum_list (map length tss)" using Cons by simp
  ultimately show ?case by (auto simp: add_divide_distrib diff_divide_distrib)
qed simp

text \<open>
  The mean response time is the time from the first to the last message of each thread, over
  the number of messages that answer another of their thread, rounded to a tenth of a minute.
\<close>

lemma response_time_closed_form:
  "average_response_time_minutes es =
     (let span = sum_list (map (\<lambda>ts. last ts - hd ts) (thread_times es)); gaps = length es - length (threads_of es)
      in if gaps = 0 then 0 else of_int \<lfloor>(of_int span :: rat) / 60000 / of_nat gaps * 10 + 1 / 2\<rfloor> / 10)"
proof -
  let ?d = "concat (map time_deltas (thread_times es))"
  have g: "sum_list ?d = of_int (sum_list (map (\<lambda>ts. last ts - hd ts) (thread_times es))) / 60000"
    "length ?d + length (thread_times es) = sum_list (map length (thread_times es))"
    using gaps_of_threads [of "thread_times es"] thread_times_ne by blast+
  have "sum_list (map length (thread_times es)) = length es"
    using partition_lengths [of "threads_of es" ke_thread_id es] by (simp add: thread_times_def threads_of_def comp_def)
  then have l: "length ?d = length es - length (threads_of es)" using g(2) by (simp add: thread_times_def)
  then show ?thesis unfolding average_response_time_minutes_def Let_def g(1) l length_0_conv [symmetric] by simp
qed

end
