(* ===== verification/Mutex.thy ===== *)
theory Mutex
  imports Prelude
begin

text \<open>
  The distributed lock of \<open>lib/mutex.ts\<close>, over two Redis commands: \<open>SET key token EX ttl NX\<close>
  and the script that deletes a key if it holds a token. Times are milliseconds; fresh tokens
  are arguments.
\<close>

record 'm lock_commands =
  lk_set_nx :: "time \<Rightarrow> string \<Rightarrow> string \<Rightarrow> int \<Rightarrow> 'm \<Rightarrow> (bool, 'm) outcome"
  lk_delete_if :: "time \<Rightarrow> string \<Rightarrow> string \<Rightarrow> 'm \<Rightarrow> (nat, 'm) outcome"

definition acquire_lock :: "'m lock_commands \<Rightarrow> time \<Rightarrow> string \<Rightarrow> string \<Rightarrow> int \<Rightarrow> 'm \<Rightarrow> string option \<times> 'm" where
  "acquire_lock L now token key ttl_seconds m =
     (case lk_set_nx L now key token ttl_seconds m of
        (Inl _, m') \<Rightarrow> (None, m')
      | (Inr ok, m') \<Rightarrow> (if ok then Some token else None, m'))"

definition release_lock :: "'m lock_commands \<Rightarrow> time \<Rightarrow> string \<Rightarrow> string \<Rightarrow> 'm \<Rightarrow> 'm" where
  "release_lock L now key token m = snd (lk_delete_if L now key token m)"

subsection \<open>Mutual exclusion\<close>

text \<open>
  What Redis documents, with \<open>held m t k\<close> the token of a key at a time: a key is set only if it
  is free, and for its time to live; the script removes a key only if it holds the token given.
  A command that throws may still have been carried out, and an entry may be lost on a failure
  of a command, but not to another command.
\<close>

definition locks_documented :: "'m lock_commands \<Rightarrow> ('m \<Rightarrow> time \<Rightarrow> string \<Rightarrow> string option) \<Rightarrow> bool" where
  "locks_documented L held =
     ((\<forall>now k x ttl m m'. lk_set_nx L now k x ttl m = (Inr True, m') \<longrightarrow>
         held m now k = None \<and> (\<forall>t. now \<le> t \<longrightarrow> t < now + 1000 * ttl \<longrightarrow> held m' t k = Some x))
      \<and> (\<forall>now k x ttl m t j. (held m now k \<noteq> None \<or> j \<noteq> k) \<longrightarrow> held (snd (lk_set_nx L now k x ttl m)) t j = held m t j)
      \<and> (\<forall>now k x m t j. (held m now k \<noteq> Some x \<or> j \<noteq> k) \<longrightarrow> held (snd (lk_delete_if L now k x m)) t j = held m t j))"

datatype lock_op = Acquire time string string int | Release time string string

fun lock_time :: "lock_op \<Rightarrow> time" where
  "lock_time (Acquire t _ _ _) = t"
| "lock_time (Release t _ _) = t"

fun lock_step :: "'m lock_commands \<Rightarrow> lock_op \<Rightarrow> 'm \<Rightarrow> 'm" where
  "lock_step L (Acquire now token key ttl) m = snd (acquire_lock L now token key ttl m)"
| "lock_step L (Release now key token) m = release_lock L now key token m"

lemma acquired:
  assumes "locks_documented L held" and "acquire_lock L now token key ttl m = (Some x, m')"
  shows "x = token \<and> held m now key = None \<and> (\<forall>t. now \<le> t \<longrightarrow> t < now + 1000 * ttl \<longrightarrow> held m' t key = Some token)"
proof -
  obtain r m1 where s: "lk_set_nx L now key token ttl m = (r, m1)" by fastforce
  with assms(2) have r: "r = Inr True" "x = token" "m' = m1"
    by (auto simp: acquire_lock_def split: sum.splits if_splits)
  have "\<forall>now k x ttl m m'. lk_set_nx L now k x ttl m = (Inr True, m') \<longrightarrow>
      held m now k = None \<and> (\<forall>t. now \<le> t \<longrightarrow> t < now + 1000 * ttl \<longrightarrow> held m' t k = Some x)"
    using assms(1) unfolding locks_documented_def by (rule conjunct1)
  then show ?thesis using s r by simp
qed

lemma lock_step_keeps:
  assumes "locks_documented L held" and "held m (lock_time x) key = Some token"
    and "\<forall>t. x \<noteq> Release t key token"
  shows "held (lock_step L x m) t key = held m t key"
proof (cases x)
  case (Acquire now token' k ttl)
  obtain r m1 where s: "lk_set_nx L now k token' ttl m = (r, m1)" by fastforce
  have "held (snd (lk_set_nx L now k token' ttl m)) t key = held m t key"
    using assms(1,2) Acquire unfolding locks_documented_def by (metis lock_time.simps(1) option.distinct(1))
  then show ?thesis using Acquire s by (cases r) (simp_all add: acquire_lock_def)
next
  case (Release now k token')
  then have "k \<noteq> key \<or> token' \<noteq> token" using assms(3) by blast
  then have "held (snd (lk_delete_if L now k token' m)) t key = held m t key"
    using assms(1,2) Release unfolding locks_documented_def by (metis lock_time.simps(2) option.inject)
  then show ?thesis using Release by (simp add: release_lock_def)
qed


text \<open>An instance: the server as a map from keys to tokens and expiry times.\<close>

definition map_held :: "(string \<Rightarrow> (string \<times> time) option) \<Rightarrow> time \<Rightarrow> string \<Rightarrow> string option" where
  "map_held m t k = (case m k of Some (x, e) \<Rightarrow> if t < e then Some x else None | None \<Rightarrow> None)"

definition map_locks :: "(string \<Rightarrow> (string \<times> time) option) lock_commands" where
  "map_locks = \<lparr>lk_set_nx = (\<lambda>now k x ttl m. if map_held m now k = None then (Inr True, m(k \<mapsto> (x, now + 1000 * ttl))) else (Inr False, m)),
     lk_delete_if = (\<lambda>now k x m. if map_held m now k = Some x then (Inr 1, m(k := None)) else (Inr 0, m))\<rparr>"

lemma map_locks_documented: "locks_documented map_locks map_held"
  unfolding locks_documented_def by (auto simp: map_locks_def map_held_def split: if_splits)


end
