(* ===== verification/Opportunities.thy ===== *)
theory Opportunities
  imports Companies Mutex "HOL-Library.AList"
begin

unbundle bit_operations_syntax

text \<open>
  Opportunity resolution (\<open>OpportunityService\<close> of \<open>services/opportunity/opportunity.service.ts\<close>):
  from the company, title and location of an email to a canonical opportunity. Rows are lists in
  insertion order; a query without an order gives the first. One resolver runs: what the unique
  index answers to a concurrent one is not modelled. Salary ranges are their JSON text.
\<close>

type_synonym json_object = "(string \<times> json) list"

record opportunity =
  op_id :: uid
  op_company_id :: uid
  op_title :: string
  op_normalized_title :: string
  op_description :: "string option"
  op_location :: "string option"
  op_normalized_location :: string
  op_salary_range :: "string option"
  op_url :: "string option"
  op_requirements :: "string list option"
  op_source_metadata :: "json_object option"
  op_first_seen_at :: time
  op_last_seen_at :: time

record observation =
  ob_id :: uid
  ob_opportunity_id :: uid
  ob_source_id :: string
  ob_title :: string
  ob_description :: "string option"
  ob_location :: "string option"
  ob_compensation :: "string option"
  ob_requirements :: "string list option"
  ob_url :: "string option"
  ob_hiring_info :: "json_object option"
  ob_is_current :: bool
  ob_superseded_by_id :: "uid option"
  ob_superseded_at :: "time option"

record opportunity_db =
  pd_opportunities :: "opportunity list"
  pd_observations :: "observation list"
  pd_companies :: company_db

record opportunity_input =
  ox_company_name :: string
  ox_role_title :: string
  ox_location :: "string option"
  ox_url :: "string option"
  ox_description :: "string option"
  ox_salary_range :: "string option"
  ox_requirements :: "string list option"
  ox_source_email_id :: "string option"
  ox_company_domain :: "string option"
  ox_source_metadata :: "json_object option"

subsection \<open>Titles and locations\<close>

definition TITLE_NOISE_WORDS :: "string list" where
  "TITLE_NOISE_WORDS = [''senior'', ''sr'', ''lead'', ''principal'', ''staff'', ''junior'', ''jr'', ''entry'', ''entrylevel'', ''mid'', ''midlevel'',
     ''i'', ''ii'', ''iii'', ''iv'', ''v'', ''level'', ''1'', ''2'', ''3'', ''4'', ''5'', ''associate'', ''intern'', ''internship'', ''fellow'',
     ''director'', ''vp'', ''head'', ''chief'', ''manager'']"

definition normalize_title :: "string \<Rightarrow> string" where
  "normalize_title raw = join_on '' '' (filter (\<lambda>t. t \<notin> set TITLE_NOISE_WORDS) (plain_words (to_lower raw)))"

definition normalize_location :: "string option \<Rightarrow> string" where
  "normalize_location raw = (case truthy raw of None \<Rightarrow> [] | Some s \<Rightarrow> join_on '' '' (plain_words (to_lower s)))"

text \<open>The threshold is 0.75; the quotients are compared without dividing.\<close>

definition titles_are_similar :: "string \<Rightarrow> string \<Rightarrow> bool" where
  "titles_are_similar a b =
     (if a = b then True
      else if a = [] \<or> b = [] then False
      else (let (shorter, longer) = (if length a \<le> length b then (a, b) else (b, a))
        in if str_includes longer shorter then 3 * length longer \<le> 4 * length shorter
           else (let ts = set (space_words shorter); bs = space_words longer; matches = length (filter (\<lambda>t. t \<in> ts) bs)
             in bs \<noteq> [] \<and> 3 * length bs \<le> 4 * matches)))"

definition is_richer_text :: "string option \<Rightarrow> string option \<Rightarrow> bool" where
  "is_richer_text existing incoming = (case truthy incoming of None \<Rightarrow> False
     | Some t \<Rightarrow> length t > length (option_or existing []))"

definition infer_domain :: "string \<Rightarrow> string" where
  "infer_domain name = first_text (filter is_word_char (to_lower name)) ''unknown'' @ ''.com''"

text \<open>The hash is computed on 32-bit integers and printed in base 36.\<close>

definition digit36 :: "nat \<Rightarrow> char" where
  "digit36 n = (if n < 10 then char_of (48 + n) else char_of (87 + n))"

fun show36 :: "nat \<Rightarrow> string" where
  "show36 n = (if n < 36 then [digit36 n] else show36 (n div 36) @ [digit36 (n mod 36)])"

declare show36.simps [simp del]

definition hash_pair :: "string \<Rightarrow> string \<Rightarrow> string" where
  "hash_pair a b =
     (let h = foldl (\<lambda>h c. push_bit 5 h - h + of_nat (of_char c)) (0 :: 32 word) (a @ ''|'' @ b)
      in show36 (nat \<bar>sint h\<bar>))"

subsection \<open>Enrichment\<close>

text \<open>\<open>{...a, ...b}\<close>: the keys keep their place, later values win.\<close>

definition spread :: "json_object \<Rightarrow> json_object \<Rightarrow> json_object" where
  "spread a b = fold (\<lambda>(k, v) m. AList.update k v m) b a"

definition touched_metadata :: "opportunity_input \<Rightarrow> json_object option \<Rightarrow> json_object option" where
  "touched_metadata x current =
     (if truthy (ox_source_email_id x) \<noteq> None \<or> ox_source_metadata x \<noteq> None
      then Some (spread (spread (option_or current []) (option_or (ox_source_metadata x) []))
        (case truthy (ox_source_email_id x) of None \<Rightarrow> [] | Some i \<Rightarrow> [(''lastSourceEmailId'', JStr i)]))
      else current)"

definition touched :: "time \<Rightarrow> opportunity_input \<Rightarrow> opportunity \<Rightarrow> opportunity" where
  "touched now x r = r\<lparr>op_last_seen_at := now,
     op_description := (if is_richer_text (op_description r) (ox_description x) then ox_description x else op_description r),
     op_url := (if truthy (op_url r) = None \<and> truthy (ox_url x) \<noteq> None then ox_url x else op_url r),
     op_location := (if truthy (op_location r) = None \<and> truthy (ox_location x) \<noteq> None then ox_location x else op_location r),
     op_salary_range := (if truthy (op_salary_range r) = None \<and> ox_salary_range x \<noteq> None then ox_salary_range x else op_salary_range r),
     op_requirements := (case ox_requirements x of
         Some (q # qs) \<Rightarrow> (if op_requirements r = None then Some (q # qs) else op_requirements r) | _ \<Rightarrow> op_requirements r),
     op_source_metadata := touched_metadata x (op_source_metadata r)\<rparr>"

definition record_observation :: "time \<Rightarrow> uid \<Rightarrow> uid \<Rightarrow> opportunity_input \<Rightarrow> observation list \<Rightarrow> observation list" where
  "record_observation now fresh i x rows =
     update_many (\<lambda>b. ob_opportunity_id b = i \<and> ob_id b \<noteq> fresh \<and> ob_is_current b)
       (\<lambda>b. b\<lparr>ob_is_current := False, ob_superseded_by_id := Some fresh, ob_superseded_at := Some now\<rparr>)
       (rows @ [\<lparr>ob_id = fresh, ob_opportunity_id = i, ob_source_id = option_or (ox_source_email_id x) (''manual:'' @ i),
          ob_title = ox_role_title x, ob_description = ox_description x, ob_location = ox_location x, ob_compensation = ox_salary_range x,
          ob_requirements = Some (option_or (ox_requirements x) []), ob_url = ox_url x,
          ob_hiring_info = Some (option_or (ox_source_metadata x) []),
          ob_is_current = True, ob_superseded_by_id = None, ob_superseded_at = None\<rparr>])"

definition touch_opportunity :: "time \<Rightarrow> uid \<Rightarrow> uid \<Rightarrow> opportunity_input \<Rightarrow> opportunity_db \<Rightarrow> opportunity_db" where
  "touch_opportunity now fresh i x db =
     (if find_row (\<lambda>r. op_id r = i) (pd_opportunities db) = None then db
      else db\<lparr>pd_opportunities := update_many (\<lambda>r. op_id r = i) (touched now x) (pd_opportunities db),
        pd_observations := record_observation now fresh i x (pd_observations db)\<rparr>)"

text \<open>A new row takes the default of the schema, an empty list, where no requirements are given.\<close>

definition new_opportunity :: "time \<Rightarrow> uid \<Rightarrow> uid \<Rightarrow> opportunity_input \<Rightarrow> string \<Rightarrow> string \<Rightarrow> opportunity" where
  "new_opportunity now fresh company_id x nt nl = \<lparr>op_id = fresh, op_company_id = company_id, op_title = ox_role_title x,
     op_normalized_title = nt, op_description = ox_description x, op_location = ox_location x, op_normalized_location = nl,
     op_salary_range = ox_salary_range x, op_url = ox_url x, op_requirements = Some (option_or (ox_requirements x) []),
     op_source_metadata = (if ox_source_metadata x \<noteq> None \<or> truthy (ox_source_email_id x) \<noteq> None
       then Some (spread (option_or (ox_source_metadata x) []) (case truthy (ox_source_email_id x) of None \<Rightarrow> []
         | Some i \<Rightarrow> [(''initialSourceEmailId'', JStr i)])) else None),
     op_first_seen_at = now, op_last_seen_at = now\<rparr>"

subsection \<open>Resolution\<close>

text \<open>\<open>contains\<close> in insensitive mode, on ASCII; the characters that Postgres reads as wildcards stand for themselves.\<close>

definition title_contains :: "string \<Rightarrow> string \<Rightarrow> bool" where
  "title_contains title part = str_includes (to_lower title) (to_lower part)"

definition location_matches :: "string \<Rightarrow> opportunity \<Rightarrow> bool" where
  "location_matches nl r =
     (let c = normalize_location (op_location r)
      in nl \<noteq> [] \<and> c \<noteq> [] \<and> (nl = c \<or> str_includes c nl \<or> str_includes nl c))"

text \<open>The steps of the resolution, the first match deciding.\<close>

definition find_opportunity :: "uid \<Rightarrow> opportunity_input \<Rightarrow> opportunity list \<Rightarrow> opportunity option" where
  "find_opportunity company_id x rows =
     (let nt = normalize_title (ox_role_title x); nl = normalize_location (ox_location x);
          candidates = find_many (\<lambda>r. op_company_id r = company_id \<and> title_contains (op_title r) (ox_role_title x)) rows;
          similar = (\<lambda>r. titles_are_similar nt (normalize_title (op_title r)))
      in or_else (case truthy (ox_url x) of None \<Rightarrow> None | Some u \<Rightarrow> find_row (\<lambda>r. op_company_id r = company_id \<and> op_url r = Some u) rows)
           (or_else (find_row (\<lambda>r. op_company_id r = company_id \<and> op_normalized_title r = nt \<and> op_normalized_location r = nl) rows)
             (or_else (find_row (\<lambda>r. similar r \<and> location_matches nl r) candidates)
               (find_row similar candidates))))"

text \<open>The callback \<open>run\<close>: the id and whether the opportunity is new.\<close>

definition run_resolution :: "time \<Rightarrow> uid \<Rightarrow> uid \<Rightarrow> uid \<Rightarrow> opportunity_input \<Rightarrow> opportunity_db \<Rightarrow> (uid \<times> bool) \<times> opportunity_db" where
  "run_resolution now fresh fresh_obs company_id x db =
     (case find_opportunity company_id x (pd_opportunities db) of
        Some r \<Rightarrow> ((op_id r, False), touch_opportunity now fresh_obs (op_id r) x db)
      | None \<Rightarrow> ((fresh, True), db\<lparr>pd_opportunities := pd_opportunities db
          @ [new_opportunity now fresh company_id x (normalize_title (ox_role_title x)) (normalize_location (ox_location x))]\<rparr>))"

record fresh_ids =
  fi_company :: uid
  fi_alias :: "nat \<Rightarrow> uid"
  fi_opportunity :: uid
  fi_observation :: uid
  fi_token :: string

definition company_of_input :: "opportunity_input \<Rightarrow> company_input" where
  "company_of_input x = plain_input (ox_company_name x) (option_or (ox_company_domain x) (infer_domain (ox_company_name x)))"

text \<open>A lock that is not given does not stop the resolution.\<close>

definition resolve_opportunity :: "'m lock_commands \<Rightarrow> time \<Rightarrow> fresh_ids \<Rightarrow> opportunity_input \<Rightarrow> opportunity_db \<times> 'm
    \<Rightarrow> (uid \<times> bool, opportunity_db \<times> 'm) outcome" where
  "resolve_opportunity L now fi x st =
     (case resolve_company (fi_company fi) (fi_alias fi) (company_of_input x) (pd_companies (fst st)) of
        (Inl e, cdb) \<Rightarrow> (Inl e, ((fst st)\<lparr>pd_companies := cdb\<rparr>, snd st))
      | (Inr c, cdb) \<Rightarrow>
          (let key = ''lock:opp:'' @ cy_id c @ '':'' @ hash_pair (normalize_title (ox_role_title x)) (normalize_location (ox_location x))
           in case acquire_lock L now (fi_token fi) key 60 (snd st) of
                (token, m1) \<Rightarrow>
                  (case run_resolution now (fi_opportunity fi) (fi_observation fi) (cy_id c) x ((fst st)\<lparr>pd_companies := cdb\<rparr>) of
                     (r, db) \<Rightarrow> (Inr r, (db, case token of None \<Rightarrow> m1 | Some t \<Rightarrow> release_lock L now key t m1)))))"

subsection \<open>The resolution is stable\<close>

text \<open>The first row, in the order of the predicates and then of the rows.\<close>

fun first_match :: "('r \<Rightarrow> bool) list \<Rightarrow> 'r list \<Rightarrow> 'r option" where
  "first_match [] rows = None"
| "first_match (Q # Qs) rows = or_else (find_row Q rows) (first_match Qs rows)"

lemma first_match_None: "first_match Qs rows = None \<longleftrightarrow> (\<forall>Q\<in>set Qs. \<forall>r\<in>set rows. \<not> Q r)"
  by (induction Qs) (auto simp: or_else_def find_row_None_iff split: option.splits dest: find_row_SomeD)

lemma first_match_SomeD: "first_match Qs rows = Some r \<Longrightarrow> r \<in> set rows \<and> (\<exists>Q\<in>set Qs. Q r)"
  by (induction Qs) (auto simp: or_else_def split: option.splits dest: find_row_SomeD)

lemma find_row_update_hit:
  assumes "distinct (map k rows)" and "\<And>r. k (f r) = k r" and "find_row Q rows = Some r0" and "Q (f r0)"
  shows "find_row Q (update_many (\<lambda>r. k r = k r0) f rows) = Some (f r0)"
  using assms
proof (induction rows)
  case (Cons r rows)
  show ?case
  proof (cases "Q r")
    case True
    then show ?thesis using Cons by simp
  next
    case False
    then have "find_row Q rows = Some r0" using Cons.prems by simp
    then have "k r \<noteq> k r0" using Cons.prems(1) by (auto dest: find_row_SomeD)
    then show ?thesis using Cons False by simp
  qed
qed simp

lemma find_row_update_miss:
  assumes "distinct (map k rows)" and "\<And>r. k (f r) = k r" and "r0 \<in> set rows" and "find_row Q rows = None"
  shows "find_row Q (update_many (\<lambda>r. k r = k r0) f rows) \<in> {None, Some (f r0)}"
proof (cases "find_row Q (update_many (\<lambda>r. k r = k r0) f rows)")
  case (Some r')
  then have "r' \<in> set (update_many (\<lambda>r. k r = k r0) f rows)" "Q r'" by (auto dest: find_row_SomeD)
  then obtain r where r: "r \<in> set rows" "r' = (if k r = k r0 then f r else r)" by (auto simp: set_update_many)
  then have "k r = k r0" using \<open>Q r'\<close> assms(4) by (auto simp: find_row_None_iff split: if_splits)
  then have "r = r0" using distinct_key_unique [OF assms(1) r(1) assms(3)] by simp
  then show ?thesis using Some r \<open>k r = k r0\<close> by simp
qed simp

text \<open>A row found and then rewritten so that it still satisfies what found it is found again.\<close>

lemma first_match_update:
  assumes "distinct (map k rows)" and "\<And>r. k (f r) = k r" and "\<And>Q r. Q \<in> set Qs \<Longrightarrow> Q r \<Longrightarrow> Q (f r)"
    and "first_match Qs rows = Some r0"
  shows "first_match Qs (update_many (\<lambda>r. k r = k r0) f rows) = Some (f r0)"
proof -
  have "(\<forall>Q\<in>set Qs. \<forall>r. Q r \<longrightarrow> Q (f r)) \<Longrightarrow> first_match Qs rows = Some r0
      \<Longrightarrow> first_match Qs (update_many (\<lambda>r. k r = k r0) f rows) = Some (f r0)"
  proof (induction Qs)
    case (Cons Q Qs)
    show ?case
    proof (cases "find_row Q rows")
      case (Some r)
      then have "find_row Q rows = Some r0" "Q (f r0)" using Cons.prems by (auto simp: or_else_def dest: find_row_SomeD)
      then show ?thesis using find_row_update_hit [OF assms(1,2)] by (simp add: or_else_def)
    next
      case None
      then have "first_match Qs rows = Some r0" using Cons.prems by (simp add: or_else_def)
      moreover from first_match_SomeD [OF this] have "r0 \<in> set rows" by simp
      ultimately show ?thesis
        using Cons find_row_update_miss [where Q = Q, OF assms(1,2) _ None, of r0] by (auto simp: or_else_def)
    qed
  qed simp
  then show ?thesis using assms(3,4) by blast
qed

lemma first_match_append:
  assumes "first_match Qs rows = None" and "\<exists>Q\<in>set Qs. Q n"
  shows "first_match Qs (rows @ [n]) = Some n"
proof -
  have "find_row Q (rows @ [n]) = (if Q n then Some n else None)" if "Q \<in> set Qs" for Q
    using assms(1) that find_row_None_iff [of Q rows] by (auto simp: first_match_None find_row_append)
  then have "(\<exists>Q\<in>set Qs'. Q n) \<longrightarrow> first_match Qs' (rows @ [n]) = Some n" if "set Qs' \<subseteq> set Qs" for Qs'
    using that by (induction Qs') (auto simp: or_else_def)
  then show ?thesis using assms(2) by simp
qed

text \<open>The steps of the resolution as predicates.\<close>

definition resolution_steps :: "uid \<Rightarrow> opportunity_input \<Rightarrow> (opportunity \<Rightarrow> bool) list" where
  "resolution_steps company_id x =
     (let nt = normalize_title (ox_role_title x); nl = normalize_location (ox_location x);
          candidate = (\<lambda>r. op_company_id r = company_id \<and> title_contains (op_title r) (ox_role_title x));
          similar = (\<lambda>r. titles_are_similar nt (normalize_title (op_title r)))
      in [\<lambda>r. truthy (ox_url x) \<noteq> None \<and> op_company_id r = company_id \<and> op_url r = ox_url x,
          \<lambda>r. op_company_id r = company_id \<and> op_normalized_title r = nt \<and> op_normalized_location r = nl,
          \<lambda>r. candidate r \<and> similar r \<and> location_matches nl r,
          \<lambda>r. candidate r \<and> similar r])"

lemma find_row_filter: "find_row Q (find_many P rows) = find_row (\<lambda>r. P r \<and> Q r) rows"
  by (induction rows) (auto simp: find_many_def)

lemma truthy_Some: "truthy s = Some t \<Longrightarrow> s = Some t \<and> t \<noteq> []"
  by (auto simp: truthy_def split: option.splits list.splits)

lemma or_else_None: "or_else a None = a"
  by (simp add: or_else_def split: option.split)

lemma find_row_never [simp]: "find_row (\<lambda>r. False) rows = None"
  by (simp add: find_row_None_iff)

lemma find_opportunity_steps: "find_opportunity company_id x rows = first_match (resolution_steps company_id x) rows"
proof -
  have "(case truthy (ox_url x) of None \<Rightarrow> None | Some u \<Rightarrow> find_row (\<lambda>r. op_company_id r = company_id \<and> op_url r = Some u) rows)
      = find_row (\<lambda>r. truthy (ox_url x) \<noteq> None \<and> op_company_id r = company_id \<and> op_url r = ox_url x) rows"
    by (cases "truthy (ox_url x)") (auto dest: truthy_Some)
  then show ?thesis
    by (simp add: find_opportunity_def resolution_steps_def Let_def find_row_filter or_else_None conj_assoc)
qed

lemma touched_keys [simp]: "op_id (touched now x r) = op_id r" "op_company_id (touched now x r) = op_company_id r"
  "op_title (touched now x r) = op_title r" "op_normalized_title (touched now x r) = op_normalized_title r"
  "op_normalized_location (touched now x r) = op_normalized_location r"
  by (simp_all add: touched_def)

lemma steps_touched:
  assumes "Q \<in> set (resolution_steps company_id x)" and "Q r"
  shows "Q (touched now x r)"
proof -
  have u: "op_url (touched now x r) = ox_url x" if "truthy (ox_url x) \<noteq> None" "op_url r = ox_url x"
    using that by (simp add: touched_def)
  have l: "location_matches nl (touched now x r)" if "location_matches nl r" for nl
  proof -
    have "truthy (op_location r) \<noteq> None" using that by (auto simp: location_matches_def normalize_location_def Let_def split: option.splits)
    then have "op_location (touched now x r) = op_location r" by (auto simp: touched_def)
    then show ?thesis using that by (simp add: location_matches_def)
  qed
  show ?thesis using assms u l by (auto simp: resolution_steps_def Let_def)
qed

definition opportunity_key :: "opportunity \<Rightarrow> uid \<times> string \<times> string" where
  "opportunity_key r = (op_company_id r, op_normalized_title r, op_normalized_location r)"

definition opportunities_ok :: "opportunity_db \<Rightarrow> bool" where
  "opportunities_ok db \<longleftrightarrow> distinct (map op_id (pd_opportunities db)) \<and> distinct (map opportunity_key (pd_opportunities db))
     \<and> distinct (map ob_id (pd_observations db))
     \<and> (\<forall>i. length (filter (\<lambda>b. ob_opportunity_id b = i \<and> ob_is_current b) (pd_observations db)) \<le> 1)"

lemma current_after_record:
  assumes "fresh \<notin> ob_id ` set rows"
  shows "length (filter (\<lambda>b. ob_opportunity_id b = j \<and> ob_is_current b) (record_observation now fresh i x rows)) =
    (if j = i then 1 else length (filter (\<lambda>b. ob_opportunity_id b = j \<and> ob_is_current b) rows))"
proof -
  have "filter (\<lambda>b. ob_opportunity_id b = j \<and> ob_is_current b)
      (update_many (\<lambda>b. ob_opportunity_id b = i \<and> ob_id b \<noteq> fresh \<and> ob_is_current b)
       (\<lambda>b. b\<lparr>ob_is_current := False, ob_superseded_by_id := Some fresh, ob_superseded_at := Some now\<rparr>) rows) =
    (if j = i then [] else filter (\<lambda>b. ob_opportunity_id b = j \<and> ob_is_current b) rows)"
    using assms by (induction rows) auto
  then show ?thesis by (simp add: record_observation_def update_many_append)
qed

lemma record_observation_ids: "map ob_id (record_observation now fresh i x rows) = map ob_id rows @ [fresh]"
  unfolding record_observation_def by (subst map_update_many_key) simp_all

lemma touch_opportunity_ok:
  assumes "opportunities_ok db" and "fresh \<notin> ob_id ` set (pd_observations db)"
  shows "opportunities_ok (touch_opportunity now fresh i x db)
    \<and> map op_id (pd_opportunities (touch_opportunity now fresh i x db)) = map op_id (pd_opportunities db)"
proof -
  have "map op_id (update_many (\<lambda>r. op_id r = i) (touched now x) (pd_opportunities db)) = map op_id (pd_opportunities db)"
    "map opportunity_key (update_many (\<lambda>r. op_id r = i) (touched now x) (pd_opportunities db)) = map opportunity_key (pd_opportunities db)"
    by (auto intro!: map_update_many_key simp: opportunity_key_def)
  then show ?thesis
    using assms by (auto simp: opportunities_ok_def touch_opportunity_def record_observation_ids current_after_record)
qed

lemma find_opportunity_None_key:
  "find_opportunity c x rows = None \<Longrightarrow> (c, normalize_title (ox_role_title x), normalize_location (ox_location x)) \<notin> opportunity_key ` set rows"
  by (auto simp: find_opportunity_def or_else_def find_row_None_iff opportunity_key_def Let_def split: option.splits)

text \<open>A resolution run leaves the opportunity it names to be found again.\<close>

lemma run_resolution_stable:
  assumes "opportunities_ok db" and "fresh \<notin> op_id ` set (pd_opportunities db)" and "fresh_obs \<notin> ob_id ` set (pd_observations db)"
    and run: "run_resolution now fresh fresh_obs c x db = ((i, new), db')"
  shows "opportunities_ok db' \<and> (\<exists>r. find_opportunity c x (pd_opportunities db') = Some r \<and> op_id r = i) \<and> pd_companies db' = pd_companies db"
proof (cases "find_opportunity c x (pd_opportunities db)")
  case (Some r)
  then have first: "first_match (resolution_steps c x) (pd_opportunities db) = Some r" by (simp add: find_opportunity_steps)
  then have row: "r \<in> set (pd_opportunities db)" by (rule first_match_SomeD [THEN conjunct1])
  then have "find_row (\<lambda>s. op_id s = op_id r) (pd_opportunities db) \<noteq> None" by (auto simp: find_row_None_iff)
  moreover have eqs: "i = op_id r" "db' = touch_opportunity now fresh_obs i x db" using run Some by (auto simp: run_resolution_def)
  ultimately have "pd_opportunities db' = update_many (\<lambda>s. op_id s = op_id r) (touched now x) (pd_opportunities db)" "pd_companies db' = pd_companies db"
    by (auto simp: touch_opportunity_def)
  moreover have "first_match (resolution_steps c x) (update_many (\<lambda>s. op_id s = op_id r) (touched now x) (pd_opportunities db)) = Some (touched now x r)"
    using assms(1) by (intro first_match_update [OF _ _ steps_touched first]) (auto simp: opportunities_ok_def)
  ultimately show ?thesis using touch_opportunity_ok [OF assms(1,3)] eqs by (simp add: find_opportunity_steps)
next
  case None
  define n where "n = new_opportunity now fresh c x (normalize_title (ox_role_title x)) (normalize_location (ox_location x))"
  have eqs: "i = fresh" "db' = db\<lparr>pd_opportunities := pd_opportunities db @ [n]\<rparr>" using run None by (auto simp: run_resolution_def n_def)
  have "first_match (resolution_steps c x) (pd_opportunities db @ [n]) = Some n"
    using None by (intro first_match_append) (auto simp: find_opportunity_steps resolution_steps_def n_def new_opportunity_def Let_def)
  moreover have "opportunity_key n \<notin> opportunity_key ` set (pd_opportunities db)"
    using find_opportunity_None_key [OF None] by (simp add: n_def new_opportunity_def opportunity_key_def)
  moreover have "op_id n = fresh" by (simp add: n_def new_opportunity_def)
  ultimately show ?thesis using assms(1,2) eqs by (auto simp: opportunities_ok_def find_opportunity_steps)
qed

lemma resolve_opportunity_run:
  assumes "resolve_company (fi_company fi) (fi_alias fi) (company_of_input x) (pd_companies db) = (Inr c, cdb)"
    and "run_resolution now (fi_opportunity fi) (fi_observation fi) (cy_id c) x (db\<lparr>pd_companies := cdb\<rparr>) = (r, db')"
  shows "\<exists>m'. resolve_opportunity L now fi x (db, m) = (Inr r, (db', m'))"
  using assms by (simp add: resolve_opportunity_def Let_def split: prod.split)

lemma resolve_opportunity_Inr:
  assumes "resolve_opportunity L now fi x st = (Inr (i, new), st')"
  obtains c cdb where "resolve_company (fi_company fi) (fi_alias fi) (company_of_input x) (pd_companies (fst st)) = (Inr c, cdb)"
    "run_resolution now (fi_opportunity fi) (fi_observation fi) (cy_id c) x ((fst st)\<lparr>pd_companies := cdb\<rparr>) = ((i, new), fst st')"
  using assms by (auto simp: resolve_opportunity_def Let_def split: prod.splits sum.splits)


definition engineer_role :: opportunity_input where
  "engineer_role = \<lparr>ox_company_name = ''Acme Inc'', ox_role_title = ''Senior Data Engineer'', ox_location = Some ''Berlin'', ox_url = None,
     ox_description = None, ox_salary_range = None, ox_requirements = None, ox_source_email_id = Some ''m1'',
     ox_company_domain = Some ''acme.com.au'', ox_source_metadata = None\<rparr>"

definition fresh_numbers :: "string \<Rightarrow> fresh_ids" where
  "fresh_numbers p = \<lparr>fi_company = ''c1'', fi_alias = numbered p, fi_opportunity = p @ ''o'', fi_observation = p @ ''b'', fi_token = p @ ''t''\<rparr>"

definition empty_opportunities :: opportunity_db where
  "empty_opportunities = \<lparr>pd_opportunities = [], pd_observations = [], pd_companies = empty_companies\<rparr>"

lemma resolve_first:
  assumes "ox_company_name x = ''Acme Inc''" and "ox_company_domain x = Some ''acme.com.au''"
  shows "\<exists>cdb m'. resolve_opportunity L now (fresh_numbers ''a'') x (empty_opportunities, m) =
    (Inr (''ao'', True), (\<lparr>pd_opportunities = [new_opportunity now ''ao'' ''c1'' x (normalize_title (ox_role_title x)) (normalize_location (ox_location x))],
       pd_observations = [], pd_companies = cdb\<rparr>, m'))"
proof -
  have x: "company_of_input x = plain_input ''Acme Inc'' ''acme.com.au''" using assms by (simp add: company_of_input_def option_or_def)
  define cdb where "cdb = snd (resolve_company ''c1'' (numbered ''a'') (plain_input ''Acme Inc'' ''acme.com.au'') empty_companies)"
  have c: "resolve_company (fi_company (fresh_numbers ''a'')) (fi_alias (fresh_numbers ''a'')) (company_of_input x) (pd_companies empty_opportunities) =
      (Inr (new_company ''c1'' ''Acme'' (plain_input ''Acme Inc'' ''acme.com.au'')),
       cdb)"
    using resolve_acme by (simp add: cdb_def x fresh_numbers_def empty_opportunities_def)
  have none: "find_opportunity c x [] = None" for c
    by (simp add: find_opportunity_steps first_match_None)
  have "run_resolution now (fi_opportunity (fresh_numbers ''a'')) (fi_observation (fresh_numbers ''a''))
      (cy_id (new_company ''c1'' ''Acme'' (plain_input ''Acme Inc'' ''acme.com.au''))) x (empty_opportunities\<lparr>pd_companies := cdb\<rparr>) =
    ((''ao'', True), \<lparr>pd_opportunities = [new_opportunity now ''ao'' ''c1'' x (normalize_title (ox_role_title x)) (normalize_location (ox_location x))],
       pd_observations = [], pd_companies = cdb\<rparr>)"
    by (simp add: run_resolution_def none empty_opportunities_def fresh_numbers_def new_company_def)
  from resolve_opportunity_run [OF c this, of L m] show ?thesis by (rule exI)
qed


text \<open>
  Titles made of noise words only normalise to the empty title, so a company's manager and its
  intern are one opportunity.
\<close>

lemma noise_titles_collapse:
  assumes "op_company_id r = c" and "op_normalized_title r = normalize_title ''Manager''" and "op_normalized_location r = normalize_location (ox_location x)"
    and "ox_role_title x = ''Intern''" and "ox_url x = None"
  shows "snd (fst (run_resolution now i b c x (db\<lparr>pd_opportunities := r # rows\<rparr>))) = False"
proof -
  have "normalize_title ''Manager'' = []" "normalize_title ''Intern'' = []" by code_simp+
  then show ?thesis using assms
    by (simp add: run_resolution_def find_opportunity_def Let_def truthy_def or_else_def)
qed

end
