(* ===== verification/Application_Command.thy ===== *)
theory Application_Command
  imports Application_Merge Application_Timeline Resumes Recruiters Opportunities Snapshots Retry
begin

text \<open>
  The commands on applications (\<open>ApplicationCommandService\<close> of
  \<open>services/application-command/application-command.service.ts\<close>) and the hooks of
  \<open>application-integration.ts\<close>: how a classified email becomes an application or an event of one.
  An email is worked under a lock and an idempotency claim; the company, the opportunity and the
  merge target are resolved first, then one transaction writes the application, its source, the
  timeline, the status, the recruiter and the resume link. The tables of the services called are
  put together here; the caches of the dashboard are not modelled.
\<close>

record application_source =
  ax_id :: uid
  ax_application_id :: uid
  ax_provider :: string
  ax_source_email_id :: "uid option"
  ax_source_data :: json

record command_db =
  kd_apps :: app_db
  kd_sources :: "application_source list"
  kd_opportunities :: opportunity_db
  kd_recruiters :: "recruiter list"
  kd_emails :: "linked_email list"
  kd_resumes :: resume_db
  kd_intel :: intel_db
  kd_claims :: "idempotency_record list"

text \<open>The ids that the calls of one run draw.\<close>

record command_ids =
  kx_claim :: uid
  kx_lock_token :: string
  kx_company :: uid
  kx_alias :: "nat \<Rightarrow> uid"
  kx_opportunity :: fresh_ids
  kx_application :: uid
  kx_source :: uid
  kx_event :: uid
  kx_history :: uid
  kx_status_event :: uid
  kx_recruiter :: uid
  kx_sync_company :: uid
  kx_sync_alias :: "nat \<Rightarrow> uid"
  kx_snapshot :: uid
  kx_facts :: "uid list"
  kx_outcome :: uid
  kx_action :: uid

text \<open>What one run has resolved before its transaction.\<close>

record command_context =
  ky_email :: classifiable_email
  ky_classification :: job_email_classification
  ky_user :: uid
  ky_scope_user :: uid
  ky_data :: extracted_data
  ky_company :: company
  ky_opportunity :: uid
  ky_merge :: merge_decision
  ky_resume :: "active_resume option"

subsection \<open>The parts of the tables\<close>

definition on_apps :: "(app_db \<Rightarrow> ('a, app_db) outcome) \<Rightarrow> command_db \<Rightarrow> ('a, command_db) outcome" where
  "on_apps f db = (case f (kd_apps db) of (r, d) \<Rightarrow> (r, db\<lparr>kd_apps := d\<rparr>))"

definition on_contacts :: "(contact_db \<Rightarrow> ('a, contact_db) outcome) \<Rightarrow> command_db \<Rightarrow> ('a, command_db) outcome" where
  "on_contacts f db =
     (case f \<lparr>kb_apps = kd_apps db, kb_companies = pd_companies (kd_opportunities db), kb_recruiters = kd_recruiters db, kb_emails = kd_emails db\<rparr> of
        (r, d) \<Rightarrow> (r, db\<lparr>kd_apps := kb_apps d, kd_opportunities := (kd_opportunities db)\<lparr>pd_companies := kb_companies d\<rparr>,
          kd_recruiters := kb_recruiters d, kd_emails := kb_emails d\<rparr>))"

definition on_claims :: "(idempotency_record list \<Rightarrow> ('a, idempotency_record list) outcome) \<Rightarrow> command_db \<Rightarrow> ('a, command_db) outcome" where
  "on_claims f db = (case f (kd_claims db) of (r, d) \<Rightarrow> (r, db\<lparr>kd_claims := d\<rparr>))"

subsection \<open>The transaction\<close>

definition new_thread :: "classifiable_email \<Rightarrow> job_application \<Rightarrow> bool" where
  "new_thread email a = (case truthy (em_thread_id email) of None \<Rightarrow> False | Some t \<Rightarrow> t \<notin> set (ja_thread_ids a))"

definition merged_application :: "time \<Rightarrow> command_context \<Rightarrow> job_application \<Rightarrow> job_application" where
  "merged_application now ctx a =
     (let no_opportunity = (truthy (ja_opportunity_id a) = None); fresh_thread = new_thread (ky_email ctx) a
      in if ja_company_id a \<noteq> Some (cy_id (ky_company ctx)) \<or> no_opportunity \<or> fresh_thread
         then a\<lparr>ja_company_id := Some (cy_id (ky_company ctx)),
            ja_opportunity_id := (if no_opportunity then Some (ky_opportunity ctx) else ja_opportunity_id a),
            ja_thread_ids := ja_thread_ids a @ (if fresh_thread then [option_or (em_thread_id (ky_email ctx)) []] else []),
            ja_updated_at := now\<rparr>
         else a)"

text \<open>The provider of a created application is the default of the schema.\<close>

definition new_application :: "time \<Rightarrow> uid \<Rightarrow> command_context \<Rightarrow> job_application" where
  "new_application now fresh ctx =
     (let x = ky_data ctx
      in \<lparr>ja_id = fresh, ja_user_id = ky_scope_user ctx, ja_legacy_user_id = Some (ky_user ctx), ja_company_id = Some (cy_id (ky_company ctx)),
          ja_opportunity_id = Some (ky_opportunity ctx), ja_snapshot_id = None, ja_company_name = Some (xd_company_name x),
          ja_company_domain = Some (xd_company_domain x), ja_role_title = Some (xd_role_title x), ja_status = show_status (xd_status x),
          ja_source_provider = ''MANUAL'', ja_applied_date = Some (xd_applied_date x), ja_last_activity_at = now, ja_recruiter_id = None,
          ja_recruiter_name = Some (xd_recruiter_name x), ja_recruiter_email = Some (xd_recruiter_email x),
          ja_current_stage = Some (xd_current_stage x),
          ja_thread_ids = (case truthy (em_thread_id (ky_email ctx)) of None \<Rightarrow> [] | Some t \<Rightarrow> [t]),
          ja_ats_application_id = None, ja_candidate_email = None, ja_role_department = Some (xd_department x),
          ja_source_email_id = Some (xd_source_email_id x), ja_location = Some (xd_location x), ja_employment_type = Some (xd_employment_type x),
          ja_interview_rounds = xd_interview_rounds x, ja_deadlines = xd_deadlines x, ja_updated_at = now\<rparr>)"

text \<open>The target of the merge, if it is still there, or a new row; whether it is new.\<close>

definition write_application :: "time \<Rightarrow> uid \<Rightarrow> command_context \<Rightarrow> app_db \<Rightarrow> (bool \<times> job_application) \<times> app_db" where
  "write_application now fresh ctx db =
     (case (case md_target (ky_merge ctx) of None \<Rightarrow> None | Some t \<Rightarrow> find_row (\<lambda>a. ja_id a = ja_id t) (db_applications db)) of
        Some a \<Rightarrow> ((False, merged_application now ctx a),
          db\<lparr>db_applications := update_many (\<lambda>b. ja_id b = ja_id a) (\<lambda>_. merged_application now ctx a) (db_applications db)\<rparr>)
      | None \<Rightarrow> ((True, new_application now fresh ctx), db\<lparr>db_applications := db_applications db @ [new_application now fresh ctx]\<rparr>))"

definition extracted_json :: "extracted_data \<Rightarrow> json" where
  "extracted_json x = JObj [
     (''company'', JObj [(''name'', JStr (xd_company_name x)), (''domain'', JStr (xd_company_domain x))]),
     (''role'', JObj [(''title'', JStr (xd_role_title x)), (''department'', JStr (xd_department x))]),
     (''status'', JStr (show_status (xd_status x))), (''currentStage'', JStr (xd_current_stage x))]"

definition source_json :: "command_context \<Rightarrow> json" where
  "source_json ctx =
     (let email = ky_email ctx; cl = ky_classification ctx
      in JObj [(''threadId'', jopt (em_thread_id email)), (''conversationId'', jopt (em_thread_id email)), (''sender'', JStr (em_sender email)),
           (''subject'', JStr (em_subject email)),
           (''classification'', JObj [(''category'', JStr (show_category (cl_category cl))), (''confidence'', JNum (cl_confidence cl)),
             (''detectedCompany'', jopt (cl_detected_company cl)), (''detectedRole'', jopt (cl_detected_role cl))]),
           (''extractedData'', extracted_json (ky_data ctx))])"

text \<open>The application id of a source is unique in the schema.\<close>

definition add_source :: "uid \<Rightarrow> command_context \<Rightarrow> uid \<Rightarrow> command_db \<Rightarrow> (unit, command_db) outcome" where
  "add_source fresh ctx app db =
     (if find_row (\<lambda>s. ax_application_id s = app) (kd_sources db) \<noteq> None then (Inl (PrismaError ''P2002''), db)
      else (Inr (), db\<lparr>kd_sources := kd_sources db @ [\<lparr>ax_id = fresh, ax_application_id = app, ax_provider = ''GMAIL'',
        ax_source_email_id = Some (em_email_id (ky_email ctx)), ax_source_data = source_json ctx\<rparr>]\<rparr>))"

definition event_metadata :: "command_context \<Rightarrow> (string \<times> json) list" where
  "event_metadata ctx =
     [(''mergeDecision'', JObj [(''matched'', JBool (md_target (ky_merge ctx) \<noteq> None)),
        (''confidenceScore'', JNum (of_int (md_confidence_score (ky_merge ctx)))), (''reasons'', JArr (map JStr (md_reasons (ky_merge ctx))))]),
      (''extractedData'', extracted_json (ky_data ctx))]"

definition add_email_event :: "time \<Rightarrow> uid \<Rightarrow> command_context \<Rightarrow> uid \<Rightarrow> app_db \<Rightarrow> (unit, app_db) outcome" where
  "add_email_event now fresh ctx app db =
     (case build_email_timeline_event now app (ky_email ctx) (ky_classification ctx) (event_metadata ctx) of
        None \<Rightarrow> (Inr (), db)
      | Some i \<Rightarrow> andthen (create_timeline_event now fresh i (Some (ky_user ctx)) db) (\<lambda>_ db1. (Inr (), db1)))"

definition sync_input :: "command_context \<Rightarrow> job_application \<Rightarrow> recruiter_sync_input" where
  "sync_input ctx a = \<lparr>ks_user_id = ky_user ctx, ks_application_id = ja_id a, ks_role_title = option_or (ja_role_title a) [],
     ks_email = ky_email ctx, ks_company_name = xd_company_name (ky_data ctx), ks_company_domain = xd_company_domain (ky_data ctx),
     ks_recruiter_name = Some (xd_recruiter_name (ky_data ctx)), ks_recruiter_email = Some (xd_recruiter_email (ky_data ctx)), ks_title = None\<rparr>"

definition link_active_resume :: "time \<Rightarrow> command_context \<Rightarrow> job_application \<Rightarrow> command_db \<Rightarrow> (unit, command_db) outcome" where
  "link_active_resume now ctx a db =
     (case ky_resume ctx of
        None \<Rightarrow> (Inr (), db)
      | Some r \<Rightarrow> (case link_application_resume (ky_user ctx) (ja_id a) r (option_or (ja_applied_date a) now)
            (JObj [(''strategy'', JStr ''generic'')]) (kd_apps db) (rs_links (kd_resumes db)) of
          (v, links) \<Rightarrow> (v, db\<lparr>kd_resumes := (kd_resumes db)\<lparr>rs_links := links\<rparr>\<rparr>)))"

definition process_tx :: "time \<Rightarrow> command_ids \<Rightarrow> command_context \<Rightarrow> command_db \<Rightarrow> (bool \<times> uid, command_db) outcome" where
  "process_tx now ids ctx db =
     (case write_application now (kx_application ids) ctx (kd_apps db) of
        ((is_new, app), apps) \<Rightarrow>
          andthen (add_source (kx_source ids) ctx (ja_id app) (db\<lparr>kd_apps := apps\<rparr>)) (\<lambda>_ db1.
          andthen (on_apps (add_email_event now (kx_event ids) ctx (ja_id app)) db1) (\<lambda>_ db2.
          andthen (on_apps (apply_email_status now (kx_history ids) (kx_status_event ids) (ja_id app) (ky_classification ctx)
              (em_email_id (ky_email ctx)) (em_received_at (ky_email ctx)) (Some (em_subject (ky_email ctx))) (Some (ky_user ctx))) db2) (\<lambda>_ db3.
          andthen (on_contacts (sync_recruiter_from_email now (kx_recruiter ids) (kx_sync_company ids) (kx_sync_alias ids) (sync_input ctx app)) db3) (\<lambda>_ db4.
          andthen (link_active_resume now ctx app db4) (\<lambda>_ db5.
          (Inr (is_new, ja_id app), db5)))))))"

text \<open>
  \<open>executeWithTransientRetry\<close>: the first \<open>n\<close> attempts meet a write conflict.
\<close>

definition conflicting :: "('s \<Rightarrow> ('a, 's) outcome) \<Rightarrow> nat \<times> 's \<Rightarrow> ('a, nat \<times> 's) outcome" where
  "conflicting f st = (case st of
       (0, s) \<Rightarrow> (case transaction f s of (r, s1) \<Rightarrow> (r, (0, s1)))
     | (Suc n, s) \<Rightarrow> (Inl (PrismaError ''P2034''), (n, s)))"

definition retried_transaction :: "nat \<Rightarrow> ('s \<Rightarrow> ('a, 's) outcome) \<Rightarrow> 's \<Rightarrow> ('a, 's) outcome" where
  "retried_transaction conflicts f s =
     (case snd (execute_with_transient_retry default_transaction_retry (\<lambda>_. 0) (conflicting f) (conflicts, s)) of (r, (_, s1)) \<Rightarrow> (r, s1))"

subsection \<open>After a new application\<close>

record apply_options =
  ao_opportunity_id :: "uid option"
  ao_source_email_id :: "uid option"
  ao_channel :: "string option"
  ao_resume_version_id :: "uid option"
  ao_resume_version :: "int option"
  ao_referral_used :: bool
  ao_tailored_resume :: bool
  ao_within_24h :: bool
  ao_notes :: "string option"

definition apply_tags :: "apply_options \<Rightarrow> string list" where
  "apply_tags opts =
     (case ao_resume_version opts of None \<Rightarrow> [] | Some v \<Rightarrow> [resume_version_tag v])
     @ (if ao_referral_used opts then [''with_referral''] else [])
     @ (if ao_tailored_resume opts then [''tailored_resume''] else [])
     @ (if ao_within_24h opts then [''early_application''] else [])
     @ (case truthy (ao_channel opts) of None \<Rightarrow> [] | Some c \<Rightarrow> [applied_via_tag c])"

definition apply_context :: "apply_options \<Rightarrow> json option" where
  "apply_context opts =
     (let entry = (\<lambda>k v. case truthy v of None \<Rightarrow> [] | Some t \<Rightarrow> [(k, JStr t)]);
          fields = entry ''resumeVersionId'' (ao_resume_version_id opts) @ entry ''sourceEmailId'' (ao_source_email_id opts)
            @ entry ''applicationChannel'' (ao_channel opts)
      in if fields = [] then None else Some (JObj fields))"

text \<open>The three hooks swallow every error.\<close>

definition record_apply_action :: "time \<Rightarrow> uid \<Rightarrow> uid \<Rightarrow> uid \<Rightarrow> time \<Rightarrow> apply_options \<Rightarrow> events_db \<Rightarrow> events_db" where
  "record_apply_action now fresh user app applied_date opts evs =
     (let from_email = (truthy (ao_source_email_id opts) \<noteq> None)
      in snd (record_action now fresh
        \<lparr>ai_user_id = user, ai_action_type = ''APPLY'', ai_application_id = Some app, ai_opportunity_id = ao_opportunity_id opts,
         ai_action_subtype = Some (if from_email then ''EMAIL'' else option_or (ao_channel opts) ''FORM''),
         ai_strategy_tags = Some (apply_tags opts), ai_context = apply_context opts,
         ai_source_type = Some (if from_email then ''SYSTEM_TRACKED'' else ''USER_ACTION''), ai_source_id = ao_source_email_id opts,
         ai_occurred_at = Some applied_date, ai_notes = ao_notes opts, ai_confidence = Some (if from_email then 95 / 100 else 1)\<rparr> evs))"

definition create_application_snapshot :: "time \<Rightarrow> bool \<Rightarrow> uid \<Rightarrow> uid list \<Rightarrow> uid \<Rightarrow> uid \<Rightarrow> string \<Rightarrow> string \<Rightarrow> intel_db \<Rightarrow> uid option \<times> intel_db" where
  "create_application_snapshot now fails fresh fresh_facts user app company role db =
     (if fails then (None, db)
      else case create_snapshot now fresh fresh_facts user ''APPLICATION'' (Some app)
          (Some (''Snapshot at application time for '' @ company @ '' - '' @ role)) db of (s, db1) \<Rightarrow> (Some (sn_id s), db1))"

definition record_application_sent :: "time \<Rightarrow> uid \<Rightarrow> uid \<Rightarrow> uid \<Rightarrow> time \<Rightarrow> uid option \<Rightarrow> string option \<Rightarrow> events_db \<Rightarrow> events_db" where
  "record_application_sent now fresh app user applied_date source_email evidence evs =
     (let from_email = (truthy source_email \<noteq> None)
      in snd (record_outcome now fresh \<lparr>oi_application_id = app, oi_user_id = user, oi_outcome_type = ''APPLICATION_SENT'',
         oi_source_type = (if from_email then ''EMAIL'' else ''MANUAL''), oi_source_id = source_email, oi_source_data = None, oi_evidence = evidence,
         oi_confidence = Some (if from_email then 95 / 100 else 1), oi_occurred_at = applied_date\<rparr> evs))"

text \<open>The events tables, which see the applications of the command tables.\<close>

definition on_events :: "(events_db \<Rightarrow> events_db) \<Rightarrow> command_db \<Rightarrow> command_db" where
  "on_events f db =
     (let evs = f ((rs_events (kd_resumes db))\<lparr>vd_applications := db_applications (kd_apps db)\<rparr>)
      in db\<lparr>kd_apps := (kd_apps db)\<lparr>db_applications := vd_applications evs\<rparr>, kd_resumes := (kd_resumes db)\<lparr>rs_events := evs\<rparr>\<rparr>)"

definition integrate_new :: "time \<Rightarrow> bool \<Rightarrow> command_ids \<Rightarrow> command_context \<Rightarrow> uid \<Rightarrow> command_db \<Rightarrow> (unit, command_db) outcome" where
  "integrate_new now snapshot_fails ids ctx app db =
     (let x = ky_data ctx
      in case create_application_snapshot now snapshot_fails (kx_snapshot ids) (kx_facts ids) (ky_user ctx) app (xd_company_name x) (xd_role_title x) (kd_intel db) of
           (snapshot, intel) \<Rightarrow>
             (let db1 = db\<lparr>kd_intel := intel\<rparr>;
                  db2 = (case snapshot of None \<Rightarrow> db1
                    | Some s \<Rightarrow> db1\<lparr>kd_apps := (kd_apps db1)\<lparr>db_applications := update_many (\<lambda>a. ja_id a = app)
                        (\<lambda>a. a\<lparr>ja_snapshot_id := Some s, ja_updated_at := now\<rparr>) (db_applications (kd_apps db1))\<rparr>\<rparr>);
                  gone = (snapshot \<noteq> None \<and> find_row (\<lambda>a. ja_id a = app) (db_applications (kd_apps db1)) = None);
                  db3 = on_events (record_application_sent now (kx_outcome ids) app (ky_user ctx) (xd_applied_date x)
                    (Some (xd_source_email_id x)) (Some (em_subject (ky_email ctx)))) db2;
                  db4 = on_events (record_apply_action now (kx_action ids) (ky_user ctx) app (xd_applied_date x)
                    \<lparr>ao_opportunity_id = Some (ky_opportunity ctx), ao_source_email_id = Some (xd_source_email_id x), ao_channel = Some ''gmail'',
                     ao_resume_version_id = map_option ra_id (ky_resume ctx), ao_resume_version = map_option ra_version (ky_resume ctx),
                     ao_referral_used = False, ao_tailored_resume = False, ao_within_24h = False, ao_notes = None\<rparr>) db3
              in if gone then (Inl (PrismaError ''P2025''), db1) else (Inr (), db4)))"

subsection \<open>An email\<close>

text \<open>What the run asks of the outside: the digest of the keys, the date parser, the user lookup, and what fails.\<close>

record command_world =
  kw_sha256 :: "string \<Rightarrow> string"
  kw_parse_date :: "string \<Rightarrow> time option"
  kw_scope :: "uid \<Rightarrow> uid"
  kw_conflicts :: nat
  kw_snapshot_fails :: bool

definition opportunity_of_email :: "classifiable_email \<Rightarrow> job_email_classification \<Rightarrow> extracted_data \<Rightarrow> opportunity_input" where
  "opportunity_of_email email cl x = \<lparr>ox_company_name = xd_company_name x, ox_role_title = xd_role_title x, ox_location = Some (xd_location x),
     ox_url = None, ox_description = em_body_text email, ox_salary_range = None, ox_requirements = None,
     ox_source_email_id = Some (em_email_id email), ox_company_domain = Some (xd_company_domain x),
     ox_source_metadata = Some [(''ingestionSource'', JStr ''gmail''), (''emailSubject'', JStr (em_subject email)),
       (''classificationCategory'', JStr (show_category (cl_category cl)))]\<rparr>"

text \<open>The resolutions before the transaction; what they write stays if a later step fails.\<close>

definition resolve_context :: "command_world \<Rightarrow> 'm lock_commands \<Rightarrow> time \<Rightarrow> command_ids \<Rightarrow> classifiable_email \<Rightarrow> job_email_classification \<Rightarrow> uid
    \<Rightarrow> command_db \<times> 'm \<Rightarrow> (command_context, command_db \<times> 'm) outcome" where
  "resolve_context W L now ids email cl user st =
     (let x = extract_application (kw_parse_date W) now email user cl; db = fst st; opps = kd_opportunities db
      in case resolve_company (kx_company ids) (kx_alias ids) (plain_input (xd_company_name x) (xd_company_domain x)) (pd_companies opps) of
           (Inl e, cdb) \<Rightarrow> (Inl e, (db\<lparr>kd_opportunities := opps\<lparr>pd_companies := cdb\<rparr>\<rparr>, snd st))
         | (Inr c, cdb) \<Rightarrow>
             (case resolve_opportunity L now (kx_opportunity ids) (opportunity_of_email email cl x) (opps\<lparr>pd_companies := cdb\<rparr>, snd st) of
                (Inl e, (opps1, m1)) \<Rightarrow> (Inl e, (db\<lparr>kd_opportunities := opps1\<rparr>, m1))
              | (Inr (oid, _), (opps1, m1)) \<Rightarrow>
                  (Inr \<lparr>ky_email = email, ky_classification = cl, ky_user = user, ky_scope_user = kw_scope W user, ky_data = x, ky_company = c,
                     ky_opportunity = oid,
                     ky_merge = find_match user x email None None (Some oid) (db_applications (kd_apps db)),
                     ky_resume = get_active_resume_row user (kd_resumes db)\<rparr>, (db\<lparr>kd_opportunities := opps1\<rparr>, m1))))"

definition claim_data :: "command_context \<Rightarrow> uid \<Rightarrow> json" where
  "claim_data ctx app = JObj [(''applicationId'', JStr app), (''classification'', JStr (show_category (cl_category (ky_classification ctx)))),
     (''matched'', JBool (md_target (ky_merge ctx) \<noteq> None))]"

text \<open>
  The body of the \<open>try\<close>, with whether the claim has been committed.
\<close>

definition process_claimed :: "command_world \<Rightarrow> 'm lock_commands \<Rightarrow> time \<Rightarrow> command_ids \<Rightarrow> uid \<Rightarrow> classifiable_email \<Rightarrow> job_email_classification \<Rightarrow> uid
    \<Rightarrow> command_db \<times> 'm \<Rightarrow> ((error + unit) \<times> bool) \<times> command_db \<times> 'm" where
  "process_claimed W L now ids record_id email cl user st =
     (case find_row (\<lambda>s. ax_source_email_id s = Some (em_email_id email) \<and> ax_provider s = ''GMAIL'') (kd_sources (fst st)) of
        Some s \<Rightarrow>
          (case on_claims (commit record_id (ax_application_id s)
              (Some (JObj [(''applicationId'', JStr (ax_application_id s)), (''source'', JStr ''existing_source_row'')]))) (fst st) of
             (Inl e, db) \<Rightarrow> ((Inl e, False), (db, snd st))
           | (Inr _, db) \<Rightarrow> ((Inr (), True), (db, snd st)))
      | None \<Rightarrow>
          (case resolve_context W L now ids email cl user st of
             (Inl e, st1) \<Rightarrow> ((Inl e, False), st1)
           | (Inr ctx, (db, m1)) \<Rightarrow>
               (case retried_transaction (kw_conflicts W) (process_tx now ids ctx) db of
                  (Inl e, db1) \<Rightarrow> ((Inl e, False), (db1, m1))
                | (Inr (is_new, app), db1) \<Rightarrow>
                    (case on_claims (commit record_id app (Some (claim_data ctx app))) db1 of
                       (Inl e, db2) \<Rightarrow> ((Inl e, False), (db2, m1))
                     | (Inr _, db2) \<Rightarrow>
                         (if is_new then (case integrate_new now (kw_snapshot_fails W) ids ctx app db2 of (r, db3) \<Rightarrow> ((r, True), (db3, m1)))
                          else ((Inr (), True), (db2, m1)))))))"

definition email_lock_key :: "classifiable_email \<Rightarrow> string" where
  "email_lock_key email = ''lock:process_email:'' @ em_email_id email"

text \<open>
  \<open>processEmailForJobApplication\<close>: the claim is refused or throws before the \<open>try\<close>, so these ways out do
  not release the lock.
\<close>

definition process_application_email :: "command_world \<Rightarrow> 'm lock_commands \<Rightarrow> time \<Rightarrow> command_ids \<Rightarrow> classifiable_email \<Rightarrow> job_email_classification \<Rightarrow> uid
    \<Rightarrow> command_db \<times> 'm \<Rightarrow> (unit, command_db \<times> 'm) outcome" where
  "process_application_email W L now ids email cl user st =
     (case st of (db, m) \<Rightarrow>
       let key = key_for_app_from_email (kw_sha256 W) (em_email_id email)
       in if already_executed (check key (kd_claims db)) then (Inr (), st)
          else case acquire_lock L now (kx_lock_token ids) (email_lock_key email) 60 m of
                 (None, m1) \<Rightarrow> (Inr (), (db, m1))
               | (Some token, m1) \<Rightarrow>
                   (case on_claims (claim now (kx_claim ids) key ''create_application'' None None) db of
                      (Inl e, db1) \<Rightarrow> (Inl e, (db1, m1))
                    | (Inr (Unclaimed _ _), db1) \<Rightarrow> (Inr (), (db1, m1))
                    | (Inr (Claimed record_id), db1) \<Rightarrow>
                        (case process_claimed W L now ids record_id email cl user (db1, m1) of
                           ((r, committed), (db2, m2)) \<Rightarrow>
                             (r, ((if committed then db2 else db2\<lparr>kd_claims := abort record_id (kd_claims db2)\<rparr>),
                                  release_lock L now (email_lock_key email) token m2)))))"

subsection \<open>A manual change of the status\<close>

definition override_tx :: "time \<Rightarrow> uid \<Rightarrow> uid \<Rightarrow> uid \<Rightarrow> string \<Rightarrow> uid \<Rightarrow> uid \<Rightarrow> app_db \<Rightarrow> (job_application \<times> timeline_event option, app_db) outcome" where
  "override_tx now hid tid app new_status changed_by user db =
     andthen (override_status now hid tid app new_status changed_by (Some user) db) (\<lambda>change db1.
       case find_row (\<lambda>a. ja_id a = app) (db_applications db1) of
         None \<Rightarrow> (Inl (NotFoundError ''Application'' app), db1)
       | Some a \<Rightarrow> (Inr (a, sr_timeline_event change), db1))"

definition update_application_status :: "nat \<Rightarrow> time \<Rightarrow> uid \<Rightarrow> uid \<Rightarrow> uid \<Rightarrow> uid \<Rightarrow> string \<Rightarrow> uid option \<Rightarrow> app_db
    \<Rightarrow> (job_application \<times> timeline_event, app_db) outcome" where
  "update_application_status conflicts now hid tid user app new_status changed_by db =
     (case ensure_application_access user app db of
        Inl e \<Rightarrow> (Inl e, db)
      | Inr _ \<Rightarrow>
          (case retried_transaction conflicts (override_tx now hid tid app new_status (option_or changed_by user) user) db of
             (Inl e, db1) \<Rightarrow> (Inl e, db1)
           | (Inr (a, Some ev), db1) \<Rightarrow> (Inr (a, ev), db1)
           | (Inr (a, None), db1) \<Rightarrow> (Inl (DomainValidationError (''Unsupported timeline event for application '' @ app)), db1)))"

end
