(* ===== verification/Command_Safety.thy ===== *)
theory Command_Safety
  imports Application_Command
begin

text \<open>
  What an email can change (\<open>Application_Command\<close>): every step of the pipeline works on the rows of
  one application, and writes only statuses that the schema has. From this, which application a
  run can change, and what a second run finds.
\<close>

subsection \<open>Steps on one application\<close>

definition statuses_ok :: "app_db \<Rightarrow> bool" where
  "statuses_ok d \<longleftrightarrow> (\<forall>a\<in>set (db_applications d). is_application_status (ja_status a))"

definition touches :: "uid \<Rightarrow> app_db \<Rightarrow> app_db \<Rightarrow> bool" where
  "touches i d d' \<longleftrightarrow> find_many (\<lambda>a. ja_id a \<noteq> i) (db_applications d') = find_many (\<lambda>a. ja_id a \<noteq> i) (db_applications d)
     \<and> find_many (\<lambda>e. te_application_id e \<noteq> i) (db_timeline d') = find_many (\<lambda>e. te_application_id e \<noteq> i) (db_timeline d)
     \<and> find_many (\<lambda>h. sh_application_id h \<noteq> i) (db_history d') = find_many (\<lambda>h. sh_application_id h \<noteq> i) (db_history d)
     \<and> (statuses_ok d \<longrightarrow> statuses_ok d')"

lemma touches_refl [simp]: "touches i d d"
  by (simp add: touches_def)

lemma touches_trans: "touches i d d1 \<Longrightarrow> touches i d1 d2 \<Longrightarrow> touches i d d2"
  by (simp add: touches_def)

lemma shown_status [simp]: "is_application_status (show_status s)"
  by (cases s) (simp_all add: is_application_status_def APPLICATION_STATUSES_def)

lemma find_many_update:
  assumes "\<And>a. P a \<Longrightarrow> P (f a)"
  shows "find_many (\<lambda>a. \<not> P a) (update_many P f rows) = find_many (\<lambda>a. \<not> P a) rows"
  using assms by (induction rows) (auto simp: find_many_def)

lemma touches_update:
  assumes "\<And>a. ja_id a = i \<Longrightarrow> ja_id (f a) = i"
    and "\<And>a. statuses_ok d \<Longrightarrow> a \<in> set (db_applications d) \<Longrightarrow> ja_id a = i \<Longrightarrow> is_application_status (ja_status (f a))"
  shows "touches i d (d\<lparr>db_applications := update_many (\<lambda>a. ja_id a = i) f (db_applications d)\<rparr>)"
  using assms(2) find_many_update [of "\<lambda>a. ja_id a = i" f, OF assms(1)]
  by (auto simp: touches_def statuses_ok_def set_update_many)

lemma touches_append:
  "ja_id a = i \<Longrightarrow> is_application_status (ja_status a) \<Longrightarrow> touches i d (d\<lparr>db_applications := db_applications d @ [a]\<rparr>)"
  "te_application_id e = i \<Longrightarrow> touches i d (d\<lparr>db_timeline := db_timeline d @ [e]\<rparr>)"
  by (auto simp: touches_def statuses_ok_def find_many_def)

lemma write_touches:
  assumes "write_application now fresh ctx d = ((n, a), d')"
  shows "touches (ja_id a) d d' \<and> (\<exists>b\<in>set (db_applications d'). ja_id b = ja_id a)"
proof (cases "case md_target (ky_merge ctx) of None \<Rightarrow> None | Some t \<Rightarrow> find_row (\<lambda>a. ja_id a = ja_id t) (db_applications d)")
  case None
  have "is_application_status (ja_status (new_application now fresh ctx))" by (simp add: new_application_def Let_def)
  with None show ?thesis using assms touches_append(1) [OF refl] by (auto simp: write_application_def)
next
  case (Some b)
  then have a: "a = merged_application now ctx b"
    "d' = d\<lparr>db_applications := update_many (\<lambda>c. ja_id c = ja_id b) (\<lambda>_. a) (db_applications d)\<rparr>"
    using assms by (auto simp: write_application_def)
  have b: "b \<in> set (db_applications d)" using Some by (auto split: option.splits dest: find_row_SomeD)
  have i: "ja_id a = ja_id b" "ja_status a = ja_status b" by (simp_all add: a(1) merged_application_def Let_def)
  have "touches (ja_id b) d d'" unfolding a(2)
    by (rule touches_update) (use i b in \<open>auto simp: statuses_ok_def\<close>)
  then show ?thesis using b i by (auto simp: a(2) set_update_many)
qed

lemma create_event_touches:
  "create_timeline_event now fresh t user d = (r, d') \<Longrightarrow> touches (ti_application_id t) d d'"
  by (auto simp: create_timeline_event_def timeline_row_def split: sum.splits if_splits intro: touches_append(2))

lemma email_event_touches:
  assumes "add_email_event now fresh ctx app d = (r, d')"
  shows "touches app d d'"
proof (cases "build_email_timeline_event now app (ky_email ctx) (ky_classification ctx) (event_metadata ctx)")
  case None
  then show ?thesis using assms by (simp add: add_email_event_def)
next
  case (Some t)
  then have t: "ti_application_id t = app" by (auto simp: build_email_timeline_event_def split: option.splits)
  obtain r1 d1 where c: "create_timeline_event now fresh t (Some (ky_user ctx)) d = (r1, d1)" by fastforce
  then have "d' = d1" using assms Some by (cases r1) (simp_all add: add_email_event_def)
  with create_event_touches [OF c] t show ?thesis by simp
qed

lemma record_touches:
  assumes "record_status_change now hid tid x d = (r, d')"
  shows "touches (sc_application_id x) d d'"
proof (cases r)
  case (Inl e)
  then show ?thesis using assms by (auto simp: record_status_change_def Let_def split: option.splits if_splits)
next
  case (Inr v)
  have others: "find_many (\<lambda>e. te_application_id e \<noteq> sc_application_id x) (db_timeline d') = find_many (\<lambda>e. te_application_id e \<noteq> sc_application_id x) (db_timeline d)"
    using assms by (auto simp: record_status_change_def Let_def find_many_def build_status_timeline_event_def timeline_row_def
        split: option.splits if_splits)
  from assms Inr have eq: "record_status_change now hid tid x d = (Inr v, d')" by simp
  show ?thesis
  proof (rule record_effect [OF eq])
    fix a n nx
    let ?f = "\<lambda>y. y\<lparr>ja_status := show_status nx, ja_current_stage := Some (map_status_to_stage (show_status nx)), ja_updated_at := now\<rparr>"
    assume h: "db_history d' = db_history d @ [new_history_row now hid x n (previous_status a (ordered_history (sc_application_id x) (db_history d)))]"
      and a: "(db_applications d' = update_many (\<lambda>y. ja_id y = sc_application_id x) ?f (db_applications d) \<and> sr_status v = show_status nx) \<or>
        (db_applications d' = db_applications d \<and> sr_status v = ja_status a
          \<and> option_or (normalize_application_status (ja_status a)) nx = nx \<and> sc_source x = EMAIL)"
    have "find_many (\<lambda>a. ja_id a \<noteq> sc_application_id x) (db_applications d') = find_many (\<lambda>a. ja_id a \<noteq> sc_application_id x) (db_applications d)
        \<and> (statuses_ok d \<longrightarrow> statuses_ok d')"
      using a find_many_update [of "\<lambda>y. ja_id y = sc_application_id x" ?f] by (auto simp: statuses_ok_def set_update_many)
    then show ?thesis using others h by (simp add: touches_def find_many_def)
  qed
qed

lemma email_status_touches:
  "apply_email_status now hid tid app cl m t s u d = (r, d') \<Longrightarrow> touches app d d'"
  using record_touches [of now hid tid "email_change_input now app cl m t s u _" d]
  by (auto simp: apply_email_status_def email_change_input_def split: option.splits)

lemma sync_touches:
  assumes "sync_recruiter_from_email now f fc fa x k = (r, k')"
  shows "touches (ks_application_id x) (kb_apps k) (kb_apps k')"
proof -
  let ?f = "\<lambda>q a. a\<lparr>ja_recruiter_id := Some (rr_id q), ja_recruiter_name := Some (rr_name q), ja_recruiter_email := Some (rr_email q), ja_updated_at := now\<rparr>"
  have t: "touches (ks_application_id x) (kb_apps k)
      ((kb_apps k)\<lparr>db_applications := update_many (\<lambda>a. ja_id a = ks_application_id x) (?f q) (db_applications (kb_apps k))\<rparr>)" for q :: recruiter
    by (rule touches_update) (auto simp: statuses_ok_def)
  have "kb_apps k' = kb_apps k \<or> (\<exists>q :: recruiter. kb_apps k' =
      (kb_apps k)\<lparr>db_applications := update_many (\<lambda>a. ja_id a = ks_application_id x) (?f q) (db_applications (kb_apps k))\<rparr>)"
    using assms by (auto simp: sync_recruiter_from_email_def link_recruiter_def andthen_def Let_def split: sum.splits prod.splits if_splits)
  then show ?thesis using t by auto
qed

subsection \<open>The transaction\<close>

lemma andthen_InrE:
  assumes "andthen r f = (Inr b, s')"
  obtains a s where "r = (Inr a, s)" "f a s = (Inr b, s')"
  using assms by (cases r; cases "fst r") (auto simp: andthen_def)

lemma on_apps_frame:
  assumes "on_apps f db = (r, db')" and "\<And>r d'. f (kd_apps db) = (r, d') \<Longrightarrow> touches i (kd_apps db) d'"
  shows "touches i (kd_apps db) (kd_apps db') \<and> kd_sources db' = kd_sources db \<and> kd_claims db' = kd_claims db"
  using assms by (auto simp: on_apps_def split: prod.splits)

lemma on_contacts_frame:
  assumes "on_contacts (sync_recruiter_from_email now f fc fa x) db = (r, db')"
  shows "touches (ks_application_id x) (kd_apps db) (kd_apps db') \<and> kd_sources db' = kd_sources db \<and> kd_claims db' = kd_claims db"
proof -
  let ?k = "\<lparr>kb_apps = kd_apps db, kb_companies = pd_companies (kd_opportunities db), kb_recruiters = kd_recruiters db, kb_emails = kd_emails db\<rparr>"
  obtain q d where q: "sync_recruiter_from_email now f fc fa x ?k = (q, d)" by fastforce
  from sync_touches [OF q] show ?thesis using assms q by (auto simp: on_contacts_def)
qed

text \<open>A transaction that commits has written one source, for an application that had none.\<close>

lemma process_tx_Inr:
  assumes "process_tx now ids ctx db = (Inr (n, i), db')"
  shows "i \<notin> ax_application_id ` set (kd_sources db) \<and> touches i (kd_apps db) (kd_apps db') \<and> kd_claims db' = kd_claims db
    \<and> (\<exists>s. kd_sources db' = kd_sources db @ [s] \<and> ax_application_id s = i \<and> ax_provider s = ''GMAIL''
         \<and> ax_source_email_id s = Some (em_email_id (ky_email ctx)))"
proof -
  obtain a apps where w: "write_application now (kx_application ids) ctx (kd_apps db) = ((n, a), apps)" and a: "ja_id a = i"
    and tx: "andthen (add_source (kx_source ids) ctx (ja_id a) (db\<lparr>kd_apps := apps\<rparr>)) (\<lambda>_ db1.
          andthen (on_apps (add_email_event now (kx_event ids) ctx (ja_id a)) db1) (\<lambda>_ db2.
          andthen (on_apps (apply_email_status now (kx_history ids) (kx_status_event ids) (ja_id a) (ky_classification ctx)
              (em_email_id (ky_email ctx)) (em_received_at (ky_email ctx)) (Some (em_subject (ky_email ctx))) (Some (ky_user ctx))) db2) (\<lambda>_ db3.
          andthen (on_contacts (sync_recruiter_from_email now (kx_recruiter ids) (kx_sync_company ids) (kx_sync_alias ids) (sync_input ctx a)) db3) (\<lambda>_ db4.
          andthen (link_active_resume now ctx a db4) (\<lambda>_ db5.
          (Inr (n, ja_id a), db5)))))) = (Inr (n, i), db')"
    using assms by (auto simp: process_tx_def split: prod.splits elim!: andthen_InrE)
  from tx obtain db1 where s: "add_source (kx_source ids) ctx (ja_id a) (db\<lparr>kd_apps := apps\<rparr>) = (Inr (), db1)"
    and tx1: "andthen (on_apps (add_email_event now (kx_event ids) ctx (ja_id a)) db1) (\<lambda>_ db2.
          andthen (on_apps (apply_email_status now (kx_history ids) (kx_status_event ids) (ja_id a) (ky_classification ctx)
              (em_email_id (ky_email ctx)) (em_received_at (ky_email ctx)) (Some (em_subject (ky_email ctx))) (Some (ky_user ctx))) db2) (\<lambda>_ db3.
          andthen (on_contacts (sync_recruiter_from_email now (kx_recruiter ids) (kx_sync_company ids) (kx_sync_alias ids) (sync_input ctx a)) db3) (\<lambda>_ db4.
          andthen (link_active_resume now ctx a db4) (\<lambda>_ db5.
          (Inr (n, ja_id a), db5))))) = (Inr (n, i), db')"
    by (auto elim!: andthen_InrE)
  from tx1 obtain r2 db2 r3 db3 r4 db4 r5 where st:
    "on_apps (add_email_event now (kx_event ids) ctx (ja_id a)) db1 = (Inr r2, db2)"
    "on_apps (apply_email_status now (kx_history ids) (kx_status_event ids) (ja_id a) (ky_classification ctx)
        (em_email_id (ky_email ctx)) (em_received_at (ky_email ctx)) (Some (em_subject (ky_email ctx))) (Some (ky_user ctx))) db2 = (Inr r3, db3)"
    "on_contacts (sync_recruiter_from_email now (kx_recruiter ids) (kx_sync_company ids) (kx_sync_alias ids) (sync_input ctx a)) db3 = (Inr r4, db4)"
    "link_active_resume now ctx a db4 = (Inr r5, db')"
    by (elim andthen_InrE) auto
  have src: "i \<notin> ax_application_id ` set (kd_sources db)" "kd_apps db1 = apps" "kd_claims db1 = kd_claims db"
    "\<exists>q. kd_sources db1 = kd_sources db @ [q] \<and> ax_application_id q = i \<and> ax_provider q = ''GMAIL'' \<and> ax_source_email_id q = Some (em_email_id (ky_email ctx))"
    using s a by (auto simp: add_source_def find_row_None_iff split: if_splits)
  have t1: "touches i (kd_apps db) apps" using write_touches [OF w] a by simp
  have t2: "touches i (kd_apps db1) (kd_apps db2) \<and> kd_sources db2 = kd_sources db1 \<and> kd_claims db2 = kd_claims db1"
    using on_apps_frame [OF st(1)] email_event_touches a by blast
  have t3: "touches i (kd_apps db2) (kd_apps db3) \<and> kd_sources db3 = kd_sources db2 \<and> kd_claims db3 = kd_claims db2"
    using on_apps_frame [OF st(2)] email_status_touches a by blast
  have t4: "touches i (kd_apps db3) (kd_apps db4) \<and> kd_sources db4 = kd_sources db3 \<and> kd_claims db4 = kd_claims db3"
    using on_contacts_frame [OF st(3)] a by (simp add: sync_input_def)
  have t5: "kd_apps db' = kd_apps db4 \<and> kd_sources db' = kd_sources db4 \<and> kd_claims db' = kd_claims db4"
    using st(4) by (auto simp: link_active_resume_def split: option.splits prod.splits)
  show ?thesis using src t1 t2 t3 t4 t5 touches_trans by (metis (no_types, lifting))
qed

text \<open>Up to three conflicts are waited out; after a fourth the tables are as before.\<close>

lemma retried_transaction_result:
  "retried_transaction n f s = (if n \<le> 3 then transaction f s else (Inl (PrismaError ''P2034''), s))"
proof -
  have run: "transient_loop default_transaction_retry (\<lambda>_. 0) (conflicting f) k (0, s) = (ds, r, (m, s1)) \<Longrightarrow> (r, s1) = transaction f s" for k ds r m s1
  proof (induction "3 - k" arbitrary: k ds)
    case 0
    then show ?case
      by (subst (asm) transient_loop.simps) (auto simp: conflicting_def default_transaction_retry_def split: prod.splits sum.splits if_splits)
  next
    case (Suc x)
    obtain q t where q: "transaction f s = (q, t)" by fastforce
    show ?case
    proof (cases q)
      case (Inr v)
      then show ?thesis using Suc.prems q by (subst (asm) transient_loop.simps) (simp add: conflicting_def)
    next
      case (Inl e)
      then have t: "t = s" using q by (auto simp: transaction_def split: prod.splits sum.splits)
      show ?thesis
        using Suc.prems Suc.hyps(1) [of "Suc k"] Suc.hyps(2) q Inl t
        by (subst (asm) transient_loop.simps) (auto simp: conflicting_def split: if_splits prod.splits)
    qed
  qed
  have conflict: "transient_loop default_transaction_retry (\<lambda>_. 0) (conflicting f) k (Suc m, s) =
     (if 3 < Suc k then ([], Inl (PrismaError ''P2034''), (m, s))
      else (let (ds, r) = transient_loop default_transaction_retry (\<lambda>_. 0) (conflicting f) (Suc k) (m, s) in (100 * 2 ^ k # ds, r)))" for k m
    by (subst transient_loop.simps) (simp add: conflicting_def is_transient_def default_transaction_retry_def)
  have last: "case snd (transient_loop default_transaction_retry (\<lambda>_. 0) (conflicting f) k (0, s)) of (r, (_, s1)) \<Rightarrow> (r, s1) = transaction f s" for k
    by (cases "transient_loop default_transaction_retry (\<lambda>_. 0) (conflicting f) k (0, s)") (auto dest: run split: prod.splits)
  consider "n = 0" | "n = 1" | "n = 2" | "n = 3" | m where "n = Suc (Suc (Suc (Suc m)))"
    by (metis Suc_1 eval_nat_numeral(3) nat.exhaust One_nat_def)
  then show ?thesis
    using last [of 0] last [of 1] last [of 2] last [of 3]
    by cases (simp_all add: retried_transaction_def execute_with_transient_retry_def conflict numeral_eq_Suc split_def Let_def)
qed

subsection \<open>A run\<close>

lemma action_applications: "vd_applications (record_apply_action now fresh user app t opts evs) = vd_applications evs"
  by (simp add: record_apply_action_def record_action_def Let_def)

lemma sent_touches:
  "touches app d (d\<lparr>db_applications := vd_applications (record_application_sent now fresh app user t src evd (evs\<lparr>vd_applications := db_applications d\<rparr>))\<rparr>)"
proof -
  let ?x = "\<lparr>oi_application_id = app, oi_user_id = user, oi_outcome_type = ''APPLICATION_SENT'',
    oi_source_type = (if truthy src \<noteq> None then ''EMAIL'' else ''MANUAL''), oi_source_id = src, oi_source_data = None, oi_evidence = evd,
    oi_confidence = Some (if truthy src \<noteq> None then 95 / 100 else 1), oi_occurred_at = t\<rparr>"
  let ?e = "evs\<lparr>vd_applications := db_applications d\<rparr>"
  have set: "set_application_status now app st apps = Inr apps' \<Longrightarrow> is_application_status st
      \<and> apps' = update_many (\<lambda>a. ja_id a = app) (\<lambda>a. a\<lparr>ja_status := st, ja_updated_at := now\<rparr>) apps" for st apps apps'
    by (auto simp: set_application_status_def split: if_splits)
  have "vd_applications (snd (record_outcome now fresh ?x ?e)) = db_applications d
      \<or> (\<exists>st. is_application_status st \<and> vd_applications (snd (record_outcome now fresh ?x ?e))
           = update_many (\<lambda>a. ja_id a = app) (\<lambda>a. a\<lparr>ja_status := st, ja_updated_at := now\<rparr>) (db_applications d))"
    unfolding record_outcome_def transaction_def record_outcome_tx_def Let_def
    by (auto split: prod.splits sum.splits if_splits dest: set)
  then show ?thesis
  proof
    assume "vd_applications (snd (record_outcome now fresh ?x ?e)) = db_applications d"
    then show ?thesis by (simp add: record_application_sent_def Let_def)
  next
    assume "\<exists>st. is_application_status st \<and> vd_applications (snd (record_outcome now fresh ?x ?e))
           = update_many (\<lambda>a. ja_id a = app) (\<lambda>a. a\<lparr>ja_status := st, ja_updated_at := now\<rparr>) (db_applications d)"
    then obtain st where st: "is_application_status st" "vd_applications (snd (record_outcome now fresh ?x ?e))
           = update_many (\<lambda>a. ja_id a = app) (\<lambda>a. a\<lparr>ja_status := st, ja_updated_at := now\<rparr>) (db_applications d)" by blast
    have "touches app d (d\<lparr>db_applications := update_many (\<lambda>a. ja_id a = app) (\<lambda>a. a\<lparr>ja_status := st, ja_updated_at := now\<rparr>) (db_applications d)\<rparr>)"
      by (rule touches_update) (use st(1) in auto)
    with st(2) show ?thesis by (simp add: record_application_sent_def Let_def)
  qed
qed

lemma on_events_apps:
  "kd_apps (on_events f db) = (kd_apps db)\<lparr>db_applications := vd_applications (f ((rs_events (kd_resumes db))\<lparr>vd_applications := db_applications (kd_apps db)\<rparr>))\<rparr>"
  "kd_sources (on_events f db) = kd_sources db" "kd_claims (on_events f db) = kd_claims db"
  by (simp_all add: on_events_def Let_def)

lemma snapshot_touches:
  "touches app d (d\<lparr>db_applications := update_many (\<lambda>a. ja_id a = app) (\<lambda>a. a\<lparr>ja_snapshot_id := s, ja_updated_at := now\<rparr>) (db_applications d)\<rparr>)"
  by (rule touches_update) (auto simp: statuses_ok_def)

lemma integrate_frame:
  assumes "integrate_new now fails ids ctx app db = (r, db')"
  shows "touches app (kd_apps db) (kd_apps db') \<and> kd_sources db' = kd_sources db \<and> kd_claims db' = kd_claims db"
proof -
  obtain sn intel where sn: "create_application_snapshot now fails (kx_snapshot ids) (kx_facts ids) (ky_user ctx) app (xd_company_name (ky_data ctx))
      (xd_role_title (ky_data ctx)) (kd_intel db) = (sn, intel)" by fastforce
  define db1 where "db1 = db\<lparr>kd_intel := intel\<rparr>"
  define db2 where "db2 = (case sn of None \<Rightarrow> db1
    | Some s \<Rightarrow> db1\<lparr>kd_apps := (kd_apps db1)\<lparr>db_applications := update_many (\<lambda>a. ja_id a = app)
        (\<lambda>a. a\<lparr>ja_snapshot_id := Some s, ja_updated_at := now\<rparr>) (db_applications (kd_apps db1))\<rparr>\<rparr>)"
  define db3 where "db3 = on_events (record_application_sent now (kx_outcome ids) app (ky_user ctx) (xd_applied_date (ky_data ctx))
    (Some (xd_source_email_id (ky_data ctx))) (Some (em_subject (ky_email ctx)))) db2"
  have t2: "touches app (kd_apps db) (kd_apps db2) \<and> kd_sources db2 = kd_sources db \<and> kd_claims db2 = kd_claims db"
    by (cases sn) (simp_all add: db2_def db1_def snapshot_touches)
  have t3: "touches app (kd_apps db2) (kd_apps db3) \<and> kd_sources db3 = kd_sources db2 \<and> kd_claims db3 = kd_claims db2"
    unfolding db3_def by (simp add: on_events_apps sent_touches)
  have "kd_apps (on_events (record_apply_action now f u app t opts) db3) = kd_apps db3" for f u t opts
    by (simp add: on_events_apps action_applications)
  then have "kd_apps db' = kd_apps db1 \<and> kd_sources db' = kd_sources db1 \<and> kd_claims db' = kd_claims db1
      \<or> kd_apps db' = kd_apps db3 \<and> kd_sources db' = kd_sources db3 \<and> kd_claims db' = kd_claims db3"
    using assms unfolding integrate_new_def Let_def sn split_conv db1_def [symmetric] db2_def [symmetric] db3_def [symmetric]
    by (auto simp: on_events_apps(2,3) split: if_splits)
  moreover have "touches app (kd_apps db) (kd_apps db1) \<and> kd_sources db1 = kd_sources db \<and> kd_claims db1 = kd_claims db"
    by (simp add: db1_def)
  ultimately show ?thesis using t2 t3 touches_trans by metis
qed

lemma resolve_frame:
  assumes "resolve_context W L now ids email cl user (db, m) = (r, (db', m'))"
  shows "kd_apps db' = kd_apps db \<and> kd_sources db' = kd_sources db \<and> kd_claims db' = kd_claims db
    \<and> (\<forall>ctx. r = Inr ctx \<longrightarrow> ky_email ctx = email)"
  using assms by (auto simp: resolve_context_def Let_def split: prod.splits sum.splits)

lemma on_claims_frame:
  "on_claims f db = (r, db') \<Longrightarrow> kd_apps db' = kd_apps db \<and> kd_sources db' = kd_sources db \<and> f (kd_claims db) = (r, kd_claims db')"
  by (auto simp: on_claims_def split: prod.splits)

text \<open>One application, which had no source, or nothing.\<close>

definition attached :: "classifiable_email \<Rightarrow> command_db \<Rightarrow> command_db \<Rightarrow> bool" where
  "attached email db db' \<longleftrightarrow> kd_apps db' = kd_apps db \<and> kd_sources db' = kd_sources db
     \<or> (\<exists>s. kd_sources db' = kd_sources db @ [s] \<and> ax_source_email_id s = Some (em_email_id email) \<and> ax_provider s = ''GMAIL''
         \<and> ax_application_id s \<notin> ax_application_id ` set (kd_sources db) \<and> touches (ax_application_id s) (kd_apps db) (kd_apps db'))"

lemma claimed_attached:
  assumes "process_claimed W L now ids rid email cl user (db, m) = (r, (db', m'))"
  shows "attached email db db'"
proof (cases "find_row (\<lambda>s. ax_source_email_id s = Some (em_email_id email) \<and> ax_provider s = ''GMAIL'') (kd_sources db)")
  case (Some s)
  obtain q d where q: "on_claims (commit rid (ax_application_id s)
      (Some (JObj [(''applicationId'', JStr (ax_application_id s)), (''source'', JStr ''existing_source_row'')]))) db = (q, d)" by fastforce
  with on_claims_frame [OF q] show ?thesis using assms Some
    by (cases q) (auto simp: process_claimed_def attached_def)
next
  case None
  obtain q1 d1 m1 where c: "resolve_context W L now ids email cl user (db, m) = (q1, (d1, m1))" by (metis surj_pair)
  note f1 = resolve_frame [OF c]
  show ?thesis
  proof (cases q1)
    case (Inl e)
    then show ?thesis using assms None c f1 by (auto simp: process_claimed_def attached_def)
  next
    case (Inr ctx)
    obtain q2 d2 where t: "retried_transaction (kw_conflicts W) (process_tx now ids ctx) d1 = (q2, d2)" by fastforce
    show ?thesis
    proof (cases q2)
      case (Inl e)
      then have "d2 = d1" using t by (auto simp: retried_transaction_result transaction_def split: if_splits prod.splits sum.splits)
      then show ?thesis using assms None c f1 t Inr Inl by (auto simp: process_claimed_def attached_def)
    next
      case (Inr v)
      obtain n i where v: "v = (n, i)" by fastforce
      have "process_tx now ids ctx d1 = (Inr (n, i), d2)"
        using t Inr v by (auto simp: retried_transaction_result transaction_def split: if_splits prod.splits sum.splits)
      note p = process_tx_Inr [OF this]
      obtain q3 d3 where cm: "on_claims (commit rid i (Some (claim_data ctx i))) d2 = (q3, d3)" by fastforce
      note f3 = on_claims_frame [OF cm]
      obtain q4 d4 where ig: "integrate_new now (kw_snapshot_fails W) ids ctx i d3 = (q4, d4)" by fastforce
      have "db' = d3 \<or> db' = d4" using assms None c t \<open>q1 = Inr ctx\<close> Inr v cm ig
        by (cases q3) (auto simp: process_claimed_def split: if_splits)
      then have "touches i (kd_apps d2) (kd_apps db') \<and> kd_sources db' = kd_sources d2"
        using f3 integrate_frame [OF ig] by auto
      moreover have "ky_email ctx = email" using f1 \<open>q1 = Inr ctx\<close> by blast
      ultimately show ?thesis using p f1 touches_trans unfolding attached_def by (metis (no_types, lifting))
    qed
  qed
qed

lemma process_attached: "attached email db (fst (snd (process_application_email W L now ids email cl user (db, m))))"
proof -
  have refl: "attached email db db1" if "kd_apps db1 = kd_apps db" "kd_sources db1 = kd_sources db" for db1
    using that by (simp add: attached_def)
  show ?thesis
  proof (cases "acquire_lock L now (kx_lock_token ids) (email_lock_key email) 60 m")
    case (Pair token m1)
    obtain q d where q: "on_claims (claim now (kx_claim ids) (key_for_app_from_email (kw_sha256 W) (em_email_id email)) ''create_application'' None None) db = (q, d)"
      by fastforce
    note f = on_claims_frame [OF q]
    have run: "attached email db d2 \<and> attached email db (d2\<lparr>kd_claims := c\<rparr>)"
      if "process_claimed W L now ids rid email cl user (d, m1) = (v, (d2, m2))" for rid v d2 m2 c
      using claimed_attached [OF that] f by (simp add: attached_def)
    show ?thesis using Pair q f refl
      by (auto simp: process_application_email_def Let_def split: option.split sum.split claim_outcome.split prod.split dest: run)
  qed
qed

text \<open>
  C6: whatever happens to an email, it changes the rows of at most one application, and only one
  that no email had been recorded for: either no application, history, timeline or source changes,
  or one source is added, for an application that had none, and only that application changes.
\<close>

theorem email_attaches_one_application:
  "let db' = fst (snd (process_application_email W L now ids email cl user (db, m)))
   in kd_apps db' = kd_apps db \<and> kd_sources db' = kd_sources db
     \<or> (\<exists>s. kd_sources db' = kd_sources db @ [s] \<and> ax_source_email_id s = Some (em_email_id email)
         \<and> ax_application_id s \<notin> ax_application_id ` set (kd_sources db)
         \<and> find_many (\<lambda>a. ja_id a \<noteq> ax_application_id s) (db_applications (kd_apps db'))
             = find_many (\<lambda>a. ja_id a \<noteq> ax_application_id s) (db_applications (kd_apps db))
         \<and> find_many (\<lambda>e. te_application_id e \<noteq> ax_application_id s) (db_timeline (kd_apps db'))
             = find_many (\<lambda>e. te_application_id e \<noteq> ax_application_id s) (db_timeline (kd_apps db))
         \<and> find_many (\<lambda>h. sh_application_id h \<noteq> ax_application_id s) (db_history (kd_apps db'))
             = find_many (\<lambda>h. sh_application_id h \<noteq> ax_application_id s) (db_history (kd_apps db)))"
  using process_attached [of email db W L now ids cl user m] unfolding attached_def touches_def Let_def by blast

text \<open>So an application that an email has created gets no event and no status from a later email.\<close>

lemma find_many_other:
  assumes "find_many (\<lambda>x. f x \<noteq> j) ys = find_many (\<lambda>x. f x \<noteq> j) xs" and "i \<noteq> j"
  shows "find_many (\<lambda>x. f x = i) ys = find_many (\<lambda>x. f x = i) xs"
proof -
  have sub: "find_many (\<lambda>x. f x = i) zs = find_many (\<lambda>x. f x = i) (find_many (\<lambda>x. f x \<noteq> j) zs)" for zs
    using assms(2) by (induction zs) (auto simp: find_many_def)
  show ?thesis by (subst (1 2) sub) (simp only: assms(1))
qed

lemma sourced_application_frozen:
  assumes "i \<in> ax_application_id ` set (kd_sources db)" and "db' = fst (snd (process_application_email W L now ids email cl user (db, m)))"
  shows "find_many (\<lambda>a. ja_id a = i) (db_applications (kd_apps db')) = find_many (\<lambda>a. ja_id a = i) (db_applications (kd_apps db))
      \<and> find_many (\<lambda>e. te_application_id e = i) (db_timeline (kd_apps db')) = find_many (\<lambda>e. te_application_id e = i) (db_timeline (kd_apps db))"
proof -
  have "attached email db db'" unfolding assms(2) by (rule process_attached)
  then show ?thesis unfolding attached_def
  proof (elim disjE exE conjE)
    fix s assume s: "ax_application_id s \<notin> ax_application_id ` set (kd_sources db)" "touches (ax_application_id s) (kd_apps db) (kd_apps db')"
    with assms(1) have "i \<noteq> ax_application_id s" by metis
    with s(2) show ?thesis unfolding touches_def by (intro conjI) (rule find_many_other; simp)+
  qed simp
qed

text \<open>
  C18: the command tables stay well formed: every status of an application is one of the schema, and
  no application has two sources.
\<close>

theorem command_tables_typed:
  assumes "statuses_ok (kd_apps db)" and "distinct (map ax_application_id (kd_sources db))"
    and "process_application_email W L now ids email cl user (db, m) = (r, (db', m'))"
  shows "statuses_ok (kd_apps db') \<and> distinct (map ax_application_id (kd_sources db'))"
  using process_attached [of email db W L now ids cl user m] assms unfolding attached_def by (auto simp: touches_def)

subsection \<open>Runs on an email that is known\<close>

definition sample_mail :: classifiable_email where
  "sample_mail = \<lparr>em_email_id = ''m1'', em_sender = ''hr@acme.io'', em_subject = ''Engineer'', em_body_text = None, em_body_html = None,
     em_received_at = Some 7, em_thread_id = Some ''t''\<rparr>"

definition sample_class :: job_email_classification where
  "sample_class = \<lparr>cl_email_id = ''m1'', cl_category = INTERVIEW_INVITATION, cl_confidence = 1, cl_detected_company = Some ''Acme'',
     cl_detected_role = Some ''Engineer''\<rparr>"

definition known_email_world :: command_world where
  "known_email_world = \<lparr>kw_sha256 = id, kw_parse_date = (\<lambda>_. None), kw_scope = id, kw_conflicts = 0, kw_snapshot_fails = False\<rparr>"

definition sample_ids :: command_ids where
  "sample_ids = \<lparr>kx_claim = ''k1'', kx_lock_token = ''k2'', kx_company = ''k3'', kx_alias = numbered ''a'',
    kx_opportunity = fresh_numbers ''o'', kx_application = ''k4'', kx_source = ''k5'', kx_event = ''k6'', kx_history = ''k7'', kx_status_event = ''k8'',
    kx_recruiter = ''k9'', kx_sync_company = ''l1'', kx_sync_alias = numbered ''b'', kx_snapshot = ''l2'', kx_facts = [], kx_outcome = ''l3'', kx_action = ''l4''\<rparr>"

definition sample_source :: application_source where
  "sample_source = \<lparr>ax_id = ''s'', ax_application_id = ''p'', ax_provider = ''GMAIL'', ax_source_email_id = Some ''m1'', ax_source_data = JNull\<rparr>"

definition sample_command_db :: command_db where
  "sample_command_db = \<lparr>kd_apps = \<lparr>db_applications = [sample_row], db_history = [], db_timeline = []\<rparr>, kd_sources = [sample_source],
    kd_opportunities = empty_opportunities, kd_recruiters = [], kd_emails = [],
    kd_resumes = \<lparr>rs_hashes = [], rs_resumes = [], rs_links = [], rs_outbox = \<lparr>od_events = [], od_jobs = []\<rparr>,
      rs_events = \<lparr>vd_applications = [], vd_outcomes = [], vd_actions = []\<rparr>\<rparr>,
    kd_intel = empty_intel_db, kd_claims = []\<rparr>"

lemma known_email_run:
  "\<exists>db' m'. process_application_email known_email_world map_locks 9 sample_ids sample_mail sample_class ''u'' (sample_command_db, Map.empty) = (Inr (), (db', m'))
     \<and> kd_sources db' = [sample_source] \<and> map ir_result_id (kd_claims db') = [''p'']"
proof -
  have v: "validate_key (key_for_app_from_email id ''m1'') True = None" by code_simp
  show ?thesis
    by (simp add: process_application_email_def known_email_world_def sample_mail_def sample_command_db_def Let_def check_def final_result_id_def
        acquire_lock_def sample_ids_def map_locks_def map_held_def on_claims_def claim_def v record_of_def process_claimed_def sample_source_def
        commit_def split_def)
qed

theorem command_tables_typed_witness:
  "\<exists>db' m'. process_application_email known_email_world map_locks 9 sample_ids sample_mail sample_class ''u'' (sample_command_db, Map.empty) = (Inr (), (db', m'))
     \<and> statuses_ok (kd_apps db') \<and> distinct (map ax_application_id (kd_sources db'))"
proof -
  have "statuses_ok (kd_apps sample_command_db)" "distinct (map ax_application_id (kd_sources sample_command_db))"
    using shown_status [of APPLIED, unfolded show_status.simps] by (simp_all add: statuses_ok_def sample_command_db_def sample_row_def)
  with known_email_run command_tables_typed show ?thesis by metis
qed
subsection \<open>Follow-up emails\<close>

text \<open>
  C7: an email that is merged into an application that an email created never gets in: the
  transaction fails on the unique source of the application and leaves the tables as they were.
\<close>

theorem follow_up_email_fails:
  assumes "md_target (ky_merge ctx) = Some t" and "find_row (\<lambda>a. ja_id a = ja_id t) (db_applications (kd_apps db)) = Some a"
    and "s \<in> set (kd_sources db)" and "ax_application_id s = ja_id t"
  shows "retried_transaction conflicts (process_tx now ids ctx) db = (Inl (PrismaError (if conflicts \<le> 3 then ''P2002'' else ''P2034'')), db)"
proof -
  have "ja_id a = ja_id t" using find_row_SomeD [OF assms(2)] by simp
  then have i: "ja_id (merged_application now ctx a) = ja_id t" by (simp add: merged_application_def Let_def)
  have "find_row (\<lambda>s. ax_application_id s = ja_id t) (kd_sources db) \<noteq> None" using assms(3,4) by (auto simp: find_row_None_iff)
  then have "fst (process_tx now ids ctx db) = Inl (PrismaError ''P2002'')"
    by (auto simp: process_tx_def write_application_def assms(1,2) add_source_def i)
  then show ?thesis by (simp add: retried_transaction_result)
qed

theorem follow_up_email_fails_witness:
  "\<exists>ctx. retried_transaction 0 (process_tx 9 sample_ids ctx) sample_command_db = (Inl (PrismaError ''P2002''), sample_command_db)"
proof -
  let ?x = "\<lparr>xd_id = [], xd_user_id = ''u'', xd_company_name = ''Acme'', xd_company_domain = ''acme.io'', xd_role_title = ''Engineer'',
    xd_department = [], xd_status = INTERVIEW, xd_applied_date = 7, xd_recruiter_name = [], xd_recruiter_email = [], xd_source_email_id = ''m2'',
    xd_location = [], xd_employment_type = [], xd_current_stage = [], xd_interview_rounds = 1, xd_deadlines = []\<rparr> :: extracted_data"
  let ?c = "\<lparr>ky_email = sample_mail, ky_classification = sample_class, ky_user = ''u'', ky_scope_user = ''u'', ky_data = ?x,
    ky_company = new_company ''c1'' ''Acme'' (plain_input ''Acme'' ''acme.io''), ky_opportunity = ''o'',
    ky_merge = \<lparr>md_target = Some sample_row, md_confidence_score = 100, md_reasons = []\<rparr>, ky_resume = None\<rparr> :: command_context"
  have "md_target (ky_merge ?c) = Some sample_row" by simp
  moreover have "find_row (\<lambda>a. ja_id a = ja_id sample_row) (db_applications (kd_apps sample_command_db)) = Some sample_row"
    "sample_source \<in> set (kd_sources sample_command_db)" "ax_application_id sample_source = ja_id sample_row"
    by (simp_all add: sample_command_db_def sample_source_def sample_row_def)
  ultimately have "retried_transaction 0 (process_tx 9 sample_ids ?c) sample_command_db =
      (Inl (PrismaError (if (0 :: nat) \<le> 3 then ''P2002'' else ''P2034'')), sample_command_db)"
    by (rule follow_up_email_fails)
  then show ?thesis by (intro exI [of _ ?c]) simp
qed

subsection \<open>One run for each email\<close>

lemma claimed_commits:
  assumes "process_claimed W L now ids rid email cl user (db, m) = ((Inr (), c), (db', m'))"
  shows "c \<and> (\<exists>s\<in>set (kd_sources db'). \<exists>data. commit rid (ax_application_id s) data (kd_claims db) = (Inr (), kd_claims db'))"
proof (cases "find_row (\<lambda>s. ax_source_email_id s = Some (em_email_id email) \<and> ax_provider s = ''GMAIL'') (kd_sources db)")
  case (Some s)
  obtain q d where q: "on_claims (commit rid (ax_application_id s)
      (Some (JObj [(''applicationId'', JStr (ax_application_id s)), (''source'', JStr ''existing_source_row'')]))) db = (q, d)" by fastforce
  with on_claims_frame [OF q] assms Some find_row_SomeD [OF Some] show ?thesis
    by (cases q) (auto simp: process_claimed_def)
next
  case None
  obtain q1 d1 m1 where c: "resolve_context W L now ids email cl user (db, m) = (q1, (d1, m1))" by (metis surj_pair)
  note f1 = resolve_frame [OF c]
  obtain ctx where q1: "q1 = Inr ctx" using assms None c by (cases q1) (auto simp: process_claimed_def)
  obtain q2 d2 where t: "retried_transaction (kw_conflicts W) (process_tx now ids ctx) d1 = (q2, d2)" by fastforce
  obtain n i where q2: "q2 = Inr (n, i)" using assms None c q1 t by (cases q2) (auto simp: process_claimed_def)
  have "process_tx now ids ctx d1 = (Inr (n, i), d2)"
    using t q2 by (auto simp: retried_transaction_result transaction_def split: if_splits prod.splits sum.splits)
  note p = process_tx_Inr [OF this]
  have s: "\<exists>s\<in>set (kd_sources d2). ax_application_id s = i" using p by auto
  obtain q3 d3 where cm: "on_claims (commit rid i (Some (claim_data ctx i))) d2 = (q3, d3)" by fastforce
  obtain q4 d4 where ig: "integrate_new now (kw_snapshot_fails W) ids ctx i d3 = (q4, d4)" by fastforce
  have "c \<and> q3 = Inr () \<and> (db' = d3 \<or> db' = d4)" using assms None c t q1 q2 cm ig
    by (cases q3) (auto simp: process_claimed_def split: if_splits)
  moreover have "commit rid i (Some (claim_data ctx i)) (kd_claims db) = (q3, kd_claims d3)" "kd_sources d3 = kd_sources d2"
    using on_claims_frame [OF cm] p f1 by simp_all
  moreover have "kd_claims d4 = kd_claims d3" "kd_sources d4 = kd_sources d3" using integrate_frame [OF ig] by simp_all
  ultimately show ?thesis using s by metis
qed

lemma run_commits:
  assumes "process_application_email W L now ids email cl user (db, m) = (Inr (), (db', m'))" and "kd_claims db' \<noteq> kd_claims db"
  obtains rid rows s data where
    "claim now (kx_claim ids) (key_for_app_from_email (kw_sha256 W) (em_email_id email)) ''create_application'' None None (kd_claims db) = (Inr (Claimed rid), rows)"
    "s \<in> set (kd_sources db')" "commit rid (ax_application_id s) data rows = (Inr (), kd_claims db')"
proof -
  let ?key = "key_for_app_from_email (kw_sha256 W) (em_email_id email)"
  have fresh: "\<not> already_executed (check ?key (kd_claims db))"
    using assms by (auto simp: process_application_email_def Let_def)
  obtain token m1 where t: "acquire_lock L now (kx_lock_token ids) (email_lock_key email) 60 m = (Some token, m1)"
    using assms fresh by (cases "acquire_lock L now (kx_lock_token ids) (email_lock_key email) 60 m") (auto simp: process_application_email_def split: option.splits)
  obtain q d where q: "on_claims (claim now (kx_claim ids) ?key ''create_application'' None None) db = (q, d)" by fastforce
  have same: "fst (claim now f k t a b rows) = Inr (Unclaimed u v) \<Longrightarrow> snd (claim now f k t a b rows) = rows" for f k t a b rows u v
    by (auto simp: claim_def split: option.splits if_splits)
  obtain rid where rid: "q = Inr (Claimed rid)"
  proof (cases q)
    case (Inl e)
    then show ?thesis using assms(1) fresh t q by (simp add: process_application_email_def)
  next
    case (Inr co)
    then show ?thesis
    proof (cases co)
      case (Unclaimed u v)
      then have "kd_claims d = kd_claims db" using on_claims_frame [OF q] Inr same [of "kx_claim ids" ?key "''create_application''" None None "kd_claims db" u v] by simp
      then show ?thesis using assms fresh t q Inr Unclaimed by (simp add: process_application_email_def)
    qed (use Inr that in blast)
  qed
  obtain r c d2 m2 where p: "process_claimed W L now ids rid email cl user (d, m1) = ((r, c), (d2, m2))" by (metis surj_pair)
  have r: "r = Inr ()" "db' = (if c then d2 else d2\<lparr>kd_claims := abort rid (kd_claims d2)\<rparr>)"
    using assms(1) fresh t q rid p by (auto simp: process_application_email_def)
  with claimed_commits [of W L now ids rid email cl user d m1 c d2 m2] p obtain s data where
    "c" "s \<in> set (kd_sources d2)" "commit rid (ax_application_id s) data (kd_claims d) = (Inr (), kd_claims d2)" by auto
  with r(2) on_claims_frame [OF q] rid show thesis by (intro that [of rid "kd_claims d" s data]) auto
qed

text \<open>
  C8: an email is worked once: after a run that has taken its claim and returned, another run for a
  message of this id, by any user and with any classification, returns and changes nothing.
\<close>

theorem email_processed_once:
  assumes "process_application_email W L now ids email cl user (db, m) = (Inr (), (db', m'))" and "kd_claims db' \<noteq> kd_claims db"
    and "\<forall>s\<in>set (kd_sources db'). ax_application_id s \<noteq> [] \<and> ax_application_id s \<noteq> IN_PROGRESS"
    and "em_email_id email' = em_email_id email" and "kw_sha256 W' = kw_sha256 W"
  shows "process_application_email W' L' now' ids' email' cl' user' (db', n) = (Inr (), (db', n))"
proof -
  let ?key = "key_for_app_from_email (kw_sha256 W) (em_email_id email)"
  obtain rid rows s data where c: "claim now (kx_claim ids) ?key ''create_application'' None None (kd_claims db) = (Inr (Claimed rid), rows)"
    and s: "s \<in> set (kd_sources db')" and cm: "commit rid (ax_application_id s) data rows = (Inr (), kd_claims db')"
    using run_commits [OF assms(1,2)] by metis
  obtain row where row: "rows = kd_claims db @ [row]" "ir_key row = ?key" "ir_id row = rid" "record_of ?key (kd_claims db) = None"
    using c by (auto simp: claim_def split: option.splits if_splits)
  have "kd_claims db' = update_many (\<lambda>r. ir_id r = rid) (\<lambda>r. r\<lparr>ir_result_id := ax_application_id s, ir_result_data := data\<rparr>) rows"
    using cm by (auto simp: commit_def split: if_splits)
  then have "record_of ?key (kd_claims db') = Some (row\<lparr>ir_result_id := ax_application_id s, ir_result_data := data\<rparr>)"
    using row by (simp add: record_of_def find_row_append find_row_update_many_same)
  then have "already_executed (check ?key (kd_claims db'))"
    using assms(3) s by (simp add: check_def final_result_id_def)
  then show ?thesis by (simp add: process_application_email_def assms(4,5))
qed

theorem email_processed_once_witness:
  "\<exists>db' m'. process_application_email known_email_world map_locks 9 sample_ids sample_mail sample_class ''u'' (sample_command_db, Map.empty) = (Inr (), (db', m'))
     \<and> process_application_email known_email_world map_locks 10 sample_ids sample_mail sample_class ''v'' (db', Map.empty) = (Inr (), (db', Map.empty))"
proof -
  obtain db' m' where r: "process_application_email known_email_world map_locks 9 sample_ids sample_mail sample_class ''u'' (sample_command_db, Map.empty) = (Inr (), (db', m'))"
    "kd_sources db' = [sample_source]" "map ir_result_id (kd_claims db') = [''p'']" using known_email_run by (elim exE conjE) metis
  have "kd_claims db' \<noteq> kd_claims sample_command_db" using r(3) by (auto simp: sample_command_db_def)
  moreover have "\<forall>s\<in>set (kd_sources db'). ax_application_id s \<noteq> [] \<and> ax_application_id s \<noteq> IN_PROGRESS"
    by (simp add: r(2) sample_source_def IN_PROGRESS_def)
  ultimately have "process_application_email known_email_world map_locks 10 sample_ids sample_mail sample_class ''v'' (db', Map.empty) = (Inr (), (db', Map.empty))"
    by (rule email_processed_once [OF r(1) _ _ refl refl])
  with r(1) show ?thesis by (intro exI [of _ db'] exI [of _ m'] conjI)
qed

subsection \<open>What stays behind\<close>

text \<open>A run whose claim is refused returns without giving the lock back.\<close>

lemma refused_claim_keeps_lock:
  assumes "\<not> already_executed (check key (kd_claims db))" and "acquire_lock L now (kx_lock_token ids) (email_lock_key email) 60 m = (Some token, m1)"
    and "key = key_for_app_from_email (kw_sha256 W) (em_email_id email)"
    and "claim now (kx_claim ids) key ''create_application'' None None (kd_claims db) = (Inr (Unclaimed u v), rows)"
  shows "snd (snd (process_application_email W L now ids email cl user (db, m))) = m1"
  using assms by (simp add: process_application_email_def on_claims_def)

text \<open>A change to SAVED is committed and then reported as an error: there is no event for it.\<close>

lemma saved_status_throws_after_commit:
  assumes "ensure_application_access user app d = Inr v" and "override_tx now hid tid app ''SAVED'' user user d = (Inr (a, None), d')"
  shows "update_application_status 0 now hid tid user app ''SAVED'' None d
    = (Inl (DomainValidationError (''Unsupported timeline event for application '' @ app)), d')"
  using assms by (simp add: update_application_status_def retried_transaction_result transaction_def)

lemma saved_has_no_event: "build_status_timeline_event now app (show_status SAVED) t md = None"
  using event_type_None_iff [of SAVED] by (simp add: build_status_timeline_event_def)

end
