(* ===== verification/Spec2Isabelle.thy ===== *)
theory Spec2Isabelle
  imports Status_Engine Gmail_Checkpoint Gmail_Coordinator Outbox Ownership Snapshots Gmail_Client Placement Deletion Reencryption Ingestion_Exact Auth_Tokens Net_Guard Command_Safety
begin

text \<open>
  Career Terminal reads the Gmail accounts of its users, recognises the emails about job
  applications, and keeps for each user a record of applications, companies, opportunities,
  recruiters and facts, with their history. This development models the TypeScript backend
  under \<open>src/src\<close> and the Prisma schema under \<open>src/prisma\<close>; each other theory opens with what it
  holds. A theory is one component, in the order of the code: records for the rows and messages,
  one definition for each operation, then lemmas, then the properties (the numbered texts).

  How the code is read. A table is the list of its rows in insertion order; a query without an
  order gives the first. A transaction is a function on the tables, left unchanged when it throws
  (\<open>Prelude.transaction\<close>); an operation that throws is \<open>Inl\<close> with the state that it leaves
  (\<open>Prelude.outcome\<close>). The clock, fresh ids, random numbers and the answers of Google, Redis, AWS
  KMS, BullMQ and the cryptographic library are arguments; what is relied on of them is a named
  hypothesis that an instance satisfies. Times are milliseconds, text is a list of bytes, and
  numbers are unbounded unless their width matters (the words of \<open>Encryption\<close>, \<open>Net_Guard\<close>,
  \<open>Placement\<close> and \<open>Opportunities\<close>).

  The parts.

    \<^item> Shared: \<open>Prelude\<close> (text, tables, errors), \<open>Text_Words\<close>, \<open>Pagination\<close> (\<open>domain/pagination.ts\<close>),
      \<open>Http_Errors\<close> (the error middleware), \<open>Retry\<close> (\<open>utils/retry.ts\<close>, \<open>db/transaction-utils.ts\<close>),
      \<open>Circuit_Breaker\<close>, \<open>Cache_Store\<close>, \<open>Mutex\<close> and \<open>Net_Guard\<close> (\<open>lib\<close>).

    \<^item> Applications: \<open>Application_Status\<close>, \<open>Applications\<close> and \<open>Status_Engine\<close> (the status of an
      application is the replay of its history), \<open>Companies\<close> and \<open>Opportunities\<close> (resolution of a
      company and of an opportunity to one row), \<open>Regex\<close> and \<open>Job_Extractor\<close> (what an email says of an
      application), \<open>Application_Merge\<close> (which application it belongs to), \<open>Application_Timeline\<close> (events and
      queries), \<open>Recruiters\<close>, \<open>Outcomes\<close> (outcomes and user actions) and \<open>Resumes\<close> (versions of a resume).
      \<open>Application_Command\<close> puts their tables and operations together, in the order of
      \<open>services/application-command\<close>; \<open>Command_Safety\<close> shows what one email can change.

    \<^item> Gmail: \<open>Oauth_State\<close>, \<open>Gmail_OAuth\<close>, \<open>Encryption\<close> and \<open>Kms\<close> (connecting an account and keeping
      its tokens), \<open>Gmail_Client\<close>, \<open>Gmail_Parts\<close>, \<open>Gmail_Ingestion\<close> and \<open>Ingestion_Exact\<close> (fetching and
      storing messages), \<open>Gmail_Checkpoint\<close>, \<open>Checkpoints\<close> and \<open>Gmail_Coordinator\<close> (leases, batches and
      recovery), \<open>Reencryption\<close> (key rotation).

    \<^item> Events and jobs: \<open>Outbox\<close> (the transactional outbox), \<open>Job_Queue\<close>, \<open>Idempotency\<close>.

    \<^item> Knowledge about a user: \<open>Facts\<close>, \<open>Snapshots\<close>, \<open>Extraction_Runs\<close>.

    \<^item> Users and tenancy: \<open>Users\<close>, \<open>Ownership\<close>, \<open>Claim_Guard\<close>, \<open>Placement\<close>, \<open>Auth_Tokens\<close>, \<open>Deletion\<close>.

  Interfaces are locales: a guard on a claim (\<open>Claim_Guard\<close>), an expiring cache, the state store of
  OAuth, a token cipher (two providers, the software keys and KMS), the session store and the
  ownership guards. Each is interpreted on the model of the code that provides it, and the
  properties rest on the interpretations.

  What the lemmas show. Invariants: which rows, ids and keys stay unique, kept by every operation.
  Functional properties: what a whole pipeline computes (a sync stores exactly the messages of the
  history; an erasure deletes exactly the rows of its user). Safety: who can hold a lease, run a
  key, use a token or read a row, whatever steps others take between. Error properties: which
  branch throws, and what the state is then. Some properties record behaviour the code does not
  intend; they are listed as findings.

  Bounds. A loop whose end depends on a server or on the data (history pages, the scan of Redis,
  the links between facts) is a partial function, with a theorem that it returns under the
  condition that ends it. The regular expressions backtrack over the ends of a match, each repetition
  bounded by the length of the rest. The other loops recurse on the attempts left or on the data;
  there is no fuel.

  Not modelled. The language-model pipeline and the scoring engines of
  \<open>services/recruiter-intelligence\<close> (texts and floating-point heuristics without a contract; the
  classification of an email is an argument here), the interview and document services, storage and
  malware scanning, configuration, telemetry, most HTTP routes and the SQL of row-level security. The
  order of two requests inside one transaction is the isolation of Postgres, which is assumed where a
  transaction is one step; where the code reads outside a transaction the steps are separate.
\<close>

end
